(* ===== verification/Dobby_Prelude.thy ===== *)
theory Dobby_Prelude
  imports Main "HOL-Library.Word"
begin

text \<open>
  Shared vocabulary of the development: the Go types the components use, the functions of
  Go's \<^verbatim>\<open>strings\<close>, \<^verbatim>\<open>strconv\<close>, \<^verbatim>\<open>encoding/base64\<close> and \<^verbatim>\<open>net/url\<close> packages that the source
  calls on byte strings, and the generic lemmas on lists and words that the component
  proofs share.

  A Go \<^verbatim>\<open>string\<close> or \<^verbatim>\<open>[]byte\<close> is a list of bytes, here \<^typ>\<open>string\<close> (a HOL character is one byte).
  \<^verbatim>\<open>uint64\<close> counters are 64-bit words, so \<^verbatim>\<open>x++\<close> wraps around as it does in Go; \<^verbatim>\<open>int\<close> values
  that only index or count are \<^typ>\<open>int\<close> or \<^typ>\<open>nat\<close>.
\<close>

type_synonym u64 = "64 word"
type_synonym bytes = string

text \<open>A Go call that may panic (nil dereference, index out of range).\<close>

datatype 'a outcome = Ret 'a | Panic

definition as_int32 :: "nat \<Rightarrow> int" where
  "as_int32 n = sint (of_nat n :: 32 word)"

lemma as_int32_small: "n < 2 ^ 31 \<Longrightarrow> as_int32 n = int n"
  by (simp add: as_int32_def signed_of_nat signed_take_bit_int_eq_self)

named_theorems go_defs \<open>definitions unfolded by the component proofs\<close>

section \<open>Byte strings\<close>

text \<open>
  The encodings of the code points for which \<^verbatim>\<open>unicode.IsSpace\<close> holds. \<^verbatim>\<open>strings.TrimSpace\<close> removes
  any run of them at either end.
\<close>

definition space_seqs :: "nat list list" where
  "space_seqs =
     [[9], [10], [11], [12], [13], [32], [194, 133], [194, 160], [225, 154, 128]]
     @ map (\<lambda>n. [226, 128, n]) [128, 129, 130, 131, 132, 133, 134, 135, 136, 137, 138, 168, 169, 175]
     @ [[226, 129, 159], [227, 128, 128]]"

fun strip_seq :: "nat list \<Rightarrow> string \<Rightarrow> string option" where
  "strip_seq [] s = Some s"
| "strip_seq (n # ns) [] = None"
| "strip_seq (n # ns) (c # s) = (if of_char c = n then strip_seq ns s else None)"

fun first_some :: "('a \<Rightarrow> 'b option) \<Rightarrow> 'a list \<Rightarrow> 'b option" where
  "first_some f [] = None"
| "first_some f (x # xs) = (case f x of Some y \<Rightarrow> Some y | None \<Rightarrow> first_some f xs)"

definition strip_space :: "nat list list \<Rightarrow> string \<Rightarrow> string option" where
  "strip_space seqs s = first_some (\<lambda>q. if q = [] then None else strip_seq q s) seqs"

lemma strip_seq_length: "strip_seq q s = Some t \<Longrightarrow> length s = length q + length t"
  by (induction q s rule: strip_seq.induct) (auto split: if_splits)

lemma first_some_SomeD: "first_some f xs = Some y \<Longrightarrow> \<exists>x\<in>set xs. f x = Some y"
  by (induction xs) (auto split: option.splits)

lemma first_some_None: "first_some f xs = None \<longleftrightarrow> (\<forall>x\<in>set xs. f x = None)"
  by (induction xs) (auto split: option.splits)

lemma strip_space_length: "strip_space seqs s = Some t \<Longrightarrow> length t < length s"
proof -
  assume "strip_space seqs s = Some t"
  then obtain q where q: "q \<noteq> []" "strip_seq q s = Some t"
    by (auto simp: strip_space_def dest!: first_some_SomeD split: if_splits)
  from strip_seq_length[OF q(2)] q(1) show ?thesis by (cases q) auto
qed

function trim_with :: "nat list list \<Rightarrow> string \<Rightarrow> string" where
  "trim_with seqs s = (case strip_space seqs s of None \<Rightarrow> s | Some t \<Rightarrow> trim_with seqs t)"
  by pat_completeness auto
termination
  by (relation "measure (\<lambda>(q, s). length s)") (auto dest: strip_space_length)

declare trim_with.simps [simp del]

definition trim_space :: "string \<Rightarrow> string" where
  "trim_space s = rev (trim_with (map rev space_seqs) (rev (trim_with space_seqs s)))"

lemma trim_with_idem [simp]: "trim_with seqs (trim_with seqs s) = trim_with seqs s"
proof (induction seqs s rule: trim_with.induct)
  case (1 seqs s)
  show ?case
  proof (cases "strip_space seqs s")
    case None
    then show ?thesis by (simp add: trim_with.simps)
  next
    case (Some t)
    have "trim_with seqs s = trim_with seqs t" using Some by (simp add: trim_with.simps[of seqs s])
    then show ?thesis using "1"[OF Some] by simp
  qed
qed

lemma trim_with_length: "length (trim_with seqs s) \<le> length s"
proof (induction seqs s rule: trim_with.induct)
  case (1 seqs s)
  then show ?case
    by (cases "strip_space seqs s")
       (auto simp: trim_with.simps[of seqs s] dest!: strip_space_length)
qed

lemma trim_space_length: "length (trim_space s) \<le> length s"
  using trim_with_length[of "map rev space_seqs" "rev (trim_with space_seqs s)"]
    trim_with_length[of space_seqs s]
  by (simp add: trim_space_def)

lemma trim_space_Nil [simp]: "trim_space [] = []"
  using trim_space_length[of "[]"] by simp

definition has_prefix :: "string \<Rightarrow> string \<Rightarrow> bool" where
  "has_prefix s p \<longleftrightarrow> take (length p) s = p"

definition has_suffix :: "string \<Rightarrow> string \<Rightarrow> bool" where
  "has_suffix s p \<longleftrightarrow> has_prefix (rev s) (rev p)"

definition trim_prefix :: "string \<Rightarrow> string \<Rightarrow> string" where
  "trim_prefix s p = (if has_prefix s p then drop (length p) s else s)"

definition trim_suffix :: "string \<Rightarrow> string \<Rightarrow> string" where
  "trim_suffix s p = (if has_suffix s p then take (length s - length p) s else s)"

definition contains_char :: "string \<Rightarrow> char \<Rightarrow> bool" where
  "contains_char s c \<longleftrightarrow> c \<in> set s"

text \<open>\<^verbatim>\<open>strings.TrimRight(s, cut)\<close> for a one-byte cutset.\<close>

definition trim_right_char :: "string \<Rightarrow> char \<Rightarrow> string" where
  "trim_right_char s c = rev (dropWhile (\<lambda>x. x = c) (rev s))"

text \<open>\<^verbatim>\<open>strings.Split(s, sep)[0]\<close> for a one-byte separator.\<close>

definition before_char :: "string \<Rightarrow> char \<Rightarrow> string" where
  "before_char s c = takeWhile (\<lambda>x. x \<noteq> c) s"

text \<open>\<^verbatim>\<open>strings.Index(s, sep)\<close> for a one-byte separator, \<^const>\<open>None\<close> for -1.\<close>

fun index_char :: "string \<Rightarrow> char \<Rightarrow> nat option" where
  "index_char [] c = None"
| "index_char (x # xs) c = (if x = c then Some 0 else map_option Suc (index_char xs c))"

fun join_strings :: "string \<Rightarrow> string list \<Rightarrow> string" where
  "join_strings sep [] = []"
| "join_strings sep [x] = x"
| "join_strings sep (x # y # xs) = x @ sep @ join_strings sep (y # xs)"

text \<open>
  \<^verbatim>\<open>strings.ToLower\<close> and \<^verbatim>\<open>strings.EqualFold\<close> on ASCII text. Bytes outside ASCII are left alone.
\<close>

definition lower_char :: "char \<Rightarrow> char" where
  "lower_char c = (if 65 \<le> (of_char c :: nat) \<and> (of_char c :: nat) \<le> 90
                   then char_of ((of_char c :: nat) + 32) else c)"

definition to_lower :: "string \<Rightarrow> string" where
  "to_lower s = map lower_char s"

definition equal_fold :: "string \<Rightarrow> string \<Rightarrow> bool" where
  "equal_fold s t \<longleftrightarrow> to_lower s = to_lower t"

lemma lower_char_idem [simp]: "lower_char (lower_char c) = lower_char c"
  by (auto simp: lower_char_def)

lemma to_lower_idem [simp]: "to_lower (to_lower s) = to_lower s"
  by (simp add: to_lower_def)

lemma to_lower_length [simp]: "length (to_lower s) = length s"
  by (simp add: to_lower_def)

section \<open>Decimal numbers\<close>

fun nat_digits :: "nat \<Rightarrow> string" where
  "nat_digits n = (if n < 10 then [char_of (48 + n)]
                   else nat_digits (n div 10) @ [char_of (48 + n mod 10)])"

declare nat_digits.simps [simp del]

definition itoa :: "int \<Rightarrow> string" where
  "itoa i = (if i < 0 then CHR ''-'' # nat_digits (nat (- i)) else nat_digits (nat i))"

definition is_digit :: "char \<Rightarrow> bool" where
  "is_digit c \<longleftrightarrow> 48 \<le> (of_char c :: nat) \<and> (of_char c :: nat) \<le> 57"

definition digits_value :: "string \<Rightarrow> nat" where
  "digits_value s = foldl (\<lambda>n c. 10 * n + (of_char c - 48)) 0 s"

lemma nat_digits_not_Nil [simp]: "nat_digits n \<noteq> []"
  by (subst nat_digits.simps) simp

lemma itoa_not_Nil [simp]: "itoa i \<noteq> []"
  by (simp add: itoa_def)

lemma nat_digits_is_digit: "c \<in> set (nat_digits n) \<Longrightarrow> is_digit c"
proof (induction n rule: nat_digits.induct)
  case (1 n)
  have small: "is_digit (char_of (48 + k))" if "k < 10" for k :: nat
    using that by (simp add: is_digit_def)
  show ?case
  proof (cases "n < 10")
    case True
    with "1.prems" small show ?thesis by (subst (asm) nat_digits.simps) auto
  next
    case False
    with "1.prems" have "c \<in> set (nat_digits (n div 10)) \<or> c = char_of (48 + n mod 10)"
      by (subst (asm) nat_digits.simps) auto
    with "1.IH"[OF False] small[of "n mod 10"] show ?thesis by auto
  qed
qed

lemma digits_value_snoc: "digits_value (s @ [c]) = 10 * digits_value s + (of_char c - 48)"
  by (simp add: digits_value_def)

lemma digits_value_nat_digits: "digits_value (nat_digits n) = n"
proof (induction n rule: nat_digits.induct)
  case (1 n)
  show ?case
  proof (cases "n < 10")
    case True
    then show ?thesis by (subst nat_digits.simps) (simp add: digits_value_def)
  next
    case False
    then have "digits_value (nat_digits n) = 10 * digits_value (nat_digits (n div 10)) + n mod 10"
      by (subst nat_digits.simps) (simp add: digits_value_snoc)
    with "1.IH"[OF False] show ?thesis by simp
  qed
qed

section \<open>Base64 and query escaping\<close>

definition b64_alphabet :: string where
  "b64_alphabet = ''ABCDEFGHIJKLMNOPQRSTUVWXYZabcdefghijklmnopqrstuvwxyz0123456789+/''"

definition b64_char :: "nat \<Rightarrow> char" where
  "b64_char n = b64_alphabet ! n"

text \<open>\<^verbatim>\<open>base64.StdEncoding.EncodeToString\<close>: padded standard encoding, three bytes to four characters.\<close>

fun b64_encode :: "string \<Rightarrow> string" where
  "b64_encode [] = []"
| "b64_encode [a] =
     (let n = of_char a * 16 in [b64_char (n div 64), b64_char (n mod 64), CHR ''='', CHR ''=''])"
| "b64_encode [a, b] =
     (let n = (of_char a * 256 + of_char b) * 4
      in [b64_char (n div 4096), b64_char (n div 64 mod 64), b64_char (n mod 64), CHR ''=''])"
| "b64_encode (a # b # c # rest) =
     (let n = (of_char a * 256 + of_char b) * 256 + of_char c
      in [b64_char (n div 262144), b64_char (n div 4096 mod 64), b64_char (n div 64 mod 64), b64_char (n mod 64)]
         @ b64_encode rest)"

definition hex_digit :: "nat \<Rightarrow> char" where
  "hex_digit n = ''0123456789ABCDEF'' ! n"

definition is_alnum :: "char \<Rightarrow> bool" where
  "is_alnum c \<longleftrightarrow> is_digit c \<or> 65 \<le> (of_char c :: nat) \<and> (of_char c :: nat) \<le> 90 \<or> 97 \<le> (of_char c :: nat) \<and> (of_char c :: nat) \<le> 122"

text \<open>\<^verbatim>\<open>url.QueryEscape\<close>: unreserved bytes stay, a space becomes \<^verbatim>\<open>+\<close>, any other byte \<^verbatim>\<open>%XY\<close>.\<close>

definition query_escape_char :: "char \<Rightarrow> string" where
  "query_escape_char c =
     (if is_alnum c \<or> c \<in> set ''-_.~'' then [c]
      else if c = CHR '' '' then ''+''
      else [CHR ''%'', hex_digit (of_char c div 16), hex_digit (of_char c mod 16)])"

definition query_escape :: "string \<Rightarrow> string" where
  "query_escape s = concat (map query_escape_char s)"

section \<open>Formatting\<close>

text \<open>The \<^verbatim>\<open>%q\<close> verb on ASCII text; bytes outside ASCII are left alone.\<close>

definition go_quote_char :: "char \<Rightarrow> string" where
  "go_quote_char c =
     (if c = CHR 0x22 then [CHR 0x5C, CHR 0x22]
      else if c = CHR 0x5C then [CHR 0x5C, CHR 0x5C]
      else if c = CHR 0x07 then [CHR 0x5C, CHR ''a'']
      else if c = CHR 0x08 then [CHR 0x5C, CHR ''b'']
      else if c = CHR 0x0C then [CHR 0x5C, CHR ''f'']
      else if c = CHR 0x0A then [CHR 0x5C, CHR ''n'']
      else if c = CHR 0x0D then [CHR 0x5C, CHR ''r'']
      else if c = CHR 0x09 then [CHR 0x5C, CHR ''t'']
      else if c = CHR 0x0B then [CHR 0x5C, CHR ''v'']
      else if (of_char c :: nat) < 32 \<or> (of_char c :: nat) = 127
           then [CHR 0x5C, CHR ''x'', lower_char (hex_digit (of_char c div 16)), lower_char (hex_digit (of_char c mod 16))]
      else [c])"

definition go_quote :: "string \<Rightarrow> string" where
  "go_quote s = [CHR 0x22] @ concat (map go_quote_char s) @ [CHR 0x22]"

section \<open>Invariants of transition systems\<close>

text \<open>
  A component with shared state is a transition system: initial states, a step relation that covers
  every critical section and goroutine step, and an invariant the steps preserve.
\<close>

locale invariant_system =
  fixes init :: "'s \<Rightarrow> bool"
    and step :: "'s \<Rightarrow> 's \<Rightarrow> bool"
    and inv :: "'s \<Rightarrow> bool"
  assumes init_inv: "init s \<Longrightarrow> inv s"
    and step_inv: "inv s \<Longrightarrow> step s s' \<Longrightarrow> inv s'"
begin

lemma steps_inv: "step\<^sup>*\<^sup>* s s' \<Longrightarrow> inv s \<Longrightarrow> inv s'"
  by (induction rule: rtranclp_induct) (auto intro: step_inv)

lemma reach_inv: "init s0 \<Longrightarrow> step\<^sup>*\<^sup>* s0 s \<Longrightarrow> inv s"
  by (rule steps_inv[OF _ init_inv])

text \<open>A relation that holds across every step from an invariant state holds along every run.\<close>

lemma steps_relate:
  assumes "step\<^sup>*\<^sup>* s s'" "inv s" and refl: "\<And>t. R t t" and trans: "\<And>t u v. R t u \<Longrightarrow> R u v \<Longrightarrow> R t v"
    and step: "\<And>t u. inv t \<Longrightarrow> step t u \<Longrightarrow> R t u"
  shows "R s s'"
  using assms(1)
proof (induction rule: rtranclp_induct)
  case (step y z)
  have "inv y" using steps_inv[OF step.hyps(1)] assms(2) .
  with step assms(5)[of y z] show ?case using trans by blast
qed (rule refl)

end

text \<open>
  Refinement: an abstraction function under which every step of the system is a step of an abstract
  machine, or no step. Runs then map to runs.
\<close>

locale refinement = invariant_system init step inv
  for init :: "'s \<Rightarrow> bool" and step :: "'s \<Rightarrow> 's \<Rightarrow> bool" and inv :: "'s \<Rightarrow> bool" +
  fixes ainit :: "'a \<Rightarrow> bool"
    and astep :: "'a \<Rightarrow> 'a \<Rightarrow> bool"
    and abst :: "'s \<Rightarrow> 'a"
  assumes abst_init: "init s \<Longrightarrow> ainit (abst s)"
    and abst_step: "inv s \<Longrightarrow> step s s' \<Longrightarrow> astep\<^sup>=\<^sup>= (abst s) (abst s')"
begin

lemma abst_run:
  assumes "init s0" "step\<^sup>*\<^sup>* s0 s"
  shows "ainit (abst s0) \<and> astep\<^sup>*\<^sup>* (abst s0) (abst s)"
  using assms(2)
proof (induction rule: rtranclp_induct)
  case base
  show ?case using abst_init[OF assms(1)] by simp
next
  case (step y z)
  have "inv y" using reach_inv[OF assms(1) step.hyps(1)] .
  from abst_step[OF this step.hyps(2)] have "astep\<^sup>*\<^sup>* (abst y) (abst z)" by auto
  with step.IH show ?case by (meson rtranclp_trans)
qed

end

end
