(* ===== verification/Go_Errors.thy ===== *)
theory Go_Errors
  imports Dobby_Prelude
begin

text \<open>
  Go error values as trees, with \<^verbatim>\<open>errors.Is\<close>, \<^verbatim>\<open>errors.As\<close> and \<^verbatim>\<open>errors.Join\<close>, and the session
  API's classification of failures on top of them: \<^verbatim>\<open>Error\<close>, \<^verbatim>\<open>CleanupFailure\<close>, \<^verbatim>\<open>CodeOf\<close> and
  \<^verbatim>\<open>wrapFailure\<close> of \<^verbatim>\<open>core/sessionapi/api.go\<close>, and \<^verbatim>\<open>onlyCanceledLeaves\<close> of the runtime. A nil
  error is \<^const>\<open>None\<close>.
\<close>

section \<open>Error values\<close>

datatype failure_code =
    FailureInvalidArgument | FailureNotFound | FailureConflict | FailureNotConfigured
  | FailureStaleGeneration | FailureUnsupported | FailureMalformedConfig | FailureProbe
  | FailurePlatform | FailureRuntime | FailureCanceled | FailureInternal | FailureCleanup

fun code_string :: "failure_code \<Rightarrow> string" where
  "code_string FailureInvalidArgument = ''INVALID_ARGUMENT''"
| "code_string FailureNotFound = ''NOT_FOUND''"
| "code_string FailureConflict = ''CONFLICT''"
| "code_string FailureNotConfigured = ''NOT_CONFIGURED''"
| "code_string FailureStaleGeneration = ''STALE_GENERATION''"
| "code_string FailureUnsupported = ''UNSUPPORTED''"
| "code_string FailureMalformedConfig = ''MALFORMED_CONFIG''"
| "code_string FailureProbe = ''PROBE_FAILED''"
| "code_string FailurePlatform = ''PLATFORM_FAILED''"
| "code_string FailureRuntime = ''RUNTIME_FAILED''"
| "code_string FailureCanceled = ''CANCELED''"
| "code_string FailureInternal = ''INTERNAL''"
| "code_string FailureCleanup = ''CLEANUP_FAILED''"

text \<open>
  Sentinel values of the standard library and system call errors that the source compares against.
  \<^verbatim>\<open>syscall.Errno.Is\<close> equates \<^verbatim>\<open>ENOENT\<close> with \<^verbatim>\<open>os.ErrNotExist\<close>.
\<close>

datatype sentinel = Canceled | DeadlineExceeded | NetErrClosed | OsErrNotExist | IoEOF | ErrUnsupported | OsErrClosed | IoShortWrite
  | SysENOENT | SysESRCH | SysENODEV

fun sentinel_text :: "sentinel \<Rightarrow> string" where
  "sentinel_text Canceled = ''context canceled''"
| "sentinel_text DeadlineExceeded = ''context deadline exceeded''"
| "sentinel_text NetErrClosed = ''use of closed network connection''"
| "sentinel_text OsErrNotExist = ''file does not exist''"
| "sentinel_text IoEOF = ''EOF''"
| "sentinel_text ErrUnsupported = ''unsupported operation''"
| "sentinel_text OsErrClosed = ''file already closed''"
| "sentinel_text IoShortWrite = ''short write''"
| "sentinel_text SysENOENT = ''no such file or directory''"
| "sentinel_text SysESRCH = ''no such process''"
| "sentinel_text SysENODEV = ''no such device''"

text \<open>
  \<^item> \<open>Plain\<close>: \<^verbatim>\<open>errors.New\<close>, or \<^verbatim>\<open>fmt.Errorf\<close> without \<^verbatim>\<open>%w\<close>;
  \<^item> \<open>Wrap p e\<close>: \<^verbatim>\<open>fmt.Errorf("p%w", e)\<close>;
  \<^item> \<open>Joined\<close>: the result of \<^verbatim>\<open>errors.Join\<close>;
  \<^item> \<open>DomainError\<close>: \<^verbatim>\<open>*sessionapi.Error\<close>, whose \<^verbatim>\<open>Unwrap\<close> is its \<^verbatim>\<open>Cause\<close>;
  \<^item> \<open>CleanupFailure\<close>: \<^verbatim>\<open>*sessionapi.CleanupFailure\<close>;
  \<^item> \<open>DNSError\<close>: \<^verbatim>\<open>*net.DNSError\<close> with its text and \<^verbatim>\<open>IsNotFound\<close>.
\<close>

datatype go_error =
    Plain string
  | Sentinel sentinel
  | Wrap string go_error
  | Joined "go_error list"
  | DomainError failure_code string "go_error option"
  | CleanupFailure go_error
  | DNSError string bool

fun errors_is :: "go_error \<Rightarrow> sentinel \<Rightarrow> bool" where
  "errors_is (Plain m) t = False"
| "errors_is (Sentinel s) t = (s = t \<or> s = SysENOENT \<and> t = OsErrNotExist)"
| "errors_is (Wrap p e) t = errors_is e t"
| "errors_is (Joined es) t = list_ex (\<lambda>e. errors_is e t) es"
| "errors_is (DomainError c m cause) t = (case cause of None \<Rightarrow> False | Some e \<Rightarrow> errors_is e t)"
| "errors_is (CleanupFailure e) t = errors_is e t"
| "errors_is (DNSError m nf) t = False"

text \<open>\<^verbatim>\<open>errors.As(err, &cleanup)\<close> for \<^verbatim>\<open>*CleanupFailure\<close>: whether one occurs in the tree.\<close>

fun as_cleanup :: "go_error \<Rightarrow> bool" where
  "as_cleanup (Plain m) = False"
| "as_cleanup (Sentinel s) = False"
| "as_cleanup (Wrap p e) = as_cleanup e"
| "as_cleanup (Joined es) = list_ex as_cleanup es"
| "as_cleanup (DomainError c m cause) = (case cause of None \<Rightarrow> False | Some e \<Rightarrow> as_cleanup e)"
| "as_cleanup (CleanupFailure e) = True"
| "as_cleanup (DNSError m nf) = False"

text \<open>\<^verbatim>\<open>errors.As(err, &domain)\<close> for \<^verbatim>\<open>*Error\<close>: the first one in pre-order.\<close>

fun as_domain :: "go_error \<Rightarrow> (failure_code \<times> string \<times> go_error option) option" where
  "as_domain (Plain m) = None"
| "as_domain (Sentinel s) = None"
| "as_domain (Wrap p e) = as_domain e"
| "as_domain (Joined es) = first_some (\<lambda>r. r) (map as_domain es)"
| "as_domain (DomainError c m cause) = Some (c, m, cause)"
| "as_domain (CleanupFailure e) = as_domain e"
| "as_domain (DNSError m nf) = None"

definition errors_join :: "go_error option list \<Rightarrow> go_error option" where
  "errors_join errs =
     (let present = concat (map (\<lambda>e. case e of None \<Rightarrow> [] | Some x \<Rightarrow> [x]) errs)
      in if present = [] then None else Some (Joined present))"

fun error_text :: "go_error \<Rightarrow> string" where
  "error_text (Plain m) = m"
| "error_text (Sentinel s) = sentinel_text s"
| "error_text (Wrap p e) = p @ error_text e"
| "error_text (Joined es) = join_strings [CHR 0x0A] (map error_text es)"
| "error_text (DomainError c m cause) =
     code_string c @ '': '' @ m @ (case cause of None \<Rightarrow> [] | Some e \<Rightarrow> '': '' @ error_text e)"
| "error_text (CleanupFailure e) = ''cleanup failed: '' @ error_text e"
| "error_text (DNSError m nf) = m"

section \<open>Failures of the session API\<close>

definition failure :: "failure_code \<Rightarrow> string \<Rightarrow> go_error" where
  "failure code message = DomainError code message None"

definition failureWithCause :: "failure_code \<Rightarrow> string \<Rightarrow> go_error option \<Rightarrow> go_error" where
  "failureWithCause code message cause = DomainError code message cause"

definition CodeOf :: "go_error option \<Rightarrow> failure_code" where
  "CodeOf err = (case err of
       None \<Rightarrow> FailureInternal
     | Some e \<Rightarrow> if as_cleanup e then FailureCleanup
                 else (case as_domain e of Some (c, _, _) \<Rightarrow> c | None \<Rightarrow> FailureInternal))"

definition wrapFailure :: "failure_code \<Rightarrow> go_error option \<Rightarrow> go_error option" where
  "wrapFailure code err = (case err of
       None \<Rightarrow> None
     | Some e \<Rightarrow>
         if code = FailureCleanup then Some (failureWithCause FailureCleanup ''cleanup failed'' (Some e))
         else if as_cleanup e then Some (failureWithCause FailureCleanup ''cleanup failed'' (Some e))
         else if as_domain e \<noteq> None then Some e
         else Some (failureWithCause code ''operation failed'' (Some e)))"

definition errorMessage :: "go_error option \<Rightarrow> string" where
  "errorMessage err = (case err of None \<Rightarrow> [] | Some e \<Rightarrow> error_text e)"

text \<open>
  \<^verbatim>\<open>onlyCanceledLeaves\<close> of \<^verbatim>\<open>sessionapi/runtime/lifecycle.go\<close>. Joined values hold no nil child, since
  \<^verbatim>\<open>errors.Join\<close> drops them.
\<close>

fun only_canceled :: "go_error \<Rightarrow> bool" where
  "only_canceled (Joined es) = (es \<noteq> [] \<and> list_all only_canceled es)"
| "only_canceled (Wrap p e) = only_canceled e"
| "only_canceled (CleanupFailure e) = only_canceled e"
| "only_canceled (DomainError c m cause) =
     (case cause of Some e \<Rightarrow> only_canceled e | None \<Rightarrow> False)"
| "only_canceled (Sentinel s) = (s = Canceled)"
| "only_canceled (Plain m) = False"
| "only_canceled (DNSError m nf) = False"

definition onlyCanceledLeaves :: "go_error option \<Rightarrow> bool" where
  "onlyCanceledLeaves err = (case err of None \<Rightarrow> False | Some e \<Rightarrow> only_canceled e)"

section \<open>Lemmas\<close>

lemmas failure_defs [go_defs] = failure_def failureWithCause_def

lemma first_some_id_map: "first_some (\<lambda>r. r) (map f xs) = first_some f xs"
  by (induction xs) (auto split: option.splits)

lemma errors_join_None [simp]: "errors_join errs = None \<longleftrightarrow> (\<forall>e\<in>set errs. e = None)"
proof -
  have "concat (map (\<lambda>e. case e of None \<Rightarrow> [] | Some x \<Rightarrow> [x]) errs) = []
        \<longleftrightarrow> (\<forall>e\<in>set errs. e = None)" for errs :: "go_error option list"
    by (auto split: option.splits)
  then show ?thesis by (simp add: errors_join_def Let_def)
qed

lemma errors_join_Some:
  "Some e \<in> set errs \<Longrightarrow> \<exists>es. errors_join errs = Some (Joined es) \<and> e \<in> set es"
proof -
  assume e: "Some e \<in> set errs"
  let ?p = "concat (map (\<lambda>e. case e of None \<Rightarrow> [] | Some x \<Rightarrow> [x]) errs)"
  have "e \<in> set ?p" using e by force
  moreover from this have "?p \<noteq> []" by (metis empty_iff empty_set)
  ultimately show ?thesis unfolding errors_join_def Let_def by simp
qed

lemma CodeOf_None [simp]: "CodeOf None = FailureInternal"
  by (simp add: CodeOf_def)

lemma CodeOf_failure [simp]: "CodeOf (Some (failure c m)) = c"
  by (simp add: CodeOf_def failure_def)

lemma CodeOf_withCause: "CodeOf (Some (failureWithCause c m cause)) =
    (if \<exists>e. cause = Some e \<and> as_cleanup e then FailureCleanup else c)"
  by (auto simp: CodeOf_def failureWithCause_def split: option.splits)

lemma CodeOf_cleanup_join:
  assumes "Some e \<in> set errs" and "as_cleanup e"
  shows "CodeOf (errors_join errs) = FailureCleanup"
proof -
  from errors_join_Some[OF assms(1)] obtain es
    where es: "errors_join errs = Some (Joined es)" "e \<in> set es" by blast
  with assms(2) show ?thesis by (auto simp: CodeOf_def list_ex_iff)
qed

lemma wrapFailure_None [simp]: "wrapFailure c None = None"
  by (simp add: wrapFailure_def)

lemma wrapFailure_eq_None [simp]: "wrapFailure c err = None \<longleftrightarrow> err = None"
  by (simp add: wrapFailure_def split: option.splits)

lemma CodeOf_wrap_cleanup [simp]: "CodeOf (wrapFailure FailureCleanup (Some e)) = FailureCleanup"
  by (simp add: wrapFailure_def CodeOf_withCause)

text \<open>The leaves of an error tree: what \<^verbatim>\<open>Unwrap\<close> reaches and cannot unwrap further.\<close>

fun error_leaves :: "go_error \<Rightarrow> go_error list" where
  "error_leaves (Joined []) = [Joined []]"
| "error_leaves (Joined (e # es)) = concat (map error_leaves (e # es))"
| "error_leaves (Wrap p e) = error_leaves e"
| "error_leaves (CleanupFailure e) = error_leaves e"
| "error_leaves (DomainError c m (Some e)) = error_leaves e"
| "error_leaves e = [e]"

lemma error_leaves_not_Nil: "error_leaves e \<noteq> []"
  by (induction e rule: error_leaves.induct) auto

lemma only_canceled_leaves:
  "only_canceled e \<longleftrightarrow> (\<forall>l\<in>set (error_leaves e). l = Sentinel Canceled)"
  by (induction e rule: error_leaves.induct) (auto simp: list_all_iff)

section \<open>Properties\<close>

text \<open>
  A failed cleanup is never masked: whatever failure code a caller wraps it with, and
  whatever other failures it is joined with, in whatever order, \<^verbatim>\<open>CodeOf\<close> still reports
  \<^verbatim>\<open>CLEANUP_FAILED\<close>, which is what blocks another attempt. Wrapping with \<^verbatim>\<open>CLEANUP_FAILED\<close>
  itself always classifies as such, and an error that already carries a domain code keeps it.
\<close>

theorem cleanup_never_masked:
  "(as_cleanup e \<and> Some e \<in> set errs \<longrightarrow>
      CodeOf (wrapFailure code (Some e)) = FailureCleanup
      \<and> CodeOf (errors_join errs) = FailureCleanup
      \<and> CodeOf (wrapFailure code (errors_join errs)) = FailureCleanup
      \<and> CodeOf (Some (failureWithCause code msg (errors_join errs))) = FailureCleanup)
   \<and> CodeOf (wrapFailure FailureCleanup (Some e)) = FailureCleanup
   \<and> (\<not> as_cleanup e \<and> code \<noteq> FailureCleanup \<longrightarrow>
        CodeOf (wrapFailure code (Some e)) =
          (case as_domain e of Some (c, _, _) \<Rightarrow> c | None \<Rightarrow> code))"
proof -
  have joined: "CodeOf (wrapFailure code (errors_join errs)) = FailureCleanup
      \<and> CodeOf (Some (failureWithCause code msg (errors_join errs))) = FailureCleanup"
    if c: "as_cleanup e" and m: "Some e \<in> set errs"
  proof -
    from errors_join_Some[OF m] obtain es
      where es: "errors_join errs = Some (Joined es)" "e \<in> set es" by blast
    with c have "as_cleanup (Joined es)" by (auto simp: list_ex_iff)
    with es show ?thesis by (simp add: wrapFailure_def CodeOf_withCause)
  qed
  have plain: "CodeOf (wrapFailure code (Some e)) = FailureCleanup" if "as_cleanup e"
    using that by (simp add: wrapFailure_def CodeOf_withCause)
  have kept: "CodeOf (wrapFailure code (Some e)) = (case as_domain e of Some (c, _, _) \<Rightarrow> c | None \<Rightarrow> code)"
    if "\<not> as_cleanup e" "code \<noteq> FailureCleanup"
  proof (cases "as_domain e")
    case None
    with that show ?thesis by (simp add: wrapFailure_def CodeOf_withCause)
  next
    case (Some d)
    with that show ?thesis by (simp add: wrapFailure_def CodeOf_def)
  qed
  from joined plain kept show ?thesis by (auto intro: CodeOf_cleanup_join)
qed

theorem cleanup_never_masked_witness:
  "CodeOf (wrapFailure FailureRuntime
     (Some (Wrap ''profile 0 (XRAY): '' (Joined [Sentinel Canceled, CleanupFailure (Plain ''x'')])))) = FailureCleanup
   \<and> CodeOf (wrapFailure FailurePlatform (Some (Plain ''x''))) = FailurePlatform"
proof -
  let ?e = "Wrap ''profile 0 (XRAY): '' (Joined [Sentinel Canceled, CleanupFailure (Plain ''x'')])"
  from cleanup_never_masked[of ?e "[Some ?e]" FailureRuntime "[]"]
    cleanup_never_masked[of "Plain ''x''" "[]" FailurePlatform "[]"]
  show ?thesis by simp
qed

text \<open>
  The readiness logger demotes a failure to debug level only when cancellation is the whole
  story: \<^verbatim>\<open>onlyCanceledLeaves\<close> holds exactly for a non-nil error all of whose leaves are
  \<^verbatim>\<open>context.Canceled\<close>, so one genuine failure anywhere in a joined error is enough to refuse it.
\<close>

theorem onlyCanceledLeaves_iff:
  "onlyCanceledLeaves err \<longleftrightarrow>
     err \<noteq> None \<and> set (error_leaves (the err)) = {Sentinel Canceled}"
proof (cases err)
  case None
  then show ?thesis by (simp add: onlyCanceledLeaves_def)
next
  case (Some e)
  obtain l where "l \<in> set (error_leaves e)"
    using error_leaves_not_Nil[of e] by (cases "error_leaves e") auto
  then have "only_canceled e \<longleftrightarrow> set (error_leaves e) = {Sentinel Canceled}"
    by (auto simp: only_canceled_leaves)
  then show ?thesis by (simp add: onlyCanceledLeaves_def Some)
qed

end
