(* ===== verification/Config_Parser.thy ===== *)
theory Config_Parser
  imports Go_Errors
begin

text \<open>
  The configuration parser: \<^verbatim>\<open>core/sessionapi/config.go\<close> and \<^verbatim>\<open>core/protocol/config.go\<close>. A configuration
  is an ordered list of protocol sections; parsing yields one runtime profile per section, in the
  order of the file, or one failure for the whole configuration.

  Parameters, for code that is not in the repository: \<open>decode\<close> is \<^verbatim>\<open>toml.Decode\<close> into \<^verbatim>\<open>configRoot\<close>
  with its metadata, \<open>urlparse\<close> is \<^verbatim>\<open>url.Parse\<close> and \<open>digest\<close> the hexadecimal SHA-256.
  A table is an association list read with \<^const>\<open>map_of\<close>. A Go panic is \<^const>\<open>Panic\<close>.
\<close>

section \<open>Data\<close>

text \<open>
  The dynamic values TOML decoding produces. A float is a mantissa and a binary exponent;
  \<open>VTableArray\<close> and \<open>VStrings\<close> are Go's \<^verbatim>\<open>[]map[string]any\<close> and \<^verbatim>\<open>[]string\<close>.
\<close>

datatype toml_value =
    VString string
  | VInt int
  | VFloat int int
  | VNonFinite
  | VBool bool
  | VTable "(string \<times> toml_value) list"
  | VArray "toml_value list"
  | VTableArray "(string \<times> toml_value) list list"
  | VStrings "string list"
  | VOther string

type_synonym table = "(string \<times> toml_value) list"

datatype protocol_kind = ProtocolOutline | ProtocolXray | ProtocolTrustTunnel | ProtocolNone

record protocol_config =
  pc_OutlineURL :: string
  pc_Xray :: "table option"
  pc_TrustTunnel :: "table option"

record profile_summary =
  ps_Index :: int
  ps_Protocol :: protocol_kind
  ps_Description :: string

record runtime_profile =
  rp_Summary :: profile_summary
  rp_Config :: protocol_config
  rp_ExcludeCIDRs :: "string list"

record config_root =
  cr_LogsEndpoint :: string
  cr_ExcludeIPs :: "string list"
  cr_Outline :: "table list"
  cr_Xray :: "table list"
  cr_TrustTunnel :: "table list"

record toml_metadata =
  md_Keys :: "string list list"
  md_Type :: "string list \<Rightarrow> string"
  md_IsDefined :: "string \<Rightarrow> bool"

record url_parts =
  u_Scheme :: string
  u_Host :: string
  u_Hostname :: string
  u_Port :: string
  u_EscapedPath :: string
  u_RawQuery :: string
  u_ForceQuery :: bool
  u_Opaque :: string
  u_User :: "(string \<times> string option) option"
  u_String :: string

record parsed_config =
  pcfg_digest :: string
  pcfg_profiles :: "runtime_profile list"
  pcfg_logsEndpoint :: string

type_synonym toml_decoder = "bytes \<Rightarrow> go_error + config_root \<times> toml_metadata"
type_synonym url_parser = "string \<Rightarrow> go_error + url_parts"

definition configSectionOutline :: string where "configSectionOutline = ''Outline''"
definition configSectionXray :: string where "configSectionXray = ''Xray''"
definition configSectionTrustTunnel :: string where "configSectionTrustTunnel = ''TrustTunnel''"
definition maxConfigBytes :: nat where "maxConfigBytes = 2 ^ 20"

lemmas section_defs = configSectionOutline_def configSectionXray_def configSectionTrustTunnel_def

section \<open>Protocol payloads\<close>

text \<open>\<^verbatim>\<open>CloneFields\<close> and \<^verbatim>\<open>cloneValue\<close>: a deep copy in which every array is a \<^verbatim>\<open>[]any\<close>.\<close>

fun cloneValue :: "toml_value \<Rightarrow> toml_value" where
  "cloneValue (VTable t) = VTable (map (\<lambda>(k, v). (k, cloneValue v)) t)"
| "cloneValue (VArray vs) = VArray (map cloneValue vs)"
| "cloneValue (VTableArray ts) = VArray (map (\<lambda>t. VTable (map (\<lambda>(k, v). (k, cloneValue v)) t)) ts)"
| "cloneValue (VStrings ss) = VArray (map VString ss)"
| "cloneValue v = v"

definition CloneFields :: "table \<Rightarrow> table" where
  "CloneFields flds = map (\<lambda>(k, v). (k, cloneValue v)) flds"

definition Config_Empty :: "protocol_config \<Rightarrow> bool" where
  "Config_Empty c \<longleftrightarrow> pc_OutlineURL c = [] \<and> (case pc_Xray c of None \<Rightarrow> True | Some t \<Rightarrow> t = [])
     \<and> (case pc_TrustTunnel c of None \<Rightarrow> True | Some t \<Rightarrow> t = [])"

section \<open>Outline URLs\<close>

definition rawStringValue :: "table \<Rightarrow> string \<Rightarrow> string" where
  "rawStringValue block key = (case map_of block key of Some (VString s) \<Rightarrow> s | _ \<Rightarrow> [])"

definition stringValue :: "table \<Rightarrow> string \<Rightarrow> string" where
  "stringValue block key = trim_space (rawStringValue block key)"

definition boolValue :: "table \<Rightarrow> string \<Rightarrow> bool" where
  "boolValue block key = (case map_of block key of Some (VBool b) \<Rightarrow> b | _ \<Rightarrow> False)"

text \<open>
  \<^verbatim>\<open>int64(v)\<close> of a float: truncation, and the value of the amd64 conversion instruction where the
  language leaves an unrepresentable result to the implementation.
\<close>

definition float_to_int64 :: "int \<Rightarrow> int \<Rightarrow> int" where
  "float_to_int64 m e =
     (let v = (if 0 \<le> e then m * 2 ^ nat e else sgn m * (\<bar>m\<bar> div 2 ^ nat (- e)))
      in if - (2 ^ 63) \<le> v \<and> v < 2 ^ 63 then v else - (2 ^ 63))"

definition intString :: "toml_value option \<Rightarrow> string" where
  "intString value = (case value of
       Some (VInt v) \<Rightarrow> itoa v
     | Some (VFloat m e) \<Rightarrow> itoa (float_to_int64 m e)
     | Some VNonFinite \<Rightarrow> itoa (- (2 ^ 63))
     | _ \<Rightarrow> [])"

definition outlineHost :: "string \<Rightarrow> string" where
  "outlineHost serverPort =
     (let host = before_char serverPort (CHR ''?'')
      in case (if has_prefix host ''['' then index_char host (CHR '']'') else None) of
           Some end \<Rightarrow> take (end - 1) (drop 1 host)
         | None \<Rightarrow> if count_list host (CHR '':'') = 1 then before_char host (CHR '':'') else host)"

definition normalizeOutlineURL :: "table \<Rightarrow> go_error + string" where
  "normalizeOutlineURL block =
     (let method0 = stringValue block ''Method'';
          meth = (if method0 = [] then ''chacha20-ietf-poly1305'' else method0);
          password = stringValue block ''Password''
      in if password = [] then Inl (failure FailureMalformedConfig ''Outline profile requires a password'')
         else
           let server = stringValue block ''Server'';
               port0 = intString (map_of block ''Port'');
               websocket = boolValue block ''WebSocket''
           in if server = [] then Inl (failure FailureMalformedConfig ''Outline profile requires a server'')
              else
                let port = (if port0 = [] \<and> websocket then ''443'' else port0)
                in if port = [] then Inl (failure FailureMalformedConfig ''Outline profile requires a port'')
                   else
                     let serverPort = server @ '':'' @ port;
                         encoded = b64_encode (meth @ '':'' @ password);
                         ssURL0 = ''ss://'' @ encoded @ ''@'' @ serverPort;
                         prefix = rawStringValue block ''DisguisePrefix'';
                         ssURL = (if prefix \<noteq> []
                                  then ssURL0 @ (if contains_char serverPort (CHR ''?'') then ''&'' else ''?'')
                                       @ ''prefix='' @ query_escape prefix
                                  else ssURL0)
                     in if \<not> websocket then Inr ssURL
                        else
                          let base = trim_right_char (stringValue block ''WebSocketPath'') (CHR ''/'');
                              params = (if base \<noteq> [] then [''tcp_path='' @ base @ ''/tcp'', ''udp_path='' @ base @ ''/udp''] else [])
                          in Inr (''tls:sni='' @ outlineHost serverPort @ ''|ws:'' @ join_strings ''&'' params @ ''|'' @ ssURL))"

section \<open>Sections and profiles\<close>

definition normalizeProfile :: "protocol_kind \<Rightarrow> table \<Rightarrow> go_error + protocol_config" where
  "normalizeProfile kind block = (case kind of
       ProtocolXray \<Rightarrow>
         (case map_of block ''outbounds'' of
            None \<Rightarrow> Inl (failure FailureMalformedConfig ''Xray profile requires outbounds'')
          | Some _ \<Rightarrow> Inr \<lparr>pc_OutlineURL = [], pc_Xray = Some (CloneFields block), pc_TrustTunnel = None\<rparr>)
     | ProtocolOutline \<Rightarrow>
         (case normalizeOutlineURL block of
            Inl err \<Rightarrow> Inl err
          | Inr normalized \<Rightarrow> Inr \<lparr>pc_OutlineURL = normalized, pc_Xray = None, pc_TrustTunnel = None\<rparr>)
     | ProtocolTrustTunnel \<Rightarrow>
         Inr \<lparr>pc_OutlineURL = [], pc_Xray = None, pc_TrustTunnel = Some (CloneFields block)\<rparr>
     | ProtocolNone \<Rightarrow> Inl (failure FailureUnsupported ''unsupported protocol''))"

definition validateTrustTunnelVerification :: "table \<Rightarrow> go_error option" where
  "validateTrustTunnelVerification block =
     (if map_of block ''skip_verification'' \<noteq> None
      then Some (failure FailureMalformedConfig ''TrustTunnel skip_verification is only supported under endpoint'')
      else (case map_of block ''endpoint'' of
          Some (VTable endpoint) \<Rightarrow>
            (case map_of endpoint ''skip_verification'' of
               None \<Rightarrow> None
             | Some (VBool skipVerification) \<Rightarrow>
                 if skipVerification
                 then Some (failure FailureMalformedConfig ''TrustTunnel certificate verification must remain enabled'')
                 else None
             | Some _ \<Rightarrow> Some (failure FailureMalformedConfig ''TrustTunnel endpoint.skip_verification must be a boolean''))
        | _ \<Rightarrow> None))"

fun validateRootKeys :: "string list list \<Rightarrow> go_error option" where
  "validateRootKeys [] = None"
| "validateRootKeys (key # keys) = (case key of
       [] \<Rightarrow> validateRootKeys keys
     | k0 # rest \<Rightarrow>
         if k0 = ''logs_endpoint'' \<and> length key \<noteq> 1
         then Some (failure FailureMalformedConfig ''logs_endpoint must be a URL string'')
         else if k0 = ''ExcludeIPs'' \<and> length key > 1 \<and> (rest ! 0 \<noteq> ''IPs'' \<or> length key > 2)
         then Some (failure FailureUnsupported ''configuration contains an unsupported ExcludeIPs setting'')
         else if k0 \<in> {configSectionOutline, configSectionXray, configSectionTrustTunnel, ''ExcludeIPs'', ''logs_endpoint''}
         then validateRootKeys keys
         else Some (failure FailureUnsupported ''configuration contains an unsupported section''))"

definition section_tables :: "config_root \<Rightarrow> string \<Rightarrow> table list" where
  "section_tables root name =
     (if name = configSectionOutline then cr_Outline root
      else if name = configSectionXray then cr_Xray root
      else if name = configSectionTrustTunnel then cr_TrustTunnel root
      else [])"

definition section_protocol :: "string \<Rightarrow> protocol_kind" where
  "section_protocol name =
     (if name = configSectionOutline then ProtocolOutline
      else if name = configSectionXray then ProtocolXray
      else if name = configSectionTrustTunnel then ProtocolTrustTunnel
      else ProtocolNone)"

definition is_section :: "string \<Rightarrow> bool" where
  "is_section name \<longleftrightarrow> name \<in> {configSectionOutline, configSectionXray, configSectionTrustTunnel}"

text \<open>\<^verbatim>\<open>nextProfile\<close> indexes the section's slice with the section's counter; an unknown name gives a nil map.\<close>

definition nextProfile :: "config_root \<Rightarrow> (string \<Rightarrow> nat) \<Rightarrow> string \<Rightarrow> (table \<times> protocol_kind) outcome" where
  "nextProfile root nxt name =
     (if is_section name then
        (if nxt name < length (section_tables root name)
         then Ret (section_tables root name ! nxt name, section_protocol name) else Panic)
      else Ret ([], ProtocolNone))"

definition check_cloak :: "table \<Rightarrow> go_error option" where
  "check_cloak block = (case map_of block ''Cloak'' of
       None \<Rightarrow> None
     | Some (VBool cloak) \<Rightarrow>
         if cloak then Some (failure FailureUnsupported ''configuration contains a removed Cloak profile'') else None
     | Some _ \<Rightarrow> Some (failure FailureMalformedConfig ''Cloak must be a boolean''))"

definition description_of :: "table \<Rightarrow> go_error + string" where
  "description_of block = (case map_of block ''Description'' of
       None \<Rightarrow> Inr []
     | Some (VString d) \<Rightarrow> Inr d
     | Some _ \<Rightarrow> Inl (failure FailureMalformedConfig ''Description must be a string''))"

text \<open>What \<^verbatim>\<open>parseProfile\<close> builds from one block, once the block has been selected.\<close>

definition profile_of_block :: "config_root \<Rightarrow> table \<Rightarrow> protocol_kind \<Rightarrow> nat \<Rightarrow> go_error + runtime_profile" where
  "profile_of_block root block protocol profileIndex = (case check_cloak block of
       Some err \<Rightarrow> Inl err
     | None \<Rightarrow>
        (case (if protocol = ProtocolTrustTunnel then validateTrustTunnelVerification block else None) of
           Some err \<Rightarrow> Inl err
         | None \<Rightarrow> (case description_of block of
              Inl err \<Rightarrow> Inl err
            | Inr description \<Rightarrow> (case normalizeProfile protocol block of
                 Inl err \<Rightarrow> Inl err
               | Inr normalized \<Rightarrow>
                   Inr \<lparr>rp_Summary = \<lparr>ps_Index = as_int32 profileIndex, ps_Protocol = protocol, ps_Description = description\<rparr>,
                        rp_Config = normalized, rp_ExcludeCIDRs = cr_ExcludeIPs root\<rparr>))))"

definition parseProfile ::
  "config_root \<Rightarrow> (string \<Rightarrow> nat) \<Rightarrow> string \<Rightarrow> nat \<Rightarrow> ((string \<Rightarrow> nat) \<times> (go_error + runtime_profile)) outcome" where
  "parseProfile root nxt name profileIndex = (case nextProfile root nxt name of
       Panic \<Rightarrow> Panic
     | Ret (block, protocol) \<Rightarrow>
         Ret (nxt(name := Suc (nxt name)), profile_of_block root block protocol profileIndex))"

fun parseProfiles_from ::
  "config_root \<Rightarrow> (string \<Rightarrow> nat) \<Rightarrow> nat \<Rightarrow> string list \<Rightarrow> (go_error + runtime_profile list) outcome" where
  "parseProfiles_from root nxt index [] = Ret (Inr [])"
| "parseProfiles_from root nxt index (name # names) = (case parseProfile root nxt name index of
       Panic \<Rightarrow> Panic
     | Ret (nxt', Inl err) \<Rightarrow> Ret (Inl err)
     | Ret (nxt', Inr profile) \<Rightarrow> (case parseProfiles_from root nxt' (Suc index) names of
          Panic \<Rightarrow> Panic
        | Ret (Inl err) \<Rightarrow> Ret (Inl err)
        | Ret (Inr profiles) \<Rightarrow> Ret (Inr (profile # profiles))))"

definition parseProfiles :: "config_root \<Rightarrow> string list \<Rightarrow> (go_error + runtime_profile list) outcome" where
  "parseProfiles root protocols = parseProfiles_from root (\<lambda>_. 0) 0 protocols"

section \<open>Documents\<close>

definition protocol_keys :: "toml_metadata \<Rightarrow> string list" where
  "protocol_keys metadata =
     concat (map (\<lambda>key. if length key \<noteq> 1 \<or> md_Type metadata key \<noteq> ''ArrayHash'' then []
                        else if is_section (key ! 0) then [key ! 0] else []) (md_Keys metadata))"

definition decodeConfig :: "toml_decoder \<Rightarrow> bytes \<Rightarrow> go_error + config_root \<times> string list" where
  "decodeConfig decode raw =
     (if length raw > maxConfigBytes then Inl (failure FailureMalformedConfig ''configuration exceeds the 1 MiB size limit'')
      else if trim_space raw = [] then Inl (failure FailureMalformedConfig ''configuration is blank'')
      else (case decode raw of
          Inl err \<Rightarrow> Inl (failureWithCause FailureMalformedConfig ''TOML could not be parsed'' (Some err))
        | Inr (root, metadata) \<Rightarrow>
            if md_IsDefined metadata ''logs_endpoint'' \<and> cr_LogsEndpoint root = []
            then Inl (failure FailureMalformedConfig ''logs_endpoint must not be empty'')
            else (case validateRootKeys (md_Keys metadata) of
                Some err \<Rightarrow> Inl err
              | None \<Rightarrow>
                  let protocols = protocol_keys metadata
                  in if protocols = [] then Inl (failure FailureMalformedConfig ''expected one or more [[Outline]], [[Xray]], or [[TrustTunnel]] sections'')
                     else if count_list protocols configSectionOutline \<noteq> length (cr_Outline root)
                           \<or> count_list protocols configSectionXray \<noteq> length (cr_Xray root)
                           \<or> count_list protocols configSectionTrustTunnel \<noteq> length (cr_TrustTunnel root)
                     then Inl (failure FailureMalformedConfig ''protocol section count does not match TOML data'')
                     else Inr (root, protocols))))"

text \<open>\<^verbatim>\<open>strconv.Atoi\<close>: an optional sign, at least one digit, a value of 64 bits.\<close>

definition atoi :: "string \<Rightarrow> int option" where
  "atoi s =
     (let neg = (case s of c # _ \<Rightarrow> c = CHR ''-'' | [] \<Rightarrow> False);
          digits = (case s of c # t \<Rightarrow> if c = CHR ''-'' \<or> c = CHR ''+'' then t else s | [] \<Rightarrow> []);
          v = (if neg then - int (digits_value digits) else int (digits_value digits))
      in if digits = [] \<or> \<not> list_all is_digit digits \<or> v < - (2 ^ 63) \<or> 2 ^ 63 \<le> v then None else Some v)"

definition validateLogsEndpoint :: "url_parser \<Rightarrow> string \<Rightarrow> go_error option" where
  "validateLogsEndpoint urlparse endpoint =
     (if endpoint = [] then None
      else (case urlparse endpoint of
          Inl _ \<Rightarrow> Some (failure FailureMalformedConfig ''logs_endpoint must be an HTTPS directory URL without query or fragment'')
        | Inr u \<Rightarrow>
            if u_Scheme u \<noteq> ''https'' \<or> u_Host u = [] \<or> u_Hostname u = [] \<or> \<not> has_suffix (u_EscapedPath u) ''/''
               \<or> u_RawQuery u \<noteq> [] \<or> u_ForceQuery u \<or> contains_char endpoint (CHR ''#'') \<or> u_Opaque u \<noteq> []
            then Some (failure FailureMalformedConfig ''logs_endpoint must be an HTTPS directory URL without query or fragment'')
            else if u_Port u \<noteq> [] \<and> (case atoi (u_Port u) of None \<Rightarrow> True | Some v \<Rightarrow> v < 1 \<or> v > 65535)
            then Some (failure FailureMalformedConfig ''logs_endpoint has an invalid port'')
            else (case u_User u of
                Some (username, _) \<Rightarrow>
                  if contains_char username (CHR '':'')
                  then Some (failure FailureMalformedConfig ''logs_endpoint Basic username cannot contain a colon'')
                  else None
              | None \<Rightarrow> None)))"

definition parseConfig ::
  "toml_decoder \<Rightarrow> url_parser \<Rightarrow> (bytes \<Rightarrow> string) \<Rightarrow> bytes \<Rightarrow> (go_error + parsed_config) outcome" where
  "parseConfig decode urlparse digest raw = (case decodeConfig decode raw of
       Inl err \<Rightarrow> Ret (Inl err)
     | Inr (root, protocols) \<Rightarrow> (case parseProfiles root protocols of
          Panic \<Rightarrow> Panic
        | Ret (Inl err) \<Rightarrow> Ret (Inl err)
        | Ret (Inr profiles) \<Rightarrow> (case validateLogsEndpoint urlparse (cr_LogsEndpoint root) of
             Some err \<Rightarrow> Ret (Inl err)
           | None \<Rightarrow> Ret (Inr \<lparr>pcfg_digest = digest raw, pcfg_profiles = profiles, pcfg_logsEndpoint = cr_LogsEndpoint root\<rparr>))))"

end
