(* ===== verification/Config_Correct.thy ===== *)
theory Config_Correct
  imports Config_Parser
begin

text \<open>
  Properties of the configuration parser: it never panics, keeps the order of the file, refuses
  disabled certificate verification, normalises payloads once and for all, and builds Outline URLs
  from which the credentials and the prefix can be read back.
\<close>

section \<open>Profiles in section order\<close>

lemma section_tables_simps [simp]:
  "section_tables root configSectionOutline = cr_Outline root"
  "section_tables root configSectionXray = cr_Xray root"
  "section_tables root configSectionTrustTunnel = cr_TrustTunnel root"
  by (simp_all add: section_tables_def section_defs)

lemma is_sectionE:
  assumes "is_section name"
  obtains "name = configSectionOutline" | "name = configSectionXray" | "name = configSectionTrustTunnel"
  using assms by (auto simp: is_section_def)

lemma protocol_keys_sections: "name \<in> set (protocol_keys md) \<Longrightarrow> is_section name"
  by (auto simp: protocol_keys_def split: if_splits)

lemma nextProfile_in_range:
  "is_section name \<Longrightarrow> nxt name < length (section_tables root name) \<Longrightarrow>
     nextProfile root nxt name = Ret (section_tables root name ! nxt name, section_protocol name)"
  by (simp add: nextProfile_def)

text \<open>
  The counters: \<open>nxt\<close> has counted the sections read so far, so enough tables are left for the
  sections still to come.
\<close>

definition counters_ok :: "config_root \<Rightarrow> (string \<Rightarrow> nat) \<Rightarrow> string list \<Rightarrow> bool" where
  "counters_ok root nxt names \<longleftrightarrow>
     (\<forall>name\<in>set names. is_section name \<and> nxt name + count_list names name \<le> length (section_tables root name))"

lemma counters_ok_Cons:
  assumes "counters_ok root nxt (name # names)"
  shows "is_section name" "nxt name < length (section_tables root name)"
    "counters_ok root (nxt(name := Suc (nxt name))) names"
  using assms by (auto simp: counters_ok_def split: if_splits)

lemma parseProfiles_from_no_panic:
  "counters_ok root nxt names \<Longrightarrow> parseProfiles_from root nxt idx names \<noteq> Panic"
proof (induction names arbitrary: nxt idx)
  case Nil
  then show ?case by simp
next
  case (Cons name names)
  note c = counters_ok_Cons[OF Cons.prems]
  let ?rest = "parseProfiles_from root (nxt(name := Suc (nxt name))) (Suc idx) names"
  have rest: "?rest \<noteq> Panic" by (rule Cons.IH[OF c(3)])
  show ?case
    by (cases ?rest) (use rest in \<open>simp_all add: parseProfile_def nextProfile_in_range c(1,2) split: sum.splits\<close>)
qed

lemma parseProfiles_from_nth:
  assumes "counters_ok root nxt names"
    and "parseProfiles_from root nxt idx names = Ret (Inr ps)"
  shows "length ps = length names \<and> (\<forall>i < length names.
      let name = names ! i; k = nxt name + count_list (take i names) name
      in k < length (section_tables root name)
         \<and> profile_of_block root (section_tables root name ! k) (section_protocol name) (idx + i) = Inr (ps ! i))"
  using assms
proof (induction names arbitrary: nxt idx ps)
  case Nil
  then show ?case by simp
next
  case (Cons name names)
  note c = counters_ok_Cons[OF Cons.prems(1)]
  from Cons.prems(2) obtain p qs where
    p: "profile_of_block root (section_tables root name ! nxt name) (section_protocol name) idx = Inr p"
    and qs: "parseProfiles_from root (nxt(name := Suc (nxt name))) (Suc idx) names = Ret (Inr qs)"
    and ps: "ps = p # qs"
    by (auto simp: parseProfile_def nextProfile_in_range c(1,2) split: outcome.splits sum.splits)
  note IH = Cons.IH[OF c(3) qs]
  have "let nm = (name # names) ! i; k = nxt nm + count_list (take i (name # names)) nm
      in k < length (section_tables root nm)
         \<and> profile_of_block root (section_tables root nm ! k) (section_protocol nm) (idx + i) = Inr (ps ! i)"
    if i: "i < length (name # names)" for i
  proof (cases i)
    case 0
    with p ps c(2) show ?thesis by (simp add: Let_def)
  next
    case (Suc j)
    with i IH have "let nm = names ! j; k = (nxt(name := Suc (nxt name))) nm + count_list (take j names) nm
      in k < length (section_tables root nm)
         \<and> profile_of_block root (section_tables root nm ! k) (section_protocol nm) (Suc idx + j) = Inr (qs ! j)"
      by auto
    with Suc ps show ?thesis by (auto simp: Let_def split: if_splits)
  qed
  with IH ps show ?case by simp
qed

lemma decodeConfig_counters:
  "decodeConfig decode raw = Inr (root, protocols) \<Longrightarrow>
     protocols \<noteq> [] \<and> counters_ok root (\<lambda>_. 0) protocols
     \<and> (\<exists>md. decode raw = Inr (root, md) \<and> protocols = protocol_keys md \<and> validateRootKeys (md_Keys md) = None)"
  by (auto simp: decodeConfig_def Let_def counters_ok_def
      split: if_splits sum.splits option.splits dest!: protocol_keys_sections elim!: is_sectionE)

lemma parseConfig_Inr:
  assumes "parseConfig decode urlparse digest raw = Ret (Inr cfg)"
  obtains root protocols where "decodeConfig decode raw = Inr (root, protocols)"
    "parseProfiles root protocols = Ret (Inr (pcfg_profiles cfg))"
    "validateLogsEndpoint urlparse (cr_LogsEndpoint root) = None"
    "pcfg_digest cfg = digest raw" "pcfg_logsEndpoint cfg = cr_LogsEndpoint root"
  using assms by (auto simp: parseConfig_def split: sum.splits outcome.splits option.splits)

lemma parseConfig_profiles_nonempty:
  assumes "parseConfig decode urlparse digest raw = Ret (Inr cfg)"
  shows "pcfg_profiles cfg \<noteq> []"
proof -
  from parseConfig_Inr[OF assms] obtain root protocols where
    d: "decodeConfig decode raw = Inr (root, protocols)" and
    p: "parseProfiles root protocols = Ret (Inr (pcfg_profiles cfg))" .
  from decodeConfig_counters[OF d] parseProfiles_from_nth[of root _ protocols] p show ?thesis
    by (fastforce simp: parseProfiles_def)
qed

section \<open>Cloned payloads\<close>

text \<open>Values in which every array has the shape of a JSON array.\<close>

fun normal_value :: "toml_value \<Rightarrow> bool" where
  "normal_value (VTable t) = list_all (\<lambda>(k, v). normal_value v) t"
| "normal_value (VArray vs) = list_all normal_value vs"
| "normal_value (VTableArray ts) = False"
| "normal_value (VStrings ss) = False"
| "normal_value v = True"

lemma cloneValue_normal: "normal_value (cloneValue v)"
  by (induction v rule: cloneValue.induct) (auto simp: list_all_iff)

lemma cloneValue_id: "normal_value v \<Longrightarrow> cloneValue v = v"
proof (induction v rule: cloneValue.induct)
  case (1 t)
  have "map (\<lambda>(k, v). (k, cloneValue v)) t = t"
  proof (rule map_idI)
    fix x assume "x \<in> set t"
    with 1 show "(case x of (k, v) \<Rightarrow> (k, cloneValue v)) = x"
      by (cases x) (auto simp: list_all_iff)
  qed
  then show ?case by simp
next
  case (2 vs)
  then show ?case by (auto simp: list_all_iff intro: map_idI)
qed auto

lemma map_of_CloneFields: "map_of (CloneFields t) k = map_option cloneValue (map_of t k)"
  by (simp add: CloneFields_def map_of_map)

lemma cloneValue_VTable: "cloneValue v = VTable t' \<Longrightarrow> \<exists>t. v = VTable t \<and> t' = CloneFields t"
  by (cases v) (auto simp: CloneFields_def)

lemma cloneValue_VBool [simp]: "cloneValue v = VBool b \<longleftrightarrow> v = VBool b"
  by (cases v) auto

section \<open>Decoding what was encoded\<close>

text \<open>
  A reference decoder for padded base64, used only to state that encoding loses nothing.
\<close>

definition b64_value :: "char \<Rightarrow> nat option" where
  "b64_value c = index_char b64_alphabet c"

fun b64_decode :: "string \<Rightarrow> string option" where
  "b64_decode [] = Some []"
| "b64_decode (a # b # c # d # rest) =
     (if c = CHR ''='' \<and> d = CHR ''='' \<and> rest = [] then
        (case (b64_value a, b64_value b) of
           (Some x, Some y) \<Rightarrow> Some [char_of ((x * 64 + y) div 16)]
         | _ \<Rightarrow> None)
      else if d = CHR ''='' \<and> rest = [] then
        (case (b64_value a, b64_value b, b64_value c) of
           (Some x, Some y, Some z) \<Rightarrow>
             (let n = (x * 4096 + y * 64 + z) div 4 in Some [char_of (n div 256), char_of (n mod 256)])
         | _ \<Rightarrow> None)
      else
        (case (b64_value a, b64_value b, b64_value c, b64_value d) of
           (Some x, Some y, Some z, Some u) \<Rightarrow>
             (let n = x * 262144 + y * 4096 + z * 64 + u
              in map_option (\<lambda>t. char_of (n div 65536) # char_of (n div 256 mod 256) # char_of (n mod 256) # t)
                   (b64_decode rest))
         | _ \<Rightarrow> None))"
| "b64_decode _ = None"

lemma b64_alphabet_list_all:
  "list_all (\<lambda>n. b64_value (b64_char n) = Some n \<and> b64_char n \<noteq> CHR ''='') [0..<64]"
  by code_simp

lemma b64_char_value [simp]: "n < 64 \<Longrightarrow> b64_value (b64_char n) = Some n"
  using b64_alphabet_list_all by (simp add: list_all_iff)

lemma b64_char_not_pad [simp]: "n < 64 \<Longrightarrow> b64_char n \<noteq> CHR ''=''"
  using b64_alphabet_list_all by (simp add: list_all_iff)

lemma of_char_lt: "(of_char c :: nat) < 256"
  using of_char_mod_256[of c] by (metis mod_less_divisor zero_less_numeral)

lemma recompose2: "(n :: nat) div 4096 * 4096 + n div 64 mod 64 * 64 + n mod 64 = n"
proof -
  have "n div 4096 = n div 64 div 64" by (simp add: div_mult2_eq[symmetric])
  moreover have "n div 64 div 64 * 64 + n div 64 mod 64 = n div 64" by simp
  moreover have "n div 64 * 64 + n mod 64 = n" by simp
  ultimately show ?thesis by linarith
qed

lemma recompose3: "(n :: nat) div 262144 * 262144 + n div 4096 mod 64 * 4096 + n div 64 mod 64 * 64 + n mod 64 = n"
proof -
  have "(n div 64) div 4096 * 4096 + (n div 64) div 64 mod 64 * 64 + (n div 64) mod 64 = n div 64"
    by (rule recompose2)
  moreover have "n div 64 div 4096 = n div 262144" "n div 64 div 64 = n div 4096"
    by (simp_all add: div_mult2_eq[symmetric])
  ultimately have "n div 262144 * 4096 + n div 4096 mod 64 * 64 + n div 64 mod 64 = n div 64" by simp
  then show ?thesis using div_mult_mod_eq[of n 64] by linarith
qed

lemma split256:
  fixes a b c :: nat assumes "b < 256" "c < 256"
  shows "((a * 256 + b) * 256 + c) div 65536 = a" "((a * 256 + b) * 256 + c) div 256 mod 256 = b" "((a * 256 + b) * 256 + c) mod 256 = c"
proof -
  have d: "((a * 256 + b) * 256 + c) div 256 = a * 256 + b"
    using div_mult_self3[of 256 "a*256+b" c] assms by simp
  show "((a * 256 + b) * 256 + c) mod 256 = c" using mod_mult_self3[of "a*256+b" 256 c] assms by simp
  show "((a * 256 + b) * 256 + c) div 256 mod 256 = b" unfolding d using mod_mult_self3[of a 256 b] assms by simp
  have "((a * 256 + b) * 256 + c) div 65536 = ((a * 256 + b) * 256 + c) div 256 div 256" by (simp add: div_mult2_eq[symmetric])
  then show "((a * 256 + b) * 256 + c) div 65536 = a" unfolding d using div_mult_self3[of 256 a b] assms by simp
qed

lemma b64_bounds:
  fixes a b c :: nat
  assumes "a < 256" "b < 256" "c < 256"
  shows "a * 16 div 64 < 64" "(a * 256 + b) * 4 div 4096 < 64" "((a * 256 + b) * 256 + c) div 262144 < 64"
  using assms by (auto intro!: less_mult_imp_div_less)

lemma b64_roundtrip: "b64_decode (b64_encode s) = Some s"
proof (induction s rule: b64_encode.induct)
  case 1
  show ?case by simp
next
  case (2 a)
  have "of_char a * 16 div 64 < (64::nat)" by (rule b64_bounds(1)[OF of_char_lt of_char_lt of_char_lt])
  moreover have "(of_char a * 16 div 64 * 64 + of_char a * 16 mod 64) div 16 = (of_char a :: nat)"
    by (simp only: div_mult_mod_eq)
  ultimately show ?case by (simp only: b64_encode.simps b64_decode.simps Let_def b64_char_value
        mod_less_divisor zero_less_numeral simp_thms if_True option.case prod.case char_of_char)
next
  case (3 a b)
  let ?n = "(of_char a * 256 + of_char b) * 4 :: nat"
  have "?n div 4096 < 64" by (rule b64_bounds(2)[OF of_char_lt of_char_lt of_char_lt])
  moreover have "?n div 4096 * 4096 + ?n div 64 mod 64 * 64 + ?n mod 64 = ?n" by (rule recompose2)
  moreover have "?n div 4 div 256 = of_char a" "?n div 4 mod 256 = of_char b"
    using of_char_lt[of b] by simp_all
  ultimately show ?case by (simp only: b64_encode.simps b64_decode.simps Let_def b64_char_value
        b64_char_not_pad mod_less_divisor zero_less_numeral simp_thms if_False if_True
        option.case prod.case char_of_char)
next
  case (4 a b c rest)
  let ?n = "(of_char a * 256 + of_char b) * 256 + of_char c :: nat"
  have b: "?n div 262144 < 64" by (rule b64_bounds(3)[OF of_char_lt of_char_lt of_char_lt])
  have r: "?n div 262144 * 262144 + ?n div 4096 mod 64 * 4096 + ?n div 64 mod 64 * 64 + ?n mod 64 = ?n"
    by (rule recompose3)
  have s: "?n div 65536 = of_char a" "?n div 256 mod 256 = of_char b" "?n mod 256 = of_char c"
    by (simp_all only: split256 of_char_lt)
  from 4 b show ?case
    by (simp only: b64_encode.simps b64_decode.simps Let_def b64_char_value append_Cons append_Nil
        b64_char_not_pad mod_less_divisor zero_less_numeral simp_thms if_False if_True r s
        option.case prod.case char_of_char option.map)
qed

fun hex_value :: "char \<Rightarrow> nat" where
  "hex_value c = (if is_digit c then of_char c - 48 else of_char c - 55)"

fun query_unescape :: "string \<Rightarrow> string" where
  "query_unescape [] = []"
| "query_unescape (c # s) =
     (if c = CHR ''%'' then
        (case s of h # l # rest \<Rightarrow> char_of (16 * hex_value h + hex_value l) # query_unescape rest
         | _ \<Rightarrow> c # query_unescape s)
      else if c = CHR ''+'' then CHR '' '' # query_unescape s
      else c # query_unescape s)"

lemma hex_digit_list_all: "list_all (\<lambda>n. hex_value (hex_digit n) = n) [0..<16]"
  by code_simp

lemma hex_digit_value: "n < 16 \<Longrightarrow> hex_value (hex_digit n) = n"
  using hex_digit_list_all by (simp add: list_all_iff)

lemma plain_not_escape: "is_alnum c \<or> c \<in> set ''-_.~'' \<Longrightarrow> c \<noteq> CHR ''%'' \<and> c \<noteq> CHR ''+''"
  by (auto simp: is_alnum_def is_digit_def)

lemma query_unescape_char: "query_unescape (query_escape_char c @ s) = c # query_unescape s"
proof -
  have "of_char c div 16 < (16::nat)" using of_char_lt[of c]
    by (intro less_mult_imp_div_less) linarith
  then have "hex_value (hex_digit (of_char c div 16)) = of_char c div 16"
    "hex_value (hex_digit (of_char c mod 16)) = of_char c mod 16"
    by (simp_all add: hex_digit_value del: hex_value.simps)
  then have h: "char_of (16 * hex_value (hex_digit (of_char c div 16)) + hex_value (hex_digit (of_char c mod 16))) = c"
    by (simp del: hex_value.simps)
  show ?thesis
  proof (cases "is_alnum c \<or> c \<in> set ''-_.~''")
    case True
    with plain_not_escape[OF True] show ?thesis by (simp add: query_escape_char_def)
  next
    case False
    with h show ?thesis by (simp add: query_escape_char_def del: hex_value.simps)
  qed
qed

lemma query_roundtrip: "query_unescape (query_escape s) = s"
  by (induction s) (simp_all add: query_escape_def query_unescape_char)


section \<open>Properties\<close>

text \<open>
  Parsing never panics, for any document and any TOML decoder: \<^verbatim>\<open>decodeConfig\<close> accepts a
  configuration only when the ordered section keys and the decoded slices have the same lengths,
  so \<^verbatim>\<open>nextProfile\<close> never indexes a slice out of range.
\<close>

theorem parseConfig_never_panics: "parseConfig decode urlparse digest raw \<noteq> Panic"
proof (cases "decodeConfig decode raw")
  case (Inl e)
  then show ?thesis by (simp add: parseConfig_def)
next
  case (Inr rp)
  obtain root protocols where rp: "rp = (root, protocols)" by (cases rp)
  from decodeConfig_counters[of decode raw root protocols] Inr rp
  have "parseProfiles root protocols \<noteq> Panic"
    by (simp add: parseProfiles_def parseProfiles_from_no_panic)
  with Inr rp show ?thesis
    by (auto simp: parseConfig_def split: outcome.splits sum.splits option.splits)
qed

text \<open>
  An accepted configuration has one profile per protocol section, at least one, in the order of
  the file: profile \<open>i\<close> has index \<open>i\<close> and the protocol of the \<open>i\<close>-th section key, is built from the
  next unread table of that section, and every profile carries the same excluded networks.
\<close>

theorem parseConfig_profiles_in_order:
  assumes "parseConfig decode urlparse digest raw = Ret (Inr cfg)"
    and "decode raw = Inr (root, md)"
  shows "pcfg_profiles cfg \<noteq> [] \<and> length (pcfg_profiles cfg) = length (protocol_keys md)
    \<and> (\<forall>i < length (protocol_keys md).
         let name = protocol_keys md ! i; k = count_list (take i (protocol_keys md)) name; p = pcfg_profiles cfg ! i
         in k < length (section_tables root name)
            \<and> profile_of_block root (section_tables root name ! k) (section_protocol name) i = Inr p
            \<and> rp_Summary p = \<lparr>ps_Index = as_int32 i, ps_Protocol = section_protocol name,
                               ps_Description = rawStringValue (section_tables root name ! k) ''Description''\<rparr>
            \<and> rp_ExcludeCIDRs p = cr_ExcludeIPs root)"
proof -
  from parseConfig_Inr[OF assms(1)] obtain root' protocols where
    d: "decodeConfig decode raw = Inr (root', protocols)" and
    p: "parseProfiles root' protocols = Ret (Inr (pcfg_profiles cfg))" .
  from decodeConfig_counters[OF d] assms(2) have
    r: "root' = root" "protocols = protocol_keys md" "protocols \<noteq> []" "counters_ok root (\<lambda>_. 0) protocols" by auto
  have shape: "rp_Summary q = \<lparr>ps_Index = as_int32 i, ps_Protocol = kind,
        ps_Description = rawStringValue block ''Description''\<rparr> \<and> rp_ExcludeCIDRs q = cr_ExcludeIPs root"
    if "profile_of_block root block kind i = Inr q" for q i kind block
    using that by (auto simp: profile_of_block_def description_of_def rawStringValue_def
        split: option.splits if_splits sum.splits toml_value.splits)
  from parseProfiles_from_nth[of root "\<lambda>_. 0" protocols 0] r p shape show ?thesis
    by (auto simp: parseProfiles_def Let_def)
qed

definition sample_root :: config_root where
  "sample_root = \<lparr>cr_LogsEndpoint = [], cr_ExcludeIPs = [''10.0.0.0/8''],
     cr_Outline = [[(''Server'', VString ''1.1.1.1''), (''Port'', VInt 443), (''Password'', VString ''pw'')]],
     cr_Xray = [[(''outbounds'', VTableArray [])]],
     cr_TrustTunnel = [[(''endpoint'', VTable [(''skip_verification'', VBool False)])]]\<rparr>"

definition sample_metadata :: toml_metadata where
  "sample_metadata = \<lparr>md_Keys = [[''ExcludeIPs''], [''ExcludeIPs'', ''IPs''], [''Xray''], [''Outline''], [''TrustTunnel'']],
     md_Type = (\<lambda>key. if key = [''ExcludeIPs''] then ''Hash'' else ''ArrayHash''), md_IsDefined = (\<lambda>_. False)\<rparr>"

definition sample_decode :: toml_decoder where
  "sample_decode raw = Inr (sample_root, sample_metadata)"

lemma sample_decodeConfig:
  "decodeConfig sample_decode ''x'' = Inr (sample_root, [''Xray'', ''Outline'', ''TrustTunnel''])"
  by (simp add: decodeConfig_def maxConfigBytes_def sample_decode_def sample_metadata_def sample_root_def
    protocol_keys_def is_section_def section_defs trim_space_def trim_with.simps strip_space_def space_seqs_def)

lemma sample_parseProfiles:
  "\<exists>ps. parseProfiles sample_root [''Xray'', ''Outline'', ''TrustTunnel''] = Ret (Inr ps)"
  by (simp add: parseProfiles_def parseProfile_def nextProfile_def section_tables_def section_protocol_def
    is_section_def section_defs sample_root_def profile_of_block_def check_cloak_def description_of_def
    normalizeProfile_def validateTrustTunnelVerification_def normalizeOutlineURL_def stringValue_def
    rawStringValue_def boolValue_def intString_def Let_def trim_space_def trim_with.simps strip_space_def space_seqs_def)

lemma sample_parseConfig:
  "\<exists>cfg. parseConfig sample_decode (\<lambda>_. Inl (Plain [])) (\<lambda>_. ''sha'') ''x'' = Ret (Inr cfg)"
proof -
  from sample_parseProfiles obtain ps where
    "parseProfiles sample_root [''Xray'', ''Outline'', ''TrustTunnel''] = Ret (Inr ps)" ..
  then show ?thesis
    by (simp add: parseConfig_def sample_decodeConfig validateLogsEndpoint_def sample_root_def)
qed

theorem parseConfig_profiles_in_order_witness:
  "\<exists>cfg. parseConfig sample_decode (\<lambda>_. Inl (Plain [])) (\<lambda>_. ''sha'') ''x'' = Ret (Inr cfg)
     \<and> length (pcfg_profiles cfg) = length (protocol_keys sample_metadata)"
proof -
  from sample_parseConfig obtain cfg where
    c: "parseConfig sample_decode (\<lambda>_. Inl (Plain [])) (\<lambda>_. ''sha'') ''x'' = Ret (Inr cfg)" ..
  from parseConfig_profiles_in_order[OF c, of sample_root sample_metadata] c show ?thesis
    by (auto simp: sample_decode_def)
qed

text \<open>Where an accepted profile comes from.\<close>

lemma parseConfig_profile_block:
  assumes "parseConfig decode urlparse digest raw = Ret (Inr cfg)" and "p \<in> set (pcfg_profiles cfg)"
  obtains root block kind i where "profile_of_block root block kind i = Inr p"
proof -
  from parseConfig_Inr[OF assms(1)] obtain root protocols where
    d: "decodeConfig decode raw = Inr (root, protocols)" and
    p: "parseProfiles root protocols = Ret (Inr (pcfg_profiles cfg))" .
  from assms(2) obtain i where i: "i < length (pcfg_profiles cfg)" "p = pcfg_profiles cfg ! i"
    by (auto simp: in_set_conv_nth)
  from decodeConfig_counters[OF d] parseProfiles_from_nth[of root "\<lambda>_. 0" protocols 0] p i that show ?thesis
    by (auto simp: parseProfiles_def Let_def)
qed

lemma profile_of_block_cases:
  assumes "profile_of_block root block kind i = Inr p"
  obtains (xray) "kind = ProtocolXray" "map_of block ''outbounds'' \<noteq> None"
      "rp_Config p = \<lparr>pc_OutlineURL = [], pc_Xray = Some (CloneFields block), pc_TrustTunnel = None\<rparr>"
    | (outline) url where "kind = ProtocolOutline" "normalizeOutlineURL block = Inr url"
      "rp_Config p = \<lparr>pc_OutlineURL = url, pc_Xray = None, pc_TrustTunnel = None\<rparr>"
    | (trusttunnel) "kind = ProtocolTrustTunnel" "validateTrustTunnelVerification block = None"
      "rp_Config p = \<lparr>pc_OutlineURL = [], pc_Xray = None, pc_TrustTunnel = Some (CloneFields block)\<rparr>"
  using assms
  by (cases kind) (auto simp: profile_of_block_def normalizeProfile_def split: option.splits sum.splits)

text \<open>
  C34. No accepted configuration can switch certificate verification off: a TrustTunnel profile of
  an accepted configuration has no top-level \<^verbatim>\<open>skip_verification\<close>, and where its endpoint table has
  one it is the boolean false, also in the payload handed to the runtime.
\<close>

theorem parseConfig_keeps_verification:
  assumes "parseConfig decode urlparse digest raw = Ret (Inr cfg)"
    and "p \<in> set (pcfg_profiles cfg)" and "pc_TrustTunnel (rp_Config p) = Some payload"
  shows "map_of payload ''skip_verification'' = None
    \<and> (\<forall>endpoint. map_of payload ''endpoint'' = Some (VTable endpoint) \<longrightarrow>
         map_of endpoint ''skip_verification'' \<in> {None, Some (VBool False)})"
proof -
  from parseConfig_profile_block[OF assms(1,2)] obtain root block kind i where
    "profile_of_block root block kind i = Inr p" .
  then show ?thesis
  proof (cases rule: profile_of_block_cases)
    case trusttunnel
    with assms(3) have "payload = CloneFields block" by simp
    with trusttunnel(2) show ?thesis
      by (auto simp: map_of_CloneFields map_of_map CloneFields_def validateTrustTunnelVerification_def dest!: cloneValue_VTable
          split: if_splits option.splits toml_value.splits)
  qed (use assms(3) in simp_all)
qed

definition sample_tt_root :: config_root where
  "sample_tt_root = \<lparr>cr_LogsEndpoint = [], cr_ExcludeIPs = [], cr_Outline = [], cr_Xray = [],
     cr_TrustTunnel = [[(''endpoint'', VTable [(''skip_verification'', VBool False)])]]\<rparr>"

definition sample_tt_decode :: toml_decoder where
  "sample_tt_decode raw = Inr (sample_tt_root, \<lparr>md_Keys = [[''TrustTunnel'']],
     md_Type = (\<lambda>_. ''ArrayHash''), md_IsDefined = (\<lambda>_. False)\<rparr>)"

definition sample_tt_profile :: runtime_profile where
  "sample_tt_profile = \<lparr>rp_Summary = \<lparr>ps_Index = as_int32 0, ps_Protocol = ProtocolTrustTunnel, ps_Description = []\<rparr>,
     rp_Config = \<lparr>pc_OutlineURL = [], pc_Xray = None,
        pc_TrustTunnel = Some [(''endpoint'', VTable [(''skip_verification'', VBool False)])]\<rparr>, rp_ExcludeCIDRs = []\<rparr>"

lemma sample_tt_parse:
  "parseConfig sample_tt_decode (\<lambda>_. Inl (Plain [])) (\<lambda>_. ''sha'') ''x'' =
     Ret (Inr \<lparr>pcfg_digest = ''sha'', pcfg_profiles = [sample_tt_profile], pcfg_logsEndpoint = []\<rparr>)"
  by (simp add: parseConfig_def decodeConfig_def maxConfigBytes_def sample_tt_decode_def sample_tt_root_def
    protocol_keys_def is_section_def section_defs trim_space_def trim_with.simps strip_space_def space_seqs_def
    parseProfiles_def parseProfile_def nextProfile_def section_tables_def section_protocol_def
    profile_of_block_def check_cloak_def description_of_def normalizeProfile_def CloneFields_def
    validateTrustTunnelVerification_def validateLogsEndpoint_def sample_tt_profile_def)

theorem parseConfig_keeps_verification_witness:
  "map_of [(''endpoint'', VTable [(''skip_verification'', VBool False)])] ''skip_verification'' = None"
  using parseConfig_keeps_verification[OF sample_tt_parse, of sample_tt_profile
      "[(''endpoint'', VTable [(''skip_verification'', VBool False)])]"]
  by (simp add: sample_tt_profile_def)

text \<open>
  The payload handed to a protocol runtime is normal: exactly the payload of the profile's
  protocol is set, it is not empty, and cloning it again changes nothing, so every array in it
  has the one shape the protocol encoders expect.
\<close>

theorem parseConfig_payload_normal:
  assumes "parseConfig decode urlparse digest raw = Ret (Inr cfg)" and "p \<in> set (pcfg_profiles cfg)"
  shows "(pc_Xray (rp_Config p) \<noteq> None \<or> pc_TrustTunnel (rp_Config p) \<noteq> None) = (pc_OutlineURL (rp_Config p) = [])
    \<and> (pc_Xray (rp_Config p) = None \<or> pc_TrustTunnel (rp_Config p) = None)
    \<and> map_option CloneFields (pc_Xray (rp_Config p)) = pc_Xray (rp_Config p)
    \<and> map_option CloneFields (pc_TrustTunnel (rp_Config p)) = pc_TrustTunnel (rp_Config p)"
proof -
  have idem: "CloneFields (CloneFields t) = CloneFields t" for t
    by (auto simp: CloneFields_def cloneValue_id[OF cloneValue_normal])
  have url: "u \<noteq> []" if "normalizeOutlineURL b = Inr u" for b u
    using that by (auto simp: normalizeOutlineURL_def Let_def split: if_splits)
  from parseConfig_profile_block[OF assms] obtain root block kind i where
    "profile_of_block root block kind i = Inr p" .
  then show ?thesis
    by (cases rule: profile_of_block_cases) (simp_all add: idem url)
qed

theorem parseConfig_payload_normal_witness:
  "pc_Xray (rp_Config sample_tt_profile) = None \<or> pc_TrustTunnel (rp_Config sample_tt_profile) = None"
  using parseConfig_payload_normal[OF sample_tt_parse, of sample_tt_profile] by simp

section \<open>Reading an Outline URL back\<close>

text \<open>
  The part of an Outline URL between \<^verbatim>\<open>ss://\<close> and \<^verbatim>\<open>@\<close> is base64, which has no \<^verbatim>\<open>@\<close>, so a client splits
  it off without ambiguity.
\<close>

definition outline_userinfo :: "string \<Rightarrow> string option" where
  "outline_userinfo ssURL = b64_decode (before_char (trim_prefix ssURL ''ss://'') (CHR ''@''))"

definition outline_address :: "string \<Rightarrow> string" where
  "outline_address ssURL = drop 1 (dropWhile (\<lambda>c. c \<noteq> CHR ''@'') ssURL)"

lemma b64_char_in: "n < 64 \<Longrightarrow> b64_char n \<in> set b64_alphabet"
  unfolding b64_char_def by (rule nth_mem) (simp add: b64_alphabet_def)

lemma b64_encode_chars: "c \<in> set (b64_encode s) \<Longrightarrow> c \<in> insert (CHR ''='') (set b64_alphabet)"
proof (induction s rule: b64_encode.induct)
  case (4 a b c rest)
  have "((of_char a * 256 + of_char b) * 256 + of_char c) div 262144 < (64::nat)"
    by (rule b64_bounds(3)[OF of_char_lt of_char_lt of_char_lt])
  with 4 show ?case by (auto simp: Let_def b64_char_in simp del: char_of_eq_iff)
next
  case (3 a b)
  have "(of_char a * 256 + of_char b) * 4 div 4096 < (64::nat)"
    by (rule b64_bounds(2)[OF of_char_lt of_char_lt of_char_lt])
  with 3 show ?case by (auto simp: Let_def b64_char_in)
next
  case (2 a)
  have "of_char a * 16 div 64 < (64::nat)"
    by (rule b64_bounds(1)[OF of_char_lt of_char_lt of_char_lt])
  with 2 show ?case by (auto simp: Let_def b64_char_in)
qed simp

lemma b64_encode_no_at: "CHR ''@'' \<notin> set (b64_encode s)"
  using b64_encode_chars[of "CHR ''@''" s] by (auto simp: b64_alphabet_def)

lemma guarded_Inr: "(if a then Inl x else if b then Inl y else if c then Inl z else Inr u) = Inr v \<Longrightarrow> v = u"
  by (auto split: if_splits)

definition outline_method :: "table \<Rightarrow> string" where
  "outline_method block =
     (let m = stringValue block ''Method'' in if m = [] then ''chacha20-ietf-poly1305'' else m)"

definition outline_port :: "table \<Rightarrow> string" where
  "outline_port block =
     (let p = intString (map_of block ''Port'') in if p = [] \<and> boolValue block ''WebSocket'' then ''443'' else p)"

text \<open>
  C35. An Outline block is accepted exactly when it has a password, a server and a port (443 stands in
  for a missing port of a WebSocket profile), and the URL loses nothing: behind the optional
  WebSocket wrapper is an \<^verbatim>\<open>ss://\<close> URL whose user info decodes to method and password and whose address
  is server and port followed by the disguise prefix, which unescapes to the configured bytes.
\<close>

theorem normalizeOutlineURL_recoverable:
  "((\<exists>url. normalizeOutlineURL block = Inr url) \<longleftrightarrow>
      stringValue block ''Password'' \<noteq> [] \<and> stringValue block ''Server'' \<noteq> [] \<and> outline_port block \<noteq> [])
   \<and> (\<forall>url. normalizeOutlineURL block = Inr url \<longrightarrow>
       (\<exists>ss wrapper tail escaped. url = wrapper @ ss
          \<and> (wrapper = [] \<longleftrightarrow> \<not> boolValue block ''WebSocket'')
          \<and> has_prefix ss ''ss://''
          \<and> outline_userinfo ss = Some (outline_method block @ '':'' @ stringValue block ''Password'')
          \<and> outline_address ss = stringValue block ''Server'' @ '':'' @ outline_port block @ tail
          \<and> query_unescape escaped = rawStringValue block ''DisguisePrefix''
          \<and> (if rawStringValue block ''DisguisePrefix'' = [] then tail = []
             else tail \<in> {''?prefix='' @ escaped, ''&prefix='' @ escaped})))"
proof -
  let ?pw = "stringValue block ''Password''" and ?sv = "stringValue block ''Server''"
  let ?sp = "?sv @ '':'' @ outline_port block" and ?pre = "rawStringValue block ''DisguisePrefix''"
  let ?tail = "if ?pre \<noteq> [] then (if contains_char ?sp (CHR ''?'') then ''&'' else ''?'') @ ''prefix='' @ query_escape ?pre else []"
  let ?ss = "''ss://'' @ b64_encode (outline_method block @ '':'' @ ?pw) @ ''@'' @ ?sp @ ?tail"
  let ?base = "trim_right_char (stringValue block ''WebSocketPath'') (CHR ''/'')"
  let ?wrap = "if \<not> boolValue block ''WebSocket'' then [] else
      ''tls:sni='' @ outlineHost ?sp @ ''|ws:'' @ join_strings ''&'' (if ?base \<noteq> []
        then [''tcp_path='' @ ?base @ ''/tcp'', ''udp_path='' @ ?base @ ''/udp''] else []) @ ''|''"
  have shape: "normalizeOutlineURL block =
      (if ?pw = [] then Inl (failure FailureMalformedConfig ''Outline profile requires a password'')
       else if ?sv = [] then Inl (failure FailureMalformedConfig ''Outline profile requires a server'')
       else if outline_port block = [] then Inl (failure FailureMalformedConfig ''Outline profile requires a port'')
       else Inr (?wrap @ ?ss))"
    by (simp add: normalizeOutlineURL_def outline_method_def outline_port_def Let_def)
  have user: "outline_userinfo ?ss = Some (outline_method block @ '':'' @ ?pw)"
    by (simp add: outline_userinfo_def trim_prefix_def has_prefix_def before_char_def takeWhile_append
        b64_encode_no_at b64_roundtrip)
  have addr: "outline_address ?ss = ?sv @ '':'' @ outline_port block @ ?tail"
    by (simp add: outline_address_def dropWhile_append b64_encode_no_at)
  have tail: "if ?pre = [] then ?tail = [] else ?tail \<in> {''?prefix='' @ query_escape ?pre, ''&prefix='' @ query_escape ?pre}"
    by simp
  have wrap: "?wrap = [] \<longleftrightarrow> \<not> boolValue block ''WebSocket''" by simp
  have pre: "has_prefix ?ss ''ss://''" by (simp add: has_prefix_def)
  have "\<exists>ss wrapper tail escaped. ?wrap @ ?ss = wrapper @ ss
          \<and> (wrapper = [] \<longleftrightarrow> \<not> boolValue block ''WebSocket'') \<and> has_prefix ss ''ss://''
          \<and> outline_userinfo ss = Some (outline_method block @ '':'' @ ?pw)
          \<and> outline_address ss = ?sv @ '':'' @ outline_port block @ tail
          \<and> query_unescape escaped = ?pre
          \<and> (if ?pre = [] then tail = [] else tail \<in> {''?prefix='' @ escaped, ''&prefix='' @ escaped})"
    by (intro exI conjI, rule refl, rule wrap, rule pre, rule user, rule addr, rule query_roundtrip, rule tail)
  moreover have "url = ?wrap @ ?ss" if "normalizeOutlineURL block = Inr url" for url
    using that unfolding shape by (rule guarded_Inr)
  moreover have "(\<exists>url. normalizeOutlineURL block = Inr url) \<longleftrightarrow> ?pw \<noteq> [] \<and> ?sv \<noteq> [] \<and> outline_port block \<noteq> []"
    unfolding shape by simp
  ultimately show ?thesis by blast
qed

definition sample_outline :: table where
  "sample_outline = [(''Server'', VString ''1.1.1.1''), (''Port'', VInt 443), (''Password'', VString ''pw'')]"

theorem normalizeOutlineURL_recoverable_witness:
  "\<exists>url. normalizeOutlineURL sample_outline = Inr url
     \<and> outline_userinfo url = Some (''chacha20-ietf-poly1305'' @ '':'' @ ''pw'')"
proof -
  note eval = sample_outline_def stringValue_def rawStringValue_def boolValue_def outline_port_def outline_method_def
    intString_def Let_def trim_space_def trim_with.simps strip_space_def space_seqs_def
  have v: "stringValue sample_outline ''Password'' = ''pw''" "stringValue sample_outline ''Server'' = ''1.1.1.1''"
    "outline_method sample_outline = ''chacha20-ietf-poly1305''" "outline_port sample_outline \<noteq> []"
    "\<not> boolValue sample_outline ''WebSocket''"
    by (simp_all add: eval)
  from normalizeOutlineURL_recoverable[of sample_outline] v obtain url where
    u: "normalizeOutlineURL sample_outline = Inr url" by auto
  with normalizeOutlineURL_recoverable[of sample_outline, THEN conjunct2, rule_format, OF u] v
  show ?thesis by auto
qed

end
