(* ===== verification/Release_Loop.thy ===== *)
theory Release_Loop
  imports Go_Errors
begin

text \<open>
  Ordered release of owned resources. Four owners of the program keep a list of releases and run
  it to the end, stopping at the first failure and keeping what has not been released: the
  manager's \<^verbatim>\<open>ledger\<close> (\<^verbatim>\<open>core/sessionapi/api.go\<close>), the routing \<^verbatim>\<open>Plan\<close> (\<^verbatim>\<open>core/routing/plan.go\<close>), the
  native \<^verbatim>\<open>App\<close> (\<^verbatim>\<open>core/sessionapi/runtime/internal/app.go\<close>) and the runtime \<^verbatim>\<open>lease\<close>. Their common
  contract is the locale \<open>release_loop\<close>; each owner is an interpretation of it.

  A release is a token \<open>'c\<close> whose effect \<open>run c\<close> maps the world to a new world and a nil or
  non-nil error. What the closures do is outside these owners, so \<open>run\<close> is a parameter.
\<close>

section \<open>The contract\<close>

type_synonym ('c, 'w) runner = "'c \<Rightarrow> 'w \<Rightarrow> 'w \<times> go_error option"

text \<open>A sequence of releases that all succeed, from one world to another.\<close>

fun runs_ok :: "('c, 'w) runner \<Rightarrow> 'c list \<Rightarrow> 'w \<Rightarrow> 'w \<Rightarrow> bool" where
  "runs_ok run [] w w' = (w = w')"
| "runs_ok run (c # cs) w w' = (case run c w of (w1, None) \<Rightarrow> runs_ok run cs w1 w' | (w1, Some e) \<Rightarrow> False)"

lemma runs_ok_append:
  "runs_ok run (xs @ ys) w w' \<longleftrightarrow> (\<exists>w1. runs_ok run xs w w1 \<and> runs_ok run ys w1 w')"
  by (induction xs arbitrary: w) (auto split: prod.splits option.splits)

locale release_loop =
  fixes order :: "'l \<Rightarrow> 'c list"
    and run :: "'c \<Rightarrow> 'w \<Rightarrow> 'w \<times> go_error option"
    and exec :: "'l \<Rightarrow> 'w \<Rightarrow> 'l \<times> 'w \<times> go_error option"
  assumes exec_done: "order l = [] \<Longrightarrow> \<exists>l'. exec l w = (l', w, None) \<and> order l' = []"
    and exec_fail: "order l = c # cs \<Longrightarrow> run c w = (w', Some e) \<Longrightarrow>
          \<exists>l' e'. exec l w = (l', w', Some e') \<and> order l' = c # cs"
    and exec_step: "order l = c # cs \<Longrightarrow> run c w = (w', None) \<Longrightarrow>
          \<exists>l'. exec l w = exec l' w' \<and> order l' = cs"
begin

text \<open>What one call does, whatever the closures do.\<close>

lemma exec_spec:
  assumes "exec l w = (l', w', r)"
  shows "\<exists>gone w1. order l = gone @ order l' \<and> runs_ok run gone w w1
    \<and> (case r of None \<Rightarrow> order l' = [] \<and> w' = w1
       | Some e \<Rightarrow> \<exists>c cs e'. order l' = c # cs \<and> run c w1 = (w', Some e'))"
  using assms
proof (induction "order l" arbitrary: l w)
  case Nil
  with exec_done[of l w] have "order l' = []" "r = None" "w' = w" by auto
  with Nil show ?case by (auto intro: exI[of _ "[]"])
next
  case (Cons c cs)
  obtain w2 r2 where run: "run c w = (w2, r2)" by (cases "run c w")
  show ?case
  proof (cases r2)
    case None
    from exec_step[OF Cons.hyps(2)[symmetric]] run None obtain l2
      where l2: "exec l w = exec l2 w2" "order l2 = cs" by blast
    from Cons.hyps(1)[of l2 w2] l2 Cons.prems obtain gone w1
      where d: "order l2 = gone @ order l'" "runs_ok run gone w2 w1"
        "case r of None \<Rightarrow> order l' = [] \<and> w' = w1
         | Some e \<Rightarrow> \<exists>c cs e'. order l' = c # cs \<and> run c w1 = (w', Some e')" by auto
    from d l2 Cons.hyps(2) run None show ?thesis
      by (intro exI[of _ "c # gone"] exI[of _ w1]) auto
  next
    case (Some e)
    from exec_fail[OF Cons.hyps(2)[symmetric]] run Some obtain l2 e2
      where "exec l w = (l2, w2, Some e2)" "order l2 = c # cs" by blast
    with Cons.prems have r: "r = Some e2" "w' = w2" "order l' = c # cs" by auto
    have "run c w = (w', Some e)" using run Some r by simp
    with r have "\<exists>c cs e'. order l' = c # cs \<and> run c w = (w', Some e')" by blast
    with r Cons.hyps(2) show ?thesis
      by (intro exI[of _ "[]"] exI[of _ w]) simp
  qed
qed

lemma exec_None_iff:
  "(\<exists>l' w'. exec l w = (l', w', None)) \<longleftrightarrow> (\<exists>w'. runs_ok run (order l) w w')"
proof
  assume "\<exists>l' w'. exec l w = (l', w', None)"
  then show "\<exists>w'. runs_ok run (order l) w w'" by (auto dest!: exec_spec)
next
  assume "\<exists>w'. runs_ok run (order l) w w'"
  then obtain w' where "runs_ok run (order l) w w'" by blast
  then show "\<exists>l' w'. exec l w = (l', w', None)"
  proof (induction "order l" arbitrary: l w)
    case Nil
    with exec_done[of l w] show ?case by auto
  next
    case (Cons c cs)
    then obtain w2 where run: "run c w = (w2, None)" and rest: "runs_ok run cs w2 w'"
      by (auto simp flip: Cons.hyps(2) split: prod.splits option.splits)
    from exec_step[OF Cons.hyps(2)[symmetric] run] obtain l2
      where "exec l w = exec l2 w2" "order l2 = cs" by blast
    with Cons.hyps(1)[of l2 w2] rest show ?case by auto
  qed
qed

lemma exec_success: "exec l w = (l', w', None) \<Longrightarrow> order l' = [] \<and> runs_ok run (order l) w w'"
  by (auto dest!: exec_spec)

text \<open>
  A failed call can be retried in any later world: the two calls together run every release
  successfully exactly once and in order, the failed one included.
\<close>

lemma exec_retry:
  assumes "exec l w = (l1, w1, Some e)" and "exec l1 w2 = (l2, w3, None)"
  shows "\<exists>gone rest wm. order l = gone @ rest \<and> rest \<noteq> [] \<and> order l2 = []
      \<and> runs_ok run gone w wm \<and> runs_ok run rest w2 w3"
proof -
  from exec_spec[OF assms(1)] obtain gone wm where
    d: "order l = gone @ order l1" "runs_ok run gone w wm" "order l1 \<noteq> []" by auto
  from exec_success[OF assms(2)] d show ?thesis by blast
qed

lemma exec_idle: "order l = [] \<Longrightarrow> exec l w = (l', w', r) \<Longrightarrow> w' = w \<and> r = None \<and> order l' = []"
  using exec_done[of l w] by auto

end

section \<open>The manager's ledger\<close>

definition ledger_push :: "'c list \<Rightarrow> 'c \<Rightarrow> 'c list" where
  "ledger_push l c = l @ [c]"

function ledger_release :: "('c, 'w) runner \<Rightarrow> 'c list \<Rightarrow> 'w \<Rightarrow> 'c list \<times> 'w \<times> go_error option" where
  "ledger_release run l w =
     (if 0 < length l then
        (let i = length l - 1 in
         case run (l ! i) w of
           (w', Some err) \<Rightarrow> (l, w', Some err)
         | (w', None) \<Rightarrow> ledger_release run (take i l) w')
      else (l, w, None))"
  by pat_completeness auto
termination
  by (relation "measure (\<lambda>(run, l, w). length l)") auto

declare ledger_release.simps [simp del]

lemma ledger_release_Nil [simp]: "ledger_release run [] w = ([], w, None)"
  by (simp add: ledger_release.simps)

lemma ledger_release_snoc [simp]:
  "ledger_release run (l @ [c]) w =
     (case run c w of (w', Some err) \<Rightarrow> (l @ [c], w', Some err)
      | (w', None) \<Rightarrow> ledger_release run l w')"
  by (simp add: ledger_release.simps[of run "l @ [c]"] nth_append Let_def)

interpretation ledger: release_loop rev run "ledger_release run" for run
proof
  fix l :: "'a list" and w :: 'b
  assume "rev l = []"
  then show "\<exists>l'. ledger_release run l w = (l', w, None) \<and> rev l' = []" by simp
next
  fix l :: "'a list" and c cs and w w' :: 'b and e
  assume l: "rev l = c # cs" and run: "run c w = (w', Some e)"
  from l have "l = rev cs @ [c]" by (simp add: rev_eq_Cons_iff)
  with run show "\<exists>l' e'. ledger_release run l w = (l', w', Some e') \<and> rev l' = c # cs"
    by auto
next
  fix l :: "'a list" and c cs and w w' :: 'b
  assume l: "rev l = c # cs" and run: "run c w = (w', None)"
  from l have "l = rev cs @ [c]" by (simp add: rev_eq_Cons_iff)
  with run show "\<exists>l'. ledger_release run l w = ledger_release run l' w' \<and> rev l' = cs"
    by (intro exI[of _ "rev cs"]) auto
qed

text \<open>What a ledger holds after a call, without reference to the world.\<close>

lemma ledger_release_suffix: "ledger_release run l w = (l', w', r) \<Longrightarrow> \<exists>gone. l = l' @ gone"
  by (drule ledger.exec_spec) (metis rev_append rev_rev_ident)

lemma ledger_release_ok: "ledger_release run l w = (l', w', None) \<Longrightarrow> l' = []"
  by (drule ledger.exec_success) simp

section \<open>The native application's cleanup transaction\<close>

text \<open>
  \<^verbatim>\<open>App.Close\<close> runs its list front to back. A panicking release is caught and reported like a failure,
  so it is a \<open>Some\<close> result of \<open>run\<close> here; \<^verbatim>\<open>cleanupErr\<close> remembers the last failure.
\<close>

record ('c, 'x) app =
  app_cleanup :: "'c list"
  app_cleanupErr :: "go_error option"
  app_cleanupContext :: "'x option"

definition app_setCleanup :: "'c list \<Rightarrow> ('c, 'x) app \<Rightarrow> ('c, 'x) app" where
  "app_setCleanup releases app = app\<lparr>app_cleanup := releases\<rparr>"

function app_close :: "('c, 'w) runner \<Rightarrow> ('c, 'x) app \<Rightarrow> 'w \<Rightarrow> ('c, 'x) app \<times> 'w \<times> go_error option" where
  "app_close run app w = (case app_cleanup app of
       [] \<Rightarrow> (app\<lparr>app_cleanupErr := None\<rparr>, w, None)
     | c # cs \<Rightarrow> (case run c w of
           (w', Some err) \<Rightarrow> (app\<lparr>app_cleanupErr := Some err\<rparr>, w', Some (CleanupFailure err))
         | (w', None) \<Rightarrow> app_close run (app\<lparr>app_cleanup := cs\<rparr>) w'))"
  by pat_completeness auto
termination
  by (relation "measure (\<lambda>(run, app, w). length (app_cleanup app))") auto

declare app_close.simps [simp del]

definition app_SetCleanupContext :: "'x \<Rightarrow> ('c, 'x) app \<Rightarrow> ('c, 'x) app" where
  "app_SetCleanupContext ctx app = app\<lparr>app_cleanupContext := Some ctx\<rparr>"

definition app_CleanupError :: "('c, 'x) app \<Rightarrow> go_error option" where
  "app_CleanupError app = app_cleanupErr app"

lemma app_close_Nil: "app_cleanup app = [] \<Longrightarrow> app_close run app w = (app\<lparr>app_cleanupErr := None\<rparr>, w, None)"
  by (simp add: app_close.simps)

lemma app_close_Cons:
  "app_cleanup app = c # cs \<Longrightarrow> app_close run app w = (case run c w of
      (w', Some err) \<Rightarrow> (app\<lparr>app_cleanupErr := Some err\<rparr>, w', Some (CleanupFailure err))
    | (w', None) \<Rightarrow> app_close run (app\<lparr>app_cleanup := cs\<rparr>) w')"
  by (simp add: app_close.simps[of run app w])

interpretation native_app: release_loop app_cleanup run "app_close run" for run
  by unfold_locales (force simp: app_close_Nil app_close_Cons)+

lemma app_close_error:
  "app_close run app w = (app', w', r) \<Longrightarrow>
     (r = None \<longleftrightarrow> app_CleanupError app' = None) \<and> (\<forall>e. r = Some e \<longrightarrow> as_cleanup e)"
proof (induction run app w rule: app_close.induct)
  case (1 run app w)
  show ?case
  proof (cases "app_cleanup app")
    case Nil
    with "1.prems" show ?thesis by (auto simp: app_close.simps app_CleanupError_def)
  next
    case (Cons c cs)
    obtain w1 r1 where "run c w = (w1, r1)" by (cases "run c w")
    with Cons "1" show ?thesis
      by (cases r1) (auto simp: app_close.simps[of run app w] app_CleanupError_def)
  qed
qed

text \<open>
  \<^verbatim>\<open>finishCleanup\<close>: close with the network owner's cleanup context where one was supplied, else with
  the one \<open>derive\<close> (\<^verbatim>\<open>sessionapi.CleanupContext\<close>) gives for the run's own context, and join a cleanup
  failure to the error the run ended with.
\<close>

definition app_finishCleanup ::
  "('x \<Rightarrow> 'x) \<Rightarrow> ('x \<Rightarrow> ('c, 'w) runner) \<Rightarrow> ('c, 'x) app \<Rightarrow> 'x \<Rightarrow> 'w \<Rightarrow> go_error option
     \<Rightarrow> ('c, 'x) app \<times> 'w \<times> go_error option" where
  "app_finishCleanup derive run app ctx w runErr =
     (let cleanupCtx = (case app_cleanupContext app of None \<Rightarrow> derive ctx | Some c \<Rightarrow> c)
      in case app_close (run cleanupCtx) app w of
        (app', w', Some err) \<Rightarrow> (app', w', errors_join [runErr, Some err])
      | (app', w', None) \<Rightarrow> (app', w', runErr))"

section \<open>The routing plan\<close>

text \<open>
  A plan owns leases in acquisition order. A lease is shared with the caller that acquired it, who
  may close it on its own; its \<^verbatim>\<open>closed\<close> flag makes every later close a no-op.
\<close>

record 'c lease =
  le_name :: string
  le_closed :: bool
  le_release :: 'c
  le_repair :: "'c option"

record 'c plan =
  pl_sessionID :: string
  pl_closed :: bool
  pl_leases :: "'c lease list"

definition NewPlan :: "string \<Rightarrow> 'c plan" where
  "NewPlan sessionID = \<lparr>pl_sessionID = sessionID, pl_closed = False, pl_leases = []\<rparr>"

definition Plan_Acquire ::
  "('c, 'w) runner \<Rightarrow> 'c plan \<Rightarrow> string \<Rightarrow> 'c option \<Rightarrow> 'c option \<Rightarrow> 'w \<Rightarrow> 'c plan \<times> 'w \<times> (go_error + 'c lease)" where
  "Plan_Acquire run p name apply_fn release w = (case (apply_fn, release) of
       (Some ap, Some rel) \<Rightarrow>
         if pl_closed p then
           (p, w, Inl (Plain (''routing plan '' @ go_quote (pl_sessionID p) @ '' is already closed'')))
         else (case run ap w of
             (w', Some err) \<Rightarrow> (p, w', Inl (Wrap (''routing plan '' @ go_quote (pl_sessionID p) @ '' acquire '' @ name @ '': '') err))
           | (w', None) \<Rightarrow>
               (let lease = \<lparr>le_name = name, le_closed = False, le_release = rel, le_repair = None\<rparr>
                in (p\<lparr>pl_leases := pl_leases p @ [lease]\<rparr>, w', Inr lease)))
     | _ \<Rightarrow> (p, w, Inl (Plain (''routing plan '' @ go_quote (pl_sessionID p) @ '': '' @ name @ '' requires apply and release''))))"

definition Lease_Close :: "('c, 'w) runner \<Rightarrow> 'c lease \<Rightarrow> 'w \<Rightarrow> 'c lease \<times> 'w \<times> go_error option" where
  "Lease_Close run l w =
     (if le_closed l then (l, w, None)
      else (case run (le_release l) w of
          (w', Some err) \<Rightarrow> (l, w', Some err)
        | (w', None) \<Rightarrow> (l\<lparr>le_closed := True\<rparr>, w', None)))"

function plan_release :: "('c, 'w) runner \<Rightarrow> 'c lease list \<Rightarrow> 'w \<Rightarrow> 'c lease list \<times> 'w \<times> go_error option" where
  "plan_release run ls w =
     (if 0 < length ls then
        (let index = length ls - 1; lease = ls ! index in
         case Lease_Close run lease w of
           (lease', w', Some err) \<Rightarrow> (ls[index := lease'], w', Some (Wrap (le_name lease @ '': '') err))
         | (lease', w', None) \<Rightarrow> plan_release run (take index ls) w')
      else (ls, w, None))"
  by pat_completeness auto
termination
  by (relation "measure (\<lambda>(run, ls, w). length ls)") auto

declare plan_release.simps [simp del]

definition Plan_Close :: "('c, 'w) runner \<Rightarrow> 'c plan \<Rightarrow> 'w \<Rightarrow> 'c plan \<times> 'w \<times> go_error option" where
  "Plan_Close run p w =
     (case plan_release run (pl_leases p) w of
        (ls, w', r) \<Rightarrow> (p\<lparr>pl_closed := True, pl_leases := ls\<rparr>, w', r))"

text \<open>\<^verbatim>\<open>Repair\<close> runs every repair callback in acquisition order until one fails.\<close>

fun repair_leases ::
  "('c \<Rightarrow> 'w \<Rightarrow> 'w \<times> bool \<times> go_error option) \<Rightarrow> 'c lease list \<Rightarrow> bool \<Rightarrow> 'w \<Rightarrow> 'w \<times> bool \<times> go_error option" where
  "repair_leases rep [] repaired w = (w, repaired, None)"
| "repair_leases rep (l # ls) repaired w =
     (case (case le_repair l of None \<Rightarrow> (w, False, None) | Some r \<Rightarrow> rep r w) of
        (w', changed, Some err) \<Rightarrow> (w', repaired, Some err)
      | (w', changed, None) \<Rightarrow> repair_leases rep ls (repaired \<or> changed) w')"

definition Plan_Repair ::
  "('c \<Rightarrow> 'w \<Rightarrow> 'w \<times> bool \<times> go_error option) \<Rightarrow> 'c plan \<Rightarrow> 'w \<Rightarrow> 'w \<times> bool \<times> go_error option" where
  "Plan_Repair rep p w =
     (if pl_closed p then (w, False, None) else repair_leases rep (pl_leases p) False w)"

definition plan_order :: "'c plan \<Rightarrow> 'c list" where
  "plan_order p = map le_release (filter (\<lambda>l. \<not> le_closed l) (rev (pl_leases p)))"

lemma plan_release_Nil [simp]: "plan_release run [] w = ([], w, None)"
  by (simp add: plan_release.simps)

lemma plan_release_snoc [simp]:
  "plan_release run (ls @ [l]) w =
     (case Lease_Close run l w of
        (l', w', Some err) \<Rightarrow> (ls @ [l'], w', Some (Wrap (le_name l @ '': '') err))
      | (l', w', None) \<Rightarrow> plan_release run ls w')"
  by (simp add: plan_release.simps[of run "ls @ [l]"] nth_append Let_def list_update_append)

abbreviation lease_order :: "'c lease list \<Rightarrow> 'c list" where
  "lease_order ls \<equiv> map le_release (filter (\<lambda>l. \<not> le_closed l) (rev ls))"

lemma plan_release_done:
  "lease_order ls = [] \<Longrightarrow> plan_release run ls w = ([], w, None)"
  by (induction ls rule: rev_induct) (auto simp: Lease_Close_def split: if_splits)

lemma plan_release_fail:
  "lease_order ls = c # cs \<Longrightarrow> run c w = (w', Some e) \<Longrightarrow>
     \<exists>ls' e'. plan_release run ls w = (ls', w', Some e') \<and> lease_order ls' = c # cs"
  by (induction ls rule: rev_induct) (auto simp: Lease_Close_def split: if_splits)

lemma plan_release_step:
  "lease_order ls = c # cs \<Longrightarrow> run c w = (w', None) \<Longrightarrow>
     \<exists>ls'. plan_release run ls w = plan_release run ls' w' \<and> lease_order ls' = cs"
  by (induction ls rule: rev_induct) (auto simp: Lease_Close_def split: if_splits)

interpretation routing_plan: release_loop plan_order run "Plan_Close run" for run
proof
  fix l :: "'a plan" and w :: 'b
  assume "plan_order l = []"
  then show "\<exists>l'. Plan_Close run l w = (l', w, None) \<and> plan_order l' = []"
    by (simp add: Plan_Close_def plan_order_def plan_release_done)
next
  fix l :: "'a plan" and c cs and w w' :: 'b and e
  assume "plan_order l = c # cs" "run c w = (w', Some e)"
  then show "\<exists>l' e'. Plan_Close run l w = (l', w', Some e') \<and> plan_order l' = c # cs"
    using plan_release_fail[of "pl_leases l" c cs run w w' e]
    by (auto simp: Plan_Close_def plan_order_def)
next
  fix l :: "'a plan" and c cs and w w' :: 'b
  assume "plan_order l = c # cs" "run c w = (w', None)"
  then obtain ls' where "plan_release run (pl_leases l) w = plan_release run ls' w'" "lease_order ls' = cs"
    using plan_release_step[of "pl_leases l" c cs run w w'] by (auto simp: plan_order_def)
  then show "\<exists>l'. Plan_Close run l w = Plan_Close run l' w' \<and> plan_order l' = cs"
    by (intro exI[of _ "l\<lparr>pl_leases := ls'\<rparr>"]) (simp add: Plan_Close_def plan_order_def split: prod.splits)
qed

section \<open>Properties\<close>

text \<open>
  A release that records the tokens it saw, and refuses one token until the world is long enough:
  used in the witnesses below.
\<close>

definition flaky_run :: "(nat, nat list) runner" where
  "flaky_run c w = (w @ [c], if c = 1 \<and> length w < 3 then Some (Plain ''busy'') else None)"

text \<open>
  The ledger releases last-in first-out and loses nothing. Whatever the closures do, a call
  runs a prefix of the newest-first order successfully and stops either at the end, with an empty
  ledger, or at the first failing closer, which stays in the ledger together with everything pushed
  before it; and when a later call succeeds, the two calls have run every closer successfully once.
\<close>

theorem ledger_release_lifo:
  assumes "ledger_release run l w = (l', w', r)"
  shows "(\<exists>gone w1. l = l' @ rev gone \<and> runs_ok run gone w w1
      \<and> (case r of None \<Rightarrow> l' = [] \<and> w' = w1
         | Some e \<Rightarrow> l' \<noteq> [] \<and> run (last l') w1 = (w', Some e)))
    \<and> (\<forall>e w2 l2 w3. r = Some e \<and> ledger_release run l' w2 = (l2, w3, None) \<longrightarrow> l2 = []
        \<and> (\<exists>gone rest wm. rev l = gone @ rest \<and> runs_ok run gone w wm \<and> runs_ok run rest w2 w3))"
proof (rule conjI)
  show "\<exists>gone w1. l = l' @ rev gone \<and> runs_ok run gone w w1
      \<and> (case r of None \<Rightarrow> l' = [] \<and> w' = w1
         | Some e \<Rightarrow> l' \<noteq> [] \<and> run (last l') w1 = (w', Some e))"
    using assms
  proof (induction l arbitrary: w rule: rev_induct)
    case Nil
    then show ?case by auto
  next
    case (snoc c l)
    obtain w1 r1 where run: "run c w = (w1, r1)" by (cases "run c w")
    show ?case
    proof (cases r1)
      case None
      with snoc.prems run have "ledger_release run l w1 = (l', w', r)" by simp
      from snoc.IH[OF this] obtain gone w2 where "l = l' @ rev gone" "runs_ok run gone w1 w2"
        "case r of None \<Rightarrow> l' = [] \<and> w' = w2 | Some e \<Rightarrow> l' \<noteq> [] \<and> run (last l') w2 = (w', Some e)"
        by blast
      with run None show ?thesis by (intro exI[of _ "c # gone"] exI[of _ w2]) simp
    next
      case (Some e)
      with snoc.prems run show ?thesis by (intro exI[of _ "[]"] exI[of _ w]) auto
    qed
  qed
  show "\<forall>e w2 l2 w3. r = Some e \<and> ledger_release run l' w2 = (l2, w3, None) \<longrightarrow> l2 = []
        \<and> (\<exists>gone rest wm. rev l = gone @ rest \<and> runs_ok run gone w wm \<and> runs_ok run rest w2 w3)"
  proof (intro allI impI, elim conjE, intro conjI)
    fix e w2 l2 w3
    assume r: "r = Some e" and ok: "ledger_release run l' w2 = (l2, w3, None)"
    show "l2 = []" by (rule ledger_release_ok[OF ok])
    from ledger.exec_retry[OF assms[unfolded r] ok]
    show "\<exists>gone rest wm. rev l = gone @ rest \<and> runs_ok run gone w wm \<and> runs_ok run rest w2 w3"
      by (elim exE conjE) (intro exI conjI)
  qed
qed

theorem ledger_release_lifo_witness:
  "ledger_release flaky_run [0, 1, 2] [] = ([0, 1], [2, 1], Some (Plain ''busy''))
   \<and> ledger_release flaky_run [0, 1] [2, 1, 9] = ([], [2, 1, 9, 1, 0], None)
   \<and> (\<exists>gone rest wm. rev [0, 1, 2] = gone @ rest \<and> runs_ok flaky_run gone [] wm
        \<and> runs_ok flaky_run rest [2, 1, 9] [2, 1, 9, 1, 0])"
proof -
  have a: "ledger_release flaky_run [0, 1, 2] [] = ([0, 1], [2, 1], Some (Plain ''busy''))"
    by code_simp
  have b: "ledger_release flaky_run [0, 1] [2, 1, 9] = ([], [2, 1, 9, 1, 0], None)"
    by code_simp
  from ledger_release_lifo[OF a, THEN conjunct2, rule_format, OF conjI[OF refl b]] a b show ?thesis by simp
qed

text \<open>
  Closing a routing plan releases every lease that is still open, newest first, each exactly
  once, also when a first \<^verbatim>\<open>Close\<close> fails half way and is retried; after the first \<^verbatim>\<open>Close\<close> the plan
  refuses new leases without running the caller's apply function, and repairs nothing.
\<close>

theorem Plan_Close_releases_once:
  assumes "Plan_Close run p w = (p1, w1, r)"
  shows "pl_closed p1
    \<and> (r = None \<longrightarrow> pl_leases p1 = [] \<and> runs_ok run (plan_order p) w w1)
    \<and> (\<forall>e w2 p2 w3. r = Some e \<and> Plan_Close run p1 w2 = (p2, w3, None) \<longrightarrow> pl_leases p2 = []
        \<and> (\<exists>gone rest wm. plan_order p = gone @ rest \<and> rest \<noteq> [] \<and> runs_ok run gone w wm \<and> runs_ok run rest w2 w3))
    \<and> (\<forall>name ap rel w2. \<exists>e. Plan_Acquire run p1 name (Some ap) (Some rel) w2 = (p1, w2, Inl e))
    \<and> (\<forall>rep w2. Plan_Repair rep p1 w2 = (w2, False, None))"
proof -
  have closed: "pl_closed p1" using assms by (auto simp: Plan_Close_def split: prod.splits)
  have gone: "plan_release run ls w = (ls', w', None) \<Longrightarrow> ls' = []" for ls w ls' w'
    by (induction ls arbitrary: w rule: rev_induct) (auto simp: Lease_Close_def split: prod.splits option.splits if_splits)
  have empty: "Plan_Close run q v = (q', v', None) \<Longrightarrow> pl_leases q' = []" for q v q' v'
    by (auto simp: Plan_Close_def split: prod.splits dest: gone)
  have retry: "pl_leases p2 = [] \<and> (\<exists>gone rest wm. plan_order p = gone @ rest \<and> rest \<noteq> []
      \<and> runs_ok run gone w wm \<and> runs_ok run rest w2 w3)"
    if "r = Some e" "Plan_Close run p1 w2 = (p2, w3, None)" for e w2 p2 w3
    using routing_plan.exec_retry[of run p w p1 w1 e w2 p2 w3] assms that empty by auto
  have first: "pl_leases p1 = [] \<and> runs_ok run (plan_order p) w w1" if "r = None"
    using assms that empty routing_plan.exec_success[of run p w p1 w1] by auto
  from closed first retry show ?thesis
    by (auto simp: Plan_Acquire_def Plan_Repair_def)
qed

definition sample_plan :: "nat plan" where
  "sample_plan = \<lparr>pl_sessionID = ''s'', pl_closed = False, pl_leases =
     [\<lparr>le_name = ''tun'', le_closed = False, le_release = 0, le_repair = None\<rparr>,
      \<lparr>le_name = ''route'', le_closed = False, le_release = 1, le_repair = None\<rparr>,
      \<lparr>le_name = ''dns'', le_closed = True, le_release = 2, le_repair = None\<rparr>]\<rparr>"

theorem Plan_Close_releases_once_witness:
  "\<exists>p1 e. Plan_Close flaky_run sample_plan [] = (p1, [1], Some e)
     \<and> (\<exists>p2. Plan_Close flaky_run p1 [7, 7, 7] = (p2, [7, 7, 7, 1, 0], None) \<and> pl_leases p2 = [])"
proof -
  let ?p1 = "sample_plan\<lparr>pl_closed := True, pl_leases := take 2 (pl_leases sample_plan)\<rparr>"
  let ?p2 = "sample_plan\<lparr>pl_closed := True, pl_leases := []\<rparr>"
  have a: "Plan_Close flaky_run sample_plan [] = (?p1, [1], Some (Wrap ''route: '' (Plain ''busy'')))"
    by code_simp
  have b: "Plan_Close flaky_run ?p1 [7, 7, 7] = (?p2, [7, 7, 7, 1, 0], None)"
    by code_simp
  from Plan_Close_releases_once[OF a] a b show ?thesis by blast
qed



end
