(* ===== verification/Session_State.thy ===== *)
theory Session_State
  imports Config_Correct Release_Loop
begin

text \<open>
  The state of the session manager (\<^verbatim>\<open>core/sessionapi/api.go\<close>, \<^verbatim>\<open>restore.go\<close>, \<^verbatim>\<open>shutdown.go\<close>): the
  \<^verbatim>\<open>session\<close> struct field by field, the manager around it, and the helpers that run with the session's
  mutex held.

  Pointers whose identity matters are numbers allocated from one counter: ledgers (their closers are
  in the heap \<open>m_ledgers\<close>), cancellation contexts (\<open>m_canceled\<close> is the set of canceled ones) and
  cleanup budgets (\<open>m_begun\<close>, \<open>m_finished\<close>). The channel \<^verbatim>\<open>changed\<close> is an epoch number: closing it and
  making a new one increments the epoch. Times are nanoseconds. Log calls are left out, except that
  \<^verbatim>\<open>retainPolicy\<close> indexes its first profile and so panics on an empty list.
\<close>

section \<open>Data\<close>

datatype sstate =
    StateIdle | StateConfigured | StateProbing | StatePreparing | StateConnected | StateStopping | StateFailed

datatype start_mode = AutoSelect | ProfileIndex | OtherMode string

datatype source_kind = ConfigSourceNone | ConfigSourceInline | ConfigSourceURL

record start_target =
  st_Mode :: start_mode
  st_Index :: int
  st_ReplaceCurrent :: bool
  st_Digest :: string
  st_Source :: "bytes option"

definition zero_target :: start_target where
  "zero_target = \<lparr>st_Mode = OtherMode [], st_Index = 0, st_ReplaceCurrent = False, st_Digest = [], st_Source = None\<rparr>"

record pending_start =
  pd_target :: start_target
  pd_profiles :: "runtime_profile list"
  pd_digest :: string

record generation_result =
  gr_Generation :: u64
  gr_Sequence :: u64

record session_ref =
  ref_SessionID :: string
  ref_Generation :: u64

record state_change =
  sc_SessionID :: string
  sc_Generation :: u64
  sc_NetworkGeneration :: u64
  sc_State :: sstate
  sc_Failure :: "failure_code option"

record session =
  s_closing :: bool
  s_changed :: nat
  s_cleanupBudget :: "nat option"
  s_networkGeneration :: u64
  s_networkLedger :: "nat option"
  s_vpnActive :: bool
  s_stopRequested :: bool
  s_startOriginGeneration :: u64
  s_id :: string
  s_state :: sstate
  s_generation :: u64
  s_configured :: bool
  s_logsEndpoint :: string
  s_digest :: string
  s_sourceKind :: source_kind
  s_sourceURL :: string
  s_sourceError :: string
  s_profiles :: "runtime_profile list"
  s_switchOriginGeneration :: u64
  s_configureRequest :: u64
  s_activeProfiles :: "runtime_profile list"
  s_activeDigest :: string
  s_pending :: "pending_start option"
  s_active :: "profile_summary option"
  s_lastFailure :: "failure_code option"
  s_lastFailureMessage :: string
  s_cleanupDone :: bool
  s_cleanupFailed :: bool
  s_cancel :: "nat option"
  s_ledger :: "nat option"
  s_activeTarget :: start_target
  s_restartAfterCleanup :: bool
  s_failureAfterCleanup :: "failure_code option"
  s_failureMessageAfterCleanup :: string
  s_recovering :: bool
  s_recoveryOriginGeneration :: u64
  s_recoveryCount :: int
  s_lastConnectedAt :: int
  s_hasConnectedAt :: bool
  s_lastTransitionAt :: int
  s_sequence :: u64

text \<open>What a ledger holds: the release of one lease, by the number it was acquired under.\<close>

datatype closer = PlatformRelease nat | NetworkStop nat | RuntimeStop nat

text \<open>
  The persisted activation (\<^verbatim>\<open>restore.go\<close>). Stored bytes appear as what \<^verbatim>\<open>json.Unmarshal\<close> makes of
  them: nothing stored, an unreadable document, or a decoded record.
\<close>

record saved_activation =
  sa_Version :: int
  sa_Enabled :: bool
  sa_Mode :: start_mode
  sa_Index :: int
  sa_Digest :: string

datatype saved_raw = RawEmpty | RawInvalid go_error | RawActivation saved_activation

record store =
  so_activations :: bool
  so_source :: bytes
  so_activation :: saved_raw

text \<open>
  A worker goroutine: \<^verbatim>\<open>runStart\<close>, or a bare \<^verbatim>\<open>finish\<close>. Its program counter names the next access to
  shared state or the next external call; between two of them a goroutine only touches its locals.
\<close>

datatype pc =
    GPrepare
  | GPlatform runtime_profile "nat option" session_ref
  | GNetwork runtime_profile "nat option" session_ref
  | GActivate
  | GActivated
  | GCopy
  | GCandidate
  | GAdvance
  | GStart
  | GConnect bool
  | GWait bool
  | GReleaseCand bool
  | GCheck bool
  | GFinish "go_error option"
  | GRetire1 "nat option" "go_error option"
  | GRetire2 "go_error option" "go_error option"
  | GRetire3 "nat option" bool "go_error option" "go_error option"
  | GFinish2 bool "go_error option" "go_error option"
  | GDone
  | GPanicked

record worker =
  w_pc :: pc
  w_ctx :: nat
  w_gen :: u64
  w_target :: start_target
  w_profiles :: "runtime_profile list"
  w_index :: nat
  w_errors :: "go_error list"

record manager =
  m_session :: session
  m_initErr :: "go_error option"
  m_store :: "store option"
  m_networkRuntime :: bool
  m_next :: nat
  m_ledgers :: "nat \<Rightarrow> closer list"
  m_begun :: "nat set"
  m_finished :: "nat set"
  m_canceled :: "nat set"
  m_workers :: "worker list"
  m_published :: "state_change list"
  m_acquired :: "closer list"
  m_released :: "closer list"

text \<open>What the environment answers during one call of the API.\<close>

record env =
  e_ctxErr :: "go_error option"
  e_now :: int
  e_saveErr :: "go_error option"
  e_clearErr :: "go_error option"
  e_loadActivationErr :: "go_error option"
  e_saveActivationErr :: "go_error option"
  e_protectErr :: "go_error option"

definition autoRecoveryLimit :: int where "autoRecoveryLimit = 3"
definition autoRecoveryStable :: int where "autoRecoveryStable = 5 * 60 * 1000000000"
definition autoRecoveryMessage :: string where
  "autoRecoveryMessage = ''Automatic reconnect limit reached. Check your connection and connect again.''"

section \<open>Contexts, budgets and ledgers\<close>

definition ctx_cancel :: "nat \<Rightarrow> manager \<Rightarrow> manager" where
  "ctx_cancel c m = m\<lparr>m_canceled := insert c (m_canceled m)\<rparr>"

text \<open>\<^verbatim>\<open>budget.begin()\<close>: the first call starts the one shared timer, later calls return it.\<close>

definition budget_begin :: "nat \<Rightarrow> manager \<Rightarrow> manager" where
  "budget_begin b m = m\<lparr>m_begun := insert b (m_begun m)\<rparr>"

definition budget_finish :: "nat option \<Rightarrow> manager \<Rightarrow> manager" where
  "budget_finish bo m = (case bo of
       None \<Rightarrow> m
     | Some b \<Rightarrow> if b \<in> m_begun m then m\<lparr>m_finished := insert b (m_finished m)\<rparr> else m)"

definition new_budget :: "manager \<Rightarrow> manager" where
  "new_budget m = m\<lparr>m_session := (m_session m)\<lparr>s_cleanupBudget := Some (m_next m)\<rparr>, m_next := Suc (m_next m)\<rparr>"

definition cleanupContext :: "manager \<Rightarrow> manager" where
  "cleanupContext m =
     (let m1 = (if s_cleanupBudget (m_session m) = None then new_budget m else m)
      in case s_cleanupBudget (m_session m1) of None \<Rightarrow> m1 | Some b \<Rightarrow> budget_begin b m1)"

text \<open>One closer: external code, whose answer \<open>ok\<close> gives. What it released is recorded.\<close>

definition run_closer :: "(closer \<Rightarrow> go_error option) \<Rightarrow> (closer, closer list) runner" where
  "run_closer ok c released = (case ok c of None \<Rightarrow> (released @ [c], None) | Some e \<Rightarrow> (released, Some e))"

definition release_ledger :: "(closer \<Rightarrow> go_error option) \<Rightarrow> nat \<Rightarrow> manager \<Rightarrow> manager \<times> go_error option" where
  "release_ledger ok l m =
     (case ledger_release (run_closer ok) (m_ledgers m l) (m_released m) of
        (rest, released, err) \<Rightarrow> (m\<lparr>m_ledgers := (m_ledgers m)(l := rest), m_released := released\<rparr>, err))"

definition push_ledger :: "nat \<Rightarrow> closer \<Rightarrow> manager \<Rightarrow> manager" where
  "push_ledger l c m =
     m\<lparr>m_ledgers := (m_ledgers m)(l := ledger_push (m_ledgers m l) c), m_acquired := m_acquired m @ [c], m_next := Suc (m_next m)\<rparr>"

section \<open>Operations under the mutex\<close>

definition appendLocked :: "int \<Rightarrow> manager \<Rightarrow> manager" where
  "appendLocked now m =
     (let s = m_session m;
          s' = s\<lparr>s_changed := Suc (s_changed s), s_sequence := s_sequence s + 1, s_lastTransitionAt := now\<rparr>
      in m\<lparr>m_session := s',
           m_published := m_published m @ [\<lparr>sc_SessionID = s_id s', sc_Generation = s_generation s',
             sc_NetworkGeneration = s_networkGeneration s', sc_State = s_state s', sc_Failure = s_lastFailure s'\<rparr>]\<rparr>)"

definition retainPolicy_ok :: "runtime_profile list \<Rightarrow> bool" where
  "retainPolicy_ok profiles \<longleftrightarrow> 0 < length profiles"

definition get_err :: "string \<Rightarrow> manager \<Rightarrow> go_error option" where
  "get_err i m =
     (let s = m_session m in
      if s_id s = [] then Some (failureWithCause FailureInternal ''could not allocate a session ID'' (m_initErr m))
      else if i \<noteq> [] \<and> i \<noteq> s_id s then Some (failure FailureNotFound ''session owner has restarted'')
      else None)"

definition attemptActive :: "sstate \<Rightarrow> bool" where
  "attemptActive st = (case st of
       StateProbing \<Rightarrow> True | StatePreparing \<Rightarrow> True | StateConnected \<Rightarrow> True | StateStopping \<Rightarrow> True
     | StateIdle \<Rightarrow> False | StateConfigured \<Rightarrow> False | StateFailed \<Rightarrow> False)"

definition configurationBlocked :: "session \<Rightarrow> bool" where
  "configurationBlocked s \<longleftrightarrow> s_closing s \<or> s_pending s \<noteq> None \<or> s_state s = StateProbing \<or> s_state s = StatePreparing
     \<or> s_state s = StateConnected \<or> s_state s = StateStopping \<or> s_recovering s \<or> \<not> s_cleanupDone s \<or> s_cleanupFailed s"

definition canSwitch :: "session \<Rightarrow> bool" where
  "canSwitch s \<longleftrightarrow> \<not> s_closing s \<and> s_state s = StateConnected \<and> \<not> s_recovering s \<and> s_pending s = None \<and> \<not> s_cleanupFailed s"

definition canRetry :: "session \<Rightarrow> bool" where
  "canRetry s \<longleftrightarrow> \<not> s_closing s \<and> s_state s = StateFailed \<and> s_vpnActive s \<and> \<not> s_cleanupFailed s \<and> s_ledger s = None"

definition retryableCleanup :: "session \<Rightarrow> bool" where
  "retryableCleanup s \<longleftrightarrow> s_state s = StateFailed \<and> s_cleanupFailed s \<and> (s_ledger s \<noteq> None \<or> s_networkLedger s \<noteq> None)"

definition acceptsStop :: "session \<Rightarrow> u64 \<Rightarrow> bool" where
  "acceptsStop s generation \<longleftrightarrow> generation \<noteq> 0 \<and> (generation = s_generation s
     \<or> s_recovering s \<and> generation = s_recoveryOriginGeneration s
     \<or> generation = s_switchOriginGeneration s \<or> generation = s_startOriginGeneration s)"

definition validateStartTarget :: "session \<Rightarrow> start_target \<Rightarrow> go_error option" where
  "validateStartTarget s target =
     (if st_Mode target \<noteq> AutoSelect \<and> st_Mode target \<noteq> ProfileIndex
      then Some (failure FailureInvalidArgument ''start mode must be AUTO_SELECT or PROFILE_INDEX'')
      else if st_Mode target = ProfileIndex \<and> (st_Index target < 0 \<or> st_Index target \<ge> int (length (s_profiles s)))
      then Some (failure FailureInvalidArgument ''profile index is out of range'')
      else if st_Digest target \<noteq> [] \<and> st_Digest target \<noteq> s_digest s
      then Some (failure FailureConflict ''profile inventory changed; refresh its snapshot'')
      else None)"

text \<open>\<^verbatim>\<open>go m.runStart(ctx, s, generation, target)\<close> and \<^verbatim>\<open>go m.finish(s, generation, nil)\<close>.\<close>

definition go_runStart :: "nat \<Rightarrow> u64 \<Rightarrow> start_target \<Rightarrow> manager \<Rightarrow> manager" where
  "go_runStart ctx generation target m = m\<lparr>m_workers := m_workers m @
     [\<lparr>w_pc = GPrepare, w_ctx = ctx, w_gen = generation, w_target = target, w_profiles = [], w_index = 0, w_errors = []\<rparr>]\<rparr>"

definition go_finish :: "u64 \<Rightarrow> manager \<Rightarrow> manager" where
  "go_finish generation m = m\<lparr>m_workers := m_workers m @
     [\<lparr>w_pc = GFinish None, w_ctx = 0, w_gen = generation, w_target = zero_target, w_profiles = [], w_index = 0, w_errors = []\<rparr>]\<rparr>"

definition beginAttemptLocked :: "int \<Rightarrow> start_target \<Rightarrow> manager \<Rightarrow> manager \<times> nat \<times> u64" where
  "beginAttemptLocked now target m =
     (let s = m_session m; n = m_next m;
          s' = s\<lparr>s_generation := s_generation s + 1, s_cleanupBudget := Some (Suc n), s_cancel := Some n,
                 s_ledger := Some (n + 2), s_cleanupDone := False, s_cleanupFailed := False, s_stopRequested := False,
                 s_active := None, s_activeTarget := target, s_restartAfterCleanup := False, s_failureAfterCleanup := None,
                 s_failureMessageAfterCleanup := [], s_state := StateProbing\<rparr>;
          m' = appendLocked now (m\<lparr>m_session := s', m_next := n + 3, m_ledgers := (m_ledgers m)(n + 2 := [])\<rparr>)
      in (m', n, s_generation (m_session m')))"

end
