(* ===== verification/Session_Api.thy ===== *)
theory Session_Api
  imports Session_State
begin

text \<open>
  The calls a client makes on the manager: construction, \<^verbatim>\<open>AttachSourceStore\<close>, \<^verbatim>\<open>Configure\<close>, \<^verbatim>\<open>Start\<close>, \<^verbatim>\<open>Stop\<close>,
  \<^verbatim>\<open>ProtectSocket\<close>, \<^verbatim>\<open>Snapshot\<close>, \<^verbatim>\<open>Restore\<close>, \<^verbatim>\<open>StopAndWait\<close>, \<^verbatim>\<open>Resume\<close>. A call that unlocks the mutex in the
  middle is split at the unlock into functions of their own, composed by the sequential definition.
\<close>

section \<open>Construction\<close>

definition NewManager :: "string \<Rightarrow> go_error option \<Rightarrow> store option \<Rightarrow> go_error option \<Rightarrow> bool \<Rightarrow> manager" where
  "NewManager i initErr store loadErr networkRuntime =
     (let url = (case (store, loadErr) of (Some st, None) \<Rightarrow> trim_space (so_source st) | _ \<Rightarrow> []);
          err = (case (store, loadErr) of (Some st, Some e) \<Rightarrow> ''saved configuration URL could not be read: '' @ error_text e | _ \<Rightarrow> [])
      in \<lparr>m_session = \<lparr>s_closing = False, s_changed = 0, s_cleanupBudget = None, s_networkGeneration = 0, s_networkLedger = None,
             s_vpnActive = False, s_stopRequested = False, s_startOriginGeneration = 0, s_id = i, s_state = StateIdle,
             s_generation = 0, s_configured = False, s_logsEndpoint = [], s_digest = [],
             s_sourceKind = (if url \<noteq> [] then ConfigSourceURL else ConfigSourceNone), s_sourceURL = url, s_sourceError = err,
             s_profiles = [], s_switchOriginGeneration = 0, s_configureRequest = 0, s_activeProfiles = [], s_activeDigest = [],
             s_pending = None, s_active = None, s_lastFailure = None, s_lastFailureMessage = [], s_cleanupDone = True,
             s_cleanupFailed = False, s_cancel = None, s_ledger = None, s_activeTarget = zero_target, s_restartAfterCleanup = False,
             s_failureAfterCleanup = None, s_failureMessageAfterCleanup = [], s_recovering = False, s_recoveryOriginGeneration = 0,
             s_recoveryCount = 0, s_lastConnectedAt = 0, s_hasConnectedAt = False, s_lastTransitionAt = 0, s_sequence = 1\<rparr>,
          m_initErr = initErr, m_store = store, m_networkRuntime = networkRuntime, m_next = 0, m_ledgers = (\<lambda>_. []),
          m_begun = {}, m_finished = {}, m_canceled = {}, m_workers = [], m_published = [], m_acquired = [], m_released = []\<rparr>)"

text \<open>\<^verbatim>\<open>AttachSourceStore\<close>: install under the mutex, load outside of it, record under it again.\<close>

definition attach_install :: "store \<Rightarrow> manager \<Rightarrow> manager \<times> bool" where
  "attach_install st m = (if m_store m \<noteq> None then (m, False) else (m\<lparr>m_store := Some st\<rparr>, True))"

definition attach_loaded :: "int \<Rightarrow> go_error + bytes \<Rightarrow> manager \<Rightarrow> manager" where
  "attach_loaded now loaded m =
     (let s = m_session m;
          s' = (case loaded of
                 Inl err \<Rightarrow> s\<lparr>s_sourceError := ''saved configuration URL could not be read: '' @ error_text err\<rparr>
               | Inr saved \<Rightarrow>
                   if \<not> s_configured s \<and> s_sourceURL s = [] \<and> 0 < length saved
                   then s\<lparr>s_sourceURL := trim_space saved,
                          s_sourceKind := (if trim_space saved \<noteq> [] then ConfigSourceURL else s_sourceKind s),
                          s_sourceError := []\<rparr>
                   else s)
      in appendLocked now (m\<lparr>m_session := s'\<rparr>))"

definition AttachSourceStore :: "int \<Rightarrow> store option \<Rightarrow> go_error option \<Rightarrow> manager \<Rightarrow> manager \<times> go_error option" where
  "AttachSourceStore now store loadErr m = (case store of
       None \<Rightarrow> (m, Some (failure FailureInvalidArgument ''source storage is unavailable''))
     | Some st \<Rightarrow> (case attach_install st m of
          (m1, False) \<Rightarrow> (m1, None)
        | (m1, True) \<Rightarrow> (attach_loaded now (case loadErr of Some e \<Rightarrow> Inl e | None \<Rightarrow> Inr (so_source st)) m1, None)))"

section \<open>Configure\<close>

record loaded_config =
  lc_Raw :: bytes
  lc_Kind :: source_kind
  lc_SourceURL :: string

record configure_result =
  cf_Digest :: string
  cf_Sequence :: u64
  cf_Profiles :: "profile_summary list"
  cf_SourceKind :: source_kind

type_synonym config_loader = "bytes \<Rightarrow> go_error + loaded_config"
type_synonym config_parser = "bytes \<Rightarrow> (go_error + parsed_config) outcome"

definition summaries :: "runtime_profile list \<Rightarrow> profile_summary list" where
  "summaries ps = map rp_Summary ps"

text \<open>\<^verbatim>\<open>sourceSchemeRE\<close>: a letter, then letters, digits, \<^verbatim>\<open>+\<close>, \<^verbatim>\<open>.\<close> or \<^verbatim>\<open>-\<close>, then \<^verbatim>\<open>://\<close>.\<close>

definition is_letter :: "char \<Rightarrow> bool" where
  "is_letter c \<longleftrightarrow> is_alnum c \<and> \<not> is_digit c"

definition scheme_char :: "char \<Rightarrow> bool" where
  "scheme_char c \<longleftrightarrow> is_alnum c \<or> c \<in> set ''+.-''"

definition has_source_scheme :: "string \<Rightarrow> bool" where
  "has_source_scheme s = (case s of [] \<Rightarrow> False
     | c # t \<Rightarrow> is_letter c \<and> has_prefix (dropWhile scheme_char t) ''://'')"

definition safeConfigError :: "bytes \<Rightarrow> go_error \<Rightarrow> go_error" where
  "safeConfigError raw err =
     (if errors_is err Canceled then failureWithCause FailureCanceled ''configuration loading was canceled'' (Some err)
      else if errors_is err DeadlineExceeded then failureWithCause FailureCanceled ''configuration loading timed out'' (Some err)
      else if as_domain err \<noteq> None then err
      else if has_source_scheme (trim_space raw)
      then failureWithCause FailureInvalidArgument ''configuration URL could not be fetched'' (Some err)
      else failureWithCause FailureInvalidArgument ''configuration could not be loaded'' (Some err))"

definition loadConfig :: "config_loader \<Rightarrow> config_parser \<Rightarrow> bytes \<Rightarrow> (go_error + loaded_config \<times> parsed_config) outcome" where
  "loadConfig loader parse rawConfig = (case loader rawConfig of
       Inl err \<Rightarrow> Ret (Inl (safeConfigError rawConfig err))
     | Inr loaded \<Rightarrow> (case parse (lc_Raw loaded) of
          Panic \<Rightarrow> Panic
        | Ret (Inl err) \<Rightarrow>
            Ret (Inl (if as_domain err \<noteq> None then err
                      else failureWithCause FailureMalformedConfig ''configuration is malformed'' (Some err)))
        | Ret (Inr parsed) \<Rightarrow> Ret (Inr (loaded, parsed))))"

definition validateConfigureBeforeLoad :: "go_error option \<Rightarrow> session \<Rightarrow> u64 \<Rightarrow> go_error option" where
  "validateConfigureBeforeLoad ctxErr s expectedSequence =
     (if s_sequence s \<noteq> expectedSequence
      then Some (failure FailureConflict ''session changed; refresh its snapshot before configuring'')
      else if s_cleanupFailed s \<or> s_closing s \<and> \<not> s_cleanupDone s
      then Some (failure FailureConflict ''session is shutting down or cleanup has failed'')
      else (case ctxErr of
          Some err \<Rightarrow> Some (failureWithCause FailureCanceled ''configuration was canceled before loading'' (Some err))
        | None \<Rightarrow> None))"

definition validateConfigureBeforeAccept :: "go_error option \<Rightarrow> session \<Rightarrow> u64 \<Rightarrow> go_error option" where
  "validateConfigureBeforeAccept ctxErr s request =
     (if s_configureRequest s \<noteq> request
      then Some (failure FailureConflict ''configuration request was superseded'')
      else (case ctxErr of
          Some err \<Rightarrow> Some (failureWithCause FailureCanceled ''configuration was canceled before it was accepted'' (Some err))
        | None \<Rightarrow>
            if s_cleanupFailed s \<or> s_closing s \<and> \<not> s_cleanupDone s
            then Some (failure FailureConflict ''session is shutting down or cleanup has failed'')
            else None))"

definition configure_begin :: "env \<Rightarrow> string \<Rightarrow> u64 \<Rightarrow> manager \<Rightarrow> manager \<times> (go_error + u64)" where
  "configure_begin env sessionID expectedSequence m = (case get_err sessionID m of
       Some err \<Rightarrow> (m, Inl err)
     | None \<Rightarrow> (case validateConfigureBeforeLoad (e_ctxErr env) (m_session m) expectedSequence of
          Some err \<Rightarrow> (m, Inl err)
        | None \<Rightarrow>
            (let request = s_configureRequest (m_session m) + 1
             in (m\<lparr>m_session := (m_session m)\<lparr>s_configureRequest := request\<rparr>\<rparr>, Inr request))))"

text \<open>The writes to the source store on acceptance: keep the URL, or clear it for inline text.\<close>

definition store_source :: "env \<Rightarrow> loaded_config \<Rightarrow> manager \<Rightarrow> manager \<times> go_error option" where
  "store_source env loaded m = (case m_store m of
       None \<Rightarrow> (m, None)
     | Some st \<Rightarrow>
         if lc_Kind loaded = ConfigSourceURL then
           (case e_saveErr env of
              Some err \<Rightarrow> (m, Some (failureWithCause FailurePlatform ''accepted configuration URL could not be saved'' (Some err)))
            | None \<Rightarrow> (m\<lparr>m_store := Some (st\<lparr>so_source := lc_SourceURL loaded\<rparr>)\<rparr>, None))
         else
           (case e_clearErr env of
              Some err \<Rightarrow> (m, Some (failureWithCause FailurePlatform ''saved configuration URL could not be cleared'' (Some err)))
            | None \<Rightarrow> (m\<lparr>m_store := Some (st\<lparr>so_source := []\<rparr>)\<rparr>, None)))"

definition configure_accept ::
  "env \<Rightarrow> u64 \<Rightarrow> loaded_config \<Rightarrow> parsed_config \<Rightarrow> manager \<Rightarrow> (manager \<times> (go_error + configure_result)) outcome" where
  "configure_accept env request loaded parsed m =
     (case validateConfigureBeforeAccept (e_ctxErr env) (m_session m) request of
        Some err \<Rightarrow> Ret (m, Inl err)
      | None \<Rightarrow> (case store_source env loaded m of
           (m1, Some err) \<Rightarrow> Ret (m1, Inl err)
         | (m1, None) \<Rightarrow>
             (let s1 = (m_session m1)\<lparr>s_profiles := pcfg_profiles parsed, s_digest := pcfg_digest parsed,
                    s_sourceKind := lc_Kind loaded, s_sourceURL := lc_SourceURL loaded, s_configured := True,
                    s_logsEndpoint := pcfg_logsEndpoint parsed, s_sourceError := []\<rparr>;
                  s2 = (if s_cleanupDone s1 \<and> \<not> s_cleanupFailed s1 \<and> \<not> s_recovering s1 \<and> s_pending s1 = None
                        then s1\<lparr>s_active := None, s_lastFailure := None, s_lastFailureMessage := [], s_state := StateConfigured,
                               s_activeDigest := [], s_activeProfiles := [], s_activeTarget := zero_target,
                               s_recoveryOriginGeneration := 0, s_recoveryCount := 0\<rparr>
                        else s1)
              in if s_activeDigest s2 = [] \<and> \<not> retainPolicy_ok (s_profiles s2) then Panic
                 else (let m2 = appendLocked (e_now env) (m1\<lparr>m_session := s2\<rparr>)
                       in Ret (m2, Inr \<lparr>cf_Digest = s_digest s2, cf_Sequence = s_sequence (m_session m2),
                                 cf_Profiles = summaries (s_profiles s2), cf_SourceKind = s_sourceKind s2\<rparr>)))))"

definition Configure ::
  "env \<Rightarrow> env \<Rightarrow> config_loader \<Rightarrow> config_parser \<Rightarrow> string \<Rightarrow> u64 \<Rightarrow> bytes \<Rightarrow> manager
     \<Rightarrow> (manager \<times> (go_error + configure_result)) outcome" where
  "Configure env env' loader parse sessionID expectedSequence rawConfig m =
     (case configure_begin env sessionID expectedSequence m of
        (m1, Inl err) \<Rightarrow> Ret (m1, Inl err)
      | (m1, Inr request) \<Rightarrow> (case loadConfig loader parse rawConfig of
           Panic \<Rightarrow> Panic
         | Ret (Inl err) \<Rightarrow> Ret (m1, Inl err)
         | Ret (Inr (loaded, parsed)) \<Rightarrow> configure_accept env' request loaded parsed m1))"

section \<open>The persisted activation\<close>

definition decodeActivation :: "saved_raw \<Rightarrow> go_error + saved_activation" where
  "decodeActivation raw = (case raw of
       RawEmpty \<Rightarrow> Inl (failure FailureNotConfigured ''connect a saved configuration before automatic startup'')
     | RawInvalid err \<Rightarrow> Inl (failureWithCause FailureMalformedConfig ''saved activation is invalid'' (Some err))
     | RawActivation saved \<Rightarrow>
         if sa_Version saved \<noteq> 1 \<or> sa_Digest saved = [] \<or> sa_Mode saved \<noteq> AutoSelect \<and> sa_Mode saved \<noteq> ProfileIndex
            \<or> sa_Mode saved = ProfileIndex \<and> sa_Index saved < 0
         then Inl (failure FailureMalformedConfig ''saved activation selection is invalid'')
         else Inr saved)"

definition saveActivationLocked :: "env \<Rightarrow> start_target \<Rightarrow> manager \<Rightarrow> manager \<times> go_error option" where
  "saveActivationLocked env target m = (case m_store m of
       None \<Rightarrow> (m, None)
     | Some st \<Rightarrow>
         if \<not> so_activations st \<or> s_sourceKind (m_session m) \<noteq> ConfigSourceURL then (m, None)
         else (case e_saveActivationErr env of
             Some err \<Rightarrow> (m, Some (failureWithCause FailurePlatform ''automatic startup selection could not be saved'' (Some err)))
           | None \<Rightarrow> (m\<lparr>m_store := Some (st\<lparr>so_activation := RawActivation
                 \<lparr>sa_Version = 1, sa_Enabled = True, sa_Mode = st_Mode target, sa_Index = st_Index target,
                  sa_Digest = s_digest (m_session m)\<rparr>\<rparr>)\<rparr>, None)))"

definition stopActivationLocked :: "env \<Rightarrow> manager \<Rightarrow> manager \<times> go_error option" where
  "stopActivationLocked env m = (case m_store m of
       None \<Rightarrow> (m, None)
     | Some st \<Rightarrow>
         if \<not> so_activations st then (m, None)
         else (case e_loadActivationErr env of
             Some err \<Rightarrow> (m, Some err)
           | None \<Rightarrow>
               if so_activation st = RawEmpty then (m, None)
               else (case decodeActivation (so_activation st) of
                   Inl err \<Rightarrow> (m, Some err)
                 | Inr saved \<Rightarrow> (case e_saveActivationErr env of
                      Some err \<Rightarrow> (m, Some (failureWithCause FailurePlatform ''automatic restart could not be disabled'' (Some err)))
                    | None \<Rightarrow> (m\<lparr>m_store := Some (st\<lparr>so_activation := RawActivation (saved\<lparr>sa_Enabled := False\<rparr>)\<rparr>)\<rparr>, None)))))"

section \<open>Start\<close>

definition retryLocked :: "env \<Rightarrow> start_target \<Rightarrow> bool \<Rightarrow> manager \<Rightarrow> manager \<times> (go_error + generation_result)" where
  "retryLocked env target suppliedSource m =
     (let s = m_session m in
      if suppliedSource \<or> st_ReplaceCurrent target \<or> st_Mode target \<noteq> st_Mode (s_activeTarget s)
         \<or> st_Mode target = ProfileIndex \<and> st_Index target \<noteq> st_Index (s_activeTarget s)
         \<or> st_Digest target \<noteq> [] \<and> st_Digest target \<noteq> s_activeDigest s
      then (m, Inl (failure FailureConflict ''retry requires the saved active selection''))
      else
        (let m1 = m\<lparr>m_session := s\<lparr>s_recoveryCount := 0, s_recoveryOriginGeneration := 0\<rparr>\<rparr>
         in case beginAttemptLocked (e_now env) (s_activeTarget s) m1 of
              (m2, ctx, generation) \<Rightarrow>
                (let m3 = go_runStart ctx generation target
                       (m2\<lparr>m_session := (m_session m2)\<lparr>s_startOriginGeneration := generation\<rparr>\<rparr>)
                 in (m3, Inr \<lparr>gr_Generation = generation, gr_Sequence = s_sequence (m_session m3)\<rparr>))))"

definition replaceLocked ::
  "env \<Rightarrow> start_target \<Rightarrow> manager \<Rightarrow> (manager \<times> (go_error + generation_result)) outcome" where
  "replaceLocked env target m =
     (if \<not> st_ReplaceCurrent target \<or> \<not> canSwitch (m_session m)
      then Ret (m, Inl (failure FailureConflict ''previous generation has not completed cleanup''))
      else (case saveActivationLocked env target m of
          (m1, Some err) \<Rightarrow> Ret (m1, Inl err)
        | (m1, None) \<Rightarrow>
            (let s = m_session m1;
                 m2 = m1\<lparr>m_session := s\<lparr>s_pending := Some \<lparr>pd_target = target, pd_profiles = s_profiles s, pd_digest = s_digest s\<rparr>,
                        s_switchOriginGeneration := s_generation s, s_state := StateStopping\<rparr>\<rparr>
             in case (s_cleanupBudget s, s_cancel s) of
                  (Some b, Some c) \<Rightarrow>
                    (let m3 = appendLocked (e_now env) (ctx_cancel c (budget_begin b m2))
                     in Ret (m3, Inr \<lparr>gr_Generation = s_generation s, gr_Sequence = s_sequence (m_session m3)\<rparr>))
                | _ \<Rightarrow> Panic)))"

text \<open>A fresh activation: the tail of \<^verbatim>\<open>Start\<close>, from the point where the selection has been saved.\<close>

definition start_fresh :: "env \<Rightarrow> start_target \<Rightarrow> manager \<Rightarrow> (manager \<times> (go_error + generation_result)) outcome" where
  "start_fresh env target m =
     (let s = m_session m; n = m_next m in
      if \<not> retainPolicy_ok (s_profiles s) then Panic
      else
        (let s' = s\<lparr>s_activeProfiles := s_profiles s, s_activeDigest := s_digest s, s_switchOriginGeneration := 0,
                    s_networkGeneration := s_networkGeneration s + 1, s_networkLedger := Some n, s_vpnActive := False,
                    s_stopRequested := False, s_generation := s_generation s + 1,
                    s_startOriginGeneration := s_generation s + 1, s_cleanupBudget := Some (n + 2), s_cancel := Some (n + 1),
                    s_ledger := Some (n + 3), s_cleanupDone := False, s_cleanupFailed := False, s_active := None,
                    s_lastFailure := None, s_lastFailureMessage := [], s_activeTarget := target, s_restartAfterCleanup := False,
                    s_failureAfterCleanup := None, s_failureMessageAfterCleanup := [], s_recovering := False,
                    s_recoveryOriginGeneration := 0, s_recoveryCount := 0, s_lastConnectedAt := 0, s_hasConnectedAt := False,
                    s_state := StateProbing\<rparr>;
             m1 = appendLocked (e_now env)
                    (m\<lparr>m_session := s', m_next := n + 4, m_ledgers := (m_ledgers m)(n := [], n + 3 := [])\<rparr>)
         in Ret (go_runStart (n + 1) (s_generation s') target m1,
                 Inr \<lparr>gr_Generation = s_generation s', gr_Sequence = s_sequence (m_session m1)\<rparr>)))"

definition start_locked ::
  "env \<Rightarrow> u64 \<Rightarrow> start_target \<Rightarrow> bool \<Rightarrow> manager \<Rightarrow> (manager \<times> (go_error + generation_result)) outcome" where
  "start_locked env expectedSequence target suppliedSource m =
     (let s = m_session m in
      if s_sequence s \<noteq> expectedSequence
      then Ret (m, Inl (failure FailureConflict ''session changed; refresh its snapshot before starting''))
      else if \<not> s_configured s
      then Ret (m, Inl (failure FailureNotConfigured ''configure a session before starting it''))
      else if canRetry s then Ret (retryLocked env target suppliedSource m)
      else (case validateStartTarget s target of
          Some err \<Rightarrow> Ret (m, Inl err)
        | None \<Rightarrow>
            if configurationBlocked s then replaceLocked env target m
            else (case saveActivationLocked env target m of
                (m1, Some err) \<Rightarrow> Ret (m1, Inl err)
              | (m1, None) \<Rightarrow> start_fresh env target m1)))"

definition Start ::
  "env \<Rightarrow> env \<Rightarrow> config_loader \<Rightarrow> config_parser \<Rightarrow> string \<Rightarrow> u64 \<Rightarrow> start_target \<Rightarrow> manager
     \<Rightarrow> (manager \<times> (go_error + generation_result)) outcome" where
  "Start env env' loader parse sessionID expectedSequence target m = (case get_err sessionID m of
       Some err \<Rightarrow> Ret (m, Inl err)
     | None \<Rightarrow> (case e_ctxErr env of
          Some err \<Rightarrow> Ret (m, Inl (failureWithCause FailureCanceled ''start was canceled before it was accepted'' (Some err)))
        | None \<Rightarrow> (case st_Source target of
             None \<Rightarrow> start_locked env' expectedSequence target False m
           | Some source \<Rightarrow>
               if st_Mode target \<noteq> AutoSelect
               then Ret (m, Inl (failure FailureInvalidArgument ''a source can only be started with AUTO_SELECT''))
               else (case Configure env env' loader parse sessionID expectedSequence source m of
                   Panic \<Rightarrow> Panic
                 | Ret (m1, Inl err) \<Rightarrow> Ret (m1, Inl err)
                 | Ret (m1, Inr configured) \<Rightarrow>
                     start_locked env' (cf_Sequence configured) (target\<lparr>st_Source := None\<rparr>) True m1))))"

end
