(* ===== verification/Session_Stop.thy ===== *)
theory Session_Stop
  imports Session_Api
begin

text \<open>
  \<^verbatim>\<open>Stop\<close>, socket protection, connected-health failures, snapshots, OS-driven restoration and process
  shutdown. The waiting loops of \<^verbatim>\<open>Restore\<close> and \<^verbatim>\<open>StopAndWait\<close> are functions of the session states they
  observe, one per iteration.
\<close>

section \<open>Stop\<close>

definition acknowledgeStoppedLocked :: "env \<Rightarrow> u64 \<Rightarrow> manager \<Rightarrow> manager \<times> (go_error + generation_result)" where
  "acknowledgeStoppedLocked env generation m =
     (let s = m_session m in
      if s_generation s = generation \<and> s_cleanupDone s \<and> \<not> s_cleanupFailed s \<and> s_state s \<noteq> StateConfigured then
        (let m1 = (if s_recovering s \<or> s_recoveryOriginGeneration s \<noteq> 0
                   then appendLocked (e_now env) (m\<lparr>m_session := s\<lparr>s_recovering := False, s_restartAfterCleanup := False,
                          s_recoveryOriginGeneration := 0\<rparr>\<rparr>)
                   else m)
         in (m1, Inr \<lparr>gr_Generation = generation, gr_Sequence = s_sequence (m_session m1)\<rparr>))
      else (m, Inl (failure FailureStaleGeneration ''generation is no longer active'')))"

text \<open>
  \<^verbatim>\<open>Stop\<close> after the stale-generation check and the persistence of the stop intent: mark the request and
  drop a pending switch, then act on the state. A stop during health-triggered teardown also
  cancels the queued restart.
\<close>

definition stop_mark :: "env \<Rightarrow> manager \<Rightarrow> manager" where
  "stop_mark env m =
     (let s = (m_session m)\<lparr>s_stopRequested := True, s_switchOriginGeneration := 0\<rparr>
      in if s_pending s \<noteq> None then appendLocked (e_now env) (m\<lparr>m_session := s\<lparr>s_pending := None\<rparr>\<rparr>)
         else m\<lparr>m_session := s\<rparr>)"

definition stop_recovery :: "session \<Rightarrow> session" where
  "stop_recovery s =
     (if s_recovering s \<or> s_recoveryOriginGeneration s \<noteq> 0
      then s\<lparr>s_recovering := False, s_restartAfterCleanup := False, s_recoveryOriginGeneration := 0\<rparr> else s)"

definition stop_active :: "env \<Rightarrow> u64 \<Rightarrow> manager \<Rightarrow> (manager \<times> (go_error + generation_result)) outcome" where
  "stop_active env generation m =
     (let s1 = stop_recovery (m_session m)
      in if s_state s1 \<noteq> StateStopping then
           (case s_cleanupBudget s1 of
              None \<Rightarrow> Panic
            | Some b \<Rightarrow>
                (let m1 = appendLocked (e_now env) (budget_begin b (m\<lparr>m_session := s1\<lparr>s_state := StateStopping\<rparr>\<rparr>));
                     m2 = (case s_cancel s1 of Some c \<Rightarrow> ctx_cancel c m1 | None \<Rightarrow> m1)
                 in Ret (m2, Inr \<lparr>gr_Generation = generation, gr_Sequence = s_sequence (m_session m2)\<rparr>)))
         else Ret (m\<lparr>m_session := s1\<rparr>, Inr \<lparr>gr_Generation = generation, gr_Sequence = s_sequence s1\<rparr>))"

definition stop_accepted :: "env \<Rightarrow> manager \<Rightarrow> (manager \<times> (go_error + generation_result)) outcome" where
  "stop_accepted env m0 =
     (let generation = s_generation (m_session m0);
          m = stop_mark env m0;
          s = m_session m
      in if retryableCleanup s then
           (let m1 = new_budget m;
                m2 = budget_begin (m_next m) m1;
                m3 = appendLocked (e_now env) (m2\<lparr>m_session := (m_session m2)\<lparr>s_state := StateStopping, s_cleanupFailed := False\<rparr>\<rparr>);
                m4 = go_finish generation m3
            in Ret (m4, Inr \<lparr>gr_Generation = generation, gr_Sequence = s_sequence (m_session m4)\<rparr>))
         else if s_state s = StateFailed \<and> s_vpnActive s \<and> \<not> s_cleanupFailed s then
           (let m1 = new_budget m;
                m2 = budget_begin (m_next m) m1;
                m3 = appendLocked (e_now env) (m2\<lparr>m_session := (m_session m2)\<lparr>s_state := StateStopping\<rparr>\<rparr>);
                m4 = go_finish generation m3
            in Ret (m4, Inr \<lparr>gr_Generation = generation, gr_Sequence = s_sequence (m_session m4)\<rparr>))
         else if s_state s = StateIdle \<or> s_state s = StateConfigured \<or> s_state s = StateFailed then
           Ret (acknowledgeStoppedLocked env generation m)
         else stop_active env generation m)"

text \<open>
  \<^verbatim>\<open>Stop\<close> returns a result and an error, which both may be present: a failure to persist the stop intent
  is joined to the outcome of the stop itself and does not prevent it.
\<close>

definition Stop_locked :: "env \<Rightarrow> u64 \<Rightarrow> manager \<Rightarrow> (manager \<times> generation_result option \<times> go_error option) outcome" where
  "Stop_locked env generation m =
     (if \<not> acceptsStop (m_session m) generation
      then Ret (m, None, Some (failure FailureStaleGeneration ''generation is not active for this session''))
      else (case stopActivationLocked env m of (m1, persistErr) \<Rightarrow>
         (case stop_accepted env m1 of
            Panic \<Rightarrow> Panic
          | Ret (m2, Inl err) \<Rightarrow> Ret (m2, None, errors_join [Some err, persistErr])
          | Ret (m2, Inr result) \<Rightarrow> Ret (m2, Some result, errors_join [None, persistErr]))))"

definition Stop :: "env \<Rightarrow> string \<Rightarrow> u64 \<Rightarrow> manager \<Rightarrow> (manager \<times> generation_result option \<times> go_error option) outcome" where
  "Stop env sessionID generation m = (case get_err sessionID m of
       Some err \<Rightarrow> Ret (m, None, Some err)
     | None \<Rightarrow> Stop_locked env generation m)"

section \<open>Socket protection\<close>

text \<open>The result and the call made on the platform adapter, if any.\<close>

definition ProtectSocket :: "env \<Rightarrow> session_ref \<Rightarrow> int \<Rightarrow> bool \<Rightarrow> manager \<Rightarrow> go_error option \<times> (session_ref \<times> int) option" where
  "ProtectSocket env ref fd loopback m =
     (if fd < 0 then (Some (failure FailureInvalidArgument ''socket descriptor must be non-negative''), None)
      else (case get_err (ref_SessionID ref) m of
          Some err \<Rightarrow> (Some err, None)
        | None \<Rightarrow>
            (let s = m_session m;
                 valid = (s_generation s = ref_Generation ref \<and> \<not> s_stopRequested s
                   \<and> (s_state s = StateProbing \<or> s_state s = StatePreparing \<or> s_state s = StateConnected));
                 networkRef = \<lparr>ref_SessionID = s_id s, ref_Generation = s_networkGeneration s\<rparr>
             in if \<not> valid then (Some (failure FailureStaleGeneration ''socket protection belongs to a stale generation''), None)
                else if loopback then (None, None)
                else (wrapFailure FailurePlatform (e_protectErr env), Some (networkRef, fd)))))"

section \<open>Connected health\<close>

definition prepareHealthRecoveryLocked :: "int \<Rightarrow> u64 \<Rightarrow> go_error \<Rightarrow> session \<Rightarrow> session" where
  "prepareHealthRecoveryLocked now generation cause s =
     (let own = ''connected health check failed: '' @ error_text cause;
          healthFailure = (if s_recovering s \<and> s_lastFailureMessage s \<noteq> [] then s_lastFailureMessage s @ ''; '' @ own else own);
          s1 = s\<lparr>s_lastFailure := Some FailureRuntime, s_lastFailureMessage := healthFailure\<rparr>;
          s2 = (if s_hasConnectedAt s1 \<and> now - s_lastConnectedAt s1 \<ge> autoRecoveryStable
                then s1\<lparr>s_recoveryCount := 0, s_recoveryOriginGeneration := 0\<rparr> else s1)
      in if s_recoveryCount s2 < autoRecoveryLimit then
           s2\<lparr>s_recoveryCount := s_recoveryCount s2 + 1, s_restartAfterCleanup := True, s_recovering := True,
              s_recoveryOriginGeneration := (if s_recoveryOriginGeneration s2 = 0 then generation else s_recoveryOriginGeneration s2)\<rparr>
         else
           s2\<lparr>s_failureAfterCleanup := Some FailureRuntime,
              s_failureMessageAfterCleanup := autoRecoveryMessage @ '': '' @ healthFailure,
              s_recovering := False, s_recoveryOriginGeneration := 0\<rparr>)"

definition reportHealthFailure :: "int \<Rightarrow> u64 \<Rightarrow> go_error option \<Rightarrow> manager \<Rightarrow> manager" where
  "reportHealthFailure now generation cause m =
     (let s = m_session m;
          cause' = (case cause of Some e \<Rightarrow> e | None \<Rightarrow> Plain ''connected health check failed'')
      in if generation = 0 \<or> generation \<noteq> s_generation s \<or> s_state s \<noteq> StateConnected then m
         else
           (let s1 = (prepareHealthRecoveryLocked now generation cause' s)\<lparr>s_state := StateStopping\<rparr>;
                m1 = appendLocked now (m\<lparr>m_session := s1\<rparr>)
            in case s_cancel s1 of Some c \<Rightarrow> ctx_cancel c m1 | None \<Rightarrow> m1))"

section \<open>Snapshot\<close>

definition primaryActionLocked :: "session \<Rightarrow> string" where
  "primaryActionLocked s =
     (if canRetry s then ''RETRY''
      else if s_state s = StateFailed \<and> s_cleanupFailed s then ''STOP''
      else if s_pending s \<noteq> None then ''STOP''
      else if s_state s = StateProbing \<or> s_state s = StatePreparing \<or> s_state s = StateConnected \<or> s_recovering s then ''STOP''
      else if s_state s \<noteq> StateStopping \<and> s_cleanupDone s \<and> \<not> s_cleanupFailed s then ''START''
      else ''NONE'')"

record selection =
  sel_Digest :: string
  sel_Mode :: start_mode
  sel_Index :: int

record snapshot_result =
  sn_SessionID :: string
  sn_Sequence :: u64
  sn_Generation :: u64
  sn_NetworkGeneration :: u64
  sn_VPNActive :: bool
  sn_CanRetry :: bool
  sn_State :: sstate
  sn_Configured :: bool
  sn_LogsUploadAvailable :: bool
  sn_Digest :: string
  sn_SourceKind :: source_kind
  sn_SourceURL :: string
  sn_SourceError :: string
  sn_Profiles :: "profile_summary list"
  sn_ActiveDigest :: string
  sn_ActiveMode :: start_mode
  sn_ActiveIndex :: int
  sn_PendingTarget :: "selection option"
  sn_CanSwitch :: bool
  sn_ActiveProfile :: "profile_summary option"
  sn_LastFailure :: "failure_code option"
  sn_LastFailureMessage :: string
  sn_CleanupComplete :: bool
  sn_Recovering :: bool
  sn_PrimaryAction :: string

definition snapshotLocked :: "session \<Rightarrow> snapshot_result" where
  "snapshotLocked s = \<lparr>sn_SessionID = s_id s, sn_Sequence = s_sequence s, sn_Generation = s_generation s,
     sn_NetworkGeneration = s_networkGeneration s, sn_VPNActive = s_vpnActive s, sn_CanRetry = canRetry s,
     sn_State = s_state s, sn_Configured = s_configured s, sn_LogsUploadAvailable = (s_logsEndpoint s \<noteq> []),
     sn_Digest = s_digest s, sn_SourceKind = s_sourceKind s, sn_SourceURL = s_sourceURL s, sn_SourceError = s_sourceError s,
     sn_Profiles = summaries (s_profiles s), sn_ActiveDigest = s_activeDigest s,
     sn_ActiveMode = st_Mode (s_activeTarget s), sn_ActiveIndex = st_Index (s_activeTarget s),
     sn_PendingTarget = map_option (\<lambda>p. \<lparr>sel_Digest = pd_digest p, sel_Mode = st_Mode (pd_target p), sel_Index = st_Index (pd_target p)\<rparr>) (s_pending s),
     sn_CanSwitch = canSwitch s, sn_ActiveProfile = s_active s, sn_LastFailure = s_lastFailure s,
     sn_LastFailureMessage = s_lastFailureMessage s, sn_CleanupComplete = s_cleanupDone s, sn_Recovering = s_recovering s,
     sn_PrimaryAction = primaryActionLocked s\<rparr>"

definition Snapshot :: "string \<Rightarrow> manager \<Rightarrow> go_error + snapshot_result" where
  "Snapshot sessionID m = (case get_err sessionID m of Some err \<Rightarrow> Inl err | None \<Rightarrow> Inr (snapshotLocked (m_session m)))"

section \<open>Restore\<close>

text \<open>
  One iteration of \<^verbatim>\<open>waitForRestoredNetwork\<close> on the session it sees: \<^const>\<open>None\<close> to wait for the next
  change, \<open>Some r\<close> to return \<open>r\<close>.
\<close>

definition restored_status :: "u64 \<Rightarrow> session \<Rightarrow> go_error option option" where
  "restored_status expectedGeneration s =
     (let stopped = (s_stopRequested s \<or> s_cleanupDone s) in
      if s_vpnActive s \<and> \<not> s_closing s \<and> \<not> stopped then Some None
      else if s_state s = StateFailed \<or> s_closing s \<or> stopped
      then Some (Some (Plain (''automatic activation failed: '' @ s_lastFailureMessage s)))
      else if s_generation s \<noteq> expectedGeneration
      then Some (Some (failure FailureStaleGeneration ''automatic activation was replaced''))
      else None)"

text \<open>
  The loop over the sessions observed after each wake-up; the list ends where the context is done, with
  its error.
\<close>

fun waitForRestoredNetwork :: "go_error \<Rightarrow> u64 \<Rightarrow> session list \<Rightarrow> go_error option" where
  "waitForRestoredNetwork ctxErr expected [] =
     errors_join [Some ctxErr, Some (failure FailureCanceled ''automatic activation canceled'')]"
| "waitForRestoredNetwork ctxErr expected (s # later) = (case restored_status expected s of
       Some r \<Rightarrow> r
     | None \<Rightarrow> waitForRestoredNetwork ctxErr expected later)"

text \<open>\<^verbatim>\<open>Restore\<close> up to the wait; \<open>None\<close> is the zero \<^verbatim>\<open>StartResult\<close>.\<close>

definition Restore ::
  "env \<Rightarrow> env \<Rightarrow> config_loader \<Rightarrow> config_parser \<Rightarrow> bool \<Rightarrow> manager
     \<Rightarrow> (manager \<times> (go_error + generation_result option)) outcome" where
  "Restore env env' loader parse onlyPreviouslyEnabled m =
     (let s = m_session m in
      if s_vpnActive s \<and> \<not> s_stopRequested s \<and> \<not> s_closing s
      then Ret (m, Inr (Some \<lparr>gr_Generation = s_generation s, gr_Sequence = s_sequence s\<rparr>))
      else if s_closing s \<or> \<not> s_cleanupDone s
      then Ret (m, Inl (failure FailureConflict ''previous VPN owner has not completed cleanup''))
      else (case m_store m of
          None \<Rightarrow> Ret (m, Inl (failure FailureNotConfigured ''automatic startup storage is unavailable''))
        | Some st \<Rightarrow>
            if \<not> so_activations st
            then Ret (m, Inl (failure FailureNotConfigured ''automatic startup storage is unavailable''))
            else (case e_loadActivationErr env of
                Some err \<Rightarrow> Ret (m, Inl (failureWithCause FailurePlatform ''saved activation could not be read'' (Some err)))
              | None \<Rightarrow> (case decodeActivation (so_activation st) of
                   Inl err \<Rightarrow> Ret (m, Inl err)
                 | Inr saved \<Rightarrow>
                     if onlyPreviouslyEnabled \<and> \<not> sa_Enabled saved then Ret (m, Inr None)
                     else if s_sourceURL s = []
                     then Ret (m, Inl (failure FailureNotConfigured ''automatic startup requires a saved configuration URL''))
                     else (case Configure env env' loader parse (s_id s) (s_sequence s) (s_sourceURL s) m of
                         Panic \<Rightarrow> Panic
                       | Ret (m1, Inl err) \<Rightarrow> Ret (m1, Inl err)
                       | Ret (m1, Inr configured) \<Rightarrow>
                           if sa_Mode saved = ProfileIndex \<and> cf_Digest configured \<noteq> sa_Digest saved
                           then Ret (m1, Inl (failure FailureConflict ''saved profile inventory changed; select the profile again''))
                           else (case Start env env' loader parse (s_id s) (cf_Sequence configured)
                                   \<lparr>st_Mode = sa_Mode saved, st_Index = sa_Index saved, st_ReplaceCurrent = False,
                                    st_Digest = cf_Digest configured, st_Source = None\<rparr> m1 of
                               Panic \<Rightarrow> Panic
                             | Ret (m2, Inl err) \<Rightarrow> Ret (m2, Inl err)
                             | Ret (m2, Inr result) \<Rightarrow> Ret (m2, Inr (Some result))))))))"

section \<open>Shutdown\<close>

definition StopAndWait_locked :: "env \<Rightarrow> manager \<Rightarrow> manager" where
  "StopAndWait_locked env m =
     (let s0 = m_session m;
          s = s0\<lparr>s_closing := True, s_stopRequested := True, s_pending := None, s_recovering := False,
                 s_restartAfterCleanup := False, s_recoveryOriginGeneration := 0\<rparr>
      in appendLocked (e_now env)
           (if \<not> s_cleanupDone s \<and> \<not> s_cleanupFailed s then
              (let wasDormant = (s_state s = StateFailed);
                   m1 = m\<lparr>m_session := s\<lparr>s_state := StateStopping\<rparr>\<rparr>;
                   m2 = (if s_cleanupBudget s = None \<or> wasDormant then new_budget m1 else m1);
                   m3 = (case s_cleanupBudget (m_session m2) of Some b \<Rightarrow> budget_begin b m2 | None \<Rightarrow> m2)
               in case s_cancel s of
                    Some c \<Rightarrow> ctx_cancel c m3
                  | None \<Rightarrow> if wasDormant then go_finish (s_generation s) m3 else m3)
            else m\<lparr>m_session := s\<rparr>))"

text \<open>One iteration of the waiting loop, and the loop; it ends by the context or the budget.\<close>

definition shutdown_status :: "session \<Rightarrow> go_error option option" where
  "shutdown_status s =
     (if s_cleanupFailed s then Some (Some (failure FailureCleanup (s_lastFailureMessage s)))
      else if s_cleanupDone s then Some None else None)"

datatype wait_end = ContextDone go_error | BudgetDone go_error session

fun shutdown_wait :: "wait_end \<Rightarrow> session list \<Rightarrow> go_error option" where
  "shutdown_wait (ContextDone e) [] = Some (failureWithCause FailureCleanup ''shutdown still owns resources'' (Some e))"
| "shutdown_wait (BudgetDone e s) [] =
     (if s_cleanupDone s \<and> \<not> s_cleanupFailed s then None
      else Some (failureWithCause FailureCleanup ''shutdown still owns resources'' (Some e)))"
| "shutdown_wait we (s # later) = (case shutdown_status s of Some r \<Rightarrow> r | None \<Rightarrow> shutdown_wait we later)"

definition Resume :: "env \<Rightarrow> manager \<Rightarrow> manager \<times> go_error option" where
  "Resume env m =
     (let s = m_session m in
      if \<not> s_closing s then (m, None)
      else if \<not> s_cleanupDone s \<or> s_cleanupFailed s
      then (m, Some (failure FailureCleanup ''previous service still owns resources''))
      else (appendLocked (e_now env) (m\<lparr>m_session := s\<lparr>s_closing := False\<rparr>\<rparr>), None))"

end
