(* ===== verification/Session_Worker.thy ===== *)
theory Session_Worker
  imports Session_Stop
begin

text \<open>
  The goroutines of the session manager: \<^verbatim>\<open>runStart\<close> with \<^verbatim>\<open>prepareNetwork\<close>, \<^verbatim>\<open>prepareCandidate\<close>, \<^verbatim>\<open>advance\<close>,
  \<^verbatim>\<open>waitForAttemptEnd\<close> and \<^verbatim>\<open>finish\<close>, as a step function on the worker's program counter, and the
  interleaving of workers and API calls as an inductive step relation.

  One worker step is one critical section, one external call, or one read of the cancellation state.
  What an external call answers is the argument \<open>ext\<close>: the platform and the protocol runtime may
  return any lease and any error, at any time.
\<close>

datatype health = HealthNone | HealthClosed | HealthFailure "go_error option"

record ext =
  x_now :: int
  x_lease :: bool
  x_err :: "go_error option"
  x_monitored :: bool
  x_health :: health
  x_release :: "closer \<Rightarrow> go_error option"

fun protocol_string :: "protocol_kind \<Rightarrow> string" where
  "protocol_string ProtocolOutline = ''OUTLINE''"
| "protocol_string ProtocolXray = ''XRAY''"
| "protocol_string ProtocolTrustTunnel = ''TRUST_TUNNEL''"
| "protocol_string ProtocolNone = []"

definition ctx_err :: "nat \<Rightarrow> manager \<Rightarrow> go_error option" where
  "ctx_err c m = (if c \<in> m_canceled m then Some (Sentinel Canceled) else None)"

section \<open>Critical sections of a worker\<close>

definition advance :: "int \<Rightarrow> u64 \<Rightarrow> sstate \<Rightarrow> profile_summary \<Rightarrow> manager \<Rightarrow> manager \<times> bool" where
  "advance now generation st profile m =
     (let s = m_session m in
      if s_generation s \<noteq> generation \<or> s_state s = StateStopping then (m, False)
      else
        (let s1 = s\<lparr>s_state := st, s_active := Some profile\<rparr>;
             s2 = (if st = StateConnected
                   then s1\<lparr>s_startOriginGeneration := 0, s_lastConnectedAt := now, s_hasConnectedAt := True, s_lastFailure := None,
                           s_lastFailureMessage := [], s_recovering := False, s_recoveryOriginGeneration := 0\<rparr>
                   else s1)
         in (appendLocked now (m\<lparr>m_session := s2\<rparr>), True)))"

text \<open>\<^verbatim>\<open>prepareCandidate\<close>: the new generation, or the reason to stop.\<close>

definition prepareCandidate :: "nat \<Rightarrow> nat \<Rightarrow> u64 \<Rightarrow> manager \<Rightarrow> manager \<times> (go_error + u64)" where
  "prepareCandidate ctx index generation m =
     (if index = 0 then (m, Inr generation)
      else
        (let s = m_session m in
         if s_stopRequested s \<or> ctx_err ctx m \<noteq> None then (m, Inl (failure FailureCanceled ''attempt stopped''))
         else (let m1 = new_budget (m\<lparr>m_session := s\<lparr>s_generation := s_generation s + 1\<rparr>\<rparr>)
               in (m1, Inr (s_generation (m_session m1))))))"

definition finishProtectedFailureLocked :: "int \<Rightarrow> go_error option \<Rightarrow> manager \<Rightarrow> manager" where
  "finishProtectedFailureLocked now cause m =
     (let s = m_session m;
          cm = (case s_failureAfterCleanup s of
                  Some c \<Rightarrow> (c, s_failureMessageAfterCleanup s)
                | None \<Rightarrow> (CodeOf cause,
                    if s_recovering s \<and> s_lastFailureMessage s \<noteq> []
                    then s_lastFailureMessage s @ ''; automatic recovery failed: '' @ errorMessage cause
                    else errorMessage cause))
      in appendLocked now (m\<lparr>m_session := s\<lparr>s_state := StateFailed, s_active := None, s_lastFailure := Some (fst cm),
            s_lastFailureMessage := snd cm, s_recovering := False, s_recoveryOriginGeneration := 0,
            s_failureAfterCleanup := None, s_failureMessageAfterCleanup := []\<rparr>\<rparr>))"

text \<open>The restart at the end of \<^verbatim>\<open>finish\<close>: the pending selection, or the same target again.\<close>

definition finish_restart :: "int \<Rightarrow> manager \<Rightarrow> manager outcome" where
  "finish_restart now m =
     (let s = m_session m in
      case (case s_pending s of
              Some p \<Rightarrow>
                if retainPolicy_ok (pd_profiles p)
                then Some (m\<lparr>m_session := s\<lparr>s_activeProfiles := pd_profiles p, s_activeDigest := pd_digest p,
                             s_pending := None, s_recoveryCount := 0\<rparr>\<rparr>, pd_target p)
                else None
            | None \<Rightarrow> Some (m, s_activeTarget s)) of
        None \<Rightarrow> Panic
      | Some (m1, target) \<Rightarrow> (case beginAttemptLocked now target m1 of
           (m2, ctx, generation) \<Rightarrow> Ret (go_runStart ctx generation target m2)))"

text \<open>
  The last critical section of \<^verbatim>\<open>finish\<close>: record a failed cleanup; or forget the attempt's ledger, and the
  network's where it was released, and then stop, restart or report the failure. A stop that arrived
  during attempt cleanup still owns the network's release and is finished by another round.
\<close>

definition finish_failed :: "int \<Rightarrow> go_error option \<Rightarrow> go_error option \<Rightarrow> manager \<Rightarrow> manager" where
  "finish_failed now cause cleanupErr m =
     appendLocked now (m\<lparr>m_session := (m_session m)\<lparr>s_cancel := None, s_cleanupFailed := True, s_pending := None,
       s_restartAfterCleanup := False, s_recovering := False, s_failureAfterCleanup := None,
       s_failureMessageAfterCleanup := [], s_state := StateFailed, s_active := None,
       s_lastFailure := Some FailureCleanup,
       s_lastFailureMessage := errorMessage (errors_join [cause, cleanupErr]), s_cleanupDone := False\<rparr>\<rparr>)"

definition retired :: "bool \<Rightarrow> session \<Rightarrow> session" where
  "retired releaseNetwork s0 =
     (let s1 = s0\<lparr>s_cancel := None, s_cleanupFailed := False, s_ledger := None\<rparr>
      in if releaseNetwork then s1\<lparr>s_networkLedger := None, s_vpnActive := False\<rparr> else s1)"

definition finish_idle :: "int \<Rightarrow> manager \<Rightarrow> manager" where
  "finish_idle now m =
     appendLocked now (m\<lparr>m_session := (m_session m)\<lparr>s_state := StateIdle, s_active := None, s_pending := None,
       s_recovering := False, s_restartAfterCleanup := False, s_recoveryOriginGeneration := 0,
       s_startOriginGeneration := 0\<rparr>\<rparr>)"

definition finish_retired :: "int \<Rightarrow> u64 \<Rightarrow> bool \<Rightarrow> go_error option \<Rightarrow> manager \<Rightarrow> manager outcome" where
  "finish_retired now generation releaseNetwork cause m =
     (let s = m_session m in
      if \<not> releaseNetwork \<and> (s_stopRequested s \<or> s_closing s) then
        Ret (go_finish generation (m\<lparr>m_session := s\<lparr>s_state := StateStopping\<rparr>\<rparr>))
      else
        (let m1 = budget_finish (s_cleanupBudget s) (m\<lparr>m_session := s\<lparr>s_cleanupDone := \<not> s_vpnActive s\<rparr>\<rparr>)
         in if s_stopRequested s \<or> s_closing s then Ret (finish_idle now m1)
            else if s_vpnActive s \<and> (s_restartAfterCleanup s \<or> s_pending s \<noteq> None) then finish_restart now m1
            else Ret (finishProtectedFailureLocked now cause m1)))"

definition finish_locked ::
  "int \<Rightarrow> u64 \<Rightarrow> bool \<Rightarrow> go_error option \<Rightarrow> go_error option \<Rightarrow> manager \<Rightarrow> manager outcome" where
  "finish_locked now generation releaseNetwork cause cleanupErr m =
     (if s_generation (m_session m) \<noteq> generation then Ret m
      else if cleanupErr \<noteq> None \<or> CodeOf cause = FailureCleanup then Ret (finish_failed now cause cleanupErr m)
      else finish_retired now generation releaseNetwork cause (m\<lparr>m_session := retired releaseNetwork (m_session m)\<rparr>))"

section \<open>Worker steps\<close>

definition select_profile :: "session \<Rightarrow> runtime_profile outcome" where
  "select_profile s =
     (if s_activeProfiles s = [] then Panic
      else if st_Mode (s_activeTarget s) = ProfileIndex then
        (if 0 \<le> st_Index (s_activeTarget s) \<and> st_Index (s_activeTarget s) < int (length (s_activeProfiles s))
         then Ret (s_activeProfiles s ! nat (st_Index (s_activeTarget s))) else Panic)
      else Ret (s_activeProfiles s ! 0))"

text \<open>An acquisition pushes the lease it got, also when it failed; \<open>None\<close> is a nil ledger.\<close>

definition acquire :: "bool \<Rightarrow> nat option \<Rightarrow> (nat \<Rightarrow> closer) \<Rightarrow> manager \<Rightarrow> manager option" where
  "acquire got work mk m =
     (if \<not> got then Some m
      else (case work of None \<Rightarrow> None | Some l \<Rightarrow> Some (push_ledger l (mk (m_next m)) m)))"

definition candidate_error :: "bool \<Rightarrow> worker \<Rightarrow> go_error option \<Rightarrow> go_error option \<Rightarrow> go_error list" where
  "candidate_error invalid w err ctxErr = (case errors_join [err, ctxErr] of
       None \<Rightarrow> []
     | Some e \<Rightarrow>
         if st_Mode (w_target w) = AutoSelect \<and> \<not> invalid
         then [Wrap (''profile '' @ itoa (ps_Index (rp_Summary (w_profiles w ! w_index w))) @ '' (''
                  @ protocol_string (ps_Protocol (rp_Summary (w_profiles w ! w_index w))) @ ''): '') e]
         else [e])"

definition runtime_started :: "ext \<Rightarrow> manager \<Rightarrow> worker \<Rightarrow> manager \<times> worker" where
  "runtime_started ext m w = (case acquire (x_lease ext) (s_ledger (m_session m)) RuntimeStop m of
       None \<Rightarrow> (m, w\<lparr>w_pc := GPanicked\<rparr>)
     | Some m1 \<Rightarrow>
         (let invalid = (x_err ext = None \<and> \<not> x_lease ext);
              err = (if invalid then Some (failure FailureRuntime ''runtime returned an empty lease'') else x_err ext);
              ctxErr = ctx_err (w_ctx w) m1;
              errs = w_errors w @ candidate_error invalid w err ctxErr
          in if err = None \<and> ctxErr = None then (m1, w\<lparr>w_pc := GConnect (x_monitored ext)\<rparr>)
             else if CodeOf err = FailureCleanup
             then (m1, w\<lparr>w_errors := errs, w_pc := GFinish (wrapFailure FailureCleanup (errors_join (map Some errs)))\<rparr>)
             else (m1, w\<lparr>w_errors := errs, w_pc := GReleaseCand invalid\<rparr>)))"

definition wait_step :: "ext \<Rightarrow> bool \<Rightarrow> manager \<Rightarrow> worker \<Rightarrow> manager \<times> worker" where
  "wait_step ext monitored m w =
     (case (if monitored then x_health ext else HealthNone) of
        HealthFailure (Some cause) \<Rightarrow> (reportHealthFailure (x_now ext) (w_gen w) (Some cause) m, w\<lparr>w_pc := GFinish None\<rparr>)
      | HealthFailure None \<Rightarrow> (m, w)
      | HealthClosed \<Rightarrow> (m, w\<lparr>w_pc := GWait False\<rparr>)
      | HealthNone \<Rightarrow> if ctx_err (w_ctx w) m \<noteq> None then (m, w\<lparr>w_pc := GFinish None\<rparr>) else (m, w))"

definition release_candidate :: "ext \<Rightarrow> bool \<Rightarrow> manager \<Rightarrow> worker \<Rightarrow> manager \<times> worker" where
  "release_candidate ext invalid m w = (case s_ledger (m_session m) of
       None \<Rightarrow> (m, w\<lparr>w_pc := GPanicked\<rparr>)
     | Some l \<Rightarrow> (case release_ledger (x_release ext) l (cleanupContext m) of
          (m1, Some e) \<Rightarrow>
            (m1, w\<lparr>w_pc := GFinish (wrapFailure FailureCleanup (errors_join [errors_join (map Some (w_errors w)), Some e]))\<rparr>)
        | (m1, None) \<Rightarrow> (m1, w\<lparr>w_pc := GCheck invalid\<rparr>)))"

fun worker_at :: "pc \<Rightarrow> ext \<Rightarrow> manager \<Rightarrow> worker \<Rightarrow> manager \<times> worker" where
  "worker_at GPrepare ext m w =
     (let s = m_session m in
      if s_vpnActive s then (m, w\<lparr>w_pc := GCopy\<rparr>)
      else (case select_profile s of
          Panic \<Rightarrow> (m, w\<lparr>w_pc := GPanicked\<rparr>)
        | Ret profile \<Rightarrow> (m, w\<lparr>w_pc := GPlatform profile (s_networkLedger s)
              \<lparr>ref_SessionID = s_id s, ref_Generation = s_networkGeneration s\<rparr>\<rparr>)))"
| "worker_at (GPlatform profile work ref) ext m w = (case acquire (x_lease ext) work PlatformRelease m of
       None \<Rightarrow> (m, w\<lparr>w_pc := GPanicked\<rparr>)
     | Some m1 \<Rightarrow>
         if x_err ext \<noteq> None then (m1, w\<lparr>w_pc := GFinish (wrapFailure FailurePlatform (x_err ext))\<rparr>)
         else if \<not> x_lease ext
         then (m1, w\<lparr>w_pc := GFinish (Some (failure FailurePlatform ''platform returned an empty network lease''))\<rparr>)
         else (m1, w\<lparr>w_pc := (if m_networkRuntime m1 then GNetwork profile work ref else GActivate)\<rparr>))"
| "worker_at (GNetwork profile work ref) ext m w = (case acquire (x_lease ext) work NetworkStop m of
       None \<Rightarrow> (m, w\<lparr>w_pc := GPanicked\<rparr>)
     | Some m1 \<Rightarrow>
         if x_err ext \<noteq> None then (m1, w\<lparr>w_pc := GFinish (wrapFailure FailurePlatform (x_err ext))\<rparr>)
         else if \<not> x_lease ext
         then (m1, w\<lparr>w_pc := GFinish (Some (failure FailurePlatform ''runtime returned an empty network lease''))\<rparr>)
         else (m1, w\<lparr>w_pc := GActivate\<rparr>))"
| "worker_at GActivate ext m w =
     (appendLocked (x_now ext) (m\<lparr>m_session := (m_session m)\<lparr>s_vpnActive := True\<rparr>\<rparr>), w\<lparr>w_pc := GActivated\<rparr>)"
| "worker_at GActivated ext m w = (case ctx_err (w_ctx w) m of
       Some e \<Rightarrow> (m, w\<lparr>w_pc := GFinish (Some e)\<rparr>)
     | None \<Rightarrow> (m, w\<lparr>w_pc := GCopy\<rparr>))"
| "worker_at GCopy ext m w =
     (let ps = s_activeProfiles (m_session m); i = st_Index (w_target w) in
      if st_Mode (w_target w) = ProfileIndex then
        (if 0 \<le> i \<and> i < int (length ps) then (m, w\<lparr>w_profiles := [ps ! nat i], w_pc := GCandidate\<rparr>)
         else (m, w\<lparr>w_pc := GPanicked\<rparr>))
      else (m, w\<lparr>w_profiles := ps, w_pc := GCandidate\<rparr>))"
| "worker_at GCandidate ext m w =
     (if w_index w < length (w_profiles w) then
        (case prepareCandidate (w_ctx w) (w_index w) (w_gen w) m of
           (m1, Inl err) \<Rightarrow> (m1, w\<lparr>w_pc := GFinish (Some err)\<rparr>)
         | (m1, Inr generation) \<Rightarrow> (m1, w\<lparr>w_gen := generation, w_pc := GAdvance\<rparr>))
      else (m, w\<lparr>w_pc := GFinish (Some (failureWithCause FailureProbe ''no configured profile became ready''
                               (errors_join (map Some (w_errors w)))))\<rparr>))"
| "worker_at GAdvance ext m w =
     (case advance (x_now ext) (w_gen w) (if st_Mode (w_target w) = ProfileIndex then StatePreparing else StateProbing)
             (rp_Summary (w_profiles w ! w_index w)) m of
        (m1, True) \<Rightarrow> (m1, w\<lparr>w_pc := GStart\<rparr>)
      | (m1, False) \<Rightarrow> (m1, w\<lparr>w_pc := GFinish (Some (failure FailureCanceled ''attempt stopped''))\<rparr>))"
| "worker_at GStart ext m w = runtime_started ext m w"
| "worker_at (GConnect monitored) ext m w =
     (case advance (x_now ext) (w_gen w) StateConnected (rp_Summary (w_profiles w ! w_index w)) m of
        (m1, True) \<Rightarrow> (m1, w\<lparr>w_pc := GWait monitored\<rparr>)
      | (m1, False) \<Rightarrow> (m1, w\<lparr>w_pc := GFinish None\<rparr>))"
| "worker_at (GWait monitored) ext m w = wait_step ext monitored m w"
| "worker_at (GReleaseCand invalid) ext m w = release_candidate ext invalid m w"
| "worker_at (GCheck invalid) ext m w =
     (if ctx_err (w_ctx w) m \<noteq> None
      then (m, w\<lparr>w_pc := GFinish (Some (failureWithCause FailureCanceled ''start was canceled'' (errors_join (map Some (w_errors w)))))\<rparr>)
      else if invalid \<or> st_Mode (w_target w) = ProfileIndex
      then (m, w\<lparr>w_pc := GFinish (wrapFailure FailureRuntime (errors_join (map Some (w_errors w))))\<rparr>)
      else (m, w\<lparr>w_index := Suc (w_index w), w_pc := GCandidate\<rparr>))"
| "worker_at (GFinish cause) ext m w =
     (let s = m_session m in
      if s_generation s \<noteq> w_gen w \<or> \<not> attemptActive (s_state s) then (m, w\<lparr>w_pc := GDone\<rparr>)
      else (m, w\<lparr>w_pc := GRetire1 (s_ledger s) cause\<rparr>))"
| "worker_at (GRetire1 work cause) ext m w = (case work of
       None \<Rightarrow> (m, w\<lparr>w_pc := GRetire2 cause None\<rparr>)
     | Some l \<Rightarrow>
         if CodeOf cause = FailureCleanup then (m, w\<lparr>w_pc := GRetire2 cause None\<rparr>)
         else (case release_ledger (x_release ext) l (cleanupContext m) of (m1, err) \<Rightarrow> (m1, w\<lparr>w_pc := GRetire2 cause err\<rparr>)))"
| "worker_at (GRetire2 cause cleanupErr) ext m w =
     (let s = m_session m
      in (m, w\<lparr>w_pc := GRetire3 (s_networkLedger s) (s_stopRequested s \<or> s_closing s \<or> \<not> s_vpnActive s) cause cleanupErr\<rparr>))"
| "worker_at (GRetire3 network releaseNetwork cause cleanupErr) ext m w = (case network of
       None \<Rightarrow> (m, w\<lparr>w_pc := GFinish2 releaseNetwork cause cleanupErr\<rparr>)
     | Some l \<Rightarrow>
         if cleanupErr = None \<and> CodeOf cause \<noteq> FailureCleanup \<and> releaseNetwork
         then (case release_ledger (x_release ext) l (cleanupContext m) of
                 (m1, err) \<Rightarrow> (m1, w\<lparr>w_pc := GFinish2 releaseNetwork cause err\<rparr>))
         else (m, w\<lparr>w_pc := GFinish2 releaseNetwork cause cleanupErr\<rparr>))"
| "worker_at (GFinish2 releaseNetwork cause cleanupErr) ext m w =
     (case finish_locked (x_now ext) (w_gen w) releaseNetwork cause cleanupErr m of
        Panic \<Rightarrow> (m, w\<lparr>w_pc := GPanicked\<rparr>)
      | Ret m1 \<Rightarrow> (m1, w\<lparr>w_pc := GDone\<rparr>))"
| "worker_at GDone ext m w = (m, w)"
| "worker_at GPanicked ext m w = (m, w)"

definition worker_step :: "nat \<Rightarrow> ext \<Rightarrow> manager \<Rightarrow> manager" where
  "worker_step i ext m =
     (let w = m_workers m ! i in
      case worker_at (w_pc w) ext m w of (m1, w1) \<Rightarrow> m1\<lparr>m_workers := (m_workers m1)[i := w1]\<rparr>)"

section \<open>Interleavings\<close>

text \<open>
  Every way the shared state can change: a critical section of an API call, with any arguments and
  any answers of the environment, or a step of any worker. \<^verbatim>\<open>Configure\<close> and a \<^verbatim>\<open>Start\<close> that carries a source
  are two critical sections with parsing in between; \<^verbatim>\<open>Restore\<close> has none of its own. The parsed
  configuration an acceptance stores is one the parser accepted.
\<close>

inductive sys_step :: "manager \<Rightarrow> manager \<Rightarrow> bool" where
  step_configure_begin: "configure_begin env i n m = (m', r) \<Longrightarrow> sys_step m m'"
| step_configure_accept:
    "parseConfig decode urlparse digest raw = Ret (Inr parsed) \<Longrightarrow>
     configure_accept env request loaded parsed m = Ret (m', r) \<Longrightarrow> sys_step m m'"
| step_start: "start_locked env n target supplied m = Ret (m', r) \<Longrightarrow> sys_step m m'"
| step_stop: "Stop_locked env generation m = Ret (m', r) \<Longrightarrow> sys_step m m'"
| step_shutdown: "sys_step m (StopAndWait_locked env m)"
| step_cleanup_context: "sys_step m (cleanupContext m)"
| step_resume: "Resume env m = (m', r) \<Longrightarrow> sys_step m m'"
| step_attach: "attach_install st m = (m', r) \<Longrightarrow> sys_step m m'"
| step_attached: "sys_step m (attach_loaded now loaded m)"
| step_worker: "i < length (m_workers m) \<Longrightarrow> sys_step m (worker_step i ext m)"

inductive reachable :: "manager \<Rightarrow> bool" where
  reach_new: "reachable (NewManager i initErr store loadErr networkRuntime)"
| reach_step: "reachable m \<Longrightarrow> sys_step m m' \<Longrightarrow> reachable m'"

end
