(* ===== verification/Session_Invariant.thy ===== *)
theory Session_Invariant
  imports Session_Worker "HOL-Library.Multiset"
begin

text \<open>
  The invariant of the session manager, preserved by every critical section of the API and by every
  worker step, and what follows from it: no reachable panic, one owner per attempt, every acquired
  lease accounted for.
\<close>

section \<open>The invariant\<close>

definition live :: "worker list \<Rightarrow> worker list" where
  "live ws = filter (\<lambda>w. w_pc w \<noteq> GDone) ws"

definition target_ok :: "start_target \<Rightarrow> runtime_profile list \<Rightarrow> bool" where
  "target_ok t ps \<longleftrightarrow> ps \<noteq> [] \<and> (st_Mode t = ProfileIndex \<longrightarrow> 0 \<le> st_Index t \<and> st_Index t < int (length ps))"

definition led :: "manager \<Rightarrow> nat option \<Rightarrow> closer list" where
  "led m lo = (case lo of None \<Rightarrow> [] | Some l \<Rightarrow> m_ledgers m l)"

text \<open>The program counters at which a worker may still acquire resources for its attempt.\<close>

fun acquiring :: "pc \<Rightarrow> bool" where
  "acquiring (GFinish c) = False"
| "acquiring (GRetire1 l c) = False"
| "acquiring (GRetire2 c e) = False"
| "acquiring (GRetire3 n r c e) = False"
| "acquiring (GFinish2 r c e) = False"
| "acquiring GDone = False"
| "acquiring GPanicked = False"
| "acquiring p = True"

definition clean :: "go_error option \<Rightarrow> go_error option \<Rightarrow> bool" where
  "clean cause cleanupErr \<longleftrightarrow> cleanupErr = None \<and> CodeOf cause \<noteq> FailureCleanup"

definition core_ok :: "session \<Rightarrow> bool" where
  "core_ok s \<longleftrightarrow>
     (s_cleanupFailed s \<longrightarrow> \<not> s_cleanupDone s \<and> s_state s = StateFailed)
   \<and> (s_vpnActive s \<longrightarrow> \<not> s_cleanupDone s)
   \<and> (attemptActive (s_state s) \<longrightarrow> \<not> s_cleanupDone s)
   \<and> (s_state s = StateIdle \<or> s_state s = StateConfigured \<longrightarrow> s_cleanupDone s)
   \<and> (s_state s = StateFailed \<and> \<not> s_cleanupFailed s \<longrightarrow> s_cleanupDone s = (\<not> s_vpnActive s) \<and> s_ledger s = None)
   \<and> (s_cleanupDone s \<longrightarrow> s_ledger s = None \<and> s_networkLedger s = None)
   \<and> (\<not> s_cleanupDone s \<longrightarrow> s_networkLedger s \<noteq> None \<and> target_ok (s_activeTarget s) (s_activeProfiles s) \<and> s_cleanupBudget s \<noteq> None)
   \<and> (s_configured s \<longrightarrow> s_profiles s \<noteq> [])
   \<and> (\<forall>p. s_pending s = Some p \<longrightarrow> target_ok (pd_target p) (pd_profiles p) \<and> s_state s = StateStopping \<and> s_vpnActive s)
   \<and> (\<not> attemptActive (s_state s) \<longrightarrow> s_cancel s = None \<and> \<not> s_recovering s)
   \<and> (s_state s = StateFailed \<and> s_vpnActive s \<and> \<not> s_cleanupFailed s \<longrightarrow> \<not> s_stopRequested s \<and> \<not> s_closing s)
   \<and> 0 \<le> s_recoveryCount s \<and> s_recoveryCount s \<le> autoRecoveryLimit
   \<and> (s_state s = StateConnected \<longrightarrow> s_vpnActive s)
   \<and> (\<forall>l. s_ledger s = Some l \<longrightarrow> s_networkLedger s \<noteq> Some l)"

text \<open>
  A worker that gives its attempt up has left the connected state. The one exception is the generation
  counter wrapping around to 0, the number \<^verbatim>\<open>reportHealthFailure\<close> takes for no generation at all.
\<close>

definition retiring :: "session \<Rightarrow> bool" where
  "retiring s \<longleftrightarrow> s_state s \<noteq> StateConnected \<or> s_generation s = 0"

fun pc_ok :: "manager \<Rightarrow> worker \<Rightarrow> pc \<Rightarrow> bool" where
  "pc_ok m w GPrepare = (s_state (m_session m) \<noteq> StateConnected)"
| "pc_ok m w (GPlatform p work ref) =
     (\<not> s_vpnActive (m_session m) \<and> work = s_networkLedger (m_session m) \<and> s_state (m_session m) \<noteq> StateConnected)"
| "pc_ok m w (GNetwork p work ref) =
     (\<not> s_vpnActive (m_session m) \<and> work = s_networkLedger (m_session m) \<and> s_state (m_session m) \<noteq> StateConnected
      \<and> led m work \<noteq> [])"
| "pc_ok m w GActivate = (\<not> s_vpnActive (m_session m) \<and> s_state (m_session m) \<noteq> StateConnected
      \<and> led m (s_networkLedger (m_session m)) \<noteq> [])"
| "pc_ok m w GActivated = (s_vpnActive (m_session m) \<and> s_state (m_session m) \<noteq> StateConnected)"
| "pc_ok m w GCopy = (s_vpnActive (m_session m) \<and> s_state (m_session m) \<noteq> StateConnected)"
| "pc_ok m w GCandidate = (s_vpnActive (m_session m) \<and> s_state (m_session m) \<noteq> StateConnected)"
| "pc_ok m w GAdvance = (s_vpnActive (m_session m) \<and> s_state (m_session m) \<noteq> StateConnected \<and> w_index w < length (w_profiles w))"
| "pc_ok m w GStart = (s_vpnActive (m_session m) \<and> s_state (m_session m) \<noteq> StateConnected \<and> w_index w < length (w_profiles w))"
| "pc_ok m w (GConnect b) = (s_vpnActive (m_session m) \<and> s_state (m_session m) \<noteq> StateConnected \<and> w_index w < length (w_profiles w)
      \<and> led m (s_ledger (m_session m)) \<noteq> [])"
| "pc_ok m w (GWait b) = (s_vpnActive (m_session m) \<and> s_state (m_session m) \<in> {StateConnected, StateStopping}
      \<and> led m (s_ledger (m_session m)) \<noteq> [])"
| "pc_ok m w (GReleaseCand b) = (s_vpnActive (m_session m) \<and> s_state (m_session m) \<noteq> StateConnected)"
| "pc_ok m w (GCheck b) = (s_vpnActive (m_session m) \<and> s_state (m_session m) \<noteq> StateConnected)"
| "pc_ok m w (GFinish c) = (retiring (m_session m))"
| "pc_ok m w (GRetire1 l c) = (retiring (m_session m) \<and> l = s_ledger (m_session m))"
| "pc_ok m w (GRetire2 c e) = (retiring (m_session m)
      \<and> (clean c e \<longrightarrow> led m (s_ledger (m_session m)) = []))"
| "pc_ok m w (GRetire3 n r c e) = (retiring (m_session m)
      \<and> (clean c e \<longrightarrow> led m (s_ledger (m_session m)) = []) \<and> n = s_networkLedger (m_session m)
      \<and> (r \<longrightarrow> s_stopRequested (m_session m) \<or> s_closing (m_session m) \<or> \<not> s_vpnActive (m_session m))
      \<and> (\<not> s_vpnActive (m_session m) \<longrightarrow> r))"
| "pc_ok m w (GFinish2 r c e) = (retiring (m_session m)
      \<and> (clean c e \<longrightarrow> led m (s_ledger (m_session m)) = [] \<and> (r \<longrightarrow> led m (s_networkLedger (m_session m)) = []))
      \<and> (r \<longrightarrow> s_stopRequested (m_session m) \<or> s_closing (m_session m) \<or> \<not> s_vpnActive (m_session m))
      \<and> (\<not> s_vpnActive (m_session m) \<longrightarrow> r))"
| "pc_ok m w GDone = True"
| "pc_ok m w GPanicked = False"

definition worker_ok :: "manager \<Rightarrow> worker \<Rightarrow> bool" where
  "worker_ok m w \<longleftrightarrow>
     w_gen w = s_generation (m_session m)
   \<and> (acquiring (w_pc w) \<longrightarrow>
        s_cancel (m_session m) = Some (w_ctx w) \<and> s_ledger (m_session m) \<noteq> None
      \<and> target_ok (w_target w) (s_activeProfiles (m_session m))
      \<and> (s_state (m_session m) = StateStopping \<longleftrightarrow> w_ctx w \<in> m_canceled m))
   \<and> (\<not> acquiring (w_pc w) \<and> s_state (m_session m) \<noteq> StateStopping \<longrightarrow> s_cancel (m_session m) \<noteq> None)
   \<and> pc_ok m w (w_pc w)"

definition workers_ok :: "manager \<Rightarrow> bool" where
  "workers_ok m \<longleftrightarrow>
     (if attemptActive (s_state (m_session m)) then \<exists>w. live (m_workers m) = [w] \<and> worker_ok m w
      else live (m_workers m) = [])"

fun closer_id :: "closer \<Rightarrow> nat" where
  "closer_id (PlatformRelease n) = n"
| "closer_id (NetworkStop n) = n"
| "closer_id (RuntimeStop n) = n"

definition heap_ok :: "manager \<Rightarrow> bool" where
  "heap_ok m \<longleftrightarrow>
     (\<forall>l. s_ledger (m_session m) = Some l \<longrightarrow> l < m_next m)
   \<and> (\<forall>l. s_networkLedger (m_session m) = Some l \<longrightarrow> l < m_next m)
   \<and> (\<forall>c\<in>m_canceled m. c < m_next m)
   \<and> (\<forall>c. s_cancel (m_session m) = Some c \<longrightarrow> c < m_next m)
   \<and> (\<forall>c\<in>set (m_acquired m). closer_id c < m_next m)
   \<and> distinct (map closer_id (m_acquired m))
   \<and> mset (m_acquired m) = mset (m_released m) + mset (led m (s_ledger (m_session m)))
        + mset (led m (s_networkLedger (m_session m)))
   \<and> (s_vpnActive (m_session m) \<and> \<not> s_stopRequested (m_session m) \<and> \<not> s_closing (m_session m)
        \<and> \<not> s_cleanupFailed (m_session m) \<longrightarrow> led m (s_networkLedger (m_session m)) \<noteq> [])"

definition sess_inv :: "manager \<Rightarrow> bool" where
  "sess_inv m \<longleftrightarrow> core_ok (m_session m) \<and> workers_ok m \<and> heap_ok m"

section \<open>Frames\<close>

lemma live_simps [simp]: "live [] = []" "live (ws @ [w]) = live ws @ (if w_pc w = GDone then [] else [w])"
  by (simp_all add: live_def)

lemma attemptActive_simps [simp]:
  "attemptActive StateProbing" "attemptActive StatePreparing" "attemptActive StateConnected" "attemptActive StateStopping"
  "\<not> attemptActive StateIdle" "\<not> attemptActive StateConfigured" "\<not> attemptActive StateFailed"
  by (simp_all add: attemptActive_def)

lemma live_update:
  assumes "live ws = [w]" and "i < length ws" and "w_pc (ws ! i) \<noteq> GDone"
  shows "ws ! i = w \<and> live (ws[i := w']) = (if w_pc w' = GDone then [] else [w'])"
proof -
  from id_take_nth_drop[OF assms(2)] have ws: "ws = take i ws @ ws ! i # drop (Suc i) ws" .
  let ?a = "take i ws" and ?b = "drop (Suc i) ws"
  have "live ws = live ?a @ (ws ! i) # live ?b"
    by (subst ws) (simp add: live_def assms(3))
  with assms(1) have e: "live ?a = []" "live ?b = []" "ws ! i = w"
    by (auto simp: append_eq_Cons_conv)
  have "live (ws[i := w']) = live ?a @ (if w_pc w' = GDone then [] else [w']) @ live ?b"
    by (simp add: upd_conv_take_nth_drop[OF assms(2)] live_def)
  with e show ?thesis by simp
qed

lemma live_update_done:
  assumes "i < length ws" and "w_pc (ws ! i) = GDone" and "w_pc w' = GDone"
  shows "live (ws[i := w']) = live ws"
proof -
  from id_take_nth_drop[OF assms(1)] have ws: "ws = take i ws @ ws ! i # drop (Suc i) ws" .
  have "live (ws[i := w']) = live (take i ws) @ live (drop (Suc i) ws)"
    by (simp add: upd_conv_take_nth_drop[OF assms(1)] live_def assms(3))
  also have "\<dots> = live ws" by (subst (3) ws) (simp add: live_def assms(2))
  finally show ?thesis .
qed

text \<open>
  What a critical section that neither acquires nor releases anything keeps of the state; a shutdown may
  only be revoked once cleanup is done.
\<close>

definition frame :: "manager \<Rightarrow> manager \<Rightarrow> bool" where
  "frame m m' \<longleftrightarrow> (let s = m_session m; s' = m_session m' in
     s_generation s' = s_generation s \<and> s_cancel s' = s_cancel s \<and> s_ledger s' = s_ledger s
   \<and> s_networkLedger s' = s_networkLedger s \<and> s_activeProfiles s' = s_activeProfiles s \<and> s_vpnActive s' = s_vpnActive s
   \<and> (s_stopRequested s \<longrightarrow> s_stopRequested s') \<and> (s_closing s \<longrightarrow> s_closing s' \<or> s_cleanupDone s)
   \<and> m_ledgers m' = m_ledgers m \<and> m_acquired m' = m_acquired m \<and> m_released m' = m_released m \<and> m_next m \<le> m_next m')"

lemma frame_led: "frame m m' \<Longrightarrow> led m' = led m"
  by (auto simp: frame_def led_def Let_def fun_eq_iff split: option.splits)

lemma worker_ok_frame:
  assumes "frame m m'" "\<not> s_cleanupDone (m_session m)" "s_state (m_session m') = s_state (m_session m)" "m_canceled m' = m_canceled m"
    and "worker_ok m w"
  shows "worker_ok m' w"
  using assms frame_led[OF assms(1)]
  by (cases "w_pc w") (auto simp: worker_ok_def retiring_def frame_def Let_def)

lemma worker_ok_stop:
  assumes "frame m m'" "\<not> s_cleanupDone (m_session m)" "s_state (m_session m') = StateStopping"
    and "s_cancel (m_session m) \<noteq> None \<longrightarrow> the (s_cancel (m_session m)) \<in> m_canceled m'"
    and "worker_ok m w"
  shows "worker_ok m' w"
  using assms frame_led[OF assms(1)]
  by (cases "w_pc w") (auto simp: worker_ok_def retiring_def frame_def Let_def)

lemma heap_ok_frame:
  assumes "frame m m'" "heap_ok m" "core_ok (m_session m)" "\<forall>c\<in>m_canceled m'. c < m_next m'"
    and "s_cleanupFailed (m_session m) \<Longrightarrow> s_cleanupFailed (m_session m') \<or> s_stopRequested (m_session m')"
  shows "heap_ok m'"
proof -
  have nd: "\<not> s_cleanupDone (m_session m)" if "s_vpnActive (m_session m)"
    using assms(3) that by (simp add: core_ok_def)
  have eq: "s_ledger (m_session m') = s_ledger (m_session m)" "s_networkLedger (m_session m') = s_networkLedger (m_session m)"
    "s_cancel (m_session m') = s_cancel (m_session m)" "m_acquired m' = m_acquired m" "m_released m' = m_released m"
    "s_vpnActive (m_session m') = s_vpnActive (m_session m)" "m_next m \<le> m_next m'" "led m' = led m"
    using assms(1) frame_led[OF assms(1)] by (simp_all add: frame_def Let_def)
  have mono: "s_stopRequested (m_session m) \<Longrightarrow> s_stopRequested (m_session m')"
    "s_closing (m_session m) \<Longrightarrow> s_vpnActive (m_session m) \<Longrightarrow> s_closing (m_session m')"
    using assms(1) nd by (auto simp: frame_def Let_def)
  have lt: "k < m_next m \<Longrightarrow> k < m_next m'" for k using eq(7) by simp
  show ?thesis
    unfolding heap_ok_def eq
    using assms(2) lt mono assms(4,5) unfolding heap_ok_def by blast
qed

lemma inv_not_done: "sess_inv m \<Longrightarrow> attemptActive (s_state (m_session m)) \<Longrightarrow> \<not> s_cleanupDone (m_session m)"
  by (simp add: sess_inv_def core_ok_def)

lemma inv_worker: "sess_inv m \<Longrightarrow> attemptActive (s_state (m_session m)) \<Longrightarrow> \<exists>w. live (m_workers m) = [w] \<and> worker_ok m w \<and> w_pc w \<noteq> GDone"
proof -
  assume "sess_inv m" "attemptActive (s_state (m_session m))"
  then obtain w where w: "live (m_workers m) = [w]" "worker_ok m w" by (auto simp: sess_inv_def workers_ok_def)
  from w(1) have "w \<in> set (live (m_workers m))" by simp
  then have "w_pc w \<noteq> GDone" unfolding live_def by simp
  with w show ?thesis by blast
qed

lemma inv_no_worker: "sess_inv m \<Longrightarrow> \<not> attemptActive (s_state (m_session m)) \<Longrightarrow> live (m_workers m) = []"
  by (simp add: sess_inv_def workers_ok_def)

lemma inv_same:
  assumes "sess_inv m" "frame m m'" "s_state (m_session m') = s_state (m_session m) \<or> \<not> attemptActive (s_state (m_session m)) \<and> \<not> attemptActive (s_state (m_session m'))"
    and "m_canceled m' = m_canceled m" "m_workers m' = m_workers m"
    and "core_ok (m_session m')"
    and "s_cleanupFailed (m_session m) \<Longrightarrow> s_cleanupFailed (m_session m') \<or> s_stopRequested (m_session m')"
  shows "sess_inv m'"
proof -
  have n: "m_next m \<le> m_next m'" using assms(2) by (simp add: frame_def Let_def)
  have h: "heap_ok m'"
  proof (rule heap_ok_frame[OF assms(2)])
    show "heap_ok m" "core_ok (m_session m)" using assms(1) by (simp_all add: sess_inv_def)
    then have "\<forall>c\<in>m_canceled m'. c < m_next m"
      using assms by (simp add: heap_ok_def)
    with n show "\<forall>c\<in>m_canceled m'. c < m_next m'" by auto
  qed (rule assms)
  have "workers_ok m'"
  proof (cases "attemptActive (s_state (m_session m))")
    case True
    from inv_worker[OF assms(1) True] obtain w where "live (m_workers m) = [w]" "worker_ok m w" by blast
    with worker_ok_frame[OF assms(2) inv_not_done[OF assms(1) True] _ assms(4)] assms(3,5) True
    show ?thesis by (simp add: workers_ok_def)
  next
    case False
    with inv_no_worker[OF assms(1) False] assms(3,5) show ?thesis by (auto simp: workers_ok_def)
  qed
  with h assms(6) show ?thesis by (simp add: sess_inv_def)
qed

lemma inv_stop:
  assumes "sess_inv m" "frame m m'" "attemptActive (s_state (m_session m))" "s_state (m_session m') = StateStopping"
    and "m_canceled m' = (case s_cancel (m_session m) of None \<Rightarrow> m_canceled m | Some c \<Rightarrow> insert c (m_canceled m))"
    and "m_workers m' = m_workers m" "core_ok (m_session m')"
    and "s_cleanupFailed (m_session m) \<Longrightarrow> s_cleanupFailed (m_session m') \<or> s_stopRequested (m_session m')"
  shows "sess_inv m'"
proof -
  have n: "m_next m \<le> m_next m'" using assms(2) by (simp add: frame_def Let_def)
  have h: "heap_ok m'"
  proof (rule heap_ok_frame[OF assms(2)])
    show "heap_ok m" "core_ok (m_session m)" using assms(1) by (simp_all add: sess_inv_def)
    then have "\<forall>c\<in>m_canceled m'. c < m_next m"
      using assms(5) by (simp add: heap_ok_def split: option.splits)
    with n show "\<forall>c\<in>m_canceled m'. c < m_next m'" by auto
  qed (rule assms(8))
  have "workers_ok m'"
  proof -
    from inv_worker[OF assms(1,3)] obtain w where w: "live (m_workers m) = [w]" "worker_ok m w" by blast
    have "s_cancel (m_session m) \<noteq> None \<longrightarrow> the (s_cancel (m_session m)) \<in> m_canceled m'"
      unfolding assms(5) by (cases "s_cancel (m_session m)") simp_all
    with worker_ok_stop[OF assms(2) inv_not_done[OF assms(1,3)] assms(4)] w assms(4,6)
    show ?thesis by (simp add: workers_ok_def)
  qed
  with h assms(7) show ?thesis by (simp add: sess_inv_def)
qed

lemma inv_spawn_finish:
  assumes "sess_inv m" "frame m m'" "\<not> attemptActive (s_state (m_session m))" "s_state (m_session m') = StateStopping"
    and "m_canceled m' = m_canceled m" "m_workers m' = m_workers (go_finish (s_generation (m_session m)) m)"
    and "core_ok (m_session m')"
    and "s_cleanupFailed (m_session m) \<Longrightarrow> s_cleanupFailed (m_session m') \<or> s_stopRequested (m_session m')"
  shows "sess_inv m'"
proof -
  have n: "m_next m \<le> m_next m'" using assms(2) by (simp add: frame_def Let_def)
  have h: "heap_ok m'"
  proof (rule heap_ok_frame[OF assms(2)])
    show "heap_ok m" "core_ok (m_session m)" using assms(1) by (simp_all add: sess_inv_def)
    then have "\<forall>c\<in>m_canceled m'. c < m_next m"
      using assms by (simp add: heap_ok_def)
    with n show "\<forall>c\<in>m_canceled m'. c < m_next m'" by auto
  qed (rule assms)
  have "workers_ok m'"
    using inv_no_worker[OF assms(1,3)] assms(2,4,6)
    by (simp add: workers_ok_def go_finish_def worker_ok_def retiring_def frame_def Let_def)
  with h assms(7) show ?thesis by (simp add: sess_inv_def)
qed

text \<open>Starting an attempt: a new cancellation context and a new, empty ledger.\<close>

lemma inv_spawn_start:
  assumes "heap_ok m" "core_ok (m_session m')" "live (m_workers m) = []"
    and "m_workers m' = m_workers (go_runStart ctx (s_generation (m_session m')) target m)"
    and "s_state (m_session m') = StateProbing" "s_cancel (m_session m') = Some ctx" "m_next m \<le> ctx" "ctx < m_next m'"
    and "s_ledger (m_session m') = Some l" "m_next m \<le> l" "l < m_next m'" "m_ledgers m' l = []"
    and "target_ok target (s_activeProfiles (m_session m'))"
    and "m_canceled m' = m_canceled m" "m_acquired m' = m_acquired m" "m_released m' = m_released m"
    and "led m (s_ledger (m_session m)) = []"
    and "led m' (s_networkLedger (m_session m')) = led m (s_networkLedger (m_session m))"
    and "\<forall>k. s_networkLedger (m_session m') = Some k \<longrightarrow> k < m_next m'"
    and "s_vpnActive (m_session m') \<longrightarrow> led m (s_networkLedger (m_session m)) \<noteq> []"
  shows "sess_inv m'"
proof -
  have le: "m_next m \<le> m_next m'" using assms(7,8) by simp
  have h: "heap_ok m'"
    unfolding heap_ok_def
  proof (intro conjI)
    show "\<forall>k. s_ledger (m_session m') = Some k \<longrightarrow> k < m_next m'" using assms by simp
    show "\<forall>k. s_networkLedger (m_session m') = Some k \<longrightarrow> k < m_next m'" by (rule assms(19))
    show "\<forall>c\<in>m_canceled m'. c < m_next m'" using assms(1,14) le by (auto simp: heap_ok_def)
    show "\<forall>c. s_cancel (m_session m') = Some c \<longrightarrow> c < m_next m'" using assms by simp
    show "\<forall>c\<in>set (m_acquired m'). closer_id c < m_next m'" using assms(1,15) le by (auto simp: heap_ok_def)
    show "distinct (map closer_id (m_acquired m'))" using assms(1,15) by (simp add: heap_ok_def)
    have "led m' (s_ledger (m_session m')) = []" using assms(9,12) by (simp add: led_def)
    then show "mset (m_acquired m') = mset (m_released m') + mset (led m' (s_ledger (m_session m')))
        + mset (led m' (s_networkLedger (m_session m')))"
      using assms(1,15-18) by (simp add: heap_ok_def)
  qed (use assms(18,20) in simp)
  have "ctx \<notin> m_canceled m'" using assms(1,7,14) by (auto simp: heap_ok_def)
  then have "workers_ok m'"
    using assms by (simp add: workers_ok_def go_runStart_def worker_ok_def)
  with h assms(2) show ?thesis by (simp add: sess_inv_def)
qed

end
