(* ===== verification/Session_Preserve.thy ===== *)
theory Session_Preserve
  imports Session_Invariant
begin

text \<open>
  Every critical section of the API preserves the invariant and does not panic.
\<close>

section \<open>Configuration and bookkeeping\<close>

lemma inv_new: "sess_inv (NewManager i e st le nr)"
  by (simp add: sess_inv_def core_ok_def workers_ok_def heap_ok_def NewManager_def Let_def autoRecoveryLimit_def led_def)

lemmas op_defs = appendLocked_def budget_begin_def ctx_cancel_def new_budget_def Let_def

lemma inv_core: "sess_inv m \<Longrightarrow> core_ok (m_session m)"
  by (simp add: sess_inv_def)

definition ok_inv :: "(manager \<times> 'a) outcome \<Rightarrow> bool" where
  "ok_inv x = (case x of Panic \<Rightarrow> False | Ret (m, r) \<Rightarrow> sess_inv m)"

lemma ok_inv_simps [simp]: "ok_inv Panic = False" "ok_inv (Ret (m, r)) = sess_inv m" "ok_inv (Ret p) = sess_inv (fst p)"
  by (simp_all add: ok_inv_def split: prod.split)

fun state_of :: "(manager \<times> 'a) outcome \<Rightarrow> manager" where
  "state_of (Ret p) = fst p"
| "state_of Panic = undefined"

lemma ok_invI: "x \<noteq> Panic \<Longrightarrow> sess_inv (state_of x) \<Longrightarrow> ok_inv x"
  by (cases x) auto

lemma inv_same_core:
  assumes "sess_inv m" "frame m m'" "m_canceled m' = m_canceled m" "m_workers m' = m_workers m"
    and "s_state (m_session m') = s_state (m_session m)" "s_cleanupDone (m_session m') = s_cleanupDone (m_session m)"
    "s_cleanupFailed (m_session m') = s_cleanupFailed (m_session m)" "s_activeTarget (m_session m') = s_activeTarget (m_session m)"
    "s_cleanupBudget (m_session m) \<noteq> None \<Longrightarrow> s_cleanupBudget (m_session m') \<noteq> None" "s_configured (m_session m') = s_configured (m_session m)"
    "s_profiles (m_session m') = s_profiles (m_session m)" "s_pending (m_session m') = s_pending (m_session m)"
    "s_stopRequested (m_session m') = s_stopRequested (m_session m)" "s_closing (m_session m') = s_closing (m_session m)"
    "s_recoveryCount (m_session m') = s_recoveryCount (m_session m)" "s_recovering (m_session m') = s_recovering (m_session m)"
  shows "sess_inv m'"
proof (rule inv_same[OF assms(1,2) disjI1[OF assms(5)] assms(3,4)])
  show "core_ok (m_session m')"
    using inv_core[OF assms(1)] assms(2,5-) unfolding core_ok_def frame_def Let_def by metis
qed (simp add: assms)

lemma inv_configure_begin:
  assumes "sess_inv m"
  shows "sess_inv (fst (configure_begin env i n m))"
proof -
  have "sess_inv (m\<lparr>m_session := (m_session m)\<lparr>s_configureRequest := k\<rparr>\<rparr>)" for k
    by (rule inv_same_core[OF assms]) (simp_all add: frame_def Let_def)
  with assms show ?thesis by (simp add: configure_begin_def Let_def split: option.split)
qed

lemma inv_store: "sess_inv m \<Longrightarrow> sess_inv (m\<lparr>m_store := st\<rparr>)"
  by (rule inv_same_core[of m]) (simp_all add: frame_def Let_def)

lemma inv_append: "sess_inv m \<Longrightarrow> sess_inv (appendLocked now m)"
  by (rule inv_same_core[of m]) (simp_all add: frame_def op_defs)

lemma inv_cleanupContext: "sess_inv m \<Longrightarrow> sess_inv (cleanupContext m)"
  by (rule inv_same_core[of m]) (simp_all add: cleanupContext_def frame_def op_defs split: option.split)

lemma inv_attach_install: "sess_inv m \<Longrightarrow> sess_inv (fst (attach_install st m))"
  by (simp add: attach_install_def inv_store)

lemma inv_attach_loaded: "sess_inv m \<Longrightarrow> sess_inv (attach_loaded now loaded m)"
  unfolding attach_loaded_def Let_def
  by (rule inv_append, rule inv_same_core[of m]) (simp_all add: frame_def Let_def split: sum.split)

lemma inv_resume: "sess_inv m \<Longrightarrow> sess_inv (fst (Resume env m))"
proof -
  assume i: "sess_inv m"
  have "sess_inv (m\<lparr>m_session := (m_session m)\<lparr>s_closing := False\<rparr>\<rparr>)" if "s_cleanupDone (m_session m)"
  proof (rule inv_same[OF i])
    show "core_ok (m_session (m\<lparr>m_session := (m_session m)\<lparr>s_closing := False\<rparr>\<rparr>))"
      using inv_core[OF i] that by (auto simp: core_ok_def)
  qed (simp_all add: frame_def Let_def that)
  with i show ?thesis by (simp add: Resume_def Let_def inv_append)
qed

lemma store_source_shape: "\<exists>st. fst (store_source env loaded m) = m\<lparr>m_store := st\<rparr>"
  by (auto simp: store_source_def split: option.split intro: exI[of _ "m_store m"])

lemma saveActivation_shape: "\<exists>st. fst (saveActivationLocked env t m) = m\<lparr>m_store := st\<rparr>"
  by (auto simp: saveActivationLocked_def split: option.split intro: exI[of _ "m_store m"])

lemma stopActivation_shape: "\<exists>st. fst (stopActivationLocked env m) = m\<lparr>m_store := st\<rparr>"
  by (auto simp: stopActivationLocked_def split: option.split sum.split intro: exI[of _ "m_store m"])


lemma inv_configure_accept:
  assumes i: "sess_inv m" and "pcfg_profiles parsed \<noteq> []"
  shows "ok_inv (configure_accept env request loaded parsed m)"
proof -
  obtain st where st: "fst (store_source env loaded m) = m\<lparr>m_store := st\<rparr>" using store_source_shape by blast
  let ?m1 = "m\<lparr>m_store := st\<rparr>"
  have i1: "sess_inv ?m1" by (rule inv_store[OF i])
  have base: "sess_inv (?m1\<lparr>m_session := (m_session m)\<lparr>s_profiles := pcfg_profiles parsed, s_digest := pcfg_digest parsed,
                    s_sourceKind := lc_Kind loaded, s_sourceURL := lc_SourceURL loaded, s_configured := True,
                    s_logsEndpoint := pcfg_logsEndpoint parsed, s_sourceError := []\<rparr>\<rparr>)" (is "sess_inv ?m2")
  proof (rule inv_same[OF i1])
    show "core_ok (m_session ?m2)" using inv_core[OF i] assms(2) by (simp add: core_ok_def)
  qed (simp_all add: frame_def Let_def)
  have cleared: "sess_inv (?m2\<lparr>m_session := (m_session ?m2)\<lparr>s_active := None, s_lastFailure := None, s_lastFailureMessage := [],
       s_state := StateConfigured, s_activeDigest := [], s_activeProfiles := [], s_activeTarget := zero_target,
       s_recoveryOriginGeneration := 0, s_recoveryCount := 0\<rparr>\<rparr>)" (is "sess_inv ?m3")
    if d: "s_cleanupDone (m_session m)"
  proof -
    have a: "\<not> attemptActive (s_state (m_session ?m2))" using inv_core[OF i] d by (auto simp: core_ok_def)
    have "core_ok (m_session ?m3)" using inv_core[OF base] d by (auto simp: core_ok_def autoRecoveryLimit_def)
    moreover have "heap_ok ?m3"
      using base d inv_core[OF base] by (simp add: sess_inv_def heap_ok_def led_def core_ok_def)
    moreover have "workers_ok ?m3"
      using inv_no_worker[OF base a] by (simp add: workers_ok_def)
    ultimately show ?thesis by (simp add: sess_inv_def)
  qed
  show ?thesis
  proof (cases "validateConfigureBeforeAccept (e_ctxErr env) (m_session m) request")
    case None
    obtain e where ss: "store_source env loaded m = (?m1, e)" using st by (metis prod.collapse)
    show ?thesis
    proof (cases e)
      case N: None
      show ?thesis
        using base cleared assms(2)
        by (simp add: configure_accept_def None ss N retainPolicy_ok_def inv_append Let_def)
    next
      case (Some err)
      then show ?thesis using i1 by (simp add: configure_accept_def None ss)
    qed
  next
    case (Some err)
    then show ?thesis using i by (simp add: configure_accept_def)
  qed
qed

section \<open>Start\<close>

lemma target_ok_retry:
  "target_ok t ps \<Longrightarrow> st_Mode t' = st_Mode t \<Longrightarrow> \<not> (st_Mode t' = ProfileIndex \<and> st_Index t' \<noteq> st_Index t) \<Longrightarrow> target_ok t' ps"
  by (auto simp: target_ok_def)

lemma inv_retryLocked:
  assumes i: "sess_inv m" and c: "canRetry (m_session m)"
  shows "sess_inv (fst (retryLocked env target supplied m))"
proof (cases "supplied \<or> st_ReplaceCurrent target \<or> st_Mode target \<noteq> st_Mode (s_activeTarget (m_session m))
         \<or> st_Mode target = ProfileIndex \<and> st_Index target \<noteq> st_Index (s_activeTarget (m_session m))
         \<or> st_Digest target \<noteq> [] \<and> st_Digest target \<noteq> s_activeDigest (m_session m)")
  case True
  then show ?thesis using i by (simp add: retryLocked_def Let_def)
next
  case False
  let ?m' = "fst (retryLocked env target supplied m)"
  have eq: "retryLocked env target supplied m =
      (case beginAttemptLocked (e_now env) (s_activeTarget (m_session m))
              (m\<lparr>m_session := (m_session m)\<lparr>s_recoveryCount := 0, s_recoveryOriginGeneration := 0\<rparr>\<rparr>) of
         (m2, ctx, generation) \<Rightarrow>
           (let m3 = go_runStart ctx generation target
                (m2\<lparr>m_session := (m_session m2)\<lparr>s_startOriginGeneration := generation\<rparr>\<rparr>)
            in (m3, Inr \<lparr>gr_Generation = generation, gr_Sequence = s_sequence (m_session m3)\<rparr>)))"
    unfolding retryLocked_def Let_def if_not_P[OF False] ..
  note defs = eq beginAttemptLocked_def op_defs go_runStart_def
  note core = inv_core[OF i]
  have st: "s_state (m_session m) = StateFailed" "s_vpnActive (m_session m)" "\<not> s_cleanupFailed (m_session m)"
    "s_ledger (m_session m) = None" using c by (simp_all add: canRetry_def)
  have n: "\<not> s_cleanupDone (m_session m)" using core st by (simp add: core_ok_def)
  then obtain k where k: "s_networkLedger (m_session m) = Some k"
    and t: "target_ok (s_activeTarget (m_session m)) (s_activeProfiles (m_session m))"
    using core by (auto simp: core_ok_def)
  have kn: "k < m_next m" using i k by (simp add: sess_inv_def heap_ok_def)
  have tt: "target_ok target (s_activeProfiles (m_session m))"
    by (rule target_ok_retry[OF t]) (use False in auto)
  show ?thesis
  proof (rule inv_spawn_start[of m _ "m_next m" target "m_next m + 2"])
    show "heap_ok m" using i by (simp add: sess_inv_def)
    show "core_ok (m_session ?m')"
      using core st n k kn t by (auto simp: core_ok_def defs)
    show "live (m_workers m) = []" by (rule inv_no_worker[OF i]) (simp add: st)
    show "s_vpnActive (m_session ?m') \<longrightarrow> led m (s_networkLedger (m_session m)) \<noteq> []"
      using i st core by (auto simp: sess_inv_def heap_ok_def core_ok_def)
  qed (use kn st k tt in \<open>simp_all add: defs led_def\<close>)
qed

lemma inv_validate:
  assumes "sess_inv m" "s_configured (m_session m)" "validateStartTarget (m_session m) target = None"
  shows "target_ok target (s_profiles (m_session m))"
proof -
  have "s_profiles (m_session m) \<noteq> []" using inv_core[OF assms(1)] assms(2) by (simp add: core_ok_def)
  with assms(3) show ?thesis by (simp add: validateStartTarget_def target_ok_def not_less not_le split: if_splits)
qed

lemma inv_replaceLocked:
  assumes i: "sess_inv m" and conf: "s_configured (m_session m)" and v: "validateStartTarget (m_session m) target = None"
  shows "ok_inv (replaceLocked env target m)"
proof (cases "\<not> st_ReplaceCurrent target \<or> \<not> canSwitch (m_session m)")
  case True
  then show ?thesis using i by (simp add: replaceLocked_def)
next
  case False
  obtain st e where sa: "saveActivationLocked env target m = (m\<lparr>m_store := st\<rparr>, e)"
    using saveActivation_shape[of env target m] by (metis prod.collapse)
  let ?m1 = "m\<lparr>m_store := st\<rparr>"
  have i1: "sess_inv ?m1" by (rule inv_store[OF i])
  have act: "s_state (m_session m) = StateConnected" using False by (simp add: canSwitch_def)
  from inv_worker[OF i] act obtain w where w: "worker_ok m w" "w_pc w \<noteq> GDone" by auto
  then obtain c where c: "s_cancel (m_session m) = Some c"
    using act by (cases "acquiring (w_pc w)") (auto simp: worker_ok_def)
  have vpn: "s_vpnActive (m_session m)" using inv_core[OF i] act by (simp add: core_ok_def)
  from inv_core[OF i] act obtain b where b: "s_cleanupBudget (m_session m) = Some b"
    by (auto simp: core_ok_def)
  have t: "target_ok target (s_profiles (m_session m))"
    by (rule inv_validate[OF i conf v])
  show ?thesis
  proof (cases e)
    case None
    let ?m' = "state_of (replaceLocked env target m)"
    have r: "replaceLocked env target m \<noteq> Panic"
      using False by (simp add: replaceLocked_def sa None b c Let_def)
    have "sess_inv ?m'"
    proof (rule inv_stop[OF i])
      show "core_ok (m_session ?m')"
        using inv_core[OF i] False act t vpn by (auto simp: replaceLocked_def sa None b c op_defs core_ok_def)
    qed (use False act b c in \<open>simp_all add: replaceLocked_def sa None op_defs frame_def\<close>)
    then show ?thesis by (rule ok_invI[OF r])
  next
    case (Some err)
    then show ?thesis using False i1 by (simp add: replaceLocked_def sa)
  qed
qed

lemma inv_start_fresh:
  assumes i: "sess_inv m" and conf: "s_configured (m_session m)" and v: "target_ok target (s_profiles (m_session m))"
    and nb: "\<not> configurationBlocked (m_session m)"
  shows "ok_inv (start_fresh env target m)"
proof -
  let ?m' = "state_of (start_fresh env target m)"
  have p: "s_profiles (m_session m) \<noteq> []" using inv_core[OF i] conf by (simp add: core_ok_def)
  have r: "start_fresh env target m \<noteq> Panic"
    using p by (simp add: start_fresh_def retainPolicy_ok_def Let_def)
  note defs = start_fresh_def retainPolicy_ok_def op_defs go_runStart_def p
  have idle: "\<not> attemptActive (s_state (m_session m))" "s_cleanupDone (m_session m)" "s_pending (m_session m) = None"
    using nb by (auto simp: configurationBlocked_def attemptActive_def split: sstate.splits)
  then have l: "s_ledger (m_session m) = None" "s_networkLedger (m_session m) = None"
    using inv_core[OF i] by (simp_all add: core_ok_def)
  have "sess_inv ?m'"
  proof (rule inv_spawn_start[of m _ "m_next m + 1" target "m_next m + 3"])
    show "heap_ok m" using i by (simp add: sess_inv_def)
    show "core_ok (m_session ?m')"
      using inv_core[OF i] idle v by (auto simp: core_ok_def defs autoRecoveryLimit_def)
    show "live (m_workers m) = []" by (rule inv_no_worker[OF i]) (rule idle)
  qed (use l v in \<open>simp_all add: defs led_def\<close>)
  then show ?thesis by (rule ok_invI[OF r])
qed

lemma inv_start_locked:
  assumes i: "sess_inv m"
  shows "ok_inv (start_locked env n target supplied m)"
proof (cases "s_sequence (m_session m) = n \<and> s_configured (m_session m)")
  case True
  show ?thesis
  proof (cases "canRetry (m_session m)")
    case r: True
    show ?thesis using True r inv_retryLocked[OF i r] by (simp add: start_locked_def Let_def)
  next
    case nr: False
    show ?thesis
    proof (cases "validateStartTarget (m_session m) target")
      case (Some e)
      then show ?thesis using True nr i by (simp add: start_locked_def Let_def)
    next
      case v: None
      from True have conf: "s_configured (m_session m)" by simp
      obtain st e where sa: "saveActivationLocked env target m = (m\<lparr>m_store := st\<rparr>, e)"
        using saveActivation_shape[of env target m] by (metis prod.collapse)
      have t: "target_ok target (s_profiles (m_session m))"
        by (rule inv_validate[OF i conf v])
      have "ok_inv (start_fresh env target (m\<lparr>m_store := st\<rparr>))" if "\<not> configurationBlocked (m_session m)"
        by (rule inv_start_fresh[OF inv_store[OF i]]) (use conf t that in simp_all)
      with True nr v inv_replaceLocked[OF i conf v] inv_store[OF i, of st] show ?thesis
        by (cases e) (simp_all add: start_locked_def sa Let_def)
    qed
  qed
next
  case False
  then show ?thesis using i by (auto simp: start_locked_def Let_def)
qed

section \<open>Stop and shutdown\<close>

lemma inv_quiet:
  assumes "sess_inv m" "\<not> attemptActive (s_state (m_session m))"
  shows "s_pending (m_session m) = None" "s_cancel (m_session m) = None" "\<not> s_recovering (m_session m)"
  using inv_core[OF assms(1)] assms(2) by (auto simp: core_ok_def)

lemma inv_stop_dormant:
  assumes i: "sess_inv m" and f: "s_state (m_session m) = StateFailed" and n: "\<not> s_cleanupDone (m_session m)"
    and r: "retryableCleanup (m_session m) \<or> s_vpnActive (m_session m) \<and> \<not> s_cleanupFailed (m_session m)"
  shows "ok_inv (stop_accepted env m)"
proof -
  let ?m' = "state_of (stop_accepted env m)"
  have q: "s_pending (m_session m) = None" "s_cancel (m_session m) = None" "\<not> s_recovering (m_session m)"
    using inv_quiet[OF i] f by auto
  have p: "stop_accepted env m \<noteq> Panic" using f r q by (auto simp: stop_accepted_def stop_mark_def Let_def retryableCleanup_def)
  have "sess_inv ?m'"
  proof (rule inv_spawn_finish[OF i])
    show "core_ok (m_session ?m')"
      using inv_core[OF i] f n r q
      by (auto simp: core_ok_def stop_accepted_def stop_mark_def op_defs go_finish_def retryableCleanup_def)
  qed (use f n r q in \<open>auto simp: stop_accepted_def stop_mark_def op_defs go_finish_def frame_def retryableCleanup_def\<close>)
  then show ?thesis by (rule ok_invI[OF p])
qed

lemma inv_acknowledge:
  assumes i: "sess_inv m" and f: "\<not> attemptActive (s_state (m_session m))"
  shows "sess_inv (fst (acknowledgeStoppedLocked env g m))"
proof -
  have "sess_inv (m\<lparr>m_session := (m_session m)\<lparr>s_recovering := False, s_restartAfterCleanup := False,
       s_recoveryOriginGeneration := 0\<rparr>\<rparr>)" (is "sess_inv ?m'")
    by (rule inv_same_core[OF i]) (simp_all add: frame_def Let_def inv_quiet(3)[OF i f])
  with i show ?thesis by (simp add: acknowledgeStoppedLocked_def Let_def inv_append)
qed

lemma inv_stop_idle:
  assumes i: "sess_inv m" and f: "\<not> attemptActive (s_state (m_session m))"
    and r: "\<not> retryableCleanup (m_session m)" "\<not> (s_state (m_session m) = StateFailed \<and> s_vpnActive (m_session m) \<and> \<not> s_cleanupFailed (m_session m))"
  shows "ok_inv (stop_accepted env m)"
proof -
  note q = inv_quiet[OF i f]
  let ?m1 = "m\<lparr>m_session := (m_session m)\<lparr>s_stopRequested := True, s_switchOriginGeneration := 0\<rparr>\<rparr>"
  have st: "s_state (m_session m) = StateIdle \<or> s_state (m_session m) = StateConfigured \<or> s_state (m_session m) = StateFailed"
    using f by (cases "s_state (m_session m)") auto
  have eq: "stop_accepted env m = Ret (acknowledgeStoppedLocked env (s_generation (m_session m)) ?m1)"
    using st r q by (auto simp: stop_accepted_def stop_mark_def Let_def retryableCleanup_def)
  have "core_ok (m_session ?m1)"
    using inv_core[OF i] r(2) unfolding core_ok_def by simp
  then have "sess_inv ?m1"
    by (intro inv_same[OF i]) (simp_all add: frame_def Let_def)
  then show ?thesis unfolding eq using inv_acknowledge[of ?m1] f by simp
qed

lemma inv_mark_active:
  assumes i: "sess_inv m" and a: "attemptActive (s_state (m_session m))" and p: "p = None \<or> p = s_pending (m_session m)"
    and c: "s_closing (m_session m) \<Longrightarrow> c" "s_stopRequested (m_session m) \<Longrightarrow> sr"
  shows "sess_inv (m\<lparr>m_session := (m_session m)\<lparr>s_closing := c, s_stopRequested := sr, s_switchOriginGeneration := k, s_pending := p,
     s_recovering := r, s_restartAfterCleanup := ra, s_recoveryOriginGeneration := ro\<rparr>\<rparr>)" (is "sess_inv ?m'")
proof (rule inv_same[OF i])
  have "s_state (m_session m) \<noteq> StateFailed" using a by auto
  then show "core_ok (m_session ?m')"
    using inv_core[OF i] a p unfolding core_ok_def by auto
qed (use c in \<open>simp_all add: frame_def Let_def\<close>)

lemma inv_cancel_active:
  assumes i: "sess_inv m" and a: "attemptActive (s_state (m_session m))"
  shows "sess_inv (case s_cancel (m_session m) of Some c \<Rightarrow> ctx_cancel c (m\<lparr>m_session := (m_session m)\<lparr>s_state := StateStopping\<rparr>\<rparr>)
      | None \<Rightarrow> m\<lparr>m_session := (m_session m)\<lparr>s_state := StateStopping\<rparr>\<rparr>)" (is "sess_inv ?m'")
proof (rule inv_stop[OF i _ a])
  have e: "m_session ?m' = (m_session m)\<lparr>s_state := StateStopping\<rparr>"
    by (simp add: ctx_cancel_def split: option.split)
  have "s_state (m_session m) \<noteq> StateFailed" using a by auto
  then have "\<not> s_cleanupFailed (m_session m)" using inv_core[OF i] by (auto simp: core_ok_def)
  then show "core_ok (m_session ?m')"
    using inv_core[OF i] inv_not_done[OF i a] unfolding e core_ok_def by auto
qed (simp_all add: frame_def Let_def ctx_cancel_def split: option.split)

lemma inv_budget_begin: "sess_inv m \<Longrightarrow> sess_inv (budget_begin b m)"
  by (rule inv_same_core[of m]) (simp_all add: frame_def op_defs)

lemma append_simps [simp]:
  "s_state (m_session (appendLocked now m)) = s_state (m_session m)"
  "s_cancel (m_session (appendLocked now m)) = s_cancel (m_session m)"
  "s_cleanupBudget (m_session (appendLocked now m)) = s_cleanupBudget (m_session m)"
  "s_generation (m_session (appendLocked now m)) = s_generation (m_session m)"
  "s_recovering (m_session (appendLocked now m)) = s_recovering (m_session m)"
  "s_cleanupFailed (m_session (appendLocked now m)) = s_cleanupFailed (m_session m)"
  by (simp_all add: op_defs)

lemma ctx_cancel_append: "ctx_cancel c (appendLocked now (budget_begin b m)) = appendLocked now (budget_begin b (ctx_cancel c m))"
  by (simp add: op_defs)

lemma ctx_cancel_budget: "ctx_cancel c (budget_begin b m) = budget_begin b (ctx_cancel c m)"
  by (simp add: op_defs)

lemma inv_stopping:
  assumes i: "sess_inv m" and a: "attemptActive (s_state (m_session m))"
  shows "sess_inv (case s_cancel (m_session m) of
      Some c \<Rightarrow> ctx_cancel c (appendLocked now (budget_begin b (m\<lparr>m_session := (m_session m)\<lparr>s_state := StateStopping\<rparr>\<rparr>)))
    | None \<Rightarrow> appendLocked now (budget_begin b (m\<lparr>m_session := (m_session m)\<lparr>s_state := StateStopping\<rparr>\<rparr>)))"
proof (cases "s_cancel (m_session m)")
  case None
  with inv_append[OF inv_budget_begin[OF inv_cancel_active[OF i a]], of now b] show ?thesis by simp
next
  case (Some c)
  with inv_append[OF inv_budget_begin[OF inv_cancel_active[OF i a]], of now b] show ?thesis by (simp add: ctx_cancel_append)
qed

lemma inv_stop_active:
  assumes i: "sess_inv m" and a: "attemptActive (s_state (m_session m))"
  shows "ok_inv (stop_accepted env m)"
proof -
  have f: "\<not> s_cleanupFailed (m_session m)" "s_state (m_session m) \<noteq> StateFailed"
    "s_state (m_session m) \<noteq> StateIdle" "s_state (m_session m) \<noteq> StateConfigured"
    using inv_core[OF i] a by (auto simp: core_ok_def)
  obtain b where b: "s_cleanupBudget (m_session m) = Some b"
    using inv_core[OF i] inv_not_done[OF i a] by (auto simp: core_ok_def)
  let ?m1 = "stop_mark env m" and ?m2 = "(stop_mark env m)\<lparr>m_session := stop_recovery (m_session (stop_mark env m))\<rparr>"
  have i1: "sess_inv ?m1"
    using inv_mark_active[OF i a, where p="None" and c="s_closing (m_session m)" and k=0 and r="s_recovering (m_session m)" and ra="s_restartAfterCleanup (m_session m)" and sr=True and ro="s_recoveryOriginGeneration (m_session m)"]
     inv_mark_active[OF i a, where p="s_pending (m_session m)" and c="s_closing (m_session m)" and k=0 and r="s_recovering (m_session m)" and ra="s_restartAfterCleanup (m_session m)" and sr=True and ro="s_recoveryOriginGeneration (m_session m)"]
    unfolding stop_mark_def Let_def by (auto intro: inv_append)
  have st: "s_state (m_session ?m1) = s_state (m_session m)" "s_cleanupBudget (m_session ?m1) = Some b"
    "s_cleanupFailed (m_session ?m1) = s_cleanupFailed (m_session m)"
    using b by (auto simp: stop_mark_def op_defs)
  have st2: "s_state (m_session ?m2) = s_state (m_session m)" "s_cleanupBudget (m_session ?m2) = Some b"
    using st by (auto simp: stop_recovery_def)
  have i2: "sess_inv ?m2"
    using inv_mark_active[OF i1, where p="s_pending (m_session ?m1)" and c="s_closing (m_session ?m1)" and k="s_switchOriginGeneration (m_session ?m1)" and r=False and ra=False and sr="s_stopRequested (m_session ?m1)" and ro=0] a i1 st(1)
    unfolding stop_recovery_def by simp
  have sp: "stop_accepted env m = stop_active env (s_generation (m_session m)) ?m1"
    using f st by (simp add: stop_accepted_def Let_def retryableCleanup_def)
  show ?thesis
    using i2 inv_stopping[OF i2, where b=b and now="e_now env"] a st2 unfolding sp stop_active_def
    by (simp add: Let_def split: option.splits)
qed

lemma inv_stop_accepted:
  assumes i: "sess_inv m"
  shows "ok_inv (stop_accepted env m)"
proof (cases "attemptActive (s_state (m_session m))")
  case True
  show ?thesis by (rule inv_stop_active[OF i True])
next
  case False
  have n: "\<not> s_cleanupDone (m_session m)" if "s_cleanupFailed (m_session m) \<or> s_vpnActive (m_session m)"
    using inv_core[OF i] that unfolding core_ok_def by blast
  show ?thesis
  proof (cases "retryableCleanup (m_session m) \<or> s_state (m_session m) = StateFailed \<and> s_vpnActive (m_session m) \<and> \<not> s_cleanupFailed (m_session m)")
    case True
    then have "s_state (m_session m) = StateFailed" "s_cleanupFailed (m_session m) \<or> s_vpnActive (m_session m)"
      by (auto simp: retryableCleanup_def)
    with inv_stop_dormant[OF i _ n] True show ?thesis by blast
  next
    case no: False
    show ?thesis by (rule inv_stop_idle[OF i False]) (use no in blast)+
  qed
qed

lemma inv_Stop_locked: "sess_inv m \<Longrightarrow> ok_inv (Stop_locked env g m)"
proof -
  assume i: "sess_inv m"
  obtain st e where sa: "stopActivationLocked env m = (m\<lparr>m_store := st\<rparr>, e)"
    using stopActivation_shape[of env m] by (metis prod.collapse)
  from inv_stop_accepted[OF inv_store[OF i], of env st] i show ?thesis
    by (auto simp: Stop_locked_def sa ok_inv_def split: outcome.splits sum.splits)
qed

lemma inv_StopAndWait: "sess_inv m \<Longrightarrow> sess_inv (StopAndWait_locked env m)"
proof -
  assume i: "sess_inv m"
  let ?s = "(m_session m)\<lparr>s_closing := True, s_stopRequested := True, s_pending := None, s_recovering := False,
                 s_restartAfterCleanup := False, s_recoveryOriginGeneration := 0\<rparr>"
  show ?thesis
  proof (cases "\<not> s_cleanupDone (m_session m) \<and> \<not> s_cleanupFailed (m_session m)")
    case False
    have "core_ok ?s" using inv_core[OF i] False by (auto simp: core_ok_def)
    then have "sess_inv (m\<lparr>m_session := ?s\<rparr>)"
      by (intro inv_same[OF i]) (simp_all add: frame_def Let_def)
    with False show ?thesis by (auto simp: StopAndWait_locked_def Let_def intro: inv_append)
  next
    case True
    then obtain b where b: "s_cleanupBudget (m_session m) = Some b" using inv_core[OF i] by (auto simp: core_ok_def)
    show ?thesis
    proof (cases "s_state (m_session m) = StateFailed")
      case f: True
      have q: "s_cancel (m_session m) = None" using inv_quiet[OF i] f by auto
      show ?thesis
      proof (rule inv_spawn_finish[OF i])
        show "core_ok (m_session (StopAndWait_locked env m))"
          using inv_core[OF i] True f q by (auto simp: core_ok_def StopAndWait_locked_def op_defs go_finish_def)
      qed (use True f q in \<open>simp_all add: StopAndWait_locked_def op_defs go_finish_def frame_def\<close>)
    next
      case nf: False
      then have a: "attemptActive (s_state (m_session m))"
        using inv_core[OF i] True by (cases "s_state (m_session m)") (auto simp: core_ok_def)
      have i1: "sess_inv (m\<lparr>m_session := ?s\<rparr>)"
        using inv_mark_active[OF i a, where p=None and c=True and k="s_switchOriginGeneration (m_session m)" and r=False and ra=False and sr=True and ro=0] by simp
      from inv_stopping[OF i1, where b=b and now="e_now env"] a b True nf show ?thesis
        by (simp add: StopAndWait_locked_def Let_def ctx_cancel_append ctx_cancel_budget split: option.splits)
    qed
  qed
qed

end
