(* ===== verification/Session_Reachable.thy ===== *)
theory Session_Reachable
  imports Session_Preserve
begin

text \<open>
  Every worker step preserves the invariant, hence it holds in every reachable state of the session
  manager, whatever the interleaving of API calls and goroutines and whatever the platform and the
  protocol runtime answer.
\<close>

section \<open>Ledgers\<close>

lemma led_workers [simp]: "led (m\<lparr>m_workers := ws\<rparr>) = led m"
  by (simp add: led_def fun_eq_iff split: option.split)

lemma heap_ok_workers [simp]: "heap_ok (m\<lparr>m_workers := ws\<rparr>) = heap_ok m"
  by (simp add: heap_ok_def)

lemma worker_ok_workers [simp]: "worker_ok (m\<lparr>m_workers := ws\<rparr>) w = worker_ok m w"
  by (cases "w_pc w") (simp_all add: worker_ok_def)

lemma retiring_simp [simp]: "s_state s \<noteq> StateConnected \<Longrightarrow> retiring s"
  by (simp add: retiring_def)

text \<open>One step of a live worker that stays live.\<close>

definition step_ok :: "manager \<Rightarrow> manager \<times> worker \<Rightarrow> bool" where
  "step_ok m mw \<longleftrightarrow> (case mw of (m1, w1) \<Rightarrow> m_workers m1 = m_workers m \<and> core_ok (m_session m1) \<and> heap_ok m1
     \<and> attemptActive (s_state (m_session m1)) \<and> worker_ok m1 w1 \<and> w_pc w1 \<noteq> GDone)"

lemma inv_step_ok:
  assumes "sess_inv m" "i < length (m_workers m)" "w_pc (m_workers m ! i) \<noteq> GDone" "step_ok m (m1, w1)"
  shows "sess_inv (m1\<lparr>m_workers := (m_workers m1)[i := w1]\<rparr>)"
proof -
  have "m_workers m ! i \<in> set (live (m_workers m))" using assms(2,3) by (simp add: live_def)
  then have "attemptActive (s_state (m_session m))" using inv_no_worker[OF assms(1)] by force
  then obtain w where "live (m_workers m) = [w]" using inv_worker[OF assms(1)] by blast
  from live_update[OF this assms(2,3), of w1] assms(4) show ?thesis
    by (simp add: sess_inv_def step_ok_def workers_ok_def)
qed

lemma step_same:
  assumes "sess_inv m" "attemptActive (s_state (m_session m))" "worker_ok m w1" "w_pc w1 \<noteq> GDone"
  shows "step_ok m (m, w1)"
  using assms by (simp add: step_ok_def sess_inv_def)

lemma release_mset:
  "ledger_release (run_closer ok) l r = (rest, r', e) \<Longrightarrow> mset l + mset r = mset rest + mset r'"
proof (induction l arbitrary: r rule: rev_induct)
  case (snoc c l)
  then show ?case by (cases "ok c") (force simp: run_closer_def)+
qed simp

lemma heap_ok_release:
  assumes h: "heap_ok m" and ne: "s_ledger (m_session m) \<noteq> None \<Longrightarrow> s_ledger (m_session m) \<noteq> s_networkLedger (m_session m)"
    and l: "s_ledger (m_session m) = Some l \<or> s_networkLedger (m_session m) = Some l
       \<and> (s_stopRequested (m_session m) \<or> s_closing (m_session m) \<or> \<not> s_vpnActive (m_session m))"
    and r: "release_ledger ok l m = (m1, e)"
  shows "heap_ok m1" "m_session m1 = m_session m" "m_workers m1 = m_workers m" "m_canceled m1 = m_canceled m"
    "e = None \<Longrightarrow> m_ledgers m1 l = []" "k \<noteq> l \<Longrightarrow> m_ledgers m1 k = m_ledgers m k"
proof -
  obtain rest r' where lr: "ledger_release (run_closer ok) (m_ledgers m l) (m_released m) = (rest, r', e)"
    and m1: "m1 = m\<lparr>m_ledgers := (m_ledgers m)(l := rest), m_released := r'\<rparr>"
    using r by (auto simp: release_ledger_def split: prod.splits)
  show "m_session m1 = m_session m" "m_workers m1 = m_workers m" "m_canceled m1 = m_canceled m"
    "k \<noteq> l \<Longrightarrow> m_ledgers m1 k = m_ledgers m k" by (simp_all add: m1)
  show "m_ledgers m1 l = []" if "e = None" using ledger_release_ok lr that by (simp add: m1)
  note ms = release_mset[OF lr]
  from l show "heap_ok m1"
  proof
    assume s: "s_ledger (m_session m) = Some l"
    with ne have nn: "s_networkLedger (m_session m) \<noteq> Some l" by auto
    have n: "led m1 (s_networkLedger (m_session m)) = led m (s_networkLedger (m_session m))"
      using nn by (auto simp: led_def m1 split: option.splits)
    have "led m (s_ledger (m_session m)) = m_ledgers m l" "led m1 (s_ledger (m_session m)) = rest"
      by (simp_all add: led_def m1 s)
    with h n ms show ?thesis unfolding heap_ok_def by (simp add: m1 ac_simps)
  next
    assume s: "s_networkLedger (m_session m) = Some l
       \<and> (s_stopRequested (m_session m) \<or> s_closing (m_session m) \<or> \<not> s_vpnActive (m_session m))"
    with ne have nn: "s_ledger (m_session m) \<noteq> Some l" by auto
    have n: "led m1 (s_ledger (m_session m)) = led m (s_ledger (m_session m))"
      using nn by (auto simp: led_def m1 split: option.splits)
    have "led m (s_networkLedger (m_session m)) = m_ledgers m l" "led m1 (s_networkLedger (m_session m)) = rest"
      by (simp_all add: led_def m1 s)
    with h n ms s show ?thesis unfolding heap_ok_def by (auto simp: m1 ac_simps)
  qed
qed

lemma heap_ok_push:
  assumes h: "heap_ok m" and ne: "s_ledger (m_session m) \<noteq> None \<Longrightarrow> s_ledger (m_session m) \<noteq> s_networkLedger (m_session m)"
    and l: "s_ledger (m_session m) = Some l \<or> s_networkLedger (m_session m) = Some l"
    and c: "closer_id c = m_next m"
  shows "heap_ok (push_ledger l c m)"
proof -
  have d: "c \<notin> set (m_acquired m)" "closer_id c \<notin> closer_id ` set (m_acquired m)"
    using h c by (force simp: heap_ok_def)+
  have eq: "mset (led (push_ledger l c m) (s_ledger (m_session m))) + mset (led (push_ledger l c m) (s_networkLedger (m_session m)))
      = add_mset c (mset (led m (s_ledger (m_session m))) + mset (led m (s_networkLedger (m_session m))))"
    using l ne by (auto simp: led_def push_ledger_def ledger_push_def split: option.splits)
  have nn: "led (push_ledger l c m) (s_networkLedger (m_session m)) \<noteq> []" if "led m (s_networkLedger (m_session m)) \<noteq> []"
    using that by (auto simp: led_def push_ledger_def ledger_push_def split: option.splits)
  have sel: "m_session (push_ledger l c m) = m_session m" "m_acquired (push_ledger l c m) = m_acquired m @ [c]"
    "m_released (push_ledger l c m) = m_released m" "m_next (push_ledger l c m) = Suc (m_next m)"
    "m_canceled (push_ledger l c m) = m_canceled m" by (simp_all add: push_ledger_def)
  show ?thesis
    using h d c nn unfolding heap_ok_def sel
    by (simp add: eq add.assoc less_Suc_eq)
qed


lemma inv_ledgers_differ: "core_ok s \<Longrightarrow> s_ledger s \<noteq> None \<Longrightarrow> s_ledger s \<noteq> s_networkLedger s"
  by (auto simp: core_ok_def)

lemma frame_cleanupContext:
  "frame m (cleanupContext m)" "m_canceled (cleanupContext m) = m_canceled m" "m_workers (cleanupContext m) = m_workers m"
  "s_state (m_session (cleanupContext m)) = s_state (m_session m)"
  by (simp_all add: cleanupContext_def frame_def op_defs split: option.split)

lemma cleanupContext_flags:
  "s_stopRequested (m_session (cleanupContext m)) = s_stopRequested (m_session m)"
  "s_closing (m_session (cleanupContext m)) = s_closing (m_session m)"
  "s_vpnActive (m_session (cleanupContext m)) = s_vpnActive (m_session m)"
  "s_ledger (m_session (cleanupContext m)) = s_ledger (m_session m)"
  "s_networkLedger (m_session (cleanupContext m)) = s_networkLedger (m_session m)"
  "m_ledgers (cleanupContext m) = m_ledgers m"
  by (simp_all add: cleanupContext_def op_defs split: option.split)

lemma step_acquire:
  assumes i: "sess_inv m" and a: "attemptActive (s_state (m_session m))"
    and l: "work = s_ledger (m_session m) \<or> work = s_networkLedger (m_session m)" "work \<noteq> None"
    and c: "\<And>n. closer_id (mk n) = n"
  obtains m1 where "acquire got work mk m = Some m1" "m_session m1 = m_session m" "m_workers m1 = m_workers m"
    "m_canceled m1 = m_canceled m" "heap_ok m1" "got \<Longrightarrow> led m1 work \<noteq> []"
    "\<And>k. led m k \<noteq> [] \<Longrightarrow> led m1 k \<noteq> []" "m_networkRuntime m1 = m_networkRuntime m"
proof -
  have h: "heap_ok m" and core: "core_ok (m_session m)" using i by (simp_all add: sess_inv_def)
  from l obtain k where k: "work = Some k" by auto
  show ?thesis
  proof (cases got)
    case True
    have "heap_ok (push_ledger k (mk (m_next m)) m)"
      by (rule heap_ok_push[OF h inv_ledgers_differ[OF core]]) (use l k c in auto)
    then show ?thesis using True k
      by (intro that[of "push_ledger k (mk (m_next m)) m"])
         (auto simp: acquire_def push_ledger_def ledger_push_def led_def split: option.splits)
  next
    case False
    then show ?thesis using h by (intro that[of m]) (auto simp: acquire_def)
  qed
qed

text \<open>Worker states after a step that leaves the session alone.\<close>

lemma worker_ok_session:
  assumes "m_session m1 = m_session m" "m_canceled m1 = m_canceled m" "w_gen w1 = w_gen w" "w_ctx w1 = w_ctx w"
    "w_target w1 = w_target w" "worker_ok m w" "acquiring (w_pc w)" "pc_ok m1 w1 (w_pc w1)"
  shows "worker_ok m1 w1"
  using assms by (auto simp: worker_ok_def)

section \<open>Steps that acquire\<close>

lemma worker_ok_D:
  assumes "worker_ok m w"
  shows "w_gen w = s_generation (m_session m)" "pc_ok m w (w_pc w)"
    "acquiring (w_pc w) \<Longrightarrow> s_cancel (m_session m) = Some (w_ctx w)"
    "acquiring (w_pc w) \<Longrightarrow> s_ledger (m_session m) \<noteq> None"
    "acquiring (w_pc w) \<Longrightarrow> target_ok (w_target w) (s_activeProfiles (m_session m))"
    "acquiring (w_pc w) \<Longrightarrow> s_state (m_session m) = StateStopping \<longleftrightarrow> w_ctx w \<in> m_canceled m"
    "\<not> acquiring (w_pc w) \<Longrightarrow> s_state (m_session m) \<noteq> StateStopping \<Longrightarrow> s_cancel (m_session m) \<noteq> None"
  using assms by (simp_all add: worker_ok_def)

lemma inv_network: "sess_inv m \<Longrightarrow> attemptActive (s_state (m_session m)) \<Longrightarrow> s_networkLedger (m_session m) \<noteq> None
    \<and> target_ok (s_activeTarget (m_session m)) (s_activeProfiles (m_session m))"
  using inv_core[of m] inv_not_done[of m] by (auto simp: core_ok_def)

text \<open>A step that changes nothing but the worker's locals.\<close>

lemma step_local:
  assumes "sess_inv m" "attemptActive (s_state (m_session m))" "worker_ok m w" "acquiring (w_pc w)"
    and "w_gen w1 = w_gen w" "w_ctx w1 = w_ctx w" "w_target w1 = w_target w" "pc_ok m w1 (w_pc w1)" "w_pc w1 \<noteq> GDone"
  shows "step_ok m (m, w1)"
  by (rule step_same[OF assms(1,2) worker_ok_session[OF refl refl assms(5-7,3,4,8)] assms(9)])

lemma step_prepare:
  assumes i: "sess_inv m" and a: "attemptActive (s_state (m_session m))" and w: "worker_ok m w" and p: "w_pc w = GPrepare"
  shows "step_ok m (worker_at GPrepare ext m w)"
proof -
  have q: "pc_ok m w GPrepare" using worker_ok_D(2)[OF w] p by simp
  have t: "target_ok (s_activeTarget (m_session m)) (s_activeProfiles (m_session m))" using inv_network[OF i a] by simp
  then obtain pr where pr: "select_profile (m_session m) = Ret pr"
    by (cases "st_Mode (s_activeTarget (m_session m)) = ProfileIndex") (auto simp: select_profile_def target_ok_def)
  show ?thesis
  proof (cases "s_vpnActive (m_session m)")
    case True
    have "step_ok m (m, w\<lparr>w_pc := GCopy\<rparr>)"
      by (rule step_local[OF i a w]) (use p q True in simp_all)
    with True show ?thesis by simp
  next
    case False
    have "step_ok m (m, w\<lparr>w_pc := GPlatform pr (s_networkLedger (m_session m))
        \<lparr>ref_SessionID = s_id (m_session m), ref_Generation = s_networkGeneration (m_session m)\<rparr>\<rparr>)"
      by (rule step_local[OF i a w]) (use p q False in simp_all)
    with False pr show ?thesis by (simp add: Let_def)
  qed
qed

text \<open>A step whose only effect on the manager is to push a lease.\<close>

lemma step_session:
  assumes "sess_inv m" "attemptActive (s_state (m_session m))" "worker_ok m w" "acquiring (w_pc w)"
    and "m_session m1 = m_session m" "m_canceled m1 = m_canceled m" "m_workers m1 = m_workers m" "heap_ok m1"
    and "w_gen w1 = w_gen w" "w_ctx w1 = w_ctx w" "w_target w1 = w_target w" "pc_ok m1 w1 (w_pc w1)" "w_pc w1 \<noteq> GDone"
  shows "step_ok m (m1, w1)"
  using worker_ok_session[OF assms(5,6,9-11,3,4,12)] assms inv_core[OF assms(1)] by (simp add: step_ok_def)

lemma step_platform:
  assumes i: "sess_inv m" and a: "attemptActive (s_state (m_session m))" and w: "worker_ok m w"
    and p: "w_pc w = GPlatform profile work ref"
  shows "step_ok m (worker_at (GPlatform profile work ref) ext m w)"
proof -
  have q: "\<not> s_vpnActive (m_session m)" "work = s_networkLedger (m_session m)" "s_state (m_session m) \<noteq> StateConnected"
    using worker_ok_D(2)[OF w] p by simp_all
  obtain m1 where m1: "acquire (x_lease ext) work PlatformRelease m = Some m1" "m_session m1 = m_session m" "m_workers m1 = m_workers m"
    "m_canceled m1 = m_canceled m" "heap_ok m1" "x_lease ext \<Longrightarrow> led m1 work \<noteq> []"
    by (rule step_acquire[OF i a, of work PlatformRelease "x_lease ext"]) (use q inv_network[OF i a] in auto)
  have s: "step_ok m (m1, w\<lparr>w_pc := pc'\<rparr>)" if "pc_ok m1 (w\<lparr>w_pc := pc'\<rparr>) pc'" "pc' \<noteq> GDone" for pc'
    by (rule step_session[OF i a w _ m1(2,4,3,5)]) (use p that in simp_all)
  show ?thesis
    using m1 q by (auto intro!: s)
qed

lemma step_network:
  assumes i: "sess_inv m" and a: "attemptActive (s_state (m_session m))" and w: "worker_ok m w"
    and p: "w_pc w = GNetwork profile work ref"
  shows "step_ok m (worker_at (GNetwork profile work ref) ext m w)"
proof -
  have q: "\<not> s_vpnActive (m_session m)" "work = s_networkLedger (m_session m)" "s_state (m_session m) \<noteq> StateConnected" "led m work \<noteq> []"
    using worker_ok_D(2)[OF w] p by auto
  obtain m1 where m1: "acquire (x_lease ext) work NetworkStop m = Some m1" "m_session m1 = m_session m" "m_workers m1 = m_workers m"
    "m_canceled m1 = m_canceled m" "heap_ok m1" "\<And>k. led m k \<noteq> [] \<Longrightarrow> led m1 k \<noteq> []"
    by (rule step_acquire[OF i a, of work NetworkStop "x_lease ext"]) (use q inv_network[OF i a] in auto)
  have s: "step_ok m (m1, w\<lparr>w_pc := pc'\<rparr>)" if "pc_ok m1 (w\<lparr>w_pc := pc'\<rparr>) pc'" "pc' \<noteq> GDone" for pc'
    by (rule step_session[OF i a w _ m1(2,4,3,5)]) (use p that in simp_all)
  show ?thesis
    using m1 q by (auto intro!: s)
qed

lemma step_activated:
  assumes i: "sess_inv m" and a: "attemptActive (s_state (m_session m))" and w: "worker_ok m w" and p: "w_pc w = GActivated"
  shows "step_ok m (worker_at GActivated ext m w)"
proof -
  have q: "s_vpnActive (m_session m)" "s_state (m_session m) \<noteq> StateConnected" using worker_ok_D(2)[OF w] p by simp_all
  have s: "step_ok m (m, w\<lparr>w_pc := pc'\<rparr>)" if "pc_ok m (w\<lparr>w_pc := pc'\<rparr>) pc'" "pc' \<noteq> GDone" for pc'
    by (rule step_local[OF i a w]) (use p that in simp_all)
  show ?thesis using q by (auto intro!: s split: option.split)
qed

lemma step_copy:
  assumes i: "sess_inv m" and a: "attemptActive (s_state (m_session m))" and w: "worker_ok m w" and p: "w_pc w = GCopy"
  shows "step_ok m (worker_at GCopy ext m w)"
proof -
  have q: "s_vpnActive (m_session m)" "s_state (m_session m) \<noteq> StateConnected" using worker_ok_D(2)[OF w] p by simp_all
  have t: "target_ok (w_target w) (s_activeProfiles (m_session m))" using worker_ok_D(5)[OF w] p by simp
  have s: "step_ok m (m, w\<lparr>w_profiles := ps, w_pc := GCandidate\<rparr>)" for ps
    by (rule step_local[OF i a w]) (use p q in simp_all)
  show ?thesis using t
    by (cases "st_Mode (w_target w) = ProfileIndex") (auto intro!: s simp: target_ok_def Let_def)
qed

lemma step_check:
  assumes i: "sess_inv m" and a: "attemptActive (s_state (m_session m))" and w: "worker_ok m w" and p: "w_pc w = GCheck b"
  shows "step_ok m (worker_at (GCheck b) ext m w)"
proof -
  have q: "s_vpnActive (m_session m)" "s_state (m_session m) \<noteq> StateConnected" using worker_ok_D(2)[OF w] p by simp_all
  have s: "step_ok m (m, w\<lparr>w_pc := GFinish c\<rparr>)" "step_ok m (m, w\<lparr>w_index := k, w_pc := GCandidate\<rparr>)" for c k
    by (rule step_local[OF i a w]; use p q in simp)+
  show ?thesis by (auto intro!: s)
qed


lemma step_activate:
  assumes i: "sess_inv m" and a: "attemptActive (s_state (m_session m))" and w: "worker_ok m w" and p: "w_pc w = GActivate"
  shows "step_ok m (worker_at GActivate ext m w)"
proof -
  let ?m1 = "appendLocked (x_now ext) (m\<lparr>m_session := (m_session m)\<lparr>s_vpnActive := True\<rparr>\<rparr>)"
  have q: "\<not> s_vpnActive (m_session m)" "s_state (m_session m) \<noteq> StateConnected" "led m (s_networkLedger (m_session m)) \<noteq> []"
    using worker_ok_D(2)[OF w] p by simp_all
  have s: "s_state (m_session m) \<noteq> StateFailed" "\<not> s_cleanupDone (m_session m)" using a inv_not_done[OF i a] by auto
  have "core_ok (m_session ?m1)" using inv_core[OF i] s unfolding core_ok_def by (auto simp: op_defs)
  moreover have "led ?m1 = led m" by (simp add: led_def fun_eq_iff op_defs split: option.split)
  then have "heap_ok ?m1" using i q unfolding sess_inv_def heap_ok_def by (simp add: op_defs)
  moreover have "worker_ok ?m1 (w\<lparr>w_pc := GActivated\<rparr>)"
    using w p q by (simp add: worker_ok_def op_defs)
  ultimately show ?thesis using a by (simp add: step_ok_def op_defs)
qed

lemma step_candidate:
  assumes i: "sess_inv m" and a: "attemptActive (s_state (m_session m))" and w: "worker_ok m w" and p: "w_pc w = GCandidate"
  shows "step_ok m (worker_at GCandidate ext m w)"
proof -
  have q: "s_vpnActive (m_session m)" "s_state (m_session m) \<noteq> StateConnected" using worker_ok_D(2)[OF w] p by simp_all
  have s: "step_ok m (m, w\<lparr>w_pc := GFinish c\<rparr>)" for c
    by (rule step_local[OF i a w]) (use p q in simp_all)
  have adv: "step_ok m (m, w\<lparr>w_gen := w_gen w, w_pc := GAdvance\<rparr>)" if "w_index w < length (w_profiles w)"
    by (rule step_local[OF i a w]) (use p q that in simp_all)
  let ?m1 = "new_budget (m\<lparr>m_session := (m_session m)\<lparr>s_generation := s_generation (m_session m) + 1\<rparr>\<rparr>)"
  have new: "step_ok m (?m1, w\<lparr>w_gen := s_generation (m_session m) + 1, w_pc := GAdvance\<rparr>)" if "w_index w < length (w_profiles w)"
  proof -
    have "core_ok (m_session ?m1)" using inv_core[OF i] unfolding core_ok_def by (simp add: op_defs)
    moreover have "led ?m1 = led m" by (simp add: led_def fun_eq_iff op_defs split: option.split)
    then have "heap_ok ?m1" using i unfolding sess_inv_def heap_ok_def by (auto simp: op_defs less_Suc_eq)
    moreover have "worker_ok ?m1 (w\<lparr>w_gen := s_generation (m_session m) + 1, w_pc := GAdvance\<rparr>)"
      using w p q that by (simp add: worker_ok_def op_defs)
    ultimately show ?thesis using a by (simp add: step_ok_def op_defs)
  qed
  show ?thesis
    using s adv new by (simp add: prepareCandidate_def Let_def) (auto simp: op_defs)
qed

lemma step_advance:
  assumes i: "sess_inv m" and a: "attemptActive (s_state (m_session m))" and w: "worker_ok m w" and p: "acquiring (w_pc w)"
    and nc: "s_state (m_session m) \<noteq> StateConnected" "s_vpnActive (m_session m)"
    and st: "st = StateProbing \<or> st = StatePreparing \<or> st = StateConnected"
    and ok: "\<And>m1. m_session m1 = m_session (fst (advance now (w_gen w) st profile m)) \<Longrightarrow> led m1 = led m \<Longrightarrow> s_state (m_session m1) = st \<Longrightarrow>
        s_vpnActive (m_session m1) \<Longrightarrow> s_ledger (m_session m1) = s_ledger (m_session m) \<Longrightarrow> pc_ok m1 (w\<lparr>w_pc := pc1\<rparr>) pc1"
    and pc1: "acquiring pc1"
  shows "step_ok m (case advance now (w_gen w) st profile m of (m1, True) \<Rightarrow> (m1, w\<lparr>w_pc := pc1\<rparr>)
            | (m1, False) \<Rightarrow> (m1, w\<lparr>w_pc := GFinish c\<rparr>))"
proof (cases "s_state (m_session m) = StateStopping")
  case True
  have "step_ok m (m, w\<lparr>w_pc := GFinish c\<rparr>)"
    by (rule step_local[OF i a w]) (use p nc in simp_all)
  with True show ?thesis by (simp add: advance_def)
next
  case False
  let ?m1 = "fst (advance now (w_gen w) st profile m)"
  have g: "w_gen w = s_generation (m_session m)" by (rule worker_ok_D(1)[OF w])
  have e: "advance now (w_gen w) st profile m = (?m1, True)" using False g by (simp add: advance_def Let_def)
  have nf: "s_state (m_session m) \<noteq> StateFailed" "\<not> s_cleanupDone (m_session m)" "\<not> s_cleanupFailed (m_session m)"
    using a inv_not_done[OF i a] inv_core[OF i] by (auto simp: core_ok_def)
  have core: "core_ok (m_session ?m1)"
    using inv_core[OF i] nf st False g nc(2) by (auto simp: core_ok_def advance_def op_defs)
  have l: "led ?m1 = led m" using False g by (simp add: advance_def led_def fun_eq_iff op_defs split: option.split)
  have heap: "heap_ok ?m1" using i False g l unfolding sess_inv_def heap_ok_def by (simp add: advance_def op_defs)
  have "pc_ok ?m1 (w\<lparr>w_pc := pc1\<rparr>) pc1"
    by (rule ok[OF refl l]) (use False g nc in \<open>simp_all add: advance_def op_defs\<close>)
  moreover have "w_ctx w \<notin> m_canceled m" using worker_ok_D(6)[OF w p] False by simp
  ultimately have "worker_ok ?m1 (w\<lparr>w_pc := pc1\<rparr>)"
    using w p st False g pc1 by (auto simp: worker_ok_def advance_def op_defs)
  with core heap have "step_ok m (?m1, w\<lparr>w_pc := pc1\<rparr>)"
    using st g False pc1 by (auto simp: step_ok_def advance_def op_defs)
  then show ?thesis by (subst e) simp
qed

lemma step_started:
  assumes i: "sess_inv m" and a: "attemptActive (s_state (m_session m))" and w: "worker_ok m w" and p: "w_pc w = GStart"
  shows "step_ok m (worker_at GStart ext m w)"
proof -
  have q: "s_vpnActive (m_session m)" "s_state (m_session m) \<noteq> StateConnected" "w_index w < length (w_profiles w)"
    using worker_ok_D(2)[OF w] p by simp_all
  obtain m1 where m1: "acquire (x_lease ext) (s_ledger (m_session m)) RuntimeStop m = Some m1" "m_session m1 = m_session m"
    "m_workers m1 = m_workers m" "m_canceled m1 = m_canceled m" "heap_ok m1"
    "x_lease ext \<Longrightarrow> led m1 (s_ledger (m_session m)) \<noteq> []"
    by (rule step_acquire[OF i a, of "s_ledger (m_session m)" RuntimeStop "x_lease ext"]) (use worker_ok_D(4)[OF w] p in auto)
  have s: "step_ok m (m1, w\<lparr>w_errors := es, w_pc := pc'\<rparr>)" if "pc_ok m1 w pc'" "pc' \<noteq> GDone" "pc' \<noteq> GPrepare" for pc' es
  proof (rule step_session[OF i a w _ m1(2,4,3,5)])
    show "pc_ok m1 (w\<lparr>w_errors := es, w_pc := pc'\<rparr>) (w_pc (w\<lparr>w_errors := es, w_pc := pc'\<rparr>))"
      using that by (cases pc') simp_all
  qed (use p that in simp_all)
  have c: "step_ok m (m1, w\<lparr>w_pc := GConnect b\<rparr>)" if "x_lease ext" for b
    by (rule step_session[OF i a w _ m1(2,4,3,5)]) (use p q that m1 in simp_all)
  show ?thesis
    using q by (auto simp: runtime_started_def m1 Let_def intro!: s c)
qed

lemma inv_health_recovery:
  assumes "0 \<le> s_recoveryCount s" "s_recoveryCount s \<le> autoRecoveryLimit"
  shows "0 \<le> s_recoveryCount (prepareHealthRecoveryLocked now g cause s)
    \<and> s_recoveryCount (prepareHealthRecoveryLocked now g cause s) \<le> autoRecoveryLimit"
  using assms by (simp add: prepareHealthRecoveryLocked_def Let_def autoRecoveryLimit_def)

lemma prepareHealthRecovery_keeps:
  "s_generation (prepareHealthRecoveryLocked now g cause s) = s_generation s"
  "s_cancel (prepareHealthRecoveryLocked now g cause s) = s_cancel s"
  "s_ledger (prepareHealthRecoveryLocked now g cause s) = s_ledger s"
  "s_networkLedger (prepareHealthRecoveryLocked now g cause s) = s_networkLedger s"
  "s_activeProfiles (prepareHealthRecoveryLocked now g cause s) = s_activeProfiles s"
  "s_activeTarget (prepareHealthRecoveryLocked now g cause s) = s_activeTarget s"
  "s_vpnActive (prepareHealthRecoveryLocked now g cause s) = s_vpnActive s"
  "s_stopRequested (prepareHealthRecoveryLocked now g cause s) = s_stopRequested s"
  "s_closing (prepareHealthRecoveryLocked now g cause s) = s_closing s"
  "s_cleanupDone (prepareHealthRecoveryLocked now g cause s) = s_cleanupDone s"
  "s_cleanupFailed (prepareHealthRecoveryLocked now g cause s) = s_cleanupFailed s"
  "s_cleanupBudget (prepareHealthRecoveryLocked now g cause s) = s_cleanupBudget s"
  "s_configured (prepareHealthRecoveryLocked now g cause s) = s_configured s"
  "s_profiles (prepareHealthRecoveryLocked now g cause s) = s_profiles s"
  "s_pending (prepareHealthRecoveryLocked now g cause s) = s_pending s"
  by (simp_all add: prepareHealthRecoveryLocked_def Let_def)

lemma step_health:
  assumes i: "sess_inv m" and a: "attemptActive (s_state (m_session m))" and w: "worker_ok m w" and p: "w_pc w = GWait b"
  shows "step_ok m (reportHealthFailure now (w_gen w) (Some cause) m, w\<lparr>w_pc := GFinish None\<rparr>)"
proof (cases "w_gen w = 0 \<or> s_state (m_session m) \<noteq> StateConnected")
  case True
  have "step_ok m (m, w\<lparr>w_pc := GFinish None\<rparr>)"
    by (rule step_local[OF i a w]) (use p True worker_ok_D(1)[OF w] in \<open>auto simp: retiring_def\<close>)
  with True show ?thesis by (auto simp: reportHealthFailure_def Let_def)
next
  case False
  let ?m1 = "reportHealthFailure now (w_gen w) (Some cause) m"
  let ?s1 = "prepareHealthRecoveryLocked now (w_gen w) cause (m_session m)"
  have g: "w_gen w = s_generation (m_session m)" by (rule worker_ok_D(1)[OF w])
  have c: "s_cancel (m_session m) = Some (w_ctx w)" using worker_ok_D(3)[OF w] p by simp
  have m1: "?m1 = ctx_cancel (w_ctx w) (appendLocked now (m\<lparr>m_session := ?s1\<lparr>s_state := StateStopping\<rparr>\<rparr>))"
    using False g c by (simp add: reportHealthFailure_def Let_def prepareHealthRecovery_keeps)
  have nf: "\<not> s_cleanupDone (m_session m)" "\<not> s_cleanupFailed (m_session m)"
    using inv_not_done[OF i a] inv_core[OF i] False by (auto simp: core_ok_def)
  have core: "core_ok (m_session ?m1)"
    using inv_core[OF i] nf False inv_health_recovery[of "m_session m" now "w_gen w" cause]
    unfolding core_ok_def m1 by (auto simp: op_defs prepareHealthRecovery_keeps)
  have fr: "frame m ?m1" unfolding m1 by (simp add: frame_def op_defs prepareHealthRecovery_keeps)
  have "\<forall>c\<in>m_canceled ?m1. c < m_next ?m1"
    using i c unfolding m1 sess_inv_def heap_ok_def by (auto simp: op_defs)
  then have "heap_ok ?m1"
    using i by (intro heap_ok_frame[OF fr]) (auto simp: sess_inv_def nf)
  moreover have "worker_ok ?m1 (w\<lparr>w_pc := GFinish None\<rparr>)"
    using g unfolding m1 by (simp add: worker_ok_def op_defs prepareHealthRecovery_keeps)
  ultimately show ?thesis using core unfolding step_ok_def m1 by (simp add: op_defs)
qed

lemma step_wait:
  assumes i: "sess_inv m" and a: "attemptActive (s_state (m_session m))" and w: "worker_ok m w" and p: "w_pc w = GWait b"
  shows "step_ok m (worker_at (GWait b) ext m w)"
proof -
  have q: "s_vpnActive (m_session m)" "s_state (m_session m) \<in> {StateConnected, StateStopping}" "led m (s_ledger (m_session m)) \<noteq> []"
    using worker_ok_D(2)[OF w] p by simp_all
  have stay: "step_ok m (m, w)" by (rule step_same[OF i a w]) (simp add: p)
  have closed: "step_ok m (m, w\<lparr>w_pc := GWait False\<rparr>)"
    by (rule step_local[OF i a w]) (use p q in simp_all)
  have fin: "step_ok m (m, w\<lparr>w_pc := GFinish None\<rparr>)" if "w_ctx w \<in> m_canceled m"
    by (rule step_local[OF i a w]) (use p q that worker_ok_D(6)[OF w] in simp_all)
  show ?thesis
    using stay closed fin step_health[OF i a w p]
    by (auto simp: wait_step_def ctx_err_def split: health.split option.split)
qed

section \<open>Steps that release\<close>

text \<open>Releasing a ledger under the session's cleanup budget.\<close>

lemma release_step:
  assumes i: "sess_inv m" and a: "attemptActive (s_state (m_session m))" and w: "worker_ok m w"
    and l: "s_ledger (m_session m) = Some l \<or> s_networkLedger (m_session m) = Some l
       \<and> (s_stopRequested (m_session m) \<or> s_closing (m_session m) \<or> \<not> s_vpnActive (m_session m))"
  obtains m1 e where "release_ledger ok l (cleanupContext m) = (m1, e)" "core_ok (m_session m1)" "heap_ok m1"
    "frame m (cleanupContext m)" "m_session m1 = m_session (cleanupContext m)" "m_workers m1 = m_workers m"
    "m_canceled m1 = m_canceled m" "e = None \<Longrightarrow> led m1 (Some l) = []" "\<And>k. k \<noteq> Some l \<Longrightarrow> led m1 k = led m k"
proof -
  let ?m2 = "cleanupContext m"
  have i2: "sess_inv ?m2" by (rule inv_cleanupContext[OF i])
  obtain m1 e where r: "release_ledger ok l ?m2 = (m1, e)" by (cases "release_ledger ok l ?m2")
  have l2: "s_ledger (m_session ?m2) = Some l \<or> s_networkLedger (m_session ?m2) = Some l
       \<and> (s_stopRequested (m_session ?m2) \<or> s_closing (m_session ?m2) \<or> \<not> s_vpnActive (m_session ?m2))"
    using l by (simp add: cleanupContext_flags)
  have h2: "heap_ok ?m2" using i2 by (simp add: sess_inv_def)
  note rel = heap_ok_release[OF h2 inv_ledgers_differ[OF inv_core[OF i2]] l2 r]
  show ?thesis
  proof (rule that[OF r])
    show "core_ok (m_session m1)" using rel(2) inv_core[OF i2] by simp
    show "led m1 k = led m k" if "k \<noteq> Some l" for k
      using rel(6) that by (auto simp: led_def cleanupContext_flags split: option.splits)
  qed (use rel frame_cleanupContext in \<open>simp_all add: led_def\<close>)
qed

lemma step_release_cand:
  assumes i: "sess_inv m" and a: "attemptActive (s_state (m_session m))" and w: "worker_ok m w" and p: "w_pc w = GReleaseCand b"
  shows "step_ok m (worker_at (GReleaseCand b) ext m w)"
proof -
  have q: "s_vpnActive (m_session m)" "s_state (m_session m) \<noteq> StateConnected" using worker_ok_D(2)[OF w] p by simp_all
  obtain l where l: "s_ledger (m_session m) = Some l" using worker_ok_D(4)[OF w] p by auto
  obtain m1 e where m1: "release_ledger (x_release ext) l (cleanupContext m) = (m1, e)" "core_ok (m_session m1)" "heap_ok m1"
    "frame m (cleanupContext m)" "m_session m1 = m_session (cleanupContext m)" "m_workers m1 = m_workers m" "m_canceled m1 = m_canceled m"
    using release_step[OF i a w, of l "x_release ext"] l by metis
  have s: "step_ok m (m1, w\<lparr>w_pc := pc'\<rparr>)" if "pc' = GCheck b \<or> (\<exists>c. pc' = GFinish c)" for pc'
  proof -
    have "worker_ok m1 (w\<lparr>w_pc := pc'\<rparr>)"
      using w p q that m1(4) unfolding worker_ok_def m1(5,7) frame_def Let_def
      by (auto simp: m1(5) frame_cleanupContext)
    with m1 a that show ?thesis by (auto simp: step_ok_def frame_cleanupContext)
  qed
  show ?thesis by (cases e) (auto simp: release_candidate_def l m1(1) intro!: s)
qed

lemma step_finish:
  assumes i: "sess_inv m" and a: "attemptActive (s_state (m_session m))" and w: "worker_ok m w" and p: "w_pc w = GFinish c"
  shows "step_ok m (worker_at (GFinish c) ext m w)"
proof -
  have "worker_ok m (w\<lparr>w_pc := GRetire1 (s_ledger (m_session m)) c\<rparr>)"
    using w p by (simp add: worker_ok_def)
  with step_same[OF i a this] worker_ok_D(1)[OF w] a show ?thesis by simp
qed

lemma step_retire1:
  assumes i: "sess_inv m" and a: "attemptActive (s_state (m_session m))" and w: "worker_ok m w" and p: "w_pc w = GRetire1 l c"
  shows "step_ok m (worker_at (GRetire1 l c) ext m w)"
proof -
  have q: "retiring (m_session m)" "l = s_ledger (m_session m)" using worker_ok_D(2)[OF w] p by simp_all
  show ?thesis
  proof (cases "l = None \<or> CodeOf c = FailureCleanup")
    case True
    have "worker_ok m (w\<lparr>w_pc := GRetire2 c None\<rparr>)"
      using w p q True by (auto simp: worker_ok_def clean_def led_def)
    from step_same[OF i a this] True show ?thesis by (auto split: option.split)
  next
    case False
    then obtain k where k: "l = Some k" and cc: "CodeOf c \<noteq> FailureCleanup" by auto
    obtain m1 e where m1: "release_ledger (x_release ext) k (cleanupContext m) = (m1, e)" "core_ok (m_session m1)" "heap_ok m1"
      "frame m (cleanupContext m)" "m_session m1 = m_session (cleanupContext m)" "m_workers m1 = m_workers m" "m_canceled m1 = m_canceled m"
      "e = None \<Longrightarrow> led m1 (Some k) = []"
      using release_step[OF i a w, of k "x_release ext"] k q(2) by metis
    have "worker_ok m1 (w\<lparr>w_pc := GRetire2 c e\<rparr>)"
      using w p q m1(4,8) k unfolding worker_ok_def m1(5,7) frame_def Let_def
      by (auto simp: m1(5) frame_cleanupContext clean_def retiring_def)
    with m1 a k cc show ?thesis by (simp add: step_ok_def frame_cleanupContext)
  qed
qed

lemma step_retire2:
  assumes i: "sess_inv m" and a: "attemptActive (s_state (m_session m))" and w: "worker_ok m w" and p: "w_pc w = GRetire2 c e"
  shows "step_ok m (worker_at (GRetire2 c e) ext m w)"
proof -
  have "worker_ok m (w\<lparr>w_pc := GRetire3 (s_networkLedger (m_session m))
      (s_stopRequested (m_session m) \<or> s_closing (m_session m) \<or> \<not> s_vpnActive (m_session m)) c e\<rparr>)"
    using w p by (simp add: worker_ok_def)
  from step_same[OF i a this] show ?thesis by (simp add: Let_def)
qed

lemma step_retire3:
  assumes i: "sess_inv m" and a: "attemptActive (s_state (m_session m))" and w: "worker_ok m w" and p: "w_pc w = GRetire3 n r c e"
  shows "step_ok m (worker_at (GRetire3 n r c e) ext m w)"
proof -
  have q: "retiring (m_session m)" "clean c e \<longrightarrow> led m (s_ledger (m_session m)) = []" "n = s_networkLedger (m_session m)"
    "r \<longrightarrow> s_stopRequested (m_session m) \<or> s_closing (m_session m) \<or> \<not> s_vpnActive (m_session m)"
    "\<not> s_vpnActive (m_session m) \<longrightarrow> r"
    using worker_ok_D(2)[OF w] p by simp_all
  show ?thesis
  proof (cases "n \<noteq> None \<and> clean c e \<and> r")
    case False
    have "worker_ok m (w\<lparr>w_pc := GFinish2 r c e\<rparr>)"
      using w p q False by (auto simp: worker_ok_def led_def)
    from step_same[OF i a this] False show ?thesis by (auto simp: clean_def split: option.split)
  next
    case True
    then obtain k where k: "n = Some k" by auto
    obtain m1 e1 where m1: "release_ledger (x_release ext) k (cleanupContext m) = (m1, e1)" "core_ok (m_session m1)" "heap_ok m1"
      "frame m (cleanupContext m)" "m_session m1 = m_session (cleanupContext m)" "m_workers m1 = m_workers m" "m_canceled m1 = m_canceled m"
      "e1 = None \<Longrightarrow> led m1 (Some k) = []" "\<And>j. j \<noteq> Some k \<Longrightarrow> led m1 j = led m j"
      using release_step[OF i a w, of k "x_release ext"] k q(3,4) True by metis
    have ne: "s_ledger (m_session m) \<noteq> Some k"
      using inv_core[OF i] k q(3) by (auto simp: core_ok_def)
    have "worker_ok m1 (w\<lparr>w_pc := GFinish2 r c e1\<rparr>)"
      using w p q m1(4,8,9) k ne True unfolding worker_ok_def m1(5,7) frame_def Let_def
      by (auto simp: m1(5) frame_cleanupContext clean_def retiring_def cleanupContext_flags)
    with m1 a k True show ?thesis by (simp add: step_ok_def frame_cleanupContext clean_def)
  qed
qed

section \<open>The end of an attempt\<close>

lemma inv_dead:
  assumes "core_ok (m_session m')" "heap_ok m'" "\<not> attemptActive (s_state (m_session m'))" "live (m_workers m') = []"
  shows "sess_inv m'"
  using assms by (simp add: sess_inv_def workers_ok_def)

lemma heap_ok_retired:
  assumes h: "heap_ok m" and l: "led m (s_ledger (m_session m)) = []"
    and n: "s_networkLedger (m_session m') = s_networkLedger (m_session m)
        \<or> s_networkLedger (m_session m') = None \<and> led m (s_networkLedger (m_session m)) = []"
    and s: "s_ledger (m_session m') = None" "s_cancel (m_session m') = None" "m_ledgers m' = m_ledgers m"
      "m_acquired m' = m_acquired m" "m_released m' = m_released m" "m_next m' = m_next m" "m_canceled m' = m_canceled m"
    and v: "s_vpnActive (m_session m') \<and> \<not> s_stopRequested (m_session m') \<and> \<not> s_closing (m_session m')
          \<and> \<not> s_cleanupFailed (m_session m') \<Longrightarrow> led m (s_networkLedger (m_session m')) \<noteq> []"
  shows "heap_ok m'"
proof -
  have "led m' = led m" using s(3) by (simp add: led_def fun_eq_iff split: option.split)
  moreover have "led m None = []" by (simp add: led_def)
  ultimately show ?thesis using h l n s v unfolding heap_ok_def by auto
qed

lemma finish_failed_inv:
  assumes h: "heap_ok m" and core: "core_ok (m_session m)" and a: "attemptActive (s_state (m_session m))" and lv: "live ws = []"
  shows "sess_inv ((finish_failed now cause e m)\<lparr>m_workers := ws\<rparr>)"
proof (rule inv_dead)
  let ?m1 = "finish_failed now cause e m"
  have "\<not> s_cleanupDone (m_session m)" using core a by (simp add: core_ok_def)
  then show "core_ok (m_session (?m1\<lparr>m_workers := ws\<rparr>))"
    using core unfolding core_ok_def by (auto simp: finish_failed_def op_defs)
  have l: "led ?m1 = led m" by (simp add: finish_failed_def op_defs led_def fun_eq_iff split: option.split)
  have "heap_ok ?m1" using h l unfolding heap_ok_def by (simp add: finish_failed_def op_defs)
  then show "heap_ok (?m1\<lparr>m_workers := ws\<rparr>)" by simp
qed (use lv in \<open>simp_all add: finish_failed_def op_defs\<close>)

lemma budget_finish_simps [simp]:
  "m_session (budget_finish b m) = m_session m" "m_workers (budget_finish b m) = m_workers m"
  "m_ledgers (budget_finish b m) = m_ledgers m" "m_canceled (budget_finish b m) = m_canceled m"
  "m_acquired (budget_finish b m) = m_acquired m" "m_released (budget_finish b m) = m_released m"
  "m_next (budget_finish b m) = m_next m"
  by (simp_all add: budget_finish_def split: option.split)

lemma retired_simps [simp]:
  "s_ledger (retired r s) = None" "s_cancel (retired r s) = None" "\<not> s_cleanupFailed (retired r s)"
  "s_networkLedger (retired r s) = (if r then None else s_networkLedger s)"
  "s_vpnActive (retired r s) = (\<not> r \<and> s_vpnActive s)"
  "s_stopRequested (retired r s) = s_stopRequested s" "s_closing (retired r s) = s_closing s"
  "s_state (retired r s) = s_state s" "s_generation (retired r s) = s_generation s"
  "s_pending (retired r s) = s_pending s" "s_restartAfterCleanup (retired r s) = s_restartAfterCleanup s"
  "s_cleanupBudget (retired r s) = s_cleanupBudget s" "s_activeTarget (retired r s) = s_activeTarget s"
  "s_activeProfiles (retired r s) = s_activeProfiles s" "s_configured (retired r s) = s_configured s"
  "s_profiles (retired r s) = s_profiles s" "s_recovering (retired r s) = s_recovering s"
  "s_recoveryCount (retired r s) = s_recoveryCount s" "s_cleanupDone (retired r s) = s_cleanupDone s"
  "s_failureAfterCleanup (retired r s) = s_failureAfterCleanup s"
  "s_failureMessageAfterCleanup (retired r s) = s_failureMessageAfterCleanup s"
  "s_lastFailureMessage (retired r s) = s_lastFailureMessage s"
  by (simp_all add: retired_def Let_def)


text \<open>The state in which \<open>finish_retired\<close> runs, seen from the worker that runs it.\<close>

definition retire_ready :: "bool \<Rightarrow> manager \<Rightarrow> bool" where
  "retire_ready r m \<longleftrightarrow> heap_ok m \<and> core_ok (m_session m) \<and> attemptActive (s_state (m_session m)) \<and> \<not> s_cleanupDone (m_session m)
     \<and> led m (s_ledger (m_session m)) = [] \<and> (r \<longrightarrow> led m (s_networkLedger (m_session m)) = [])
     \<and> (r \<longrightarrow> s_stopRequested (m_session m) \<or> s_closing (m_session m) \<or> \<not> s_vpnActive (m_session m))
     \<and> (\<not> s_vpnActive (m_session m) \<longrightarrow> r)"

lemma finish_again_inv:
  assumes "retire_ready False m" "live ws = []" "s_stopRequested (m_session m) \<or> s_closing (m_session m)"
    and m1: "m1 = (go_finish (s_generation (m_session m)) (m\<lparr>m_session := (retired False (m_session m))\<lparr>s_state := StateStopping\<rparr>\<rparr>))
        \<lparr>m_workers := ws @ [\<lparr>w_pc = GFinish None, w_ctx = 0, w_gen = s_generation (m_session m), w_target = zero_target,
            w_profiles = [], w_index = 0, w_errors = []\<rparr>]\<rparr>"
  shows "sess_inv m1"
proof -
  have r: "heap_ok m" "core_ok (m_session m)" "\<not> s_cleanupDone (m_session m)" "led m (s_ledger (m_session m)) = []" "s_vpnActive (m_session m)"
    using assms(1) by (auto simp: retire_ready_def)
  have "core_ok (m_session m1)"
    using r(2,3,5) assms(3) unfolding core_ok_def m1 by (auto simp: go_finish_def)
  moreover have "heap_ok m1"
    by (rule heap_ok_retired[OF r(1,4)]) (use assms(3) r in \<open>auto simp: m1 go_finish_def\<close>)
  moreover have "workers_ok m1"
    using assms(2) by (simp add: m1 workers_ok_def worker_ok_def go_finish_def)
  ultimately show ?thesis by (simp add: sess_inv_def)
qed

lemma finish_idle_inv:
  assumes "retire_ready r m" "live ws = []" "s_stopRequested (m_session m) \<or> s_closing (m_session m)" "r"
    and m1: "m1 = (finish_idle now (budget_finish b (m\<lparr>m_session := (retired r (m_session m))\<lparr>s_cleanupDone := \<not> s_vpnActive (retired r (m_session m))\<rparr>\<rparr>)))
        \<lparr>m_workers := ws\<rparr>"
  shows "sess_inv m1"
proof -
  have r: "heap_ok m" "core_ok (m_session m)" "\<not> s_cleanupDone (m_session m)" "led m (s_ledger (m_session m)) = []"
    "led m (s_networkLedger (m_session m)) = []"
    using assms(1,4) by (auto simp: retire_ready_def)
  have "core_ok (m_session m1)"
    using r(2,3) assms(3,4) unfolding core_ok_def m1 by (auto simp: finish_idle_def op_defs)
  moreover have "heap_ok m1"
    by (rule heap_ok_retired[OF r(1,4)]) (use assms(3,4) r in \<open>auto simp: m1 finish_idle_def op_defs\<close>)
  ultimately show ?thesis
    by (rule inv_dead) (use assms(2) in \<open>simp_all add: m1 finish_idle_def op_defs\<close>)
qed

lemma finish_protected_inv:
  assumes "retire_ready r m" "live ws = []" "\<not> s_stopRequested (m_session m)" "\<not> s_closing (m_session m)"
    "\<not> (s_vpnActive (m_session m) \<and> s_pending (m_session m) \<noteq> None \<and> \<not> r)"
    and m1: "m1 = (finishProtectedFailureLocked now cause (budget_finish b (m\<lparr>m_session := (retired r (m_session m))\<lparr>s_cleanupDone := \<not> s_vpnActive (retired r (m_session m))\<rparr>\<rparr>)))
        \<lparr>m_workers := ws\<rparr>"
  shows "sess_inv m1"
proof -
  have r: "heap_ok m" "core_ok (m_session m)" "\<not> s_cleanupDone (m_session m)" "led m (s_ledger (m_session m)) = []"
    "r \<longrightarrow> led m (s_networkLedger (m_session m)) = []" "r = (\<not> s_vpnActive (m_session m))" "attemptActive (s_state (m_session m))"
    using assms(1,3,4) by (auto simp: retire_ready_def)
  then have nf: "\<not> s_cleanupFailed (m_session m)" by (auto simp: core_ok_def)
  have "core_ok (m_session m1)"
  proof (cases "s_vpnActive (m_session m)")
    case True
    with r(6) assms(5) have "\<not> r" "s_pending (m_session m) = None" by auto
    with True r(2,3) assms(3,4) show ?thesis
      unfolding core_ok_def m1 by (simp add: finishProtectedFailureLocked_def op_defs)
  next
    case False
    with r(2,6) have "r" "s_pending (m_session m) = None" by (auto simp: core_ok_def)
    with False r(2,3) show ?thesis
      unfolding core_ok_def m1 by (simp add: finishProtectedFailureLocked_def op_defs)
  qed
  moreover have "heap_ok m1"
  proof (rule heap_ok_retired[OF r(1,4)])
    assume "s_vpnActive (m_session m1) \<and> \<not> s_stopRequested (m_session m1) \<and> \<not> s_closing (m_session m1) \<and> \<not> s_cleanupFailed (m_session m1)"
    then show "led m (s_networkLedger (m_session m1)) \<noteq> []"
      using r(1,6) assms(3,4) nf unfolding heap_ok_def m1 by (auto simp: finishProtectedFailureLocked_def op_defs)
  qed (use r in \<open>auto simp: m1 finishProtectedFailureLocked_def op_defs\<close>)
  ultimately show ?thesis
    by (rule inv_dead) (use assms(2) in \<open>simp_all add: m1 finishProtectedFailureLocked_def op_defs\<close>)
qed

lemma finish_restart_inv:
  assumes rr: "retire_ready r m" and lv: "live ws = []" and ns: "\<not> s_stopRequested (m_session m)" "\<not> s_closing (m_session m)"
    and v: "s_vpnActive (m_session m)" "\<not> r"
    and m1: "m1 = budget_finish b (m\<lparr>m_session := (retired r (m_session m))\<lparr>s_cleanupDone := \<not> s_vpnActive (retired r (m_session m))\<rparr>\<rparr>)"
  obtains m2 w where "finish_restart now m1 = Ret m2" "m_workers m2 = m_workers m @ [w]" "sess_inv (m2\<lparr>m_workers := ws @ [w]\<rparr>)"
proof -
  have r: "heap_ok m" "core_ok (m_session m)" "\<not> s_cleanupDone (m_session m)" "led m (s_ledger (m_session m)) = []"
     "attemptActive (s_state (m_session m))"
    using rr by (auto simp: retire_ready_def)
  then have nf: "\<not> s_cleanupFailed (m_session m)" by (auto simp: core_ok_def)
  obtain k where k: "s_networkLedger (m_session m) = Some k" "k < m_next m"
    using r(1-3) by (auto simp: core_ok_def heap_ok_def)
  have net: "led m (s_networkLedger (m_session m)) \<noteq> []"
    using r(1) ns v nf by (simp add: heap_ok_def)
  define target where "target = (case s_pending (m_session m) of Some p \<Rightarrow> pd_target p | None \<Rightarrow> s_activeTarget (m_session m))"
  define ps where "ps = (case s_pending (m_session m) of Some p \<Rightarrow> pd_profiles p | None \<Rightarrow> s_activeProfiles (m_session m))"
  have t: "target_ok target ps"
    using r(2,3) by (auto simp: target_def ps_def core_ok_def split: option.splits)
  then have po: "retainPolicy_ok (pd_profiles p)" if "s_pending (m_session m) = Some p" for p
    using that by (simp add: ps_def target_ok_def retainPolicy_ok_def)
  define sB where "sB = (case s_pending (m_session m) of
       Some p \<Rightarrow> (m_session m1)\<lparr>s_activeProfiles := pd_profiles p, s_activeDigest := pd_digest p, s_pending := None, s_recoveryCount := 0\<rparr>
     | None \<Rightarrow> m_session m1)"
  have sB: "s_activeProfiles sB = ps" "s_pending sB = None" "s_networkLedger sB = Some k" "s_generation sB = s_generation (m_session m)"
    "s_vpnActive sB" "s_configured sB = s_configured (m_session m)" "s_profiles sB = s_profiles (m_session m)"
    "s_recoveryCount sB = 0 \<or> s_recoveryCount sB = s_recoveryCount (m_session m)"
    using k v by (cases "s_pending (m_session m)"; simp add: sB_def m1 ps_def)+
  define m2 where "m2 = go_runStart (m_next m) (s_generation (m_session m) + 1) target
      (fst (beginAttemptLocked now target (m1\<lparr>m_session := sB\<rparr>)))"
  have m2: "finish_restart now m1 = Ret m2"
    using po sB(4) by (cases "s_pending (m_session m)")
      (simp_all add: finish_restart_def m2_def sB_def target_def m1 beginAttemptLocked_def Let_def)
  let ?w = "\<lparr>w_pc = GPrepare, w_ctx = m_next m, w_gen = s_generation (m_session m) + 1, w_target = target,
       w_profiles = [], w_index = 0, w_errors = []\<rparr>"
  have "0 \<le> s_recoveryCount (m_session m)" "s_recoveryCount (m_session m) \<le> autoRecoveryLimit"
    using r(2) by (simp_all add: core_ok_def)
  then have rc: "0 \<le> s_recoveryCount sB" "s_recoveryCount sB \<le> autoRecoveryLimit"
    using sB(8) by (auto simp: autoRecoveryLimit_def)
  have m2s: "m_workers m2 = m_workers m @ [?w]" "s_state (m_session m2) = StateProbing" "s_cancel (m_session m2) = Some (m_next m)"
    "m_next m2 = m_next m + 3" "s_ledger (m_session m2) = Some (m_next m + 2)" "m_ledgers m2 = (m_ledgers m)(m_next m + 2 := [])"
    "s_activeProfiles (m_session m2) = ps" "s_activeTarget (m_session m2) = target" "m_canceled m2 = m_canceled m"
    "m_acquired m2 = m_acquired m" "m_released m2 = m_released m" "s_networkLedger (m_session m2) = Some k"
    "s_generation (m_session m2) = s_generation (m_session m) + 1" "s_vpnActive (m_session m2)" "\<not> s_cleanupDone (m_session m2)"
    "\<not> s_cleanupFailed (m_session m2)" "s_pending (m_session m2) = None" "s_cleanupBudget (m_session m2) \<noteq> None"
    "s_configured (m_session m2) = s_configured (m_session m)" "s_profiles (m_session m2) = s_profiles (m_session m)"
    "0 \<le> s_recoveryCount (m_session m2)" "s_recoveryCount (m_session m2) \<le> autoRecoveryLimit"
    using sB(1-7) rc by (simp_all add: m2_def beginAttemptLocked_def op_defs go_runStart_def m1)
  have "sess_inv (m2\<lparr>m_workers := ws @ [?w]\<rparr>)"
  proof (rule inv_spawn_start[of "m\<lparr>m_workers := ws\<rparr>" _ "m_next m" target "m_next m + 2"])
    show "core_ok (m_session (m2\<lparr>m_workers := ws @ [?w]\<rparr>))"
      using m2s r(2) t k by (auto simp: core_ok_def)
    show "led (m2\<lparr>m_workers := ws @ [?w]\<rparr>) (s_networkLedger (m_session (m2\<lparr>m_workers := ws @ [?w]\<rparr>)))
       = led (m\<lparr>m_workers := ws\<rparr>) (s_networkLedger (m_session (m\<lparr>m_workers := ws\<rparr>)))"
      using m2s k by (simp add: led_def)
  qed (use r lv m2s k t net in \<open>simp_all add: go_runStart_def\<close>)
  with m2 m2s(1) that show ?thesis by blast
qed

lemma finish_workers [simp]:
  "m_workers (finish_idle now m) = m_workers m" "m_workers (finishProtectedFailureLocked now c m) = m_workers m"
  "m_workers (finish_failed now c e m) = m_workers m"
  by (simp_all add: finish_idle_def finishProtectedFailureLocked_def finish_failed_def op_defs)

lemma step_finish2:
  assumes i: "sess_inv m" and ix: "i < length (m_workers m)" and w: "m_workers m ! i = w" "worker_ok m w"
    and a: "attemptActive (s_state (m_session m))" and p: "w_pc w = GFinish2 r c e"
  shows "case worker_at (GFinish2 r c e) ext m w of (m1, w1) \<Rightarrow> sess_inv (m1\<lparr>m_workers := (m_workers m1)[i := w1]\<rparr>)"
proof -
  let ?d = "w\<lparr>w_pc := GDone\<rparr>" and ?ws = "(m_workers m)[i := w\<lparr>w_pc := GDone\<rparr>]" and ?g = "w_gen w"
  have g: "w_gen w = s_generation (m_session m)" by (rule worker_ok_D(1)[OF w(2)])
  from inv_worker[OF i a] obtain w' where "live (m_workers m) = [w']" by blast
  from live_update[OF this ix, of ?d] w p have lv: "live ?ws = []" by auto
  have h: "heap_ok m" and core: "core_ok (m_session m)" using i by (simp_all add: sess_inv_def)
  show ?thesis
  proof (cases "clean c e")
    case False
    then have "finish_locked (x_now ext) ?g r c e m = Ret (finish_failed (x_now ext) c e m)"
      using g by (auto simp: finish_locked_def clean_def)
    with finish_failed_inv[OF h core a lv, of "x_now ext" c e] show ?thesis by simp
  next
    case True
    have rr: "retire_ready r m"
      using worker_ok_D(2)[OF w(2)] p h core a True inv_not_done[OF i a] by (simp add: retire_ready_def)
    let ?m = "m\<lparr>m_session := retired r (m_session m)\<rparr>"
    have fl: "finish_locked (x_now ext) ?g r c e m = finish_retired (x_now ext) ?g r c ?m"
      using True g by (simp add: finish_locked_def clean_def)
    show ?thesis
    proof (cases "s_stopRequested (m_session m) \<or> s_closing (m_session m)")
      case st: True
      show ?thesis
      proof (cases r)
        case r: True
        let ?x = "finish_idle (x_now ext) (budget_finish (s_cleanupBudget (m_session m))
           (m\<lparr>m_session := (retired r (m_session m))\<lparr>s_cleanupDone := \<not> s_vpnActive (retired r (m_session m))\<rparr>\<rparr>))"
        have e: "finish_locked (x_now ext) ?g r c e m = Ret ?x"
          unfolding fl finish_retired_def Let_def using r st by simp
        show ?thesis unfolding worker_at.simps e
          using finish_idle_inv[OF rr lv st r refl, of "x_now ext" "s_cleanupBudget (m_session m)"] by simp
      next
        case False
        with rr have rr': "retire_ready False m" by simp
        have e: "finish_locked (x_now ext) ?g r c e m =
            Ret (go_finish (s_generation (m_session m)) (m\<lparr>m_session := (retired False (m_session m))\<lparr>s_state := StateStopping\<rparr>\<rparr>))"
          unfolding fl finish_retired_def Let_def using False st g by simp
        show ?thesis unfolding worker_at.simps e
          using finish_again_inv[OF rr' lv st refl] ix by (simp add: go_finish_def list_update_append)
      qed
    next
      case ns: False
      then have ns': "\<not> s_stopRequested (m_session m)" "\<not> s_closing (m_session m)" by auto
      show ?thesis
      proof (cases "s_vpnActive (m_session m) \<and> \<not> r \<and> (s_restartAfterCleanup (m_session m) \<or> s_pending (m_session m) \<noteq> None)")
        case True
        then have v: "s_vpnActive (m_session m)" "\<not> r" by auto
        obtain m2 wn where m2: "finish_restart (x_now ext) (budget_finish (s_cleanupBudget (m_session m))
            (m\<lparr>m_session := (retired r (m_session m))\<lparr>s_cleanupDone := \<not> s_vpnActive (retired r (m_session m))\<rparr>\<rparr>)) = Ret m2"
          "m_workers m2 = m_workers m @ [wn]" "sess_inv (m2\<lparr>m_workers := ?ws @ [wn]\<rparr>)"
          by (rule finish_restart_inv[OF rr lv ns' v refl])
        then have e: "finish_locked (x_now ext) ?g r c e m = Ret m2"
          unfolding fl finish_retired_def Let_def using True ns' by simp
        show ?thesis unfolding worker_at.simps e using m2 ix by (simp add: list_update_append)
      next
        case False
        then have "\<not> (s_vpnActive (m_session m) \<and> s_pending (m_session m) \<noteq> None \<and> \<not> r)" by auto
        note inv = finish_protected_inv[OF rr lv ns' this refl, of "x_now ext" c "s_cleanupBudget (m_session m)"]
        let ?x = "finishProtectedFailureLocked (x_now ext) c (budget_finish (s_cleanupBudget (m_session m))
           (m\<lparr>m_session := (retired r (m_session m))\<lparr>s_cleanupDone := \<not> s_vpnActive (retired r (m_session m))\<rparr>\<rparr>))"
        have e: "finish_locked (x_now ext) ?g r c e m = Ret ?x"
          unfolding fl finish_retired_def Let_def using False ns' by auto
        show ?thesis unfolding worker_at.simps e using inv by simp
      qed
    qed
  qed
qed

section \<open>All steps\<close>

lemma step_live:
  assumes i: "sess_inv m" and a: "attemptActive (s_state (m_session m))" and w: "worker_ok m w" "w_pc w \<noteq> GDone"
    and f: "\<And>r c e. w_pc w \<noteq> GFinish2 r c e"
  shows "step_ok m (worker_at (w_pc w) ext m w)"
proof (cases "w_pc w")
  case GAdvance
  have q: "s_vpnActive (m_session m)" "s_state (m_session m) \<noteq> StateConnected" "w_index w < length (w_profiles w)"
    using worker_ok_D(2)[OF w(1)] GAdvance by simp_all
  show ?thesis unfolding GAdvance worker_at.simps
    by (rule step_advance[OF i a w(1)]) (use GAdvance q in auto)
next
  case (GConnect b)
  have q: "s_vpnActive (m_session m)" "s_state (m_session m) \<noteq> StateConnected" "led m (s_ledger (m_session m)) \<noteq> []"
    using worker_ok_D(2)[OF w(1)] GConnect by simp_all
  show ?thesis unfolding GConnect worker_at.simps
    by (rule step_advance[OF i a w(1)]) (use GConnect q in auto)
next
  case GPanicked
  then show ?thesis using worker_ok_D(2)[OF w(1)] by simp
qed (use f w step_prepare[OF i a w(1)] step_platform[OF i a w(1)] step_network[OF i a w(1)] step_activate[OF i a w(1)]
      step_activated[OF i a w(1)] step_copy[OF i a w(1)] step_candidate[OF i a w(1)] step_started[OF i a w(1)]
      step_wait[OF i a w(1)] step_release_cand[OF i a w(1)] step_check[OF i a w(1)] step_finish[OF i a w(1)]
      step_retire1[OF i a w(1)] step_retire2[OF i a w(1)] step_retire3[OF i a w(1)] in \<open>metis\<close>)+

lemma inv_live_worker:
  assumes i: "sess_inv m" and ix: "i < length (m_workers m)" and p: "w_pc (m_workers m ! i) \<noteq> GDone"
  shows "attemptActive (s_state (m_session m))" "worker_ok m (m_workers m ! i)"
proof -
  have "m_workers m ! i \<in> set (live (m_workers m))" using ix p by (simp add: live_def)
  then show a: "attemptActive (s_state (m_session m))" using inv_no_worker[OF i] by force
  from inv_worker[OF i a] obtain w where w: "live (m_workers m) = [w]" "worker_ok m w" by blast
  with live_update[OF w(1) ix p] show "worker_ok m (m_workers m ! i)" by auto
qed

lemma inv_worker_step:
  assumes i: "sess_inv m" and ix: "i < length (m_workers m)"
  shows "sess_inv (worker_step i ext m)"
proof (cases "w_pc (m_workers m ! i) = GDone")
  case True
  have "sess_inv (m\<lparr>m_workers := (m_workers m)[i := m_workers m ! i]\<rparr>)"
    using i by simp
  with True show ?thesis by (simp add: worker_step_def Let_def)
next
  case False
  note lw = inv_live_worker[OF i ix False]
  show ?thesis
  proof (cases "\<exists>r c e. w_pc (m_workers m ! i) = GFinish2 r c e")
    case True
    then obtain r c e where p: "w_pc (m_workers m ! i) = GFinish2 r c e" by blast
    from step_finish2[OF i ix refl lw(2,1) p, of ext] show ?thesis
      by (simp add: worker_step_def p Let_def split: prod.splits del: worker_at.simps)
  next
    case nf: False
    have "step_ok m (worker_at (w_pc (m_workers m ! i)) ext m (m_workers m ! i))"
      by (rule step_live[OF i lw False]) (use nf in blast)
    then show ?thesis
      by (cases "worker_at (w_pc (m_workers m ! i)) ext m (m_workers m ! i)")
         (simp add: worker_step_def Let_def inv_step_ok[OF i ix False])
  qed
qed

lemma inv_sys_step: "sys_step m m' \<Longrightarrow> sess_inv m \<Longrightarrow> sess_inv m'"
proof (induction rule: sys_step.induct)
  case (step_configure_begin env i n m m' r)
  with inv_configure_begin[of m env i n] show ?case by simp
next
  case (step_configure_accept decode urlparse digest raw parsed env request loaded m m' r)
  with inv_configure_accept[of m parsed env request loaded] parseConfig_profiles_nonempty show ?case by (metis ok_inv_simps(2))
next
  case (step_start env n target supplied m m' r)
  with inv_start_locked[of m env n target supplied] show ?case by simp
next
  case (step_stop env generation m m' r)
  with inv_Stop_locked[of m env generation] show ?case by (cases r) simp
next
  case (step_resume env m m' r)
  with inv_resume[of m env] show ?case by simp
next
  case (step_attach st m m' r)
  with inv_attach_install[of m st] show ?case by simp
qed (simp_all add: inv_StopAndWait inv_cleanupContext inv_attach_loaded inv_worker_step)

interpretation sessions: invariant_system "\<lambda>m. \<exists>i e st le nr. m = NewManager i e st le nr" sys_step sess_inv
  by unfold_locales (auto intro: inv_new inv_sys_step)

lemma reachable_star: "reachable m \<Longrightarrow> \<exists>m0. (\<exists>i e st le nr. m0 = NewManager i e st le nr) \<and> sys_step\<^sup>*\<^sup>* m0 m"
  by (induction rule: reachable.induct) (blast intro: rtranclp.rtrancl_into_rtrancl)+

lemma reachable_inv: "reachable m \<Longrightarrow> sess_inv m"
  using reachable_star[of m] sessions.reach_inv by blast

end
