(* ===== verification/Session_Stops.thy ===== *)
theory Session_Stops
  imports Session_Reachable
begin

text \<open>
  A requested stop completes: the worker that owns the attempt needs at most 18 more steps, whatever the
  platform and the runtime answer, as long as they answer. The measure is the worker's distance to
  its end; a worker that had already decided not to release the network hands over to one more round.
\<close>


fun rank :: "pc \<Rightarrow> nat" where
  "rank GPrepare = 17"
| "rank (GPlatform p l ref) = 16"
| "rank (GNetwork p l ref) = 15"
| "rank GActivate = 14"
| "rank GActivated = 13"
| "rank GCopy = 12"
| "rank GCandidate = 11"
| "rank GAdvance = 10"
| "rank GStart = 9"
| "rank (GConnect b) = 8"
| "rank (GReleaseCand b) = 8"
| "rank (GCheck b) = 7"
| "rank (GWait b) = (if b then 7 else 6)"
| "rank (GFinish c) = 5"
| "rank (GRetire1 l c) = 4"
| "rank (GRetire2 c e) = 3"
| "rank (GRetire3 n r c e) = (if r then 2 else 8)"
| "rank (GFinish2 r c e) = (if r then 1 else 7)"
| "rank GDone = 0"
| "rank GPanicked = 0"

definition stopping :: "manager \<Rightarrow> bool" where
  "stopping m \<longleftrightarrow> s_state (m_session m) = StateStopping \<and> (s_stopRequested (m_session m) \<or> s_closing (m_session m))"

lemma acquire_session: "acquire got work mk m = Some m1 \<Longrightarrow> m_session m1 = m_session m"
  by (auto simp: acquire_def push_ledger_def split: if_splits option.splits)

lemma release_session: "release_ledger ok l m = (m1, e) \<Longrightarrow> m_session m1 = m_session m"
  by (auto simp: release_ledger_def split: prod.splits)

lemma stopping_cleanupContext: "stopping (cleanupContext m) = stopping m"
  by (simp add: stopping_def frame_cleanupContext cleanupContext_flags)

lemma stopping_step:
  assumes i: "sess_inv m" and st: "stopping m" and w: "worker_ok m w" "w_pc w \<noteq> GDone" and h: "x_health ext \<noteq> HealthFailure None"
    and f: "\<And>r c e. w_pc w \<noteq> GFinish2 r c e" and r: "worker_at (w_pc w) ext m w = (m1, w1)"
  shows "stopping m1 \<and> rank (w_pc w1) < rank (w_pc w)"
proof -
  have s: "s_state (m_session m) = StateStopping" "s_stopRequested (m_session m) \<or> s_closing (m_session m)"
    using st by (auto simp: stopping_def)
  have ok: "step_ok m (m1, w1)" using step_live[OF i _ w f, of ext] s r by simp
  have np: "w_pc w1 \<noteq> GPanicked" using ok by (auto simp: step_ok_def worker_ok_def)
  have c: "acquiring (w_pc w) \<Longrightarrow> ctx_err (w_ctx w) m = Some (Sentinel Canceled)"
    using worker_ok_D(6)[OF w(1)] s by (simp add: ctx_err_def)
  have pp: "pc_ok m w (w_pc w)" by (rule worker_ok_D(2)[OF w(1)])
  have same: "m_session m1 = m_session m \<Longrightarrow> stopping m1" using st by (simp add: stopping_def)
  show ?thesis
  proof (cases "w_pc w")
    case GPrepare
    then show ?thesis using r np st by (auto simp: Let_def split: if_splits outcome.splits)
  next
    case (GPlatform p l ref)
    then show ?thesis using r np same by (auto split: if_splits option.splits dest!: acquire_session)
  next
    case (GNetwork p l ref)
    then show ?thesis using r np same by (auto split: if_splits option.splits dest!: acquire_session)
  next
    case GActivate
    then show ?thesis using r s by (auto simp: stopping_def op_defs)
  next
    case GActivated
    then show ?thesis using r st c by (auto split: option.splits)
  next
    case GCopy
    then show ?thesis using r np st by (auto simp: Let_def split: if_splits)
  next
    case GCandidate
    then show ?thesis using r st c by (auto simp: prepareCandidate_def Let_def split: if_splits)
  next
    case GAdvance
    then show ?thesis using r st s by (auto simp: advance_def)
  next
    case GStart
    then show ?thesis using r np same c
      by (auto simp: runtime_started_def Let_def split: if_splits option.splits dest!: acquire_session)
  next
    case (GConnect b)
    then show ?thesis using r st s by (auto simp: advance_def)
  next
    case (GWait b)
    then show ?thesis using r st s c h
      by (auto simp: wait_step_def reportHealthFailure_def Let_def split: if_splits health.splits option.splits)
  next
    case (GReleaseCand b)
    then show ?thesis using r np st stopping_cleanupContext[of m]
      by (auto simp: release_candidate_def stopping_def split: option.splits prod.splits dest!: release_session)
  next
    case (GCheck b)
    then show ?thesis using r st c by auto
  next
    case (GFinish x)
    then show ?thesis using r st s worker_ok_D(1)[OF w(1)] by auto
  next
    case (GRetire1 l x)
    then show ?thesis using r st stopping_cleanupContext[of m]
      by (auto simp: stopping_def split: option.splits prod.splits if_splits dest!: release_session)
  next
    case (GRetire2 x y)
    then show ?thesis using r st s by (auto simp: Let_def)
  next
    case (GRetire3 n q x y)
    then show ?thesis using r st stopping_cleanupContext[of m]
      by (auto simp: stopping_def split: option.splits prod.splits if_splits dest!: release_session)
  next
    case (GFinish2 q x y)
    then show ?thesis using f by blast
  qed (use w pp in simp_all)
qed


text \<open>How a stop ends: idle with everything released, or failed with the remaining leases retained.\<close>

definition stopped :: "manager \<Rightarrow> bool" where
  "stopped m \<longleftrightarrow> live (m_workers m) = [] \<and>
     (s_state (m_session m) = StateIdle \<and> s_cleanupDone (m_session m) \<and> \<not> s_vpnActive (m_session m)
      \<or> s_state (m_session m) = StateFailed \<and> s_cleanupFailed (m_session m))"

lemma stopping_finish2:
  assumes i: "sess_inv m" and st: "stopping m" and ix: "i < length (m_workers m)" and p: "w_pc (m_workers m ! i) = GFinish2 r c e"
  shows "stopped (worker_step i ext m)
    \<or> stopping (worker_step i ext m) \<and> \<not> r \<and> (\<exists>w. live (m_workers (worker_step i ext m)) = [w] \<and> w_pc w = GFinish None)"
proof -
  let ?w = "m_workers m ! i" and ?m' = "worker_step i ext m"
  have s: "s_state (m_session m) = StateStopping" "s_stopRequested (m_session m) \<or> s_closing (m_session m)"
    using st by (auto simp: stopping_def)
  have nd: "w_pc ?w \<noteq> GDone" using p by simp
  note lw = inv_live_worker[OF i ix nd]
  have g: "w_gen ?w = s_generation (m_session m)" by (rule worker_ok_D(1)[OF lw(2)])
  have i': "sess_inv ?m'" by (rule inv_worker_step[OF i ix])
  from inv_worker[OF i lw(1)] obtain w' where "live (m_workers m) = [w']" by blast
  from live_update[OF this ix nd, of "?w\<lparr>w_pc := GDone\<rparr>"] have lv: "live ((m_workers m)[i := ?w\<lparr>w_pc := GDone\<rparr>]) = []" by auto
  show ?thesis
  proof (cases "clean c e")
    case False
    then have "finish_locked (x_now ext) (w_gen ?w) r c e m = Ret (finish_failed (x_now ext) c e m)"
      using g by (auto simp: finish_locked_def clean_def)
    with lv have "stopped ?m'"
      by (simp add: worker_step_def p Let_def stopped_def) (simp add: finish_failed_def op_defs)
    then show ?thesis ..
  next
    case cl: True
    show ?thesis
    proof (cases r)
      case True
      have e: "finish_locked (x_now ext) (w_gen ?w) r c e m = Ret (finish_idle (x_now ext) (budget_finish (s_cleanupBudget (m_session m))
           (m\<lparr>m_session := (retired r (m_session m))\<lparr>s_cleanupDone := \<not> s_vpnActive (retired r (m_session m))\<rparr>\<rparr>)))"
        using cl s g True by (simp add: finish_locked_def clean_def finish_retired_def Let_def)
      with lv True have "stopped ?m'"
        by (simp add: worker_step_def p Let_def stopped_def) (simp add: finish_idle_def op_defs)
      then show ?thesis ..
    next
      case False
      have e: "finish_locked (x_now ext) (w_gen ?w) r c e m =
            Ret (go_finish (w_gen ?w) (m\<lparr>m_session := (retired r (m_session m))\<lparr>s_state := StateStopping\<rparr>\<rparr>))"
        using cl s g False by (simp add: finish_locked_def clean_def finish_retired_def Let_def)
      have "stopping ?m' \<and> (\<exists>w. live (m_workers ?m') = [w] \<and> w_pc w = GFinish None)"
        using lv s ix by (simp add: worker_step_def p Let_def e stopping_def go_finish_def list_update_append)
      with False show ?thesis by blast
    qed
  qed
qed

text \<open>Letting the live worker run, with arbitrary answers of the environment.\<close>

fun live_index :: "worker list \<Rightarrow> nat option" where
  "live_index [] = None"
| "live_index (w # ws) = (if w_pc w \<noteq> GDone then Some 0 else map_option Suc (live_index ws))"

fun drain :: "(nat \<Rightarrow> ext) \<Rightarrow> nat \<Rightarrow> manager \<Rightarrow> manager" where
  "drain exts 0 m = m"
| "drain exts (Suc n) m = (case live_index (m_workers m) of
       None \<Rightarrow> m
     | Some i \<Rightarrow> drain (\<lambda>k. exts (Suc k)) n (worker_step i (exts 0) m))"

lemma live_index_None: "live_index ws = None \<longleftrightarrow> live ws = []"
  by (induction ws) (auto simp: live_def)

lemma live_index_Some: "live_index ws = Some i \<Longrightarrow> i < length ws \<and> w_pc (ws ! i) \<noteq> GDone"
  by (induction ws arbitrary: i) (auto split: if_splits)

lemma stop_drains:
  assumes "sess_inv m" "stopping m" "\<forall>k. x_health (exts k) \<noteq> HealthFailure None"
    and "live (m_workers m) = [w]" "rank (w_pc w) \<le> k"
  shows "\<exists>n\<le>Suc k. stopped (drain exts n m)"
  using assms
proof (induction k arbitrary: m w exts rule: less_induct)
  case (less k)
  from less.prems(4) obtain i where li: "live_index (m_workers m) = Some i"
    by (metis live_index_None not_None_eq list.distinct(1))
  note ix = live_index_Some[OF li]
  note lw = inv_live_worker[OF less.prems(1) ix[THEN conjunct1] ix[THEN conjunct2]]
  let ?m' = "worker_step i (exts 0) m" and ?w = "m_workers m ! i" and ?exts = "\<lambda>k. exts (Suc k)"
  have w: "?w = w" using live_update[OF less.prems(4)] ix by blast
  have i': "sess_inv ?m'" by (rule inv_worker_step[OF less.prems(1)]) (use ix in simp)
  have h: "\<forall>k. x_health (?exts k) \<noteq> HealthFailure None" using less.prems(3) by simp
  have go: ?case if "stopping ?m'" "live (m_workers ?m') = [w1]" "rank (w_pc w1) < rank (w_pc w)" for w1
  proof -
    have "rank (w_pc w1) < k" using that(3) less.prems(5) by simp
    from less.IH[OF this i' that(1) h that(2) order.refl] obtain n where
      "n \<le> Suc (rank (w_pc w1))" "stopped (drain ?exts n ?m')" by blast
    with that(3) less.prems(5) li show ?thesis by (intro exI[of _ "Suc n"]) simp
  qed
  show ?case
  proof (cases "\<exists>r c e. w_pc ?w = GFinish2 r c e")
    case True
    then obtain r c e where p: "w_pc ?w = GFinish2 r c e" by blast
    from stopping_finish2[OF less.prems(1,2) ix[THEN conjunct1] p, of "exts 0"] show ?thesis
    proof
      assume "stopped ?m'"
      then show ?thesis using li by (intro exI[of _ "Suc 0"]) simp
    next
      assume "stopping ?m' \<and> \<not> r \<and> (\<exists>w. live (m_workers ?m') = [w] \<and> w_pc w = GFinish None)"
      then obtain w1 where "stopping ?m'" "\<not> r" "live (m_workers ?m') = [w1]" "w_pc w1 = GFinish None" by blast
      then show ?thesis using go p w by simp
    qed
  next
    case False
    obtain m1 w1 where r: "worker_at (w_pc ?w) (exts 0) m ?w = (m1, w1)" by (cases "worker_at (w_pc ?w) (exts 0) m ?w")
    have st: "stopping m1" "rank (w_pc w1) < rank (w_pc ?w)"
      using stopping_step[OF less.prems(1,2) lw(2) ix[THEN conjunct2] _ _ r] False less.prems(3) by auto
    have "step_ok m (m1, w1)" using step_live[OF less.prems(1) lw ix[THEN conjunct2], of "exts 0"] False r by auto
    then have ok: "m_workers m1 = m_workers m" "w_pc w1 \<noteq> GDone" by (simp_all add: step_ok_def)
    have m': "?m' = m1\<lparr>m_workers := (m_workers m1)[i := w1]\<rparr>" by (simp add: worker_step_def r Let_def)
    have "live (m_workers ?m') = [w1]"
      using live_update[OF less.prems(4) ix[THEN conjunct1] ix[THEN conjunct2], of w1] ok m' by simp
    moreover have "stopping ?m'" using st m' by (simp add: stopping_def)
    ultimately show ?thesis using go st w by simp
  qed
qed

lemma rank_bound: "rank p \<le> 17"
  by (cases p) auto

lemma stop_completes:
  assumes "sess_inv m" "stopping m" "\<forall>k. x_health (exts k) \<noteq> HealthFailure None"
  shows "\<exists>n\<le>18. stopped (drain exts n m)"
proof -
  have "attemptActive (s_state (m_session m))" using assms(2) by (simp add: stopping_def)
  from inv_worker[OF assms(1) this] obtain w where "live (m_workers m) = [w]" by blast
  from stop_drains[OF assms this rank_bound] show ?thesis by simp
qed

end
