(* ===== verification/Session_Correct.thy ===== *)
theory Session_Correct
  imports Session_Stops
begin

text \<open>
  The properties of the session manager, for every reachable state and every interleaving, with a small
  concrete run (configure, start, stop) that the witnesses use.
\<close>

section \<open>A sample run\<close>

lemma reachable_state_of:
  assumes "reachable m"
  shows "parseConfig decode urlparse digest raw = Ret (Inr parsed) \<Longrightarrow> reachable (state_of (configure_accept env request loaded parsed m))"
    and "reachable (state_of (start_locked env n target supplied m))"
    and "reachable (state_of (Stop_locked env g m))"
proof -
  note i = reachable_inv[OF assms]
  have c: "\<exists>m' r. x = Ret (m', r)" if "ok_inv x" for x :: "(manager \<times> 'a) outcome"
    using that by (cases x) auto
  show "reachable (state_of (start_locked env n target supplied m))"
    using c[OF inv_start_locked[OF i, of env n target supplied]] reach_step[OF assms step_start] by force
  show "reachable (state_of (Stop_locked env g m))"
    using c[OF inv_Stop_locked[OF i, of env g]] reach_step[OF assms step_stop] by force
  assume p: "parseConfig decode urlparse digest raw = Ret (Inr parsed)"
  have "pcfg_profiles parsed \<noteq> []" by (rule parseConfig_profiles_nonempty[OF p])
  from c[OF inv_configure_accept[OF i this, of env request loaded]] reach_step[OF assms step_configure_accept[OF p]]
  show "reachable (state_of (configure_accept env request loaded parsed m))" by force
qed

lemma reachable_drain: "reachable m \<Longrightarrow> reachable (drain exts n m)"
proof (induction exts n m rule: drain.induct)
  case (2 exts n m)
  show ?case
  proof (cases "live_index (m_workers m)")
    case (Some k)
    with reach_step[OF "2.prems" step_worker] live_index_Some[OF Some] "2.IH" show ?thesis by simp
  qed (use "2.prems" in simp)
qed simp

definition quiet_env :: env where
  "quiet_env = \<lparr>e_ctxErr = None, e_now = 0, e_saveErr = None, e_clearErr = None, e_loadActivationErr = None,
     e_saveActivationErr = None, e_protectErr = None\<rparr>"

definition good_ext :: ext where
  "good_ext = \<lparr>x_now = 0, x_lease = True, x_err = None, x_monitored = True, x_health = HealthNone, x_release = (\<lambda>_. None)\<rparr>"

definition auto_target :: start_target where
  "auto_target = \<lparr>st_Mode = AutoSelect, st_Index = 0, st_ReplaceCurrent = False, st_Digest = [], st_Source = None\<rparr>"

definition run_new :: manager where "run_new = NewManager ''id'' None None None True"

definition run_configured :: manager where
  "run_configured = state_of (configure_accept quiet_env 0 \<lparr>lc_Raw = ''x'', lc_Kind = ConfigSourceInline, lc_SourceURL = []\<rparr>
     \<lparr>pcfg_digest = ''sha'', pcfg_profiles = [sample_tt_profile], pcfg_logsEndpoint = []\<rparr> run_new)"

definition run_started :: manager where
  "run_started = state_of (start_locked quiet_env 2 auto_target False run_configured)"

definition run_stopping :: manager where
  "run_stopping = state_of (Stop_locked quiet_env 1 run_started)"

lemma run_reachable: "reachable run_new" "reachable run_configured" "reachable run_started" "reachable run_stopping"
proof -
  show n: "reachable run_new" unfolding run_new_def by (rule reach_new)
  show c: "reachable run_configured" unfolding run_configured_def by (rule reachable_state_of(1)[OF n sample_tt_parse])
  show s: "reachable run_started" unfolding run_started_def by (rule reachable_state_of(2)[OF c])
  show "reachable run_stopping" unfolding run_stopping_def by (rule reachable_state_of(3)[OF s])
qed

lemmas run_eval = run_stopping_def run_started_def run_configured_def run_new_def NewManager_def configure_accept_def
  validateConfigureBeforeAccept_def quiet_env_def store_source_def retainPolicy_ok_def start_locked_def canRetry_def
  validateStartTarget_def auto_target_def configurationBlocked_def saveActivationLocked_def start_fresh_def go_runStart_def
  Stop_locked_def acceptsStop_def stopActivationLocked_def stop_accepted_def stop_mark_def retryableCleanup_def
  stop_active_def stop_recovery_def op_defs

lemma run_started_facts:
  "s_state (m_session run_started) = StateProbing" "s_generation (m_session run_started) = 1" "\<not> s_vpnActive (m_session run_started)"
  "s_sequence (m_session run_started) = 3" "s_configured (m_session run_started)" "\<not> s_cleanupDone (m_session run_started)"
  by (simp_all add: run_eval)

lemma run_stopping_facts: "stopping run_stopping"
  by (simp add: run_eval stopping_def)

section \<open>Safety of every interleaving\<close>

text \<open>
  C1. No reachable panic: in every reachable state no worker has panicked, and no \<^verbatim>\<open>Start\<close>, no \<^verbatim>\<open>Stop\<close> and no
  acceptance of a parsed configuration panics. So \<^verbatim>\<open>profiles[0]\<close>, \<^verbatim>\<open>profiles[target.Index]\<close>,
  \<^verbatim>\<open>s.cancel()\<close>, \<^verbatim>\<open>s.cleanupBudget.begin()\<close> and both ledgers are only used where they are valid.
\<close>

theorem session_never_panics:
  assumes "reachable m"
  shows "(\<forall>w\<in>set (m_workers m). w_pc w \<noteq> GPanicked)
    \<and> start_locked env n target supplied m \<noteq> Panic
    \<and> Stop_locked env generation m \<noteq> Panic
    \<and> (parseConfig decode urlparse digest raw = Ret (Inr parsed) \<longrightarrow> configure_accept env request loaded parsed m \<noteq> Panic)"
proof (intro conjI ballI impI)
  note i = reachable_inv[OF assms]
  fix w assume w: "w \<in> set (m_workers m)"
  show "w_pc w \<noteq> GPanicked"
  proof
    assume p: "w_pc w = GPanicked"
    from w obtain k where k: "k < length (m_workers m)" "m_workers m ! k = w" by (auto simp: in_set_conv_nth)
    with inv_live_worker[OF i k(1)] p worker_ok_D(2)[of m w] show False by simp
  qed
next
  note i = reachable_inv[OF assms]
  show "start_locked env n target supplied m \<noteq> Panic" using inv_start_locked[OF i, of env n target supplied] by auto
  show "Stop_locked env generation m \<noteq> Panic" using inv_Stop_locked[OF i, of env generation] by auto
  assume "parseConfig decode urlparse digest raw = Ret (Inr parsed)"
  then have "pcfg_profiles parsed \<noteq> []" by (rule parseConfig_profiles_nonempty)
  with inv_configure_accept[OF i this, of env request loaded] show "configure_accept env request loaded parsed m \<noteq> Panic" by auto
qed

theorem session_never_panics_witness: "Stop_locked quiet_env 1 run_started \<noteq> Panic \<and> start_locked quiet_env 3 auto_target False run_started \<noteq> Panic"
  using session_never_panics[OF run_reachable(3)] by blast

text \<open>
  C2. One owner per attempt: while an attempt is active exactly one goroutine is alive, it works for the
  current generation and it is the one \<^verbatim>\<open>Stop\<close> can cancel; when no attempt is active there is none. A
  connected session has its owner waiting with the runtime's lease in the ledger and the network
  protection up (for every generation number but 0, which stands for none).
\<close>

theorem one_owner_per_attempt:
  assumes "reachable m"
  shows "(if attemptActive (s_state (m_session m))
          then \<exists>w. live (m_workers m) = [w] \<and> w_gen w = s_generation (m_session m)
                 \<and> (acquiring (w_pc w) \<longrightarrow> s_cancel (m_session m) = Some (w_ctx w)
                     \<and> (s_state (m_session m) = StateStopping \<longleftrightarrow> w_ctx w \<in> m_canceled m))
                 \<and> (s_state (m_session m) = StateConnected \<and> s_generation (m_session m) \<noteq> 0 \<longrightarrow>
                      (\<exists>b. w_pc w = GWait b) \<and> led m (s_ledger (m_session m)) \<noteq> [] \<and> s_vpnActive (m_session m))
          else live (m_workers m) = [])"
proof (cases "attemptActive (s_state (m_session m))")
  case True
  note i = reachable_inv[OF assms]
  from inv_worker[OF i True] obtain w where w: "live (m_workers m) = [w]" "worker_ok m w" "w_pc w \<noteq> GDone" by blast
  have "(\<exists>b. w_pc w = GWait b) \<and> led m (s_ledger (m_session m)) \<noteq> [] \<and> s_vpnActive (m_session m)"
    if "s_state (m_session m) = StateConnected" "s_generation (m_session m) \<noteq> 0"
    using worker_ok_D(2)[OF w(2)] w(3) that by (cases "w_pc w") (auto simp: retiring_def)
  with True w(1) worker_ok_D[OF w(2)] show ?thesis by auto
next
  case False
  with inv_no_worker[OF reachable_inv[OF assms]] show ?thesis by simp
qed

theorem one_owner_per_attempt_witness:
  "\<exists>w. live (m_workers run_started) = [w] \<and> w_gen w = s_generation (m_session run_started)"
  using one_owner_per_attempt[OF run_reachable(3)] run_started_facts(1) by auto

text \<open>
  C3. No lease is lost and none is released twice: in every reachable state the leases acquired so far
  are those released, each once, together with those in the attempt's and the network's ledger. When
  cleanup is complete every acquired lease has been released.
\<close>

theorem leases_accounted_for:
  assumes "reachable m"
  shows "distinct (m_acquired m) \<and> distinct (m_released m)
    \<and> mset (m_acquired m) = mset (m_released m) + mset (led m (s_ledger (m_session m))) + mset (led m (s_networkLedger (m_session m)))
    \<and> (s_cleanupDone (m_session m) \<longrightarrow> mset (m_released m) = mset (m_acquired m))"
proof -
  note i = reachable_inv[OF assms]
  have d: "distinct (m_acquired m)" using i by (auto simp: sess_inv_def heap_ok_def distinct_map)
  have eq: "mset (m_acquired m) = mset (m_released m) + mset (led m (s_ledger (m_session m))) + mset (led m (s_networkLedger (m_session m)))"
    using i by (simp add: sess_inv_def heap_ok_def)
  then have "mset (m_released m) \<subseteq># mset (m_acquired m)" by (simp add: add.assoc)
  with d have "distinct (m_released m)"
    by (metis (no_types) distinct_count_atmost_1 count_mset le_antisym mset_subset_eq_count mset_subset_eqD not_less_eq_eq le_zero_eq not_in_iff set_mset_mset One_nat_def in_multiset_in_set)
  moreover have "led m None = []" by (simp add: led_def)
  ultimately show ?thesis using d eq inv_core[OF i] by (auto simp: core_ok_def)
qed

theorem leases_accounted_for_witness:
  "s_cleanupDone (m_session run_configured) \<and> mset (m_released run_configured) = mset (m_acquired run_configured)"
proof -
  have "s_cleanupDone (m_session run_configured)" by (simp add: run_eval)
  with leases_accounted_for[OF run_reachable(2)] show ?thesis by blast
qed

text \<open>
  C5. Stopping terminates: once a stop or shutdown has been requested and the session is stopping, at most
  18 further steps of its worker end it, whatever the platform, the runtime and the release functions
  answer (a health monitor never sends a nil failure). It ends idle with every lease released, or
  failed with the cleanup failure recorded and what could not be released still owned.
\<close>

theorem stop_terminates:
  assumes "reachable m" and "stopping m" and "\<forall>k. x_health (exts k) \<noteq> HealthFailure None"
  shows "\<exists>n\<le>18. let m' = drain exts n m in
     live (m_workers m') = [] \<and>
     (s_state (m_session m') = StateIdle \<and> s_cleanupDone (m_session m') \<and> \<not> s_vpnActive (m_session m')
        \<and> mset (m_released m') = mset (m_acquired m')
      \<or> s_state (m_session m') = StateFailed \<and> s_cleanupFailed (m_session m'))"
proof -
  from stop_completes[OF reachable_inv[OF assms(1)] assms(2,3)] obtain n where
    n: "n \<le> 18" "stopped (drain exts n m)" by blast
  from reachable_inv[OF reachable_drain[OF assms(1)]] have i: "sess_inv (drain exts n m)" .
  have "mset (m_released (drain exts n m)) = mset (m_acquired (drain exts n m))" if "s_cleanupDone (m_session (drain exts n m))"
    using i inv_core[OF i] that by (simp add: sess_inv_def heap_ok_def core_ok_def led_def)
  with n show ?thesis by (intro exI[of _ n]) (auto simp: stopped_def Let_def)
qed

theorem stop_terminates_witness:
  "\<exists>n\<le>18. live (m_workers (drain (\<lambda>_. good_ext) n run_stopping)) = []"
proof -
  have "\<forall>k. x_health ((\<lambda>_. good_ext) k) \<noteq> HealthFailure None" by (simp add: good_ext_def)
  from stop_terminates[OF run_reachable(4) run_stopping_facts this] show ?thesis by (auto simp: Let_def)
qed

section \<open>Protection is kept across attempts\<close>

text \<open>What a step must leave alone while nobody has asked to stop.\<close>

definition protection_kept :: "manager \<Rightarrow> manager \<Rightarrow> bool" where
  "protection_kept m m' \<longleftrightarrow> s_vpnActive (m_session m') \<and> s_networkGeneration (m_session m') = s_networkGeneration (m_session m)
     \<and> s_networkLedger (m_session m') = s_networkLedger (m_session m)
     \<and> led m' (s_networkLedger (m_session m)) = led m (s_networkLedger (m_session m))"

lemma protection_same:
  assumes "s_vpnActive (m_session m)" "s_vpnActive (m_session m')" "s_networkGeneration (m_session m') = s_networkGeneration (m_session m)"
    "s_networkLedger (m_session m') = s_networkLedger (m_session m)"
    "\<And>k. s_networkLedger (m_session m) = Some k \<Longrightarrow> m_ledgers m' k = m_ledgers m k"
  shows "protection_kept m m'"
  using assms by (auto simp: protection_kept_def led_def split: option.split)

lemma keep_store: "s_vpnActive (m_session m) \<Longrightarrow> protection_kept (m\<lparr>m_store := st\<rparr>) m' \<Longrightarrow> protection_kept m m'"
  by (simp add: protection_kept_def led_def split: option.splits)

lemma keep_configure_begin:
  assumes v: "s_vpnActive (m_session m)"
  shows "protection_kept m (fst (configure_begin env i n m))"
  by (rule protection_same) (simp_all add: v configure_begin_def Let_def split: option.split)

lemma keep_configure_accept:
  assumes i: "sess_inv m" and v: "s_vpnActive (m_session m)" and p: "configure_accept env request loaded parsed m = Ret (m', r)"
  shows "protection_kept m m'"
proof -
  obtain st e where ss: "store_source env loaded m = (m\<lparr>m_store := st\<rparr>, e)"
    using store_source_shape[of env loaded m] by (metis prod.collapse)
  have d: "\<not> s_cleanupDone (m_session m)" using inv_core[OF i] v by (simp add: core_ok_def)
  show ?thesis
  proof (rule keep_store[OF v, of st], rule protection_same)
  qed (use p v d in \<open>auto simp: configure_accept_def ss op_defs split: option.splits if_splits\<close>)
qed

lemma keep_start:
  assumes i: "sess_inv m" and v: "s_vpnActive (m_session m)" and p: "start_locked env n target supplied m = Ret (m', r)"
  shows "protection_kept m m'"
proof -
  have d: "\<not> s_cleanupDone (m_session m)" using inv_core[OF i] v by (simp add: core_ok_def)
  then have b: "configurationBlocked (m_session m)" by (simp add: configurationBlocked_def)
  have nl: "s_networkLedger (m_session m) = Some k \<Longrightarrow> k < m_next m" for k
    using i by (simp add: sess_inv_def heap_ok_def)
  obtain st e where sa: "saveActivationLocked env target m = (m\<lparr>m_store := st\<rparr>, e)"
    using saveActivation_shape[of env target m] by (metis prod.collapse)
  have retry: "protection_kept m (fst (retryLocked env target supplied m))"
    by (rule protection_same)
       (use v nl in \<open>auto simp: retryLocked_def beginAttemptLocked_def op_defs go_runStart_def\<close>)
  have replace: "protection_kept m m2" if "replaceLocked env target m = Ret (m2, r2)" for m2 r2
    by (rule keep_store[OF v, of st], rule protection_same)
       (use v that in \<open>auto simp: replaceLocked_def sa op_defs split: if_splits option.splits\<close>)
  have refl: "protection_kept m m" using v by (simp add: protection_kept_def)
  show ?thesis
    using p retry replace refl b by (auto simp: start_locked_def Let_def split: if_splits option.splits)
qed

lemma keep_stop:
  assumes v: "s_vpnActive (m_session m)" and p: "Stop_locked env g m = Ret (m', r)"
  shows "protection_kept m m'"
proof -
  obtain st e where sa: "stopActivationLocked env m = (m\<lparr>m_store := st\<rparr>, e)"
    using stopActivation_shape[of env m] by (metis prod.collapse)
  have "protection_kept m m2" if "stop_accepted env (m\<lparr>m_store := st\<rparr>) = Ret (m2, r2)" for m2 r2
  proof -
    have mk: "s_vpnActive (m_session (stop_mark env (m\<lparr>m_store := st\<rparr>)))"
      "s_networkGeneration (m_session (stop_mark env (m\<lparr>m_store := st\<rparr>))) = s_networkGeneration (m_session m)"
      "s_networkLedger (m_session (stop_mark env (m\<lparr>m_store := st\<rparr>))) = s_networkLedger (m_session m)"
      "m_ledgers (stop_mark env (m\<lparr>m_store := st\<rparr>)) = m_ledgers m"
      using v by (simp_all add: stop_mark_def op_defs)
    show ?thesis
      by (rule protection_same)
         (use v mk that in \<open>auto simp: stop_accepted_def acknowledgeStoppedLocked_def stop_active_def stop_recovery_def op_defs go_finish_def
            split: if_splits option.splits\<close>)
  qed
  moreover have "protection_kept m m" using v by (simp add: protection_kept_def)
  ultimately show ?thesis
    using p by (auto simp: Stop_locked_def sa split: if_splits outcome.splits sum.splits)
qed

lemma keep_refl: "s_vpnActive (m_session m) \<Longrightarrow> protection_kept m m"
  by (simp add: protection_kept_def)

lemma keep_release:
  assumes "s_vpnActive (m_session m)" "release_ledger ok l (cleanupContext m) = (m1, e)" "s_networkLedger (m_session m) \<noteq> Some l"
  shows "protection_kept m m1"
proof (rule protection_same)
  have s: "m_session m1 = m_session (cleanupContext m)" by (rule release_session[OF assms(2)])
  show "s_vpnActive (m_session m1)" "s_networkLedger (m_session m1) = s_networkLedger (m_session m)"
    using assms(1) by (simp_all add: s cleanupContext_flags)
  show "s_networkGeneration (m_session m1) = s_networkGeneration (m_session m)"
    unfolding s by (simp add: cleanupContext_def op_defs split: option.split)
  show "m_ledgers m1 k = m_ledgers m k" if "s_networkLedger (m_session m) = Some k" for k
    using assms(2,3) that by (auto simp: release_ledger_def cleanupContext_flags split: prod.splits)
qed (rule assms(1))

lemma keep_acquire:
  assumes "s_vpnActive (m_session m)" "acquire got work mk m = Some m1" "s_networkLedger (m_session m) \<noteq> work \<or> work = None"
  shows "protection_kept m m1"
proof (cases "got \<and> work \<noteq> None")
  case True
  then obtain l where l: "work = Some l" by auto
  with True assms(2) have m1: "m1 = push_ledger l (mk (m_next m)) m" by (simp add: acquire_def)
  show ?thesis unfolding m1
    by (rule protection_same) (use assms(1,3) l in \<open>auto simp: push_ledger_def\<close>)
next
  case False
  with assms(2) have "m1 = m" by (cases got) (simp_all add: acquire_def)
  with keep_refl[OF assms(1)] show ?thesis by simp
qed

lemma prepareHealthRecovery_network:
  "s_networkGeneration (prepareHealthRecoveryLocked now g cause s) = s_networkGeneration s"
  by (simp add: prepareHealthRecoveryLocked_def Let_def)

lemma keep_health:
  assumes "s_vpnActive (m_session m)"
  shows "protection_kept m (reportHealthFailure now g c m)"
  by (rule protection_same[OF assms])
     (use assms in \<open>simp_all add: reportHealthFailure_def prepareHealthRecovery_keeps prepareHealthRecovery_network op_defs split: option.split\<close>)

lemma keep_advance: "s_vpnActive (m_session m) \<Longrightarrow> protection_kept m (fst (advance now g st p m))"
  by (rule protection_same) (auto simp: advance_def op_defs)

lemma keep_finish:
  assumes i: "sess_inv m" and v: "s_vpnActive (m_session m)" "\<not> s_stopRequested (m_session m)" "\<not> s_closing (m_session m)" "\<not> r"
    and f: "finish_locked now g r c e m = Ret m1"
  shows "protection_kept m m1"
proof -
  have nl: "s_networkLedger (m_session m) = Some k \<Longrightarrow> k < m_next m" for k
    using i by (simp add: sess_inv_def heap_ok_def)
  have fp: "protection_kept m (finishProtectedFailureLocked now c (budget_finish b (m\<lparr>m_session := (retired r (m_session m))\<lparr>s_cleanupDone := x\<rparr>\<rparr>)))" for b x
    by (rule protection_same) (use v in \<open>simp_all add: finishProtectedFailureLocked_def retired_def op_defs\<close>)
  have rs: "protection_kept m m2" if "finish_restart now (budget_finish b (m\<lparr>m_session := (retired r (m_session m))\<lparr>s_cleanupDone := x\<rparr>\<rparr>)) = Ret m2" for b x m2
    by (rule protection_same)
       (use v nl that in \<open>auto simp: finish_restart_def beginAttemptLocked_def go_runStart_def retired_def op_defs split: option.splits if_splits\<close>)
  have ff: "protection_kept m (finish_failed now c e m)"
    by (rule protection_same) (use v in \<open>simp_all add: finish_failed_def op_defs\<close>)
  show ?thesis
    using f v fp rs ff keep_refl[OF v(1)]
    by (auto simp: finish_locked_def finish_retired_def Let_def split: if_splits)
qed

lemma keep_worker_at:
  assumes i: "sess_inv m" and v: "s_vpnActive (m_session m)" "\<not> s_stopRequested (m_session m)" "\<not> s_closing (m_session m)"
    and w: "worker_ok m w" and r: "worker_at (w_pc w) ext m w = (m1, w1)"
  shows "protection_kept m m1"
proof -
  have pp: "pc_ok m w (w_pc w)" by (rule worker_ok_D(2)[OF w])
  have ne: "\<And>l. s_ledger (m_session m) = Some l \<Longrightarrow> s_networkLedger (m_session m) \<noteq> Some l"
    using inv_core[OF i] by (auto simp: core_ok_def)
  note k = keep_refl[OF v(1)]
  show ?thesis
  proof (cases "w_pc w")
    case GPrepare
    then show ?thesis using r k by (auto simp: Let_def split: if_splits outcome.splits)
  next
    case (GPlatform p l ref)
    then show ?thesis using pp v by simp
  next
    case (GNetwork p l ref)
    then show ?thesis using pp v by simp
  next
    case GActivate
    then show ?thesis using pp v by simp
  next
    case GActivated
    then show ?thesis using r k by (auto split: option.splits)
  next
    case GCopy
    then show ?thesis using r k by (auto simp: Let_def split: if_splits)
  next
    case GCandidate
    have "protection_kept m (new_budget (m\<lparr>m_session := (m_session m)\<lparr>s_generation := g\<rparr>\<rparr>))" for g
      by (rule protection_same) (use v in \<open>simp_all add: op_defs\<close>)
    then show ?thesis using r k GCandidate by (auto simp: prepareCandidate_def Let_def split: if_splits)
  next
    case GAdvance
    then show ?thesis using r keep_advance[OF v(1)] by (auto split: prod.splits bool.splits) (metis fst_conv)+
  next
    case GStart
    then show ?thesis using r k ne
      by (auto simp: runtime_started_def Let_def split: if_splits option.splits dest!: keep_acquire[OF v(1)])
  next
    case (GConnect b)
    then show ?thesis using r keep_advance[OF v(1)] by (auto split: prod.splits bool.splits) (metis fst_conv)+
  next
    case (GWait b)
    then show ?thesis using r k keep_health[OF v(1)]
      by (auto simp: wait_step_def split: if_splits health.splits option.splits)
  next
    case (GReleaseCand b)
    then show ?thesis using r k ne
      by (auto simp: release_candidate_def split: option.splits prod.splits dest!: keep_release[OF v(1)])
  next
    case (GRetire1 l x)
    then show ?thesis using r k ne pp
      by (auto split: option.splits prod.splits if_splits dest!: keep_release[OF v(1)])
  next
    case (GRetire3 n q x y)
    then show ?thesis using r k pp v by (auto split: option.splits prod.splits if_splits)
  next
    case (GFinish2 q x y)
    then have "\<not> q" using pp v by auto
    with GFinish2 show ?thesis using r k keep_finish[OF i v] by (auto split: outcome.splits)
  qed (use r k in \<open>auto simp: Let_def split: if_splits\<close>)
qed

text \<open>
  C4. The network protection is not dropped between attempts: from a reachable state in which the VPN is
  active and nobody has requested a stop or a shutdown, no step whatsoever (a failing candidate, a health
  failure, a profile switch, recovery, a new configuration) releases a network lease, retires the network
  generation or clears \<^verbatim>\<open>vpnActive\<close>. Only after \<^verbatim>\<open>Stop\<close> or \<^verbatim>\<open>StopAndWait\<close> may the worker do so.
\<close>

theorem protection_survives_every_step:
  assumes "reachable m" and "sys_step m m'"
    and "s_vpnActive (m_session m)" and "\<not> s_stopRequested (m_session m)" and "\<not> s_closing (m_session m)"
  shows "s_vpnActive (m_session m') \<and> s_networkGeneration (m_session m') = s_networkGeneration (m_session m)
    \<and> s_networkLedger (m_session m') = s_networkLedger (m_session m)
    \<and> led m' (s_networkLedger (m_session m)) = led m (s_networkLedger (m_session m))"
proof -
  note i = reachable_inv[OF assms(1)]
  note v = assms(3)
  from assms(2) have "protection_kept m m'"
  proof cases
    case (step_configure_begin env i n r)
    with keep_configure_begin[OF v, of env i n] show ?thesis by simp
  next
    case (step_configure_accept decode urlparse digest raw parsed env request loaded r)
    then show ?thesis using keep_configure_accept[OF i v] by blast
  next
    case (step_start env n target supplied r)
    then show ?thesis using keep_start[OF i v] by blast
  next
    case (step_stop env generation r)
    then show ?thesis using keep_stop[OF v] by blast
  next
    case (step_shutdown env)
    have "protection_kept m (StopAndWait_locked env m)"
      by (rule protection_same[OF v])
         (use v in \<open>simp_all add: StopAndWait_locked_def op_defs go_finish_def split: option.split\<close>)
    with step_shutdown show ?thesis by simp
  next
    case step_cleanup_context
    then show ?thesis
      by (intro protection_same) (use v in \<open>simp_all add: cleanupContext_def op_defs split: option.split\<close>)
  next
    case (step_resume env r)
    have "protection_kept m (fst (Resume env m))"
      by (rule protection_same) (use v in \<open>simp_all add: Resume_def op_defs\<close>)
    with step_resume show ?thesis by simp
  next
    case (step_attach st r)
    have "protection_kept m (fst (attach_install st m))"
      by (rule protection_same) (use v in \<open>simp_all add: attach_install_def\<close>)
    with step_attach show ?thesis by simp
  next
    case (step_attached now loaded)
    then show ?thesis
      by (intro protection_same) (use v in \<open>auto simp: attach_loaded_def op_defs split: sum.split\<close>)
  next
    case (step_worker k ext)
    show ?thesis
    proof (cases "w_pc (m_workers m ! k) = GDone")
      case True
      with step_worker keep_refl[OF v] show ?thesis by (simp add: worker_step_def Let_def protection_kept_def led_def)
    next
      case False
      obtain m1 w1 where r: "worker_at (w_pc (m_workers m ! k)) ext m (m_workers m ! k) = (m1, w1)" by fastforce
      from keep_worker_at[OF i v assms(4,5) inv_live_worker(2)[OF i step_worker(2) False] r]
      show ?thesis using step_worker(1) r by (simp add: worker_step_def Let_def protection_kept_def)
    qed
  qed
  then show ?thesis by (simp add: protection_kept_def)
qed

definition run_active :: manager where
  "run_active = drain (\<lambda>_. good_ext) 4 run_started"

lemma run_active_eval: "s_vpnActive (m_session run_active) \<and> \<not> s_stopRequested (m_session run_active) \<and> \<not> s_closing (m_session run_active)"
  by code_simp

theorem protection_survives_every_step_witness:
  "s_vpnActive (m_session (worker_step 0 good_ext run_active))"
proof -
  have a: "reachable run_active" unfolding run_active_def by (rule reachable_drain[OF run_reachable(3)])
  have "0 < length (m_workers run_active)" by code_simp
  from protection_survives_every_step[OF a step_worker[OF this]] run_active_eval show ?thesis by blast
qed

section \<open>Requests\<close>

lemma append_sequence: "s_sequence (m_session (appendLocked now m)) = s_sequence (m_session m) + 1"
  by (simp add: op_defs)

lemma word_plus_one_neq: "(x :: u64) + 1 \<noteq> x"
  by simp

text \<open>Every accepted start moves the session's sequence number.\<close>

lemma start_accepted_sequence:
  assumes "start_locked env n target supplied m = Ret (m1, Inr r)"
  shows "s_sequence (m_session m) = n \<and> s_sequence (m_session m1) = n + 1 \<and> gr_Sequence r = n + 1
    \<and> gr_Generation r = s_generation (m_session m1)"
proof -
  obtain st e where sa: "saveActivationLocked env target m = (m\<lparr>m_store := st\<rparr>, e)"
    using saveActivation_shape[of env target m] by (metis prod.collapse)
  from assms consider (retry) "s_sequence (m_session m) = n" "retryLocked env target supplied m = (m1, Inr r)"
    | (replace) "s_sequence (m_session m) = n" "replaceLocked env target m = Ret (m1, Inr r)"
    | (fresh) "s_sequence (m_session m) = n" "start_fresh env target (m\<lparr>m_store := st\<rparr>) = Ret (m1, Inr r)"
    by (auto simp: start_locked_def Let_def sa split: if_splits option.splits)
  then show ?thesis
  proof cases
    case retry
    then show ?thesis
      by (auto simp: retryLocked_def beginAttemptLocked_def op_defs go_runStart_def split: if_splits)
  next
    case replace
    then show ?thesis
      by (auto simp: replaceLocked_def sa op_defs split: if_splits option.splits)
  next
    case fresh
    then show ?thesis
      by (auto simp: start_fresh_def op_defs go_runStart_def split: if_splits)
  qed
qed



text \<open>
  C31. A failed cleanup blocks every new attempt: in a reachable session whose cleanup has failed, no \<^verbatim>\<open>Start\<close>
  (fresh, switch or retry) is accepted and no configuration either, nothing changes and no goroutine is
  started; resuming after a shutdown is refused too. The way out is \<^verbatim>\<open>Stop\<close>, which hands the retained
  ledgers to a new cleanup round.
\<close>

theorem failed_cleanup_blocks_start:
  assumes "reachable m" and "s_cleanupFailed (m_session m)"
  shows "(\<exists>e. start_locked env n target supplied m = Ret (m, Inl e))
    \<and> (\<exists>e. configure_begin env i n m = (m, Inl e))
    \<and> (\<exists>e. configure_accept env request loaded parsed m = Ret (m, Inl e))
    \<and> (s_closing (m_session m) \<longrightarrow> (\<exists>e. Resume env m = (m, Some e)))
    \<and> (acceptsStop (m_session m) g \<longrightarrow> (\<exists>m' r e w. Stop_locked env g m = Ret (m', Some r, e)
          \<and> live (m_workers m') = [w] \<and> w_pc w = GFinish None \<and> stopping m'
          \<and> led m' (s_ledger (m_session m')) = led m (s_ledger (m_session m))
          \<and> led m' (s_networkLedger (m_session m')) = led m (s_networkLedger (m_session m))))"
proof -
  note i = reachable_inv[OF assms(1)]
  have st: "s_state (m_session m) = StateFailed" "\<not> s_cleanupDone (m_session m)"
    using inv_core[OF i] assms(2) by (auto simp: core_ok_def)
  have b: "configurationBlocked (m_session m)" "\<not> canSwitch (m_session m)" "\<not> canRetry (m_session m)"
    using assms(2) by (simp_all add: configurationBlocked_def canSwitch_def canRetry_def)
  have "\<exists>e. start_locked env n target supplied m = Ret (m, Inl e)"
    using b by (auto simp: start_locked_def replaceLocked_def Let_def split: option.split)
  moreover have "\<exists>e. configure_begin env i n m = (m, Inl e)" for i
    using assms(2) by (auto simp: configure_begin_def validateConfigureBeforeLoad_def split: option.split)
  moreover have "\<exists>e. configure_accept env request loaded parsed m = Ret (m, Inl e)"
    using assms(2) by (auto simp: configure_accept_def validateConfigureBeforeAccept_def split: option.split)
  moreover have "s_closing (m_session m) \<longrightarrow> (\<exists>e. Resume env m = (m, Some e))"
    using assms(2) by (simp add: Resume_def Let_def)
  moreover have "\<exists>m' r e w. Stop_locked env g m = Ret (m', Some r, e)
          \<and> live (m_workers m') = [w] \<and> w_pc w = GFinish None \<and> stopping m'
          \<and> led m' (s_ledger (m_session m')) = led m (s_ledger (m_session m))
          \<and> led m' (s_networkLedger (m_session m')) = led m (s_networkLedger (m_session m))"
    if "acceptsStop (m_session m) g"
  proof -
    have q: "s_pending (m_session m) = None" using inv_quiet[OF i] st by simp
    have lv: "live (m_workers m) = []" by (rule inv_no_worker[OF i]) (simp add: st)
    obtain k where k: "s_networkLedger (m_session m) = Some k" using inv_core[OF i] st by (auto simp: core_ok_def)
    obtain sv e where sa: "stopActivationLocked env m = (m\<lparr>m_store := sv\<rparr>, e)"
      using stopActivation_shape[of env m] by (metis prod.collapse)
    show ?thesis
      using that q k st assms(2) lv
      by (simp add: Stop_locked_def sa stop_accepted_def stop_mark_def retryableCleanup_def op_defs go_finish_def stopping_def led_def
          split: option.split)
  qed
  ultimately show ?thesis by blast
qed

definition failing_ext :: ext where
  "failing_ext = good_ext\<lparr>x_err := Some (Plain ''no route''), x_release := (\<lambda>_. Some (Plain ''busy''))\<rparr>"

definition run_dirty :: manager where
  "run_dirty = drain (\<lambda>_. failing_ext) 7 run_started"

theorem failed_cleanup_blocks_start_witness:
  "s_cleanupFailed (m_session run_dirty) \<and> (\<exists>e. start_locked quiet_env 4 auto_target False run_dirty = Ret (run_dirty, Inl e))"
proof -
  have a: "reachable run_dirty" unfolding run_dirty_def by (rule reachable_drain[OF run_reachable(3)])
  have d: "s_cleanupFailed (m_session run_dirty)" by code_simp
  from failed_cleanup_blocks_start[OF a d] d show ?thesis by blast
qed

section \<open>Recovery\<close>


definition run_connected :: manager where
  "run_connected = drain (\<lambda>_. good_ext) 10 run_started"

lemma run_connected_reachable: "reachable run_connected"
  unfolding run_connected_def by (rule reachable_drain[OF run_reachable(3)])


section \<open>Socket protection\<close>

text \<open>
  Sockets are only protected for the live attempt: \<^verbatim>\<open>ProtectSocket\<close> reaches the platform exactly for a
  valid descriptor of the current generation, while the attempt is probing, preparing or connected and no
  stop was requested, and then on behalf of the current network generation; a loopback dial of the same
  attempt needs no call; everything else fails without a platform call.
\<close>

theorem protect_socket_only_for_live_attempt:
  "(snd (ProtectSocket env ref fd loopback m) = Some call \<longleftrightarrow>
      0 \<le> fd \<and> get_err (ref_SessionID ref) m = None \<and> ref_Generation ref = s_generation (m_session m)
      \<and> \<not> s_stopRequested (m_session m) \<and> s_state (m_session m) \<in> {StateProbing, StatePreparing, StateConnected} \<and> \<not> loopback
      \<and> call = (\<lparr>ref_SessionID = s_id (m_session m), ref_Generation = s_networkGeneration (m_session m)\<rparr>, fd))
   \<and> (fst (ProtectSocket env ref fd loopback m) = None \<longleftrightarrow>
      0 \<le> fd \<and> get_err (ref_SessionID ref) m = None \<and> ref_Generation ref = s_generation (m_session m)
      \<and> \<not> s_stopRequested (m_session m) \<and> s_state (m_session m) \<in> {StateProbing, StatePreparing, StateConnected}
      \<and> (loopback \<or> e_protectErr env = None))"
  by (auto simp: ProtectSocket_def Let_def split: option.split)

section \<open>What a snapshot promises\<close>

lemma stop_mark_state: "s_state (m_session (stop_mark env m)) = s_state (m_session m)"
  by (simp add: stop_mark_def op_defs)

lemma stop_active_result: "stop_active env g m \<noteq> Panic \<Longrightarrow> \<exists>m' r. stop_active env g m = Ret (m', Inr r)"
  by (simp add: stop_active_def Let_def split: option.splits if_splits)

text \<open>
  The primary action a snapshot advertises is one the session accepts. \<^verbatim>\<open>START\<close> on a configured, open
  session means that a start of a valid target from that snapshot is accepted when the selection can be
  saved; \<^verbatim>\<open>RETRY\<close> means the same for the saved selection; \<^verbatim>\<open>STOP\<close> means that a stop of the snapshot's
  generation is accepted, unless the generation counter is at its zero value.
\<close>

theorem primary_action_is_accepted:
  assumes "reachable m" and "s_configured (m_session m)" and "\<not> s_closing (m_session m)" and "e_saveActivationErr env = None"
  shows "(primaryActionLocked (m_session m) = ''START'' \<and> validateStartTarget (m_session m) target = None \<longrightarrow>
            (\<exists>m' r. start_locked env (s_sequence (m_session m)) target supplied m = Ret (m', Inr r)))
    \<and> (primaryActionLocked (m_session m) = ''RETRY'' \<longrightarrow>
            (\<exists>m' r. start_locked env (s_sequence (m_session m))
               ((s_activeTarget (m_session m))\<lparr>st_ReplaceCurrent := False, st_Digest := []\<rparr>) False m = Ret (m', Inr r)))
    \<and> (primaryActionLocked (m_session m) = ''STOP'' \<and> s_generation (m_session m) \<noteq> 0 \<longrightarrow>
            (\<exists>m' r e. Stop_locked env (s_generation (m_session m)) m = Ret (m', Some r, e)))"
proof (intro conjI impI)
  note i = reachable_inv[OF assms(1)]
  assume s: "primaryActionLocked (m_session m) = ''START'' \<and> validateStartTarget (m_session m) target = None"
  then have n: "\<not> canRetry (m_session m)" "\<not> configurationBlocked (m_session m)"
    using assms(3) by (auto simp: primaryActionLocked_def configurationBlocked_def split: if_splits)
  obtain st where sa: "saveActivationLocked env target m = (m\<lparr>m_store := st\<rparr>, None)"
    using saveActivation_shape[of env target m] assms(4)
    by (cases "saveActivationLocked env target m") (auto simp: saveActivationLocked_def split: option.splits if_splits)
  have p: "s_profiles (m_session m) \<noteq> []" using inv_core[OF i] assms(2) by (simp add: core_ok_def)
  show "\<exists>m' r. start_locked env (s_sequence (m_session m)) target supplied m = Ret (m', Inr r)"
    using s n sa p assms(2) by (simp add: start_locked_def start_fresh_def retainPolicy_ok_def Let_def)
next
  assume "primaryActionLocked (m_session m) = ''RETRY''"
  then have "canRetry (m_session m)" by (auto simp: primaryActionLocked_def split: if_splits)
  then show "\<exists>m' r. start_locked env (s_sequence (m_session m))
      ((s_activeTarget (m_session m))\<lparr>st_ReplaceCurrent := False, st_Digest := []\<rparr>) False m = Ret (m', Inr r)"
    using assms(2) by (simp add: start_locked_def retryLocked_def beginAttemptLocked_def Let_def)
next
  note i = reachable_inv[OF assms(1)]
  assume s: "primaryActionLocked (m_session m) = ''STOP'' \<and> s_generation (m_session m) \<noteq> 0"
  obtain st e where sa: "stopActivationLocked env m = (m\<lparr>m_store := st\<rparr>, e)"
    using stopActivation_shape[of env m] by (metis prod.collapse)
  have acc: "acceptsStop (m_session m) (s_generation (m_session m))" using s by (simp add: acceptsStop_def)
  have act: "attemptActive (s_state (m_session m)) \<or> s_state (m_session m) = StateFailed \<and> s_cleanupFailed (m_session m)"
  proof -
    have "s_pending (m_session m) \<noteq> None \<longrightarrow> attemptActive (s_state (m_session m))" using inv_quiet(1)[OF i] by (cases "attemptActive (s_state (m_session m))") auto
    moreover have "s_recovering (m_session m) \<longrightarrow> attemptActive (s_state (m_session m))" using inv_quiet(3)[OF i] by (cases "attemptActive (s_state (m_session m))") auto
    ultimately show ?thesis using s by (auto simp: primaryActionLocked_def split: if_splits)
  qed
  have "\<exists>m' r. stop_accepted env (m\<lparr>m_store := st\<rparr>) = Ret (m', Inr r)"
  proof (cases "attemptActive (s_state (m_session m))")
    case True
    then have st': "s_state (m_session m) \<notin> {StateIdle, StateConfigured, StateFailed}" by auto
    have "stop_accepted env (m\<lparr>m_store := st\<rparr>) =
        stop_active env (s_generation (m_session m)) (stop_mark env (m\<lparr>m_store := st\<rparr>))"
      using st' by (simp add: stop_accepted_def Let_def retryableCleanup_def stop_mark_state)
    moreover have "stop_accepted env (m\<lparr>m_store := st\<rparr>) \<noteq> Panic" using inv_stop_accepted[OF inv_store[OF i], of env st] by auto
    ultimately show ?thesis using stop_active_result by simp
  next
    case False
    with act inv_core[OF i] have "retryableCleanup (m_session m)" by (auto simp: core_ok_def retryableCleanup_def)
    then have "retryableCleanup (m_session (stop_mark env (m\<lparr>m_store := st\<rparr>)))"
      by (simp add: retryableCleanup_def stop_mark_def op_defs)
    then show ?thesis by (simp add: stop_accepted_def Let_def)
  qed
  then show "\<exists>m' r e. Stop_locked env (s_generation (m_session m)) m = Ret (m', Some r, e)"
    using acc by (auto simp: Stop_locked_def sa)
qed

theorem primary_action_is_accepted_witness:
  "\<exists>m' r. start_locked quiet_env (s_sequence (m_session run_configured)) auto_target False run_configured = Ret (m', Inr r)"
proof -
  have f: "s_configured (m_session run_configured)" "\<not> s_closing (m_session run_configured)" "e_saveActivationErr quiet_env = None"
    "primaryActionLocked (m_session run_configured) = ''START''" "validateStartTarget (m_session run_configured) auto_target = None"
    by (simp_all add: run_eval primaryActionLocked_def)
  from primary_action_is_accepted[OF run_reachable(2) f(1-3)] f(4,5) show ?thesis by blast
qed

section \<open>Persisted intent\<close>


definition mobile_store :: store where
  "mobile_store = \<lparr>so_activations = True, so_source = ''https://vpn.example/c'', so_activation = RawEmpty\<rparr>"

definition mobile_manager :: manager where
  "mobile_manager = run_configured\<lparr>m_store := Some mobile_store, m_session := (m_session run_configured)\<lparr>s_sourceKind := ConfigSourceURL\<rparr>\<rparr>"


text \<open>
  Restoration never connects a different profile than the one chosen. If \<^verbatim>\<open>Restore\<close> starts a session that
  was not active yet from a saved manual selection, then the configuration it has just loaded has the
  digest saved with that selection, and the started target is the saved mode and index; and when only
  previously enabled selections are asked for, a disabled one leaves everything as it is.
\<close>

theorem restore_pins_the_inventory:
  assumes "Restore env env' loader parse onlyEnabled m = Ret (m', Inr r)"
    and "\<not> s_vpnActive (m_session m)"
  shows "\<exists>st saved. m_store m = Some st \<and> decodeActivation (so_activation st) = Inr saved
    \<and> (case r of
         None \<Rightarrow> onlyEnabled \<and> \<not> sa_Enabled saved \<and> m' = m
       | Some _ \<Rightarrow> (onlyEnabled \<longrightarrow> sa_Enabled saved)
           \<and> (\<exists>loaded parsed. loadConfig loader parse (s_sourceURL (m_session m)) = Ret (Inr (loaded, parsed))
                \<and> (sa_Mode saved = ProfileIndex \<longrightarrow> pcfg_digest parsed = sa_Digest saved)
                \<and> (\<exists>m1. (\<exists>n. start_locked env' n \<lparr>st_Mode = sa_Mode saved, st_Index = sa_Index saved, st_ReplaceCurrent = False,
                       st_Digest = pcfg_digest parsed, st_Source = None\<rparr> False m1 = Ret (m', Inr (the r)))
                     \<and> s_digest (m_session m1) = pcfg_digest parsed \<and> s_profiles (m_session m1) = pcfg_profiles parsed)))"
proof -
  have cfg: "\<exists>loaded parsed. loadConfig loader parse raw = Ret (Inr (loaded, parsed)) \<and> cf_Digest cr = pcfg_digest parsed
       \<and> s_digest (m_session m1) = pcfg_digest parsed \<and> s_profiles (m_session m1) = pcfg_profiles parsed"
    if c: "Configure env env' loader parse i n raw m = Ret (m1, Inr cr)" for i n raw m1 cr
  proof -
    from c obtain mb request where b: "configure_begin env i n m = (mb, Inr request)"
      by (auto simp: Configure_def split: prod.splits sum.splits)
    from c b obtain loaded parsed where l: "loadConfig loader parse raw = Ret (Inr (loaded, parsed))"
      and a: "configure_accept env' request loaded parsed mb = Ret (m1, Inr cr)"
      by (auto simp: Configure_def split: outcome.splits sum.splits)
    obtain st e where ss: "store_source env' loaded mb = (mb\<lparr>m_store := st\<rparr>, e)"
      using store_source_shape[of env' loaded mb] by (metis prod.collapse)
    from a have "cf_Digest cr = pcfg_digest parsed \<and> s_digest (m_session m1) = pcfg_digest parsed \<and> s_profiles (m_session m1) = pcfg_profiles parsed"
      by (auto simp: configure_accept_def ss op_defs split: option.splits if_splits)
    with l show ?thesis by blast
  qed
  from assms obtain st saved where s: "m_store m = Some st" "decodeActivation (so_activation st) = Inr saved"
    by (auto simp: Restore_def Let_def split: if_splits option.splits sum.splits)
  show ?thesis
  proof (cases r)
    case None
    with assms s have "onlyEnabled \<and> \<not> sa_Enabled saved \<and> m' = m"
      by (auto simp: Restore_def Let_def split: if_splits option.splits sum.splits outcome.splits)
    with s None show ?thesis by auto
  next
    case (Some g)
    from assms s Some obtain m1 cr where
      c: "Configure env env' loader parse (s_id (m_session m)) (s_sequence (m_session m)) (s_sourceURL (m_session m)) m = Ret (m1, Inr cr)"
      and p: "sa_Mode saved = ProfileIndex \<longrightarrow> cf_Digest cr = sa_Digest saved" "onlyEnabled \<longrightarrow> sa_Enabled saved"
      and st: "Start env env' loader parse (s_id (m_session m)) (cf_Sequence cr) \<lparr>st_Mode = sa_Mode saved, st_Index = sa_Index saved,
           st_ReplaceCurrent = False, st_Digest = cf_Digest cr, st_Source = None\<rparr> m1 = Ret (m', Inr g)"
      by (auto simp: Restore_def Let_def split: if_splits option.splits sum.splits outcome.splits prod.splits)
    from st have sl: "start_locked env' (cf_Sequence cr) \<lparr>st_Mode = sa_Mode saved, st_Index = sa_Index saved,
           st_ReplaceCurrent = False, st_Digest = cf_Digest cr, st_Source = None\<rparr> False m1 = Ret (m', Inr g)"
      by (auto simp: Start_def split: option.splits)
    from cfg[OF c] p sl s Some show ?thesis by force
  qed
qed

definition disabled_manager :: manager where
  "disabled_manager = run_configured\<lparr>m_store := Some (mobile_store\<lparr>so_activation := RawActivation
     \<lparr>sa_Version = 1, sa_Enabled = False, sa_Mode = ProfileIndex, sa_Index = 0, sa_Digest = ''sha''\<rparr>\<rparr>)\<rparr>"

theorem restore_pins_the_inventory_witness:
  "\<exists>st saved. m_store disabled_manager = Some st \<and> decodeActivation (so_activation st) = Inr saved \<and> \<not> sa_Enabled saved"
proof -
  have r: "Restore quiet_env quiet_env (\<lambda>_. Inl (Plain [])) (\<lambda>_. Panic) True disabled_manager = Ret (disabled_manager, Inr None)"
    by (simp add: Restore_def disabled_manager_def mobile_store_def decodeActivation_def run_eval)
  have v: "\<not> s_vpnActive (m_session disabled_manager)" by (simp add: disabled_manager_def run_eval)
  from restore_pins_the_inventory[OF r v] show ?thesis by auto
qed

section \<open>Configuration\<close>

text \<open>
  The last \<^verbatim>\<open>Configure\<close> wins. Of two configurations whose loading overlaps, the one that began first is
  refused when it comes back, without any effect; the later one, when it is accepted, is stored with
  exactly its profiles and digest. While an attempt is running it replaces only the loaded inventory: the
  running profiles, target and state stay as they are.
\<close>

theorem last_configuration_wins:
  assumes "configure_begin env1 i1 n1 m = (m1, Inr q1)" and "configure_begin env2 i2 n2 m1 = (m2, Inr q2)"
  shows "(\<exists>e. configure_accept env3 q1 loaded1 parsed1 m2 = Ret (m2, Inl e) \<and> CodeOf (Some e) = FailureConflict)
    \<and> (configure_accept env4 q2 loaded2 parsed2 m2 = Ret (m3, Inr r) \<longrightarrow>
        s_profiles (m_session m3) = pcfg_profiles parsed2 \<and> s_digest (m_session m3) = pcfg_digest parsed2
        \<and> cf_Profiles r = summaries (pcfg_profiles parsed2) \<and> cf_Digest r = pcfg_digest parsed2
        \<and> cf_Sequence r = s_sequence (m_session m2) + 1 \<and> s_configured (m_session m3)
        \<and> (\<not> s_cleanupDone (m_session m2) \<longrightarrow>
             s_activeProfiles (m_session m3) = s_activeProfiles (m_session m2) \<and> s_activeTarget (m_session m3) = s_activeTarget (m_session m2)
             \<and> s_state (m_session m3) = s_state (m_session m2) \<and> m_workers m3 = m_workers m2))"
proof (intro conjI impI)
  have q1: "q1 = s_configureRequest (m_session m1)"
    using assms(1) by (auto simp: configure_begin_def Let_def split: option.splits)
  have q2: "q2 = s_configureRequest (m_session m1) + 1" "s_configureRequest (m_session m2) = q2"
    using assms(2) by (auto simp: configure_begin_def Let_def split: option.splits)
  then have "s_configureRequest (m_session m2) \<noteq> q1" using q1 by (simp add: word_plus_one_neq)
  then show "\<exists>e. configure_accept env3 q1 loaded1 parsed1 m2 = Ret (m2, Inl e) \<and> CodeOf (Some e) = FailureConflict"
    by (simp add: configure_accept_def validateConfigureBeforeAccept_def)
next
  assume a: "configure_accept env4 q2 loaded2 parsed2 m2 = Ret (m3, Inr r)"
  obtain st e where ss: "store_source env4 loaded2 m2 = (m2\<lparr>m_store := st\<rparr>, e)"
    using store_source_shape[of env4 loaded2 m2] by (metis prod.collapse)
  note ca = configure_accept_def ss op_defs
  show "s_profiles (m_session m3) = pcfg_profiles parsed2" using a by (auto simp: ca split: option.splits if_splits)
  show "s_digest (m_session m3) = pcfg_digest parsed2" using a by (auto simp: ca split: option.splits if_splits)
  show "cf_Profiles r = summaries (pcfg_profiles parsed2)" using a by (auto simp: ca split: option.splits if_splits)
  show "cf_Digest r = pcfg_digest parsed2" using a by (auto simp: ca split: option.splits if_splits)
  show "cf_Sequence r = s_sequence (m_session m2) + 1" using a by (auto simp: ca split: option.splits if_splits)
  show "s_configured (m_session m3)" using a by (auto simp: ca split: option.splits if_splits)
  assume d: "\<not> s_cleanupDone (m_session m2)"
  show "s_activeProfiles (m_session m3) = s_activeProfiles (m_session m2)" using a d by (auto simp: ca split: option.splits if_splits)
  show "s_activeTarget (m_session m3) = s_activeTarget (m_session m2)" using a d by (auto simp: ca split: option.splits if_splits)
  show "s_state (m_session m3) = s_state (m_session m2)" using a d by (auto simp: ca split: option.splits if_splits)
  show "m_workers m3 = m_workers m2" using a d by (auto simp: ca split: option.splits if_splits)
qed

theorem last_configuration_wins_witness:
  "\<exists>m1 m2 q1 q2. configure_begin quiet_env [] 3 run_started = (m1, Inr q1) \<and> configure_begin quiet_env [] 3 m1 = (m2, Inr q2)
     \<and> (\<exists>e. configure_accept quiet_env q1 \<lparr>lc_Raw = [], lc_Kind = ConfigSourceInline, lc_SourceURL = []\<rparr>
            \<lparr>pcfg_digest = [], pcfg_profiles = [], pcfg_logsEndpoint = []\<rparr> m2 = Ret (m2, Inl e))"
proof -
  obtain m1 q1 where a: "configure_begin quiet_env [] 3 run_started = (m1, Inr q1)" and s: "s_sequence (m_session m1) = 3"
    "s_id (m_session m1) = ''id''" "\<not> s_cleanupFailed (m_session m1)" "\<not> s_closing (m_session m1)"
    by (simp add: configure_begin_def get_err_def validateConfigureBeforeLoad_def run_eval)
  then obtain m2 q2 where b: "configure_begin quiet_env [] 3 m1 = (m2, Inr q2)"
    by (simp add: configure_begin_def get_err_def validateConfigureBeforeLoad_def quiet_env_def Let_def)
  from last_configuration_wins[OF a b, THEN conjunct1] a b show ?thesis by blast
qed

end
