(* ===== verification/Flow_Owner.thy ===== *)
theory Flow_Owner
  imports Release_Loop
begin

text \<open>
  Ownership of the flows of one transport attempt: \<^verbatim>\<open>flowOwner\<close> (\<^verbatim>\<open>core/tunnel/flow_owner.go\<close>), the four
  kinds of connection it retains (\<^verbatim>\<open>trackedConn\<close> and \<^verbatim>\<open>idlePacketConn\<close> of \<^verbatim>\<open>tunnel.go\<close>, \<^verbatim>\<open>trackedUDPOrigin\<close>
  of \<^verbatim>\<open>udp_transport.go\<close>, \<^verbatim>\<open>pendingSOCKSConn\<close> of \<^verbatim>\<open>socks_tcp.go\<close>), and the goroutines that dial through it:
  \<^verbatim>\<open>dialTCPRoute\<close>, \<^verbatim>\<open>dialUDPRoute\<close> and \<^verbatim>\<open>HandleUDP\<close>.

  Every method of the owner is one critical section. Connections are numbers; the map of retained
  connections is a partial map to the stored nil or non-nil error. A loop over that map visits its
  keys in an unspecified order, so it takes the order as an argument. Channels that are only ever
  closed are flags: \<^verbatim>\<open>settled\<close> is the number of channels made so far and whether the last one is
  closed. Results of dials and of closing a socket are arbitrary, except that closing a socket that
  is closed already succeeds or reports \<^verbatim>\<open>net.ErrClosed\<close>. The counters that only feed log lines are left out.
\<close>

section \<open>The owner\<close>

record flow_owner =
  fo_closed :: bool
  fo_connections :: "nat \<rightharpoonup> go_error option"
  fo_pending :: int
  fo_settled :: nat
  fo_settledClosed :: bool
  fo_retired :: "bool option"
  fo_tcpContext :: "bool option"

definition new_flow_owner :: flow_owner where
  "new_flow_owner = \<lparr>fo_closed = False, fo_connections = Map.empty, fo_pending = 0, fo_settled = 0,
     fo_settledClosed = False, fo_retired = None, fo_tcpContext = None\<rparr>"

definition flow_done :: "flow_owner \<Rightarrow> flow_owner" where
  "flow_done ow = (case fo_retired ow of
       None \<Rightarrow> ow\<lparr>fo_retired := Some (fo_closed ow)\<rparr>
     | Some r \<Rightarrow> ow)"

definition beginDial :: "flow_owner \<Rightarrow> flow_owner \<times> go_error option" where
  "beginDial ow =
     (if fo_closed ow then (ow, Some (Sentinel NetErrClosed))
      else (let ow1 = (if fo_pending ow = 0
                       then ow\<lparr>fo_settled := fo_settled ow + 1, fo_settledClosed := False\<rparr> else ow)
            in (ow1\<lparr>fo_pending := fo_pending ow1 + 1\<rparr>, None)))"

text \<open>
  The generation context is made on first use; it is canceled at once when the owner was sealed
  between \<^verbatim>\<open>beginDial\<close> and here. The dial's own context is canceled with it or with its parent.
\<close>

definition pendingTCPContext :: "flow_owner \<Rightarrow> flow_owner" where
  "pendingTCPContext ow =
     (let generation = (case fo_tcpContext ow of None \<Rightarrow> False | Some canceled \<Rightarrow> canceled)
      in ow\<lparr>fo_tcpContext := Some (generation \<or> fo_closed ow)\<rparr>)"

definition endDial :: "flow_owner \<Rightarrow> flow_owner outcome" where
  "endDial ow =
     (let ow1 = ow\<lparr>fo_pending := fo_pending ow - 1\<rparr> in
      if fo_pending ow1 = 0 then
        if fo_settled ow1 = 0 \<or> fo_settledClosed ow1 then Panic else Ret (ow1\<lparr>fo_settledClosed := True\<rparr>)
      else Ret ow1)"

definition track :: "nat \<Rightarrow> flow_owner \<Rightarrow> flow_owner \<times> bool" where
  "track c ow = (if fo_closed ow then (ow, False)
                 else (ow\<lparr>fo_connections := (fo_connections ow)(c \<mapsto> None)\<rparr>, True))"

definition flow_release :: "nat \<Rightarrow> go_error option \<Rightarrow> flow_owner \<Rightarrow> flow_owner" where
  "flow_release c err ow = (case err of
       Some e \<Rightarrow> if \<not> errors_is e NetErrClosed then ow\<lparr>fo_connections := (fo_connections ow)(c \<mapsto> Some e)\<rparr>
                 else ow\<lparr>fo_connections := (fo_connections ow)(c := None)\<rparr>
     | None \<Rightarrow> ow\<lparr>fo_connections := (fo_connections ow)(c := None)\<rparr>)"

definition residualErrorLocked :: "nat list \<Rightarrow> flow_owner \<Rightarrow> go_error option" where
  "residualErrorLocked order ow = errors_join (map (\<lambda>c. case fo_connections ow c of
       Some (Some err) \<Rightarrow> Some err
     | _ \<Rightarrow> Some (Plain ''route connection remains open'')) order)"

text \<open>The locked part of \<^verbatim>\<open>sealAndClose\<close> and the cancellation after it; the closes are steps of their own.\<close>

definition seal :: "flow_owner \<Rightarrow> flow_owner outcome" where
  "seal ow =
     (let ow1 = (if fo_closed ow then Ret ow
                 else (case fo_retired ow of
                     None \<Rightarrow> Ret (ow\<lparr>fo_closed := True\<rparr>)
                   | Some True \<Rightarrow> Panic
                   | Some False \<Rightarrow> Ret (ow\<lparr>fo_closed := True, fo_retired := Some True\<rparr>)))
      in case ow1 of
           Panic \<Rightarrow> Panic
         | Ret o2 \<Rightarrow> Ret (case fo_tcpContext o2 of None \<Rightarrow> o2 | Some _ \<Rightarrow> o2\<lparr>fo_tcpContext := Some True\<rparr>))"

text \<open>
  \<^verbatim>\<open>wait\<close>: the first critical section reads the pending count and the channel; the call then returns as
  soon as that channel is closed, or when its context ends (\<open>expired\<close>). \<^const>\<open>None\<close> is a call that blocks.
\<close>

definition flow_wait_begin :: "flow_owner \<Rightarrow> int \<times> nat" where
  "flow_wait_begin ow = (fo_pending ow, fo_settled ow)"

definition settled_ready :: "nat \<Rightarrow> flow_owner \<Rightarrow> bool" where
  "settled_ready ch ow \<longleftrightarrow> ch < fo_settled ow \<or> ch = fo_settled ow \<and> fo_settledClosed ow"

definition flow_wait_end ::
  "int \<times> nat \<Rightarrow> go_error option \<Rightarrow> nat list \<Rightarrow> flow_owner \<Rightarrow> go_error option option" where
  "flow_wait_end snapshot expired order ow =
     (if fst snapshot \<noteq> 0 then
        (case expired of
           None \<Rightarrow> if settled_ready (snd snapshot) ow then Some (residualErrorLocked order ow) else None
         | Some ctxErr \<Rightarrow>
             if fo_pending ow \<noteq> 0 then
               Some (errors_join [residualErrorLocked order ow,
                 Some (Wrap (''route cleanup has '' @ itoa (fo_pending ow) @ '' unresolved dials: '') ctxErr)])
             else Some (residualErrorLocked order ow))
      else Some (residualErrorLocked order ow))"

section \<open>Connections\<close>

datatype conn_kind = TrackedConn | IdlePacketConn | TrackedUDPOrigin | PendingSOCKSConn

text \<open>\<open>fc_inner\<close> is the closed flag of the \<^verbatim>\<open>trackedPacketConn\<close> inside an idle packet connection.\<close>

record flow_conn =
  fc_kind :: conn_kind
  fc_closed :: bool
  fc_closeErr :: "go_error option"
  fc_inner :: bool

definition new_conn :: "conn_kind \<Rightarrow> flow_conn" where
  "new_conn k = \<lparr>fc_kind = k, fc_closed = False, fc_closeErr = None, fc_inner = False\<rparr>"

text \<open>A close counts as done when it succeeds or when the socket was closed before.\<close>

definition close_ok :: "go_error option \<Rightarrow> bool" where
  "close_ok r = (case r of None \<Rightarrow> True | Some e \<Rightarrow> errors_is e NetErrClosed)"

text \<open>Each close takes the result \<open>r\<close> its socket would give and returns whether the socket was closed at all.\<close>

type_synonym close_result = "flow_conn \<times> flow_owner \<times> bool \<times> go_error option"

definition trackedConn_Close :: "nat \<Rightarrow> go_error option \<Rightarrow> flow_conn \<Rightarrow> flow_owner \<Rightarrow> close_result" where
  "trackedConn_Close c r k ow =
     (if fc_closed k then (k, ow, False, None)
      else if \<not> close_ok r then (k\<lparr>fc_closeErr := r\<rparr>, flow_release c r ow, True, r)
      else (k\<lparr>fc_closed := True, fc_closeErr := None\<rparr>, flow_release c None ow, True, None))"

definition trackedPacketConn_Close :: "go_error option \<Rightarrow> flow_conn \<Rightarrow> flow_conn \<times> bool \<times> go_error option" where
  "trackedPacketConn_Close r k =
     (if fc_inner k then (k, False, None)
      else if \<not> close_ok r then (k, True, r)
      else (k\<lparr>fc_inner := True\<rparr>, True, None))"

definition idlePacketConn_Close :: "nat \<Rightarrow> go_error option \<Rightarrow> flow_conn \<Rightarrow> flow_owner \<Rightarrow> close_result" where
  "idlePacketConn_Close c r k ow =
     (if fc_closed k \<and> fc_closeErr k = None then (k, ow, False, None)
      else (case trackedPacketConn_Close r (k\<lparr>fc_closed := True\<rparr>) of
          (k1, did, err) \<Rightarrow> (k1\<lparr>fc_closeErr := err\<rparr>, flow_release c err ow, did, err)))"

definition closeAfterIdleTimeout :: "nat \<Rightarrow> go_error option \<Rightarrow> flow_conn \<Rightarrow> flow_owner \<Rightarrow> close_result" where
  "closeAfterIdleTimeout c r k ow =
     (if fc_closed k then (k, ow, False, None)
      else (case trackedPacketConn_Close r (k\<lparr>fc_closed := True\<rparr>) of
          (k1, did, err) \<Rightarrow> (k1\<lparr>fc_closeErr := err\<rparr>, flow_release c err ow, did, None)))"

definition trackedUDPOrigin_Close :: "nat \<Rightarrow> go_error option \<Rightarrow> flow_conn \<Rightarrow> flow_owner \<Rightarrow> close_result" where
  "trackedUDPOrigin_Close c r k ow =
     (if fc_closed k then (k, ow, False, None)
      else if close_ok r then (k\<lparr>fc_closed := True\<rparr>, flow_release c None ow, True, None)
      else (k, flow_release c r ow, True, r))"

definition pendingSOCKSConn_Close :: "nat \<Rightarrow> go_error option \<Rightarrow> flow_conn \<Rightarrow> flow_owner \<Rightarrow> close_result" where
  "pendingSOCKSConn_Close c r k ow =
     (let err = (if close_ok r then None else r) in (k, flow_release c err ow, True, err))"

definition conn_Close :: "nat \<Rightarrow> go_error option \<Rightarrow> flow_conn \<Rightarrow> flow_owner \<Rightarrow> close_result" where
  "conn_Close c r k ow = (case fc_kind k of
       TrackedConn \<Rightarrow> trackedConn_Close c r k ow
     | IdlePacketConn \<Rightarrow> idlePacketConn_Close c r k ow
     | TrackedUDPOrigin \<Rightarrow> trackedUDPOrigin_Close c r k ow
     | PendingSOCKSConn \<Rightarrow> pendingSOCKSConn_Close c r k ow)"

section \<open>The system of dials\<close>

text \<open>
  A goroutine that dials: its route and the next thing it does. \<open>fl_open\<close> is the set of sockets that
  have been opened and whose close has not succeeded; the program does not keep it, the theorems are
  about it.
\<close>

datatype dial_kind = DialTCP | DialUDP | DialOrigin

datatype dial_pc =
    DContext
  | DDialing
  | DHandshake nat
  | DRefused nat
  | DTrack nat
  | DLate nat
  | DDispatch nat
  | DEnd
  | DDone

record dial =
  dl_kind :: dial_kind
  dl_pc :: dial_pc

record flows =
  fl_owner :: flow_owner
  fl_conns :: "nat \<Rightarrow> flow_conn"
  fl_next :: nat
  fl_dials :: "dial list"
  fl_open :: "nat set"
  fl_panicked :: bool

definition new_flows :: flows where
  "new_flows = \<lparr>fl_owner = new_flow_owner, fl_conns = (\<lambda>_. new_conn TrackedConn), fl_next = 0,
     fl_dials = [], fl_open = {}, fl_panicked = False\<rparr>"

definition set_pc :: "nat \<Rightarrow> dial_pc \<Rightarrow> flows \<Rightarrow> flows" where
  "set_pc i p fs = fs\<lparr>fl_dials := (fl_dials fs)[i := (fl_dials fs ! i)\<lparr>dl_pc := p\<rparr>]\<rparr>"

definition open_conn :: "conn_kind \<Rightarrow> flows \<Rightarrow> flows" where
  "open_conn k fs = fs\<lparr>fl_conns := (fl_conns fs)(fl_next fs := new_conn k), fl_next := Suc (fl_next fs),
     fl_open := insert (fl_next fs) (fl_open fs)\<rparr>"

definition put_close :: "nat \<Rightarrow> go_error option \<Rightarrow> close_result \<Rightarrow> flows \<Rightarrow> flows" where
  "put_close c r res fs = (case res of (k, ow, did, err) \<Rightarrow>
     fs\<lparr>fl_conns := (fl_conns fs)(c := k), fl_owner := ow,
        fl_open := (if did \<and> close_ok r then fl_open fs - {c} else fl_open fs)\<rparr>)"

definition do_close :: "nat \<Rightarrow> go_error option \<Rightarrow> flows \<Rightarrow> flows" where
  "do_close c r fs = put_close c r (conn_Close c r (fl_conns fs c) (fl_owner fs)) fs"

definition do_idle :: "nat \<Rightarrow> go_error option \<Rightarrow> flows \<Rightarrow> flows" where
  "do_idle c r fs = put_close c r (closeAfterIdleTimeout c r (fl_conns fs c) (fl_owner fs)) fs"

definition do_endDial :: "nat \<Rightarrow> flows \<Rightarrow> flows" where
  "do_endDial i fs = (case endDial (fl_owner fs) of
       Panic \<Rightarrow> fs\<lparr>fl_panicked := True\<rparr>
     | Ret ow \<Rightarrow> set_pc i DDone (fs\<lparr>fl_owner := ow\<rparr>))"

definition do_seal :: "flows \<Rightarrow> flows" where
  "do_seal fs = (case seal (fl_owner fs) of
       Panic \<Rightarrow> fs\<lparr>fl_panicked := True\<rparr>
     | Ret ow \<Rightarrow> fs\<lparr>fl_owner := ow\<rparr>)"

text \<open>The admission test of a finished dial: an idle timer may have closed a UDP flow before it.\<close>

definition do_track :: "nat \<Rightarrow> nat \<Rightarrow> flows \<Rightarrow> flows" where
  "do_track i c fs =
     (let d = fl_dials fs ! i in
      if dl_kind d = DialUDP \<and> fc_closed (fl_conns fs c) then set_pc i (DLate c) fs
      else (case track c (fl_owner fs) of
          (ow, True) \<Rightarrow> set_pc i (if dl_kind d = DialOrigin then DDispatch c else DEnd) (fs\<lparr>fl_owner := ow\<rparr>)
        | (ow, False) \<Rightarrow> set_pc i (DLate c) (fs\<lparr>fl_owner := ow\<rparr>)))"

definition at :: "flows \<Rightarrow> nat \<Rightarrow> dial_kind \<Rightarrow> dial_pc \<Rightarrow> bool" where
  "at fs i k p \<longleftrightarrow> i < length (fl_dials fs) \<and> fl_dials fs ! i = \<lparr>dl_kind = k, dl_pc = p\<rparr>"

definition result_ok :: "flows \<Rightarrow> nat \<Rightarrow> go_error option \<Rightarrow> bool" where
  "result_ok fs c r \<longleftrightarrow> (c \<notin> fl_open fs \<longrightarrow> close_ok r)"

text \<open>The connection a goroutine is responsible for before the owner retains it.\<close>

fun holds :: "dial_pc \<Rightarrow> nat set" where
  "holds (DHandshake c) = {c}"
| "holds (DRefused c) = {c}"
| "holds (DTrack c) = {c}"
| "holds (DLate c) = {c}"
| "holds _ = {}"

definition held :: "flows \<Rightarrow> nat set" where
  "held fs = (\<Union>d\<in>set (fl_dials fs). holds (dl_pc d))"

text \<open>
  One step of a goroutine, of a timer, or of a caller that closes a connection it was given. A
  refused \<^verbatim>\<open>beginDial\<close> changes nothing and is no step.
\<close>

inductive flow_step :: "flows \<Rightarrow> flows \<Rightarrow> bool" where
  begin_tcp: "beginDial (fl_owner fs) = (ow, None) \<Longrightarrow>
    flow_step fs (fs\<lparr>fl_owner := ow, fl_dials := fl_dials fs @ [\<lparr>dl_kind = DialTCP, dl_pc = DContext\<rparr>]\<rparr>)"
| begin_udp: "beginDial (fl_owner fs) = (ow, None) \<Longrightarrow>
    flow_step fs (fs\<lparr>fl_owner := ow, fl_dials := fl_dials fs @ [\<lparr>dl_kind = DialUDP, dl_pc = DDialing\<rparr>]\<rparr>)"
| begin_origin: "beginDial (fl_owner fs) = (ow, None) \<Longrightarrow>
    flow_step fs (open_conn TrackedUDPOrigin
      (fs\<lparr>fl_owner := ow, fl_dials := fl_dials fs @ [\<lparr>dl_kind = DialOrigin, dl_pc = DTrack (fl_next fs)\<rparr>]\<rparr>))"
| tcp_context: "at fs i DialTCP DContext \<Longrightarrow>
    flow_step fs (set_pc i DDialing (fs\<lparr>fl_owner := pendingTCPContext (fl_owner fs)\<rparr>))"
| dial_error: "at fs i k DDialing \<Longrightarrow> flow_step fs (set_pc i DEnd fs)"
| dial_direct: "at fs i DialTCP DDialing \<Longrightarrow>
    flow_step fs (set_pc i (DTrack (fl_next fs)) (open_conn TrackedConn fs))"
| dial_udp: "at fs i DialUDP DDialing \<Longrightarrow>
    flow_step fs (set_pc i (DTrack (fl_next fs)) (open_conn IdlePacketConn fs))"
| dial_socks: "at fs i DialTCP DDialing \<Longrightarrow>
    flow_step fs (set_pc i (DHandshake (fl_next fs)) (open_conn PendingSOCKSConn fs))"
| handshake_ok: "at fs i DialTCP (DHandshake c) \<Longrightarrow>
    flow_step fs (set_pc i (DTrack c) (fs\<lparr>fl_conns := (fl_conns fs)(c := new_conn TrackedConn)\<rparr>))"
| handshake_canceled: "at fs i DialTCP (DHandshake c) \<Longrightarrow> result_ok fs c r \<Longrightarrow>
    flow_step fs (set_pc i (DRefused c) (do_close c r fs))"
| handshake_failed: "at fs i DialTCP (DHandshake c) \<Longrightarrow> flow_step fs (set_pc i (DRefused c) fs)"
| refused_close: "at fs i DialTCP (DRefused c) \<Longrightarrow> result_ok fs c r \<Longrightarrow>
    flow_step fs (set_pc i DEnd (do_close c r fs))"
| tracked: "at fs i k (DTrack c) \<Longrightarrow> flow_step fs (do_track i c fs)"
| late_close: "at fs i k (DLate c) \<Longrightarrow> result_ok fs c r \<Longrightarrow> flow_step fs (set_pc i DEnd (do_close c r fs))"
| dispatched: "at fs i DialOrigin (DDispatch c) \<Longrightarrow>
    flow_step fs (set_pc i DEnd (fs\<lparr>fl_owner := flow_done (fl_owner fs)\<rparr>))"
| dispatch_retired: "at fs i DialOrigin (DDispatch c) \<Longrightarrow> fo_retired (flow_done (fl_owner fs)) = Some True \<Longrightarrow>
    result_ok fs c r \<Longrightarrow>
    flow_step fs (set_pc i DEnd (do_close c r (fs\<lparr>fl_owner := flow_done (fl_owner fs)\<rparr>)))"
| dial_end: "at fs i k DEnd \<Longrightarrow> flow_step fs (do_endDial i fs)"
| close: "c < fl_next fs \<Longrightarrow>
    c \<in> dom (fo_connections (fl_owner fs)) \<or> fc_kind (fl_conns fs c) \<noteq> PendingSOCKSConn \<and> c \<notin> held fs \<Longrightarrow>
    result_ok fs c r \<Longrightarrow> flow_step fs (do_close c r fs)"
| idle: "c < fl_next fs \<Longrightarrow> fc_kind (fl_conns fs c) = IdlePacketConn \<Longrightarrow> result_ok fs c r \<Longrightarrow>
    flow_step fs (do_idle c r fs)"
| seals: "flow_step fs (do_seal fs)"


section \<open>The invariant\<close>

definition in_flight :: "flows \<Rightarrow> nat" where
  "in_flight fs = length (filter (\<lambda>d. dl_pc d \<noteq> DDone) (fl_dials fs))"

definition conn_closed :: "flow_conn \<Rightarrow> bool" where
  "conn_closed k = (case fc_kind k of
       TrackedConn \<Rightarrow> fc_closed k
     | TrackedUDPOrigin \<Rightarrow> fc_closed k
     | IdlePacketConn \<Rightarrow> fc_inner k \<or> fc_closed k \<and> fc_closeErr k = None
     | PendingSOCKSConn \<Rightarrow> False)"

definition owner_ok :: "flow_owner \<Rightarrow> nat \<Rightarrow> bool" where
  "owner_ok ow n \<longleftrightarrow> fo_pending ow = int n
     \<and> (fo_settled ow = 0 \<longrightarrow> n = 0)
     \<and> (fo_settled ow \<noteq> 0 \<longrightarrow> (fo_settledClosed ow \<longleftrightarrow> n = 0))
     \<and> (fo_retired ow = Some True \<longrightarrow> fo_closed ow)"

definition covered :: "flows \<Rightarrow> bool" where
  "covered fs \<longleftrightarrow> fl_open fs \<subseteq> dom (fo_connections (fl_owner fs)) \<union> held fs"

definition flags_ok :: "flows \<Rightarrow> bool" where
  "flags_ok fs \<longleftrightarrow> (\<forall>c\<in>fl_open fs. \<not> conn_closed (fl_conns fs c))"

definition flow_inv :: "flows \<Rightarrow> bool" where
  "flow_inv fs \<longleftrightarrow> \<not> fl_panicked fs \<and> owner_ok (fl_owner fs) (in_flight fs) \<and> covered fs \<and> flags_ok fs"

named_theorems flow_defs \<open>operations unfolded in the proofs about flows\<close>

lemmas close_defs = trackedConn_Close_def trackedPacketConn_Close_def idlePacketConn_Close_def
  closeAfterIdleTimeout_def trackedUDPOrigin_Close_def pendingSOCKSConn_Close_def conn_Close_def

lemma flow_inv_new: "flow_inv new_flows"
  by (simp add: flow_inv_def new_flows_def owner_ok_def new_flow_owner_def covered_def flags_ok_def in_flight_def)

subsection \<open>What each operation leaves alone\<close>

lemma close_ok_None [simp]: "close_ok None"
  by (simp add: close_ok_def)

lemma release_frame [simp]:
  "fo_closed (flow_release c r ow) = fo_closed ow" "owner_ok (flow_release c r ow) n = owner_ok ow n"
  "fo_pending (flow_release c r ow) = fo_pending ow" "fo_settled (flow_release c r ow) = fo_settled ow"
  by (auto simp: flow_release_def owner_ok_def split: option.splits)

lemma dom_release: "dom (fo_connections (flow_release c r ow)) =
    (if close_ok r then dom (fo_connections ow) - {c} else insert c (dom (fo_connections ow)))"
  by (auto simp: flow_release_def close_ok_def split: option.splits if_splits)

lemma set_pc_simps [simp]:
  "fl_owner (set_pc i p fs) = fl_owner fs" "fl_conns (set_pc i p fs) = fl_conns fs"
  "fl_next (set_pc i p fs) = fl_next fs" "fl_open (set_pc i p fs) = fl_open fs"
  "fl_panicked (set_pc i p fs) = fl_panicked fs" "flags_ok (set_pc i p fs) = flags_ok fs"
  by (simp_all add: set_pc_def flags_ok_def)

lemma held_owner [simp]: "held (fs\<lparr>fl_owner := ow\<rparr>) = held fs" "held (fs\<lparr>fl_conns := cs\<rparr>) = held fs"
    "held (fs\<lparr>fl_panicked := b\<rparr>) = held fs"
  "in_flight (fs\<lparr>fl_owner := ow\<rparr>) = in_flight fs" "in_flight (fs\<lparr>fl_conns := cs\<rparr>) = in_flight fs"
  by (simp_all add: held_def in_flight_def)

lemma open_conn_simps [simp]:
  "fl_owner (open_conn k fs) = fl_owner fs" "held (open_conn k fs) = held fs"
  "in_flight (open_conn k fs) = in_flight fs" "fl_panicked (open_conn k fs) = fl_panicked fs"
  "fl_dials (open_conn k fs) = fl_dials fs" "fl_next (open_conn k fs) = Suc (fl_next fs)"
  "fl_open (open_conn k fs) = insert (fl_next fs) (fl_open fs)"
  by (simp_all add: open_conn_def held_def in_flight_def)

lemma flags_open: "flags_ok fs \<Longrightarrow> flags_ok (open_conn k fs)"
  by (cases k) (auto simp: flags_ok_def open_conn_def new_conn_def conn_closed_def)

lemma put_close_simps [simp]:
  "fl_dials (put_close c r res fs) = fl_dials fs" "fl_next (put_close c r res fs) = fl_next fs"
  "fl_panicked (put_close c r res fs) = fl_panicked fs"
  by (simp_all add: put_close_def split: prod.splits)

lemma do_close_simps [simp]:
  "fl_dials (do_close c r fs) = fl_dials fs" "fl_next (do_close c r fs) = fl_next fs"
  "fl_panicked (do_close c r fs) = fl_panicked fs" "held (do_close c r fs) = held fs"
  "in_flight (do_close c r fs) = in_flight fs"
  by (simp_all add: do_close_def held_def in_flight_def)

lemma do_idle_simps [simp]:
  "fl_dials (do_idle c r fs) = fl_dials fs" "fl_next (do_idle c r fs) = fl_next fs"
  "fl_panicked (do_idle c r fs) = fl_panicked fs" "held (do_idle c r fs) = held fs"
  "in_flight (do_idle c r fs) = in_flight fs"
  by (simp_all add: do_idle_def held_def in_flight_def)

subsection \<open>Moving a goroutine\<close>

lemma in_flight_set_pc:
  assumes "at fs i k q" "q \<noteq> DDone"
  shows "in_flight (set_pc i p fs) = (if p = DDone then in_flight fs - 1 else in_flight fs)" and "0 < in_flight fs"
proof -
  let ?P = "\<lambda>d. dl_pc d \<noteq> DDone" and ?ds = "fl_dials fs"
  from assms have i: "i < length ?ds" "?P (?ds ! i)" by (auto simp: at_def)
  have split: "?ds = take i ?ds @ ?ds ! i # drop (Suc i) ?ds" by (rule id_take_nth_drop[OF i(1)])
  have upd: "?ds[i := x] = take i ?ds @ x # drop (Suc i) ?ds" for x by (rule upd_conv_take_nth_drop[OF i(1)])
  have n: "in_flight fs = length (filter ?P (take i ?ds)) + Suc (length (filter ?P (drop (Suc i) ?ds)))"
    unfolding in_flight_def by (subst split) (use i in simp)
  then show "0 < in_flight fs" by simp
  show "in_flight (set_pc i p fs) = (if p = DDone then in_flight fs - 1 else in_flight fs)"
    unfolding n by (simp add: in_flight_def set_pc_def upd)
qed

lemma held_set_pc:
  assumes "at fs i k q"
  shows "held fs - holds q \<subseteq> held (set_pc i p fs)" and "holds p \<subseteq> held (set_pc i p fs)"
proof -
  from assms have i: "i < length (fl_dials fs)" "dl_pc (fl_dials fs ! i) = q" by (auto simp: at_def)
  have "x \<in> held (set_pc i p fs)" if x: "x \<in> held fs" "x \<notin> holds q" for x
  proof -
    from x obtain j where j: "j < length (fl_dials fs)" "x \<in> holds (dl_pc (fl_dials fs ! j))"
      by (auto simp: held_def in_set_conv_nth)
    with x i have "j \<noteq> i" by auto
    with j have "(fl_dials (set_pc i p fs)) ! j = fl_dials fs ! j" "j < length (fl_dials (set_pc i p fs))"
      by (auto simp: set_pc_def)
    with j show ?thesis unfolding held_def by (metis UN_iff nth_mem)
  qed
  then show "held fs - holds q \<subseteq> held (set_pc i p fs)" by blast
  have "(fl_dials fs ! i)\<lparr>dl_pc := p\<rparr> \<in> set (fl_dials (set_pc i p fs))"
    using i by (auto simp: set_pc_def intro: set_update_memI)
  then show "holds p \<subseteq> held (set_pc i p fs)" unfolding held_def by force
qed

lemma at_owner [simp]: "at (fs\<lparr>fl_owner := ow\<rparr>) i k p = at fs i k p" "at (fs\<lparr>fl_conns := cs\<rparr>) i k p = at fs i k p"
  "at (open_conn kd fs) i k p = at fs i k p" "at (do_close c r fs) i k p = at fs i k p"
  by (simp_all add: at_def open_conn_def)

text \<open>A goroutine that moves on hands over the connection it held, or the connection is closed or retained.\<close>

lemma inv_move:
  assumes "at fs i k q" "q \<noteq> DDone" "p \<noteq> DDone" and "\<not> fl_panicked fs" "owner_ok (fl_owner fs) (in_flight fs)" "flags_ok fs"
    and "fl_open fs \<subseteq> dom (fo_connections (fl_owner fs)) \<union> (held fs - holds q) \<union> holds p"
  shows "flow_inv (set_pc i p fs)"
proof -
  from assms(7) held_set_pc[OF assms(1), of p] have "covered (set_pc i p fs)" unfolding covered_def by auto
  with assms in_flight_set_pc(1)[OF assms(1,2), of p] show ?thesis by (simp add: flow_inv_def)
qed

subsection \<open>Closing\<close>

lemma do_close_owner: "owner_ok (fl_owner (do_close c r fs)) n = owner_ok (fl_owner fs) n"
  "fo_closed (fl_owner (do_close c r fs)) = fo_closed (fl_owner fs)"
  "fo_pending (fl_owner (do_close c r fs)) = fo_pending (fl_owner fs)"
  "fo_settled (fl_owner (do_close c r fs)) = fo_settled (fl_owner fs)"
  by (auto simp: do_close_def put_close_def close_defs Let_def split: conn_kind.splits)

lemma do_close_open: "fl_open (do_close c r fs) \<subseteq> fl_open fs"
  by (auto simp: do_close_def put_close_def split: prod.splits)

lemma do_close_dom: "dom (fo_connections (fl_owner fs)) - {c} \<subseteq> dom (fo_connections (fl_owner (do_close c r fs)))"
  "dom (fo_connections (fl_owner (do_close c r fs))) \<subseteq> insert c (dom (fo_connections (fl_owner fs)))"
  by (auto simp: do_close_def put_close_def close_defs Let_def dom_release split: conn_kind.splits if_splits)

lemma do_close_covers:
  "flags_ok fs \<Longrightarrow> c \<in> fl_open (do_close c r fs) \<Longrightarrow> c \<in> dom (fo_connections (fl_owner (do_close c r fs)))"
  by (auto simp: do_close_def put_close_def close_defs flags_ok_def conn_closed_def Let_def dom_release
      split: conn_kind.splits if_splits)

text \<open>A flag says closed only when the socket is.\<close>

lemma conn_Close_flag:
  "conn_Close c r k ow = (k', ow', did, err) \<Longrightarrow> conn_closed k' \<Longrightarrow> conn_closed k \<or> did \<and> close_ok r"
  by (cases "fc_kind k") (auto simp: close_defs conn_closed_def Let_def split: if_splits)

lemma put_close_flags:
  assumes "flags_ok fs" "res = (k', ow', did, err)" "conn_closed k' \<Longrightarrow> conn_closed (fl_conns fs c) \<or> did \<and> close_ok r"
  shows "flags_ok (put_close c r res fs)"
  using assms by (auto simp: flags_ok_def put_close_def)

lemma do_close_flags: "flags_ok fs \<Longrightarrow> flags_ok (do_close c r fs)"
  unfolding do_close_def
  by (cases "conn_Close c r (fl_conns fs c) (fl_owner fs)")
     (blast intro: put_close_flags dest: conn_Close_flag)

lemma inv_close:
  assumes "flow_inv fs"
  shows "flow_inv (do_close c r fs)"
proof -
  from assms have fl: "flags_ok fs" and cov: "covered fs" by (auto simp: flow_inv_def)
  have "covered (do_close c r fs)"
    unfolding covered_def
  proof
    fix x assume x: "x \<in> fl_open (do_close c r fs)"
    show "x \<in> dom (fo_connections (fl_owner (do_close c r fs))) \<union> held (do_close c r fs)"
    proof (cases "x = c")
      case True
      with do_close_covers[OF fl] x show ?thesis by auto
    next
      case False
      with x cov do_close_open[of c r fs] do_close_dom(1)[of fs c r] show ?thesis unfolding covered_def do_close_simps by blast
    qed
  qed
  with assms do_close_flags[OF fl] show ?thesis by (simp add: flow_inv_def do_close_owner)
qed

lemma inv_move_close:
  assumes inv: "flow_inv fs" and at: "at fs i k q" "q \<noteq> DDone" "p \<noteq> DDone" and h: "holds q \<subseteq> {c}"
  shows "flow_inv (set_pc i p (do_close c r fs))"
proof (rule inv_move)
  from inv_close[OF inv, of c r] have i: "flow_inv (do_close c r fs)" .
  then show "\<not> fl_panicked (do_close c r fs)" "flags_ok (do_close c r fs)"
    "owner_ok (fl_owner (do_close c r fs)) (in_flight (do_close c r fs))" by (simp_all add: flow_inv_def)
  from inv have "flags_ok fs" by (simp add: flow_inv_def)
  from i do_close_covers[OF this] h
  show "fl_open (do_close c r fs) \<subseteq> dom (fo_connections (fl_owner (do_close c r fs))) \<union> (held (do_close c r fs) - holds q) \<union> holds p"
    by (auto simp: flow_inv_def covered_def)
qed (use at in simp_all)

text \<open>The idle timer closes like \<^verbatim>\<open>Close\<close> does, unless someone was first.\<close>

lemma do_idle_eq:
  "fc_kind (fl_conns fs c) = IdlePacketConn \<Longrightarrow>
     do_idle c r fs = (if fc_closed (fl_conns fs c) then fs else do_close c r fs)"
  by (simp add: do_idle_def do_close_def conn_Close_def idlePacketConn_Close_def closeAfterIdleTimeout_def
      put_close_def split: prod.splits)

lemma inv_idle: "flow_inv fs \<Longrightarrow> fc_kind (fl_conns fs c) = IdlePacketConn \<Longrightarrow> flow_inv (do_idle c r fs)"
  by (simp add: do_idle_eq inv_close)

subsection \<open>Every step preserves it\<close>

lemma inv_begin:
  assumes "flow_inv fs" "beginDial (fl_owner fs) = (ow, None)" "p \<noteq> DDone" "holds p = {}"
  shows "flow_inv (fs\<lparr>fl_owner := ow, fl_dials := fl_dials fs @ [\<lparr>dl_kind = k, dl_pc = p\<rparr>]\<rparr>)"
  using assms by (auto simp: flow_inv_def beginDial_def Let_def owner_ok_def covered_def flags_ok_def held_def in_flight_def
      split: if_splits)

lemma inv_begin_origin:
  assumes "flow_inv fs" "beginDial (fl_owner fs) = (ow, None)"
  shows "flow_inv (open_conn TrackedUDPOrigin
      (fs\<lparr>fl_owner := ow, fl_dials := fl_dials fs @ [\<lparr>dl_kind = DialOrigin, dl_pc = DTrack (fl_next fs)\<rparr>]\<rparr>))"
    (is "flow_inv (open_conn _ ?fs)")
proof -
  have "owner_ok (fl_owner ?fs) (in_flight ?fs)" "\<not> fl_panicked ?fs"
    using assms by (auto simp: flow_inv_def beginDial_def Let_def owner_ok_def in_flight_def split: if_splits)
  moreover have "flags_ok ?fs" using assms by (simp add: flow_inv_def flags_ok_def)
  moreover have "fl_open ?fs \<subseteq> dom (fo_connections (fl_owner ?fs)) \<union> held ?fs" "fl_next fs \<in> held ?fs"
    using assms by (auto simp: flow_inv_def beginDial_def Let_def covered_def held_def split: if_splits)
  ultimately show ?thesis by (simp add: flow_inv_def covered_def flags_open)
qed

lemma inv_open:
  assumes "flow_inv fs" "at fs i k DDialing" "holds p = {fl_next fs}"
  shows "flow_inv (set_pc i p (open_conn kd fs))"
proof (rule inv_move)
  show "fl_open (open_conn kd fs) \<subseteq> dom (fo_connections (fl_owner (open_conn kd fs))) \<union> (held (open_conn kd fs) - holds DDialing) \<union> holds p"
    using assms by (auto simp: flow_inv_def covered_def)
qed (use assms in \<open>auto simp: flow_inv_def flags_open\<close>)

lemma inv_track:
  assumes inv: "flow_inv fs" and at: "at fs i k (DTrack c)"
  shows "flow_inv (do_track i c fs)"
proof -
  have late: "flow_inv (set_pc i (DLate c) fs)"
    by (rule inv_move[OF at]) (use inv in \<open>auto simp: flow_inv_def covered_def\<close>)
  let ?fs = "fs\<lparr>fl_owner := fl_owner fs\<lparr>fo_connections := (fo_connections (fl_owner fs))(c \<mapsto> None)\<rparr>\<rparr>"
  have ok: "flow_inv (set_pc i p ?fs)" if "p \<noteq> DDone" for p
    by (rule inv_move[of ?fs i k "DTrack c"])
      (use inv at that in \<open>auto simp: flow_inv_def covered_def owner_ok_def flags_ok_def\<close>)
  have same: "fs\<lparr>fl_owner := fl_owner fs\<rparr> = fs" by simp
  from late ok show ?thesis by (simp add: do_track_def Let_def track_def same)
qed

lemma endDial_ok:
  assumes "owner_ok ow n" "0 < n"
  shows "\<exists>ow'. endDial ow = Ret ow' \<and> owner_ok ow' (n - 1) \<and> fo_connections ow' = fo_connections ow \<and> fo_closed ow' = fo_closed ow"
proof (cases "n = 1")
  case True
  with assms show ?thesis by (simp add: endDial_def owner_ok_def)
next
  case False
  with assms show ?thesis by (auto simp: endDial_def owner_ok_def of_nat_diff)
qed

lemma inv_endDial:
  assumes inv: "flow_inv fs" and at: "at fs i k DEnd"
  shows "flow_inv (do_endDial i fs)"
proof -
  note n = in_flight_set_pc[OF at, simplified]
  from inv have ow: "owner_ok (fl_owner fs) (in_flight fs)" by (simp add: flow_inv_def)
  from endDial_ok[OF ow n(2)] obtain ow' where e: "endDial (fl_owner fs) = Ret ow'"
    and ok: "owner_ok ow' (in_flight fs - 1)" and dom: "fo_connections ow' = fo_connections (fl_owner fs)" by blast
  have "held fs \<subseteq> held (set_pc i DDone fs)" using held_set_pc(1)[OF at, of DDone] by simp
  then have "held fs \<subseteq> held (set_pc i DDone (fs\<lparr>fl_owner := ow'\<rparr>))" by (simp add: held_def set_pc_def)
  moreover have "in_flight (set_pc i DDone (fs\<lparr>fl_owner := ow'\<rparr>)) = in_flight fs - 1"
    using n(1)[of DDone] by (simp add: in_flight_def set_pc_def)
  ultimately show ?thesis using inv ok dom
    by (auto simp: do_endDial_def e flow_inv_def covered_def flags_ok_def)
qed

lemma inv_seal: "flow_inv fs \<Longrightarrow> flow_inv (do_seal fs)"
  by (auto simp: do_seal_def seal_def flow_inv_def owner_ok_def covered_def flags_ok_def Let_def split: option.splits bool.splits)

lemma flow_step_inv: "flow_step fs fs' \<Longrightarrow> flow_inv fs \<Longrightarrow> flow_inv fs'"
proof (induction rule: flow_step.induct)
  case (tcp_context fs i)
  let ?fs = "fs\<lparr>fl_owner := pendingTCPContext (fl_owner fs)\<rparr>"
  show ?case
    by (rule inv_move[of ?fs i DialTCP DContext])
      (use tcp_context in \<open>auto simp: flow_inv_def pendingTCPContext_def Let_def owner_ok_def covered_def flags_ok_def\<close>)
next
  case (dial_error fs i k)
  then show ?case by (intro inv_move[of fs i k DDialing]) (auto simp: flow_inv_def covered_def)
next
  case (handshake_ok fs i c)
  let ?fs = "fs\<lparr>fl_conns := (fl_conns fs)(c := new_conn TrackedConn)\<rparr>"
  show ?case
    by (rule inv_move[of ?fs i DialTCP "DHandshake c"])
      (use handshake_ok in \<open>auto simp: flow_inv_def covered_def flags_ok_def new_conn_def conn_closed_def\<close>)
next
  case (handshake_canceled fs i c r)
  have "flow_inv (set_pc i (DRefused c) (do_close c r fs))"
    by (rule inv_move_close[OF handshake_canceled(3,1)]) simp_all
  then show ?case .
next
  case (handshake_failed fs i c)
  then show ?case by (intro inv_move[of fs i DialTCP "DHandshake c"]) (auto simp: flow_inv_def covered_def)
next
  case (refused_close fs i c r)
  show ?case by (rule inv_move_close[OF refused_close(3,1)]) simp_all
next
  case (late_close fs i k c r)
  show ?case by (rule inv_move_close[OF late_close(3,1)]) simp_all
next
  case (dispatched fs i c)
  let ?fs = "fs\<lparr>fl_owner := flow_done (fl_owner fs)\<rparr>"
  show ?case
    by (rule inv_move[of ?fs i DialOrigin "DDispatch c"])
      (use dispatched in \<open>auto simp: flow_inv_def flow_done_def owner_ok_def covered_def flags_ok_def split: option.splits\<close>)
next
  case (dispatch_retired fs i c r)
  let ?fs = "fs\<lparr>fl_owner := flow_done (fl_owner fs)\<rparr>"
  have "flow_inv ?fs"
    using dispatch_retired(4) by (auto simp: flow_inv_def flow_done_def owner_ok_def covered_def flags_ok_def split: option.splits)
  then show ?case by (rule inv_move_close[of ?fs i DialOrigin "DDispatch c"]) (use dispatch_retired(1) in simp_all)
next
  case (dial_direct fs i)
  then show ?case by (intro inv_open) auto
next
  case (dial_udp fs i)
  then show ?case by (intro inv_open) auto
next
  case (dial_socks fs i)
  then show ?case by (intro inv_open) auto
qed (auto intro: inv_begin inv_begin_origin inv_track inv_endDial inv_close inv_idle inv_seal)

interpretation flow: invariant_system "\<lambda>fs. fs = new_flows" flow_step flow_inv
  by unfold_locales (auto intro: flow_inv_new flow_step_inv)


section \<open>Sealed owners\<close>

text \<open>A sealed owner with no dial in flight and no connection retained.\<close>

definition flow_clean :: "flows \<Rightarrow> bool" where
  "flow_clean fs \<longleftrightarrow> fo_closed (fl_owner fs) \<and> fo_pending (fl_owner fs) = 0 \<and> fo_connections (fl_owner fs) = Map.empty"

text \<open>What a call of \<^verbatim>\<open>wait\<close> on a sealed owner knows while it blocks.\<close>

definition snapshot_ok :: "int \<times> nat \<Rightarrow> flow_owner \<Rightarrow> bool" where
  "snapshot_ok snapshot ow \<longleftrightarrow> fo_closed ow \<and> snd snapshot = fo_settled ow \<and> (fst snapshot = 0 \<longrightarrow> fo_pending ow = 0)"

lemma flow_inv_idle: "flow_inv fs \<Longrightarrow> fo_pending (fl_owner fs) = 0 \<Longrightarrow> at fs i k p \<Longrightarrow> p = DDone"
  using in_flight_set_pc(2)[of fs i k p] by (auto simp: flow_inv_def owner_ok_def)

lemma clean_open: "flow_inv fs \<Longrightarrow> flow_clean fs \<Longrightarrow> fl_open fs = {} \<and> in_flight fs = 0"
proof -
  assume inv: "flow_inv fs" and c: "flow_clean fs"
  then have n: "in_flight fs = 0" by (simp add: flow_inv_def owner_ok_def flow_clean_def)
  then have "\<forall>d\<in>set (fl_dials fs). dl_pc d = DDone" by (simp add: in_flight_def filter_empty_conv)
  then have "held fs = {}" by (auto simp: held_def)
  with inv c n show ?thesis by (auto simp: flow_inv_def covered_def flow_clean_def)
qed

lemma clean_close: "flow_inv fs \<Longrightarrow> flow_clean fs \<Longrightarrow> result_ok fs c r \<Longrightarrow> flow_clean (do_close c r fs)"
proof -
  assume inv: "flow_inv fs" and c: "flow_clean fs" and r: "result_ok fs c r"
  from clean_open[OF inv c] r have ok: "close_ok r" by (simp add: result_ok_def)
  then have "fo_connections (fl_owner (do_close c r fs)) \<subseteq>\<^sub>m fo_connections (fl_owner fs)"
    by (auto simp: do_close_def put_close_def close_defs Let_def map_le_def flow_release_def
        split: conn_kind.splits if_splits)
  with c have "fo_connections (fl_owner (do_close c r fs)) = Map.empty"
    by (simp add: flow_clean_def map_le_def fun_eq_iff dom_def) (metis option.exhaust)
  then show ?thesis using c by (simp add: flow_clean_def do_close_owner)
qed

text \<open>Nothing starts on a sealed owner, so sealing and draining are final.\<close>

lemma flow_closed_stays: "flow_step fs fs' \<Longrightarrow> fo_closed (fl_owner fs) \<Longrightarrow> fo_closed (fl_owner fs')"
  by (induction rule: flow_step.induct)
     (auto simp: beginDial_def pendingTCPContext_def Let_def do_close_owner do_idle_eq do_track_def track_def
        flow_done_def do_endDial_def endDial_def do_seal_def seal_def open_conn_def
      split: option.splits outcome.splits if_splits)

lemma clean_idle: "flow_inv fs \<Longrightarrow> flow_clean fs \<Longrightarrow> result_ok fs c r \<Longrightarrow> fc_kind (fl_conns fs c) = IdlePacketConn \<Longrightarrow>
    flow_clean (do_idle c r fs)"
  by (simp add: do_idle_eq clean_close)

lemma clean_refuses: "flow_clean fs \<Longrightarrow> beginDial (fl_owner fs) \<noteq> (ow, None)"
  by (simp add: flow_clean_def beginDial_def)

lemma clean_at: "flow_inv fs \<Longrightarrow> flow_clean fs \<Longrightarrow> at fs i k p \<Longrightarrow> p = DDone"
  by (rule flow_inv_idle) (simp_all add: flow_clean_def)

lemma flow_clean_stays: "flow_step fs fs' \<Longrightarrow> flow_inv fs \<Longrightarrow> flow_clean fs \<Longrightarrow> flow_clean fs'"
proof (induction rule: flow_step.induct)
  case (seals fs)
  then show ?case by (auto simp: do_seal_def seal_def flow_clean_def Let_def split: option.splits)
qed (auto dest: clean_at clean_refuses intro: clean_close clean_idle)

lemma snapshot_step: "flow_step fs fs' \<Longrightarrow> flow_inv fs \<Longrightarrow> snapshot_ok s (fl_owner fs) \<Longrightarrow> snapshot_ok s (fl_owner fs')"
proof (induction rule: flow_step.induct)
  case (dial_end fs i k)
  then have "fst s \<noteq> 0" using flow_inv_idle[of fs i k DEnd] by (auto simp: snapshot_ok_def)
  with dial_end.prems show ?case
    by (auto simp: snapshot_ok_def do_endDial_def endDial_def Let_def split: outcome.splits if_splits)
next
  case (idle c fs r)
  then show ?case by (auto simp: snapshot_ok_def do_idle_eq do_close_owner)
next
  case (seals fs)
  then show ?case by (auto simp: snapshot_ok_def do_seal_def seal_def Let_def split: option.splits)
qed (auto simp: snapshot_ok_def do_close_owner beginDial_def pendingTCPContext_def Let_def do_track_def track_def flow_done_def
  split: option.splits)

lemma snapshot_begin: "fo_closed ow \<Longrightarrow> snapshot_ok (flow_wait_begin ow) ow"
  by (simp add: snapshot_ok_def flow_wait_begin_def)

lemma snapshot_close: "snapshot_ok s (fl_owner fs) \<Longrightarrow> snapshot_ok s (fl_owner (do_close c r fs))"
  by (simp add: snapshot_ok_def do_close_owner)

lemma residual_None: "residualErrorLocked order ow = None \<longleftrightarrow> order = []"
  by (cases order) (auto simp: residualErrorLocked_def split: option.splits)

text \<open>A nil result of \<^verbatim>\<open>wait\<close> on a sealed owner means that it is drained.\<close>

lemma wait_clean:
  assumes "flow_inv fs" "snapshot_ok s (fl_owner fs)" "set order = dom (fo_connections (fl_owner fs))"
    and w: "flow_wait_end s expired order (fl_owner fs) = Some None"
  shows "flow_clean fs"
proof -
  from w have "order = []"
    by (auto simp: flow_wait_end_def residual_None split: if_splits option.splits)
  with assms(3) have e: "fo_connections (fl_owner fs) = Map.empty" by (simp add: dom_eq_empty_conv[symmetric])
  have "fo_pending (fl_owner fs) = 0"
  proof (cases "fst s = 0")
    case True
    with assms(2) show ?thesis by (simp add: snapshot_ok_def)
  next
    case False
    with w assms(1,2) show ?thesis
      by (auto simp: flow_wait_end_def settled_ready_def snapshot_ok_def flow_inv_def owner_ok_def split: option.splits if_splits)
  qed
  with e assms(2) show ?thesis by (simp add: flow_clean_def snapshot_ok_def)
qed

text \<open>One step opens or closes at most one socket.\<close>

lemma do_close_open_cases: "fl_open (do_close c r fs) = fl_open fs \<or> fl_open (do_close c r fs) = fl_open fs - {c}"
  by (auto simp: do_close_def put_close_def split: prod.splits)

lemma flow_step_open: "flow_step fs fs' \<Longrightarrow>
    fl_open fs' = fl_open fs \<or> (\<exists>c. fl_open fs' = insert c (fl_open fs)) \<or> (\<exists>c. fl_open fs' = fl_open fs - {c})"
proof (induction rule: flow_step.induct)
  case (dispatch_retired fs i c r)
  then show ?case using do_close_open_cases[of c r "fs\<lparr>fl_owner := flow_done (fl_owner fs)\<rparr>"] by auto
next
  case (tracked fs i k c)
  then show ?case by (auto simp: do_track_def Let_def track_def)
next
  case (dial_end fs i k)
  then show ?case by (simp add: do_endDial_def split: outcome.splits)
next
  case (seals fs)
  then show ?case by (simp add: do_seal_def split: outcome.splits)
next
  case (idle c fs r)
  then show ?case using do_close_open_cases[of c r fs] by (auto simp: do_idle_eq)
next
  case (handshake_canceled fs i c r)
  then show ?case using do_close_open_cases[of c r fs] by auto
next
  case (refused_close fs i c r)
  then show ?case using do_close_open_cases[of c r fs] by auto
next
  case (late_close fs i k c r)
  then show ?case using do_close_open_cases[of c r fs] by auto
next
  case (close c fs r)
  then show ?case using do_close_open_cases[of c r fs] by auto
qed auto

end
