(* ===== verification/Tunnel_Engine.thy ===== *)
theory Tunnel_Engine
  imports Flow_Owner
begin

text \<open>
  The tunnel engine (\<^verbatim>\<open>core/tunnel/tunnel.go\<close>) and the router in front of it (\<^verbatim>\<open>switching_proxy.go\<close>).
  \<^verbatim>\<open>Attach\<close> installs the proxy of one transport attempt, \<^verbatim>\<open>Detach\<close> fences and drains it, \<^verbatim>\<open>Stop\<close> closes the
  router, stops the platform engine and drains what is left.

  The proxies an engine has made are numbered; each has the flows of theory \<open>Flow_Owner\<close>. \<^verbatim>\<open>Detach\<close> and
  \<^verbatim>\<open>Stop\<close> hold the engine's mutex throughout and interleave with the dialing goroutines, so they are
  sequences of steps with the program counter \<open>en_op\<close>. \<open>en_owner\<close> says that the process-wide \<^verbatim>\<open>activeEngine\<close>
  is this handle; \<open>en_last\<close> is the result of the last operation that returned.
\<close>

section \<open>The router\<close>

record router =
  ro_target :: "nat option"
  ro_changed :: nat
  ro_closed :: bool

definition newSwitchingProxy :: router where
  "newSwitchingProxy = \<lparr>ro_target = None, ro_changed = 0, ro_closed = False\<rparr>"

definition router_set :: "nat option \<Rightarrow> router \<Rightarrow> router" where
  "router_set target p = (if ro_closed p then p else p\<lparr>ro_target := target, ro_changed := Suc (ro_changed p)\<rparr>)"

definition router_close :: "router \<Rightarrow> router" where
  "router_close p = (if ro_closed p then p else p\<lparr>ro_closed := True, ro_target := None, ro_changed := Suc (ro_changed p)\<rparr>)"

text \<open>
  One turn of the loop of \<^verbatim>\<open>DialContext\<close>: it fails, dials the target, or waits until the router changes
  or the context ends.
\<close>

datatype router_turn = Fails go_error | Dials nat | Waits nat

definition router_DialContext :: "go_error option \<Rightarrow> router \<Rightarrow> router_turn" where
  "router_DialContext ctxErr p =
     (if ro_closed p then Fails (Sentinel NetErrClosed)
      else (case ctxErr of
          Some err \<Rightarrow> Fails err
        | None \<Rightarrow> (case ro_target p of Some t \<Rightarrow> Dials t | None \<Rightarrow> Waits (ro_changed p))))"

definition router_DialUDP :: "router \<Rightarrow> go_error + nat" where
  "router_DialUDP p = (case ro_target p of None \<Rightarrow> Inl (Sentinel NetErrClosed) | Some t \<Rightarrow> Inr t)"

text \<open>\<^verbatim>\<open>HandleUDP\<close> admits a packet flow under the router's mutex, or closes its input at once.\<close>

definition HandleUDP_admit :: "router \<Rightarrow> (nat \<Rightarrow> flow_owner) \<Rightarrow> (nat \<times> flow_owner) option" where
  "HandleUDP_admit p owners = (case ro_target p of
       None \<Rightarrow> None
     | Some t \<Rightarrow> (case beginDial (owners t) of
         (ow, None) \<Rightarrow> Some (t, ow)
       | (ow, Some err) \<Rightarrow> None))"

section \<open>The engine\<close>

datatype engine_op =
    OpIdle
  | OpDetachClose "nat list"
  | OpDetachWait "int \<times> nat"
  | OpStopClose "nat list"
  | OpStopPlatform
  | OpStopWait "go_error option" "int \<times> nat"

record engine =
  en_stopped :: bool
  en_stopErr :: "go_error option"
  en_proxy :: "nat option"
  en_attempt :: u64
  en_router :: router
  en_flows :: "nat \<Rightarrow> flows"
  en_count :: nat
  en_owner :: bool
  en_op :: engine_op
  en_last :: "go_error option"

definition new_engine :: engine where
  "new_engine = \<lparr>en_stopped = False, en_stopErr = None, en_proxy = None, en_attempt = 0,
     en_router = newSwitchingProxy, en_flows = (\<lambda>_. new_flows), en_count = 0, en_owner = True,
     en_op = OpIdle, en_last = None\<rparr>"

text \<open>
  What the environment decides during an attach: the context's error, whether the resolver cache and
  the bypass policy are there, and the first error of building the SOCKS proxies for the address.
\<close>

record attach_env =
  ae_ctxErr :: "go_error option"
  ae_inputs :: bool
  ae_buildErr :: "go_error option"

definition attachLocked :: "attach_env \<Rightarrow> u64 \<Rightarrow> engine \<Rightarrow> engine \<times> go_error option" where
  "attachLocked env generation e = (case ae_ctxErr env of
       Some err \<Rightarrow> (e, Some err)
     | None \<Rightarrow>
         if \<not> ae_inputs env then (e, Some (Plain ''attempt resolver and bypass policy are required''))
         else (case ae_buildErr env of
             Some err \<Rightarrow> (e, Some err)
           | None \<Rightarrow>
               (e\<lparr>en_flows := (en_flows e)(en_count e := new_flows), en_count := Suc (en_count e),
                  en_proxy := Some (en_count e), en_attempt := generation,
                  en_router := router_set (Some (en_count e)) (en_router e)\<rparr>, None)))"

definition Attach :: "attach_env \<Rightarrow> u64 \<Rightarrow> engine \<Rightarrow> engine \<times> go_error option" where
  "Attach env generation e =
     (if en_stopped e then (e, Some (Sentinel NetErrClosed))
      else if en_proxy e \<noteq> None then (e, Some (Plain ''previous attempt still owns flows''))
      else attachLocked env generation e)"

definition on_proxy :: "nat \<Rightarrow> (flows \<Rightarrow> flows) \<Rightarrow> engine \<Rightarrow> engine" where
  "on_proxy p f e = e\<lparr>en_flows := (en_flows e)(p := f (en_flows e p))\<rparr>"

text \<open>\<^verbatim>\<open>Detach\<close> up to the closing of the flows it found; \<open>order\<close> is the order in which the map lists them.\<close>

definition Detach :: "nat list \<Rightarrow> u64 \<Rightarrow> engine \<Rightarrow> engine" where
  "Detach order generation e = (case en_proxy e of
       None \<Rightarrow> e\<lparr>en_last := None\<rparr>
     | Some p \<Rightarrow>
         if en_attempt e \<noteq> generation then e\<lparr>en_last := None\<rparr>
         else (on_proxy p do_seal (e\<lparr>en_router := router_set None (en_router e)\<rparr>))\<lparr>en_op := OpDetachClose order\<rparr>)"

definition detach_finish :: "go_error option \<Rightarrow> engine \<Rightarrow> engine" where
  "detach_finish res e = (case res of
       Some err \<Rightarrow> e\<lparr>en_op := OpIdle, en_last := Some err\<rparr>
     | None \<Rightarrow> e\<lparr>en_proxy := None, en_op := OpIdle, en_last := None\<rparr>)"

definition Engine_Stop :: "nat list \<Rightarrow> engine \<Rightarrow> engine" where
  "Engine_Stop order e =
     (if en_stopped e then e\<lparr>en_last := en_stopErr e\<rparr>
      else if \<not> en_owner e then e\<lparr>en_last := None\<rparr>
      else (let e1 = e\<lparr>en_router := router_close (en_router e)\<rparr> in
        case en_proxy e1 of
          None \<Rightarrow> e1\<lparr>en_op := OpStopPlatform\<rparr>
        | Some p \<Rightarrow> (on_proxy p do_seal e1)\<lparr>en_op := OpStopClose order\<rparr>))"

definition stop_finish :: "go_error option \<Rightarrow> go_error option \<Rightarrow> engine \<Rightarrow> engine" where
  "stop_finish platformErr flowErr e =
     (let err = errors_join [platformErr, flowErr] in
      if err \<noteq> None then e\<lparr>en_stopErr := err, en_op := OpIdle, en_last := err\<rparr>
      else e\<lparr>en_stopErr := None, en_stopped := True, en_owner := False, en_op := OpIdle, en_last := None\<rparr>)"

definition stop_platform :: "go_error option \<Rightarrow> engine \<Rightarrow> engine" where
  "stop_platform platformErr e = (case en_proxy e of
       None \<Rightarrow> stop_finish platformErr None e
     | Some p \<Rightarrow> e\<lparr>en_op := OpStopWait platformErr (flow_wait_begin (fl_owner (en_flows e p)))\<rparr>)"

definition listed :: "nat list \<Rightarrow> flows \<Rightarrow> bool" where
  "listed order fs \<longleftrightarrow> distinct order \<and> set order = dom (fo_connections (fl_owner fs))"

inductive engine_step :: "engine \<Rightarrow> engine \<Rightarrow> bool" where
  flow: "i < en_count e \<Longrightarrow> flow_step (en_flows e i) fs \<Longrightarrow>
    fo_closed (fl_owner fs) = fo_closed (fl_owner (en_flows e i)) \<Longrightarrow>
    engine_step e (on_proxy i (\<lambda>_. fs) e)"
| attach: "en_op e = OpIdle \<Longrightarrow> Attach env generation e = (e', res) \<Longrightarrow> engine_step e (e'\<lparr>en_last := res\<rparr>)"
| detach: "en_op e = OpIdle \<Longrightarrow> (\<And>p. en_proxy e = Some p \<Longrightarrow> listed order (en_flows e p)) \<Longrightarrow>
    engine_step e (Detach order generation e)"
| detach_close: "en_op e = OpDetachClose (c # cs) \<Longrightarrow> en_proxy e = Some p \<Longrightarrow> result_ok (en_flows e p) c r \<Longrightarrow>
    engine_step e ((on_proxy p (do_close c r) e)\<lparr>en_op := OpDetachClose cs\<rparr>)"
| detach_closed: "en_op e = OpDetachClose [] \<Longrightarrow> en_proxy e = Some p \<Longrightarrow>
    engine_step e (e\<lparr>en_op := OpDetachWait (flow_wait_begin (fl_owner (en_flows e p)))\<rparr>)"
| detach_wait: "en_op e = OpDetachWait s \<Longrightarrow> en_proxy e = Some p \<Longrightarrow> listed order (en_flows e p) \<Longrightarrow>
    flow_wait_end s expired order (fl_owner (en_flows e p)) = Some res \<Longrightarrow> engine_step e (detach_finish res e)"
| stop: "en_op e = OpIdle \<Longrightarrow> (\<And>p. en_proxy e = Some p \<Longrightarrow> listed order (en_flows e p)) \<Longrightarrow>
    engine_step e (Engine_Stop order e)"
| stop_close: "en_op e = OpStopClose (c # cs) \<Longrightarrow> en_proxy e = Some p \<Longrightarrow> result_ok (en_flows e p) c r \<Longrightarrow>
    engine_step e ((on_proxy p (do_close c r) e)\<lparr>en_op := OpStopClose cs\<rparr>)"
| stop_closed: "en_op e = OpStopClose [] \<Longrightarrow> engine_step e (e\<lparr>en_op := OpStopPlatform\<rparr>)"
| stop_platforms: "en_op e = OpStopPlatform \<Longrightarrow> engine_step e (stop_platform platformErr e)"
| stop_wait: "en_op e = OpStopWait platformErr s \<Longrightarrow> en_proxy e = Some p \<Longrightarrow> listed order (en_flows e p) \<Longrightarrow>
    flow_wait_end s expired order (fl_owner (en_flows e p)) = Some res \<Longrightarrow> engine_step e (stop_finish platformErr res e)"

section \<open>The invariant\<close>

definition sealed :: "engine \<Rightarrow> bool" where
  "sealed e \<longleftrightarrow> (\<forall>p. en_proxy e = Some p \<longrightarrow> fo_closed (fl_owner (en_flows e p)))"

definition op_ok :: "engine \<Rightarrow> bool" where
  "op_ok e = (case en_op e of
       OpIdle \<Rightarrow> True
     | OpDetachClose cs \<Rightarrow> en_proxy e \<noteq> None \<and> sealed e \<and> ro_target (en_router e) = None
     | OpDetachWait s \<Rightarrow> ro_target (en_router e) = None
         \<and> (\<exists>p. en_proxy e = Some p \<and> snapshot_ok s (fl_owner (en_flows e p)))
     | OpStopClose cs \<Rightarrow> en_proxy e \<noteq> None \<and> sealed e \<and> ro_closed (en_router e)
     | OpStopPlatform \<Rightarrow> sealed e \<and> ro_closed (en_router e)
     | OpStopWait pe s \<Rightarrow> ro_closed (en_router e)
         \<and> (\<exists>p. en_proxy e = Some p \<and> snapshot_ok s (fl_owner (en_flows e p))))"

definition router_ok :: "engine \<Rightarrow> bool" where
  "router_ok e \<longleftrightarrow> (\<forall>t. ro_target (en_router e) = Some t \<longrightarrow> en_proxy e = Some t)
     \<and> (ro_closed (en_router e) \<longrightarrow> ro_target (en_router e) = None)"

fun stop_op :: "engine_op \<Rightarrow> bool" where
  "stop_op (OpStopClose cs) = True"
| "stop_op OpStopPlatform = True"
| "stop_op (OpStopWait pe s) = True"
| "stop_op _ = False"

definition eng_inv :: "engine \<Rightarrow> bool" where
  "eng_inv e \<longleftrightarrow> (\<forall>i<en_count e. flow_inv (en_flows e i))
     \<and> (\<forall>i<en_count e. en_proxy e \<noteq> Some i \<longrightarrow> flow_clean (en_flows e i))
     \<and> (\<forall>p. en_proxy e = Some p \<longrightarrow> p < en_count e)
     \<and> op_ok e \<and> router_ok e
     \<and> (en_stopped e \<longrightarrow> (\<forall>i<en_count e. flow_clean (en_flows e i)) \<and> ro_closed (en_router e) \<and> \<not> stop_op (en_op e))
     \<and> (en_stopped e \<longleftrightarrow> \<not> en_owner e)"

lemma eng_inv_new: "eng_inv new_engine"
  by (simp add: eng_inv_def new_engine_def op_ok_def router_ok_def newSwitchingProxy_def)

lemmas router_defs = router_set_def router_close_def
lemmas engine_defs = on_proxy_def attachLocked_def Attach_def Detach_def detach_finish_def Engine_Stop_def
  stop_finish_def stop_platform_def

lemma closed_seal: "flow_inv fs \<Longrightarrow> fo_closed (fl_owner (do_seal fs))"
  by (auto simp: do_seal_def seal_def flow_inv_def owner_ok_def Let_def split: option.splits bool.splits)

lemma on_proxy_simps [simp]:
  "en_stopped (on_proxy i f e) = en_stopped e" "en_proxy (on_proxy i f e) = en_proxy e"
  "en_router (on_proxy i f e) = en_router e" "en_count (on_proxy i f e) = en_count e"
  "en_owner (on_proxy i f e) = en_owner e" "en_op (on_proxy i f e) = en_op e"
  "en_flows (on_proxy i f e) = (en_flows e)(i := f (en_flows e i))"
  by (simp_all add: on_proxy_def)

lemma inv_on_proxy:
  assumes "eng_inv e" "i < en_count e" "flow_inv (f (en_flows e i))"
    and "flow_clean (en_flows e i) \<Longrightarrow> flow_clean (f (en_flows e i))"
    and "fo_closed (fl_owner (en_flows e i)) \<Longrightarrow> fo_closed (fl_owner (f (en_flows e i)))"
    and "\<And>s. snapshot_ok s (fl_owner (en_flows e i)) \<Longrightarrow> snapshot_ok s (fl_owner (f (en_flows e i)))"
  shows "eng_inv (on_proxy i f e)"
proof -
  have "op_ok (on_proxy i f e)"
    using assms(1,5,6) by (cases "en_op e") (auto simp: eng_inv_def op_ok_def sealed_def)
  moreover have "router_ok (on_proxy i f e)" using assms(1) by (simp add: eng_inv_def router_ok_def)
  moreover have "\<forall>j<en_count e. flow_inv (((en_flows e)(i := f (en_flows e i))) j)"
    using assms(1,3) by (simp add: eng_inv_def)
  moreover have "flow_clean (((en_flows e)(i := f (en_flows e i))) j)"
    if "flow_clean (en_flows e j)" for j
    using that assms(4) by auto
  ultimately show ?thesis using assms(1) unfolding eng_inv_def by simp
qed

lemma inv_proxy_step:
  assumes "eng_inv e" "i < en_count e" "flow_step (en_flows e i) fs"
  shows "eng_inv (on_proxy i (\<lambda>_. fs) e)"
proof -
  from assms have inv: "flow_inv (en_flows e i)" by (simp add: eng_inv_def)
  show ?thesis
    by (rule inv_on_proxy[OF assms(1,2)])
      (use assms(3) inv in \<open>auto intro: flow_step_inv flow_clean_stays flow_closed_stays snapshot_step\<close>)
qed

lemma inv_proxy_close:
  assumes "eng_inv e" "en_proxy e = Some p" "result_ok (en_flows e p) c r"
  shows "eng_inv (on_proxy p (do_close c r) e)"
proof -
  from assms have p: "p < en_count e" and inv: "flow_inv (en_flows e p)" by (auto simp: eng_inv_def)
  show ?thesis
    by (rule inv_on_proxy[OF assms(1) p])
      (use assms(3) inv in \<open>auto simp: do_close_owner intro: inv_close clean_close snapshot_close\<close>)
qed

lemma inv_proxy_seal:
  assumes "eng_inv e" "en_proxy e = Some p"
  shows "eng_inv (on_proxy p do_seal e)"
proof -
  from assms have p: "p < en_count e" and inv: "flow_inv (en_flows e p)" by (auto simp: eng_inv_def)
  have s: "flow_step (en_flows e p) (do_seal (en_flows e p))" by (rule seals)
  show ?thesis
    by (rule inv_on_proxy[OF assms(1) p])
      (use s inv in \<open>auto intro: flow_step_inv flow_clean_stays flow_closed_stays snapshot_step\<close>)
qed

text \<open>Changing only the program counter, the router or the recorded result.\<close>

lemma inv_op: "eng_inv e \<Longrightarrow> op_ok (e\<lparr>en_op := x\<rparr>) \<Longrightarrow> \<not> en_stopped e \<or> \<not> stop_op x \<Longrightarrow> eng_inv (e\<lparr>en_op := x\<rparr>)"
  by (auto simp add: eng_inv_def router_ok_def)

lemma inv_last: "eng_inv (e\<lparr>en_last := x\<rparr>) \<longleftrightarrow> eng_inv e"
  by (simp add: eng_inv_def router_ok_def op_ok_def sealed_def cong: engine_op.case_cong)

lemma inv_router:
  assumes "eng_inv e" "en_op e = OpIdle"
  shows "eng_inv (e\<lparr>en_router := router_set None (en_router e)\<rparr>)" "eng_inv (e\<lparr>en_router := router_close (en_router e)\<rparr>)"
  using assms by (auto simp: eng_inv_def router_ok_def op_ok_def router_defs)

lemma inv_attach:
  assumes "eng_inv e" "en_op e = OpIdle" "Attach env generation e = (e', res)"
  shows "eng_inv e'"
  using assms
  by (auto simp: Attach_def attachLocked_def eng_inv_def op_ok_def router_ok_def router_set_def flow_inv_new less_Suc_eq
      split: option.splits if_splits)

lemma inv_detach:
  assumes "eng_inv e" "en_op e = OpIdle"
  shows "eng_inv (Detach order generation e)"
proof (cases "\<exists>p. en_proxy e = Some p \<and> en_attempt e = generation")
  case True
  then obtain p where Some: "en_proxy e = Some p" and gen: "en_attempt e = generation" by blast
  let ?r = "e\<lparr>en_router := router_set None (en_router e)\<rparr>"
  from inv_router(1)[OF assms] Some have s: "eng_inv (on_proxy p do_seal ?r)" by (intro inv_proxy_seal) auto
  from assms Some have "flow_inv (en_flows e p)" by (simp add: eng_inv_def)
  then have "sealed (on_proxy p do_seal ?r)" using Some by (simp add: sealed_def closed_seal)
  moreover have "ro_target (router_set None (en_router e)) = None"
    using assms(1) by (auto simp: router_set_def eng_inv_def router_ok_def)
  ultimately have "eng_inv ((on_proxy p do_seal ?r)\<lparr>en_op := OpDetachClose order\<rparr>)"
    using s Some by (intro inv_op) (auto simp: op_ok_def sealed_def)
  with Some gen show ?thesis by (simp add: Detach_def)
next
  case False
  with assms show ?thesis by (cases "en_proxy e") (auto simp: Detach_def inv_last)
qed

lemma inv_engine_stop:
  assumes "eng_inv e" "en_op e = OpIdle"
  shows "eng_inv (Engine_Stop order e)"
proof (cases "en_stopped e \<or> \<not> en_owner e")
  case True
  with assms show ?thesis by (auto simp: Engine_Stop_def inv_last)
next
  case False
  let ?r = "e\<lparr>en_router := router_close (en_router e)\<rparr>"
  have r: "eng_inv ?r" by (rule inv_router(2)[OF assms])
  have cl: "ro_closed (router_close (en_router e))" by (simp add: router_close_def)
  show ?thesis
  proof (cases "en_proxy e")
    case None
    with False r cl have "eng_inv (?r\<lparr>en_op := OpStopPlatform\<rparr>)"
      by (intro inv_op) (auto simp: op_ok_def sealed_def)
    with None False show ?thesis by (simp add: Engine_Stop_def)
  next
    case (Some p)
    with r have s: "eng_inv (on_proxy p do_seal ?r)" by (intro inv_proxy_seal) auto
    from assms Some have "flow_inv (en_flows e p)" by (simp add: eng_inv_def)
    then have "sealed (on_proxy p do_seal ?r)" using Some by (simp add: sealed_def closed_seal)
    with s Some False cl have "eng_inv ((on_proxy p do_seal ?r)\<lparr>en_op := OpStopClose order\<rparr>)"
      by (intro inv_op) (auto simp: op_ok_def sealed_def)
    with Some False show ?thesis by (simp add: Engine_Stop_def Let_def)
  qed
qed

lemma inv_clean_all:
  "eng_inv e \<Longrightarrow> (\<And>p. en_proxy e = Some p \<Longrightarrow> flow_clean (en_flows e p)) \<Longrightarrow> i < en_count e \<Longrightarrow> flow_clean (en_flows e i)"
  by (cases "en_proxy e = Some i") (auto simp: eng_inv_def)

lemma inv_stop_finish:
  assumes "eng_inv e" "ro_closed (en_router e)" "stop_op (en_op e)"
    and "fe = None \<Longrightarrow> (\<And>p. en_proxy e = Some p \<Longrightarrow> flow_clean (en_flows e p))"
  shows "eng_inv (stop_finish pe fe e)"
proof (cases "errors_join [pe, fe] = None")
  case True
  then have "fe = None" by simp
  with inv_clean_all[OF assms(1) assms(4)] have c: "\<forall>i<en_count e. flow_clean (en_flows e i)" by blast
  from True have "stop_finish pe fe e =
      e\<lparr>en_stopErr := None, en_stopped := True, en_owner := False, en_op := OpIdle, en_last := None\<rparr>"
    by (simp add: stop_finish_def Let_def True del: errors_join_None)
  with c assms(1,2) show ?thesis by (simp add: eng_inv_def op_ok_def router_ok_def)
next
  case False
  then have "stop_finish pe fe e = e\<lparr>en_stopErr := errors_join [pe, fe], en_op := OpIdle, en_last := errors_join [pe, fe]\<rparr>"
    by (simp add: stop_finish_def Let_def del: errors_join_None)
  with assms(1) show ?thesis by (simp add: eng_inv_def op_ok_def router_ok_def)
qed

lemma engine_step_inv: "engine_step e e' \<Longrightarrow> eng_inv e \<Longrightarrow> eng_inv e'"
proof (induction rule: engine_step.induct)
  case (flow i e fs)
  then show ?case by (intro inv_proxy_step)
next
  case (attach e env generation e' res)
  then show ?case by (simp add: inv_last inv_attach)
next
  case (detach e order generation)
  then show ?case by (intro inv_detach)
next
  case (detach_close e c cs p r)
  then have "eng_inv (on_proxy p (do_close c r) e)" by (intro inv_proxy_close)
  then show ?case using detach_close
    by (intro inv_op) (auto simp: eng_inv_def op_ok_def sealed_def)
next
  case (detach_closed e p)
  then have "fo_closed (fl_owner (en_flows e p))" by (auto simp: eng_inv_def op_ok_def sealed_def)
  with detach_closed show ?case
    by (intro inv_op) (auto simp: eng_inv_def op_ok_def snapshot_begin)
next
  case (detach_wait e s p order expired res)
  then have o: "snapshot_ok s (fl_owner (en_flows e p))" "flow_inv (en_flows e p)" "ro_target (en_router e) = None"
    by (auto simp: eng_inv_def op_ok_def)
  show ?case
  proof (cases res)
    case None
    with detach_wait o have "flow_clean (en_flows e p)" by (intro wait_clean) (auto simp: listed_def)
    with None detach_wait o show ?thesis by (auto simp: detach_finish_def eng_inv_def op_ok_def router_ok_def)
  next
    case (Some err)
    with detach_wait show ?thesis by (simp add: detach_finish_def eng_inv_def op_ok_def router_ok_def)
  qed
next
  case (stop e order)
  then show ?case by (intro inv_engine_stop)
next
  case (stop_close e c cs p r)
  then have "eng_inv (on_proxy p (do_close c r) e)" by (intro inv_proxy_close)
  then show ?case using stop_close
    by (intro inv_op) (auto simp: eng_inv_def op_ok_def sealed_def)
next
  case (stop_closed e)
  then show ?case by (intro inv_op) (auto simp: eng_inv_def op_ok_def sealed_def)
next
  case (stop_platforms e platformErr)
  show ?case
  proof (cases "en_proxy e")
    case None
    with stop_platforms show ?thesis
      by (simp add: stop_platform_def) (intro inv_stop_finish; auto simp: eng_inv_def op_ok_def)
  next
    case (Some p)
    with stop_platforms have "fo_closed (fl_owner (en_flows e p))" by (auto simp: eng_inv_def op_ok_def sealed_def)
    with Some stop_platforms have "eng_inv (e\<lparr>en_op := OpStopWait platformErr (flow_wait_begin (fl_owner (en_flows e p)))\<rparr>)"
      by (intro inv_op) (auto simp: eng_inv_def op_ok_def snapshot_begin)
    with Some show ?thesis by (simp add: stop_platform_def)
  qed
next
  case (stop_wait e platformErr s p order expired res)
  then have o: "snapshot_ok s (fl_owner (en_flows e p))" "flow_inv (en_flows e p)" "ro_closed (en_router e)"
    by (auto simp: eng_inv_def op_ok_def)
  have "flow_clean (en_flows e p)" if "res = None"
    using that stop_wait o by (intro wait_clean) (auto simp: listed_def)
  with stop_wait o show ?case by (intro inv_stop_finish) auto
qed

interpretation tunnels: invariant_system "\<lambda>e. e = new_engine" engine_step eng_inv
  by unfold_locales (auto intro: eng_inv_new engine_step_inv)


section \<open>The engines of the process\<close>

text \<open>
  tun2socks is one per process: \<^verbatim>\<open>activeEngine\<close> is the handle whose \<open>en_owner\<close> is set. The list holds the
  handles that were returned to a caller; a handle that is dropped on a failed start never had flows.
\<close>

record start_env =
  se_dnsCache :: bool
  se_bypass :: bool
  se_proxyAddr :: bool
  se_attach :: attach_env
  se_accepted :: bool
  se_platformErr :: "go_error option"
  se_detachErr :: "go_error option"

definition startOwnedEngineLocked :: "start_env \<Rightarrow> engine option \<times> bool \<times> go_error option" where
  "startOwnedEngineLocked env =
     (if \<not> se_dnsCache env then (None, False, Some (Plain ''DNS cache is required for tunnel start''))
      else if \<not> se_bypass env then (None, False, Some (Plain ''bypass policy is required for tunnel start''))
      else (case (if se_proxyAddr env then attachLocked ((se_attach env)\<lparr>ae_ctxErr := None\<rparr>) 0 new_engine
                  else (new_engine, None)) of
          (handle, Some err) \<Rightarrow> (None, False, Some err)
        | (handle, None) \<Rightarrow> (case se_platformErr env of
            Some err \<Rightarrow>
              if se_accepted env then (Some handle, True, Some err)
              else (None, False, errors_join [Some err, se_detachErr env])
          | None \<Rightarrow> (Some handle, True, None))))"

definition ErrEngineBusy :: go_error where
  "ErrEngineBusy = Plain ''tun2socks engine is busy''"

definition StartOwnedEngine :: "start_env \<Rightarrow> engine list \<Rightarrow> engine list \<times> go_error option" where
  "StartOwnedEngine env es =
     (if list_ex en_owner es then (es, Some ErrEngineBusy)
      else (case startOwnedEngineLocked env of
          (Some handle, accepted, err) \<Rightarrow> (es @ [handle], err)
        | (None, accepted, err) \<Rightarrow> (es, err)))"

inductive process_step :: "engine list \<Rightarrow> engine list \<Rightarrow> bool" where
  start: "process_step es (fst (StartOwnedEngine env es))"
| engine: "i < length es \<Longrightarrow> engine_step (es ! i) e \<Longrightarrow> process_step es (es[i := e])"

definition process_inv :: "engine list \<Rightarrow> bool" where
  "process_inv es \<longleftrightarrow> (\<forall>e\<in>set es. eng_inv e)
     \<and> (\<forall>i<length es. \<forall>j<length es. en_owner (es ! i) \<longrightarrow> en_owner (es ! j) \<longrightarrow> i = j)"

lemma engine_step_owner: "engine_step e e' \<Longrightarrow> en_owner e' \<Longrightarrow> en_owner e"
  by (induction rule: engine_step.induct)
     (auto simp: engine_defs Let_def split: option.splits if_splits)

lemma start_handle_inv: "startOwnedEngineLocked env = (Some h, a, err) \<Longrightarrow> eng_inv h"
  using inv_attach[OF eng_inv_new, of "(se_attach env)\<lparr>ae_ctxErr := None\<rparr>" 0] eng_inv_new
  by (auto simp: startOwnedEngineLocked_def Attach_def new_engine_def split: if_splits option.splits prod.splits)

lemma process_step_inv: "process_step es es' \<Longrightarrow> process_inv es \<Longrightarrow> process_inv es'"
proof (induction rule: process_step.induct)
  case (start es env)
  show ?case
  proof (cases "list_ex en_owner es")
    case True
    with start show ?thesis by (simp add: StartOwnedEngine_def)
  next
    case False
    then have none: "\<not> en_owner (es ! i)" if "i < length es" for i using that by (auto simp: list_ex_iff)
    show ?thesis
    proof (cases "startOwnedEngineLocked env")
      case (fields h a err)
      show ?thesis
      proof (cases h)
        case None
        with False fields start show ?thesis by (simp add: StartOwnedEngine_def)
      next
        case (Some x)
        with fields have "eng_inv x" by (auto dest: start_handle_inv)
        with Some False fields start none show ?thesis
          by (auto simp: StartOwnedEngine_def process_inv_def nth_append less_Suc_eq split: if_splits)
      qed
    qed
  qed
next
  case (engine i es e)
  then have "eng_inv (es ! i)" by (auto simp: process_inv_def)
  from engine_step_inv[OF engine(2) this] have "eng_inv e" .
  with engine show ?case
    by (auto simp: process_inv_def nth_list_update dest: engine_step_owner dest!: set_update_subset_insert[THEN subsetD])
qed

lemma process_inv_empty: "process_inv []"
  by (simp add: process_inv_def)

interpretation processes: invariant_system "\<lambda>es. es = []" process_step process_inv
  by unfold_locales (auto simp: process_inv_empty intro: process_step_inv)

section \<open>Refinement of the transport slot\<close>

text \<open>
  What an engine promises its callers, without dials, maps or channels: one slot holds at most one
  transport, flows open only on the transport in the slot, and the slot changes hands only while no
  flow is open.
\<close>

record slot =
  sl_current :: "nat option"
  sl_flows :: "(nat \<times> nat) set"

inductive slot_step :: "slot \<Rightarrow> slot \<Rightarrow> bool" where
  opened: "sl_current s = Some i \<Longrightarrow> slot_step s (s\<lparr>sl_flows := insert (i, c) (sl_flows s)\<rparr>)"
| closed: "slot_step s (s\<lparr>sl_flows := sl_flows s - {x}\<rparr>)"
| installed: "sl_current s = None \<Longrightarrow> sl_flows s = {} \<Longrightarrow> slot_step s (s\<lparr>sl_current := Some i\<rparr>)"
| retired: "sl_flows s = {} \<Longrightarrow> slot_step s (s\<lparr>sl_current := None\<rparr>)"

definition abs_engine :: "engine \<Rightarrow> slot" where
  "abs_engine e = \<lparr>sl_current = en_proxy e, sl_flows = {(i, c). i < en_count e \<and> c \<in> fl_open (en_flows e i)}\<rparr>"

lemma inv_flows_current:
  "eng_inv e \<Longrightarrow> i < en_count e \<Longrightarrow> fl_open (en_flows e i) \<noteq> {} \<or> 0 < in_flight (en_flows e i) \<Longrightarrow>
     en_proxy e = Some i \<and> en_owner e"
  using clean_open[of "en_flows e i"] by (auto simp: eng_inv_def)

lemma abs_engine_op [simp]:
  "abs_engine (e\<lparr>en_op := x\<rparr>) = abs_engine e" "abs_engine (e\<lparr>en_last := l\<rparr>) = abs_engine e"
  "abs_engine (e\<lparr>en_router := r\<rparr>) = abs_engine e"
  by (simp_all add: abs_engine_def)

text \<open>A change of one transport's flows is a flow opened or closed, or no change.\<close>

lemma abs_on_proxy:
  assumes "i < en_count e" "fl_open (f (en_flows e i)) = fl_open (en_flows e i)
      \<or> (\<exists>c. fl_open (f (en_flows e i)) = insert c (fl_open (en_flows e i))) \<and> en_proxy e = Some i
      \<or> (\<exists>c. fl_open (f (en_flows e i)) = fl_open (en_flows e i) - {c})"
  shows "slot_step\<^sup>=\<^sup>= (abs_engine e) (abs_engine (on_proxy i f e))"
proof -
  let ?f = "\<lambda>e. sl_flows (abs_engine e)"
  from assms(2) consider "?f (on_proxy i f e) = ?f e"
    | c where "?f (on_proxy i f e) = insert (i, c) (?f e)" "en_proxy e = Some i"
    | c where "?f (on_proxy i f e) = ?f e - {(i, c)}"
  proof (elim disjE conjE exE)
    assume "fl_open (f (en_flows e i)) = fl_open (en_flows e i)"
    then have "?f (on_proxy i f e) = ?f e" by (auto simp: abs_engine_def split: if_splits)
    then show thesis using that by blast
  next
    fix c assume "fl_open (f (en_flows e i)) = insert c (fl_open (en_flows e i))" "en_proxy e = Some i"
    moreover from this have "?f (on_proxy i f e) = insert (i, c) (?f e)"
      using assms(1) by (auto simp: abs_engine_def split: if_splits)
    ultimately show thesis using that by blast
  next
    fix c assume eq: "fl_open (f (en_flows e i)) = fl_open (en_flows e i) - {c}"
    have "(j, d) \<in> ?f (on_proxy i f e) \<longleftrightarrow> (j, d) \<in> ?f e - {(i, c)}" for j d
      by (cases "j = i") (simp_all add: abs_engine_def eq)
    then have "?f (on_proxy i f e) = ?f e - {(i, c)}" by (intro set_eqI) (simp only: split_paired_all)
    then show thesis using that by blast
  qed
  moreover have "abs_engine (on_proxy i f e) = (abs_engine e)\<lparr>sl_flows := ?f (on_proxy i f e)\<rparr>"
    by (simp add: abs_engine_def)
  ultimately show ?thesis
  proof cases
    case 1
    have "(abs_engine e)\<lparr>sl_flows := sl_flows (abs_engine e)\<rparr> = abs_engine e" by simp
    with 1 \<open>abs_engine (on_proxy i f e) = _\<close> have "abs_engine (on_proxy i f e) = abs_engine e" by simp
    then show ?thesis by simp
  next
    case (2 c)
    have "sl_current (abs_engine e) = Some i" using 2(2) by (simp add: abs_engine_def)
    from slot_step.opened[OF this, of c] 2(1) \<open>abs_engine (on_proxy i f e) = _\<close> show ?thesis by simp
  next
    case (3 c)
    with slot_step.closed[of "abs_engine e" "(i, c)"] \<open>abs_engine (on_proxy i f e) = _\<close> show ?thesis by simp
  qed
qed

lemma abs_close:
  "en_proxy e = Some p \<Longrightarrow> eng_inv e \<Longrightarrow> slot_step\<^sup>=\<^sup>= (abs_engine e) (abs_engine (on_proxy p (do_close c r) e))"
  by (rule abs_on_proxy) (use do_close_open_cases[of c r "en_flows e p"] in \<open>auto simp: eng_inv_def\<close>)

lemma abs_seal: "abs_engine (on_proxy p do_seal e) = abs_engine e"
  by (auto simp: abs_engine_def do_seal_def split: outcome.splits if_splits)

lemma inv_no_flows: "eng_inv e \<Longrightarrow> (\<And>p. en_proxy e = Some p \<Longrightarrow> flow_clean (en_flows e p)) \<Longrightarrow> sl_flows (abs_engine e) = {}"
proof -
  assume inv: "eng_inv e" and c: "\<And>p. en_proxy e = Some p \<Longrightarrow> flow_clean (en_flows e p)"
  have "fl_open (en_flows e i) = {}" if "i < en_count e" for i
    using clean_open[of "en_flows e i"] inv_clean_all[OF inv c that] inv that by (simp add: eng_inv_def)
  then show ?thesis by (auto simp: abs_engine_def)
qed

lemma abs_attach:
  assumes "eng_inv e" "Attach env generation e = (e', res)"
  shows "slot_step\<^sup>=\<^sup>= (abs_engine e) (abs_engine e')"
proof (cases "res = None")
  case True
  with assms(2) have p: "en_proxy e = None"
    and e': "e' = e\<lparr>en_flows := (en_flows e)(en_count e := new_flows), en_count := Suc (en_count e),
       en_proxy := Some (en_count e), en_attempt := generation, en_router := router_set (Some (en_count e)) (en_router e)\<rparr>"
    by (auto simp: Attach_def attachLocked_def split: if_splits option.splits)
  have f: "sl_flows (abs_engine e) = {}" using inv_no_flows[OF assms(1)] p by simp
  then have "abs_engine e' = (abs_engine e)\<lparr>sl_current := Some (en_count e)\<rparr>"
    unfolding e' by (auto simp: abs_engine_def new_flows_def less_Suc_eq)
  moreover have "sl_current (abs_engine e) = None" using p by (simp add: abs_engine_def)
  ultimately show ?thesis using slot_step.installed[of "abs_engine e" "en_count e"] f by simp
next
  case False
  with assms(2) have "e' = e" by (auto simp: Attach_def attachLocked_def split: if_splits option.splits)
  then show ?thesis by simp
qed

lemma abs_stop_finish [simp]: "abs_engine (stop_finish pe fe e) = abs_engine e"
  by (simp add: stop_finish_def Let_def abs_engine_def)

lemma abs_engine_step: "engine_step e e' \<Longrightarrow> eng_inv e \<Longrightarrow> slot_step\<^sup>=\<^sup>= (abs_engine e) (abs_engine e')"
proof (induction rule: engine_step.induct)
  case (flow i e fs)
  from flow.prems flow.hyps(1) have inv: "flow_inv (en_flows e i)" by (simp add: eng_inv_def)
  show ?case
  proof (rule abs_on_proxy[OF flow.hyps(1)], goal_cases)
    case 1
    show ?case
    proof (cases "en_proxy e = Some i")
      case True
      with flow_step_open[OF flow.hyps(2)] show ?thesis by auto
    next
      case False
      with flow.prems flow.hyps(1) have "flow_clean (en_flows e i)" by (simp add: eng_inv_def)
      with flow_clean_stays[OF flow.hyps(2) inv] have "flow_clean fs" by simp
      with clean_open[OF inv \<open>flow_clean (en_flows e i)\<close>] clean_open[OF flow_step_inv[OF flow.hyps(2) inv]] show ?thesis by simp
    qed
  qed
next
  case (attach e env generation e' res)
  then show ?case using abs_attach by simp
next
  case (detach e order generation)
  then show ?case by (auto simp: Detach_def abs_seal split: option.splits)
next
  case (detach_close e c cs p r)
  then show ?case using abs_close by simp
next
  case (detach_wait e s p order expired res)
  show ?case
  proof (cases res)
    case None
    have "flow_clean (en_flows e p)"
      using detach_wait None by (intro wait_clean[of _ s order expired]) (auto simp: eng_inv_def op_ok_def listed_def)
    then have f: "sl_flows (abs_engine e) = {}" using inv_no_flows[OF detach_wait.prems] detach_wait.hyps(2) by simp
    have "abs_engine (detach_finish res e) = (abs_engine e)\<lparr>sl_current := None\<rparr>"
      by (simp add: detach_finish_def None abs_engine_def)
    with slot_step.retired[OF f] show ?thesis by simp
  qed (simp add: detach_finish_def)
next
  case (stop e order)
  then show ?case by (auto simp: Engine_Stop_def Let_def abs_seal split: option.splits)
next
  case (stop_close e c cs p r)
  then show ?case using abs_close by simp
next
  case (stop_platforms e platformErr)
  then show ?case by (auto simp: stop_platform_def split: option.splits)
qed simp_all

interpretation engine_slot: refinement "\<lambda>e. e = new_engine" engine_step eng_inv
    "\<lambda>s. s = \<lparr>sl_current = None, sl_flows = {}\<rparr>" slot_step abs_engine
proof unfold_locales
  fix e :: engine
  assume "e = new_engine"
  then show "abs_engine e = \<lparr>sl_current = None, sl_flows = {}\<rparr>" by (simp add: abs_engine_def new_engine_def)
next
  fix e e' :: engine
  assume "eng_inv e" "engine_step e e'"
  then show "slot_step\<^sup>=\<^sup>= (abs_engine e) (abs_engine e')" by (intro abs_engine_step)
qed

section \<open>Properties\<close>

text \<open>
  C7. All flows of the process belong to the current attempt of the one active engine. In every state
  the process can reach, whatever dials, timers, closes, attaches, detaches and stops interleave: no
  channel is closed twice; at most one engine owns tun2socks; and an open socket, or a dial still in
  flight, belongs to the attempt that this engine has installed. So \<^verbatim>\<open>Detach\<close> and \<^verbatim>\<open>Stop\<close> never report
  success while a flow of the attempt they retire is left, and engines never share traffic.
\<close>

theorem flows_belong_to_current_attempt:
  assumes "process_step\<^sup>*\<^sup>* [] es"
  shows "(\<forall>e\<in>set es. \<forall>i<en_count e. \<not> fl_panicked (en_flows e i)
      \<and> (fl_open (en_flows e i) \<noteq> {} \<or> 0 < in_flight (en_flows e i) \<longrightarrow> en_owner e \<and> en_proxy e = Some i))
    \<and> (\<forall>j<length es. \<forall>k<length es. en_owner (es ! j) \<longrightarrow> en_owner (es ! k) \<longrightarrow> j = k)"
proof -
  have inv: "process_inv es" using processes.reach_inv[OF refl assms] .
  have "\<not> fl_panicked (en_flows e i)
      \<and> (fl_open (en_flows e i) \<noteq> {} \<or> 0 < in_flight (en_flows e i) \<longrightarrow> en_owner e \<and> en_proxy e = Some i)"
    if "e \<in> set es" "i < en_count e" for e i
  proof -
    from inv that(1) have "eng_inv e" by (simp add: process_inv_def)
    with that(2) inv_flows_current[OF this that(2)] show ?thesis by (auto simp: eng_inv_def flow_inv_def)
  qed
  moreover from inv have "\<forall>j<length es. \<forall>k<length es. en_owner (es ! j) \<longrightarrow> en_owner (es ! k) \<longrightarrow> j = k"
    by (simp add: process_inv_def)
  ultimately show ?thesis by blast
qed

text \<open>A process whose one engine has attempt 7 installed and a UDP flow open on it.\<close>

definition sample_flows :: flows where
  "sample_flows = set_pc 0 (DTrack 0) (open_conn IdlePacketConn
     (new_flows\<lparr>fl_owner := fst (beginDial new_flow_owner), fl_dials := [\<lparr>dl_kind = DialUDP, dl_pc = DDialing\<rparr>]\<rparr>))"

definition sample_attached :: engine where
  "sample_attached = fst (Attach \<lparr>ae_ctxErr = None, ae_inputs = True, ae_buildErr = None\<rparr> 7 new_engine)\<lparr>en_last := None\<rparr>"

definition sample_engine :: engine where
  "sample_engine = on_proxy 0 (\<lambda>_. sample_flows) (on_proxy 0 (\<lambda>_.
     new_flows\<lparr>fl_owner := fst (beginDial new_flow_owner), fl_dials := [\<lparr>dl_kind = DialUDP, dl_pc = DDialing\<rparr>]\<rparr>) sample_attached)"

lemma sample_engine_reachable: "engine_step\<^sup>*\<^sup>* new_engine sample_engine"
proof -
  let ?env = "\<lparr>ae_ctxErr = None, ae_inputs = True, ae_buildErr = None\<rparr>"
  let ?fs = "new_flows\<lparr>fl_owner := fst (beginDial new_flow_owner), fl_dials := [\<lparr>dl_kind = DialUDP, dl_pc = DDialing\<rparr>]\<rparr>"
  have "snd (Attach ?env 7 new_engine) = None" by (simp add: Attach_def attachLocked_def new_engine_def)
  then have 1: "engine_step new_engine sample_attached"
    unfolding sample_attached_def
    by (intro engine_step.attach[of _ ?env 7]) (auto simp: new_engine_def prod_eq_iff)
  have a: "en_count sample_attached = 1" "en_flows sample_attached 0 = new_flows"
    by (simp_all add: sample_attached_def Attach_def attachLocked_def new_engine_def)
  have "flow_step new_flows ?fs"
    using flow_step.begin_udp[of new_flows "fst (beginDial new_flow_owner)"]
    by (simp add: new_flows_def beginDial_def new_flow_owner_def)
  then have 2: "engine_step sample_attached (on_proxy 0 (\<lambda>_. ?fs) sample_attached)"
    by (intro engine_step.flow) (simp_all add: a, simp add: new_flows_def beginDial_def new_flow_owner_def)
  have "flow_step ?fs sample_flows"
    using flow_step.dial_udp[of ?fs 0] by (simp add: at_def sample_flows_def new_flows_def)
  then have 3: "engine_step (on_proxy 0 (\<lambda>_. ?fs) sample_attached) sample_engine"
    unfolding sample_engine_def
    by (intro engine_step.flow) (simp_all add: a sample_flows_def)
  show ?thesis
    by (rule converse_rtranclp_into_rtranclp[OF 1 converse_rtranclp_into_rtranclp[OF 2 r_into_rtranclp[of engine_step, OF 3]]])
qed

lemma sample_engine_open: "en_count sample_engine = 1" "fl_open (en_flows sample_engine 0) = {0}"
  by (simp_all add: sample_engine_def sample_attached_def Attach_def attachLocked_def new_engine_def sample_flows_def new_flows_def)

lemma process_engine_run: "engine_step\<^sup>*\<^sup>* e e' \<Longrightarrow> process_step\<^sup>*\<^sup>* [e] [e']"
proof (induction rule: rtranclp_induct)
  case (step y z)
  from process_step.engine[of 0 "[y]" z] step.hyps(2) have "process_step [y] [z]" by simp
  with step.IH show ?case by simp
qed simp

theorem flows_belong_to_current_attempt_witness:
  "process_step\<^sup>*\<^sup>* [] [sample_engine] \<and> fl_open (en_flows sample_engine 0) = {0}
   \<and> en_owner sample_engine \<and> en_proxy sample_engine = Some 0"
proof -
  let ?env = "\<lparr>se_dnsCache = True, se_bypass = True, se_proxyAddr = False,
     se_attach = \<lparr>ae_ctxErr = None, ae_inputs = True, ae_buildErr = None\<rparr>, se_accepted = True, se_platformErr = None, se_detachErr = None\<rparr>"
  have "fst (StartOwnedEngine ?env []) = [new_engine]"
    by (simp add: StartOwnedEngine_def startOwnedEngineLocked_def)
  with process_step.start[of "[]" ?env] have "process_step [] [new_engine]" by simp
  with process_engine_run[OF sample_engine_reachable] have run: "process_step\<^sup>*\<^sup>* [] [sample_engine]" by simp
  from flows_belong_to_current_attempt[OF run] sample_engine_open run show ?thesis by simp
qed

text \<open>
  C9. A retired attempt stays retired. Once an attempt is no longer installed, no later run of the
  engine reinstalls it, opens a socket for it, or admits a dial to it: a dial that raced its
  retirement gets \<^verbatim>\<open>net.ErrClosed\<close>.
\<close>

theorem retired_attempts_stay_fenced:
  assumes "engine_step\<^sup>*\<^sup>* new_engine e" "engine_step\<^sup>*\<^sup>* e e'" "i < en_count e" "en_proxy e \<noteq> Some i"
  shows "en_proxy e' \<noteq> Some i \<and> fl_open (en_flows e' i) = {} \<and> in_flight (en_flows e' i) = 0
    \<and> snd (beginDial (fl_owner (en_flows e' i))) = Some (Sentinel NetErrClosed)"
proof -
  let ?R = "\<lambda>t u. en_count t \<le> en_count u \<and> (\<forall>i<en_count t. en_proxy t \<noteq> Some i \<longrightarrow> en_proxy u \<noteq> Some i)"
  have inv: "eng_inv e" "eng_inv e'"
    using tunnels.reach_inv[OF refl] assms(1,2) by (auto dest: rtranclp_trans)
  have step: "?R t u" if "engine_step t u" for t u
    using that by (induction rule: engine_step.induct)
      (auto simp: engine_defs Let_def split: option.splits if_splits)
  have "?R e e'"
  proof (rule tunnels.steps_relate[OF assms(2) inv(1), of ?R])
    fix t u v assume "?R t u" "?R u v"
    then show "?R t v" by (meson less_le_trans order.trans)
  qed (use step in auto)
  with assms(3,4) have "en_proxy e' \<noteq> Some i" "i < en_count e'" by auto
  with inv(2) have "flow_clean (en_flows e' i)" "flow_inv (en_flows e' i)" by (simp_all add: eng_inv_def)
  with clean_open[of "en_flows e' i"] \<open>en_proxy e' \<noteq> Some i\<close> show ?thesis
    by (simp add: beginDial_def flow_clean_def)
qed

text \<open>The engine of the sample, its attempt detached again with the flow's socket closed.\<close>

theorem retired_attempts_stay_fenced_witness:
  "\<exists>e. engine_step\<^sup>*\<^sup>* new_engine e \<and> en_count e = 1 \<and> en_proxy e = None
     \<and> snd (beginDial (fl_owner (en_flows e 0))) = Some (Sentinel NetErrClosed)"
proof -
  have s: "en_op sample_attached = OpIdle" "en_proxy sample_attached = Some 0" "en_attempt sample_attached = 7"
      "en_flows sample_attached 0 = new_flows" "en_count sample_attached = 1"
    by (simp_all add: sample_attached_def Attach_def attachLocked_def new_engine_def)
  let ?env = "\<lparr>ae_ctxErr = None, ae_inputs = True, ae_buildErr = None\<rparr>"
  have "snd (Attach ?env 7 new_engine) = None" by (simp add: Attach_def attachLocked_def new_engine_def)
  then have 1: "engine_step new_engine sample_attached"
    unfolding sample_attached_def
    by (intro engine_step.attach[of _ ?env 7]) (auto simp: new_engine_def prod_eq_iff)
  let ?d = "Detach [] 7 sample_attached"
  have l: "listed [] new_flows" by (simp add: listed_def new_flows_def new_flow_owner_def)
  have 2: "engine_step sample_attached ?d" by (rule engine_step.detach) (use s l in auto)
  have d: "en_op ?d = OpDetachClose []" "en_proxy ?d = Some 0" "en_flows ?d 0 = do_seal new_flows" "en_count ?d = 1"
    by (simp_all add: Detach_def s)
  let ?w = "?d\<lparr>en_op := OpDetachWait (flow_wait_begin (fl_owner (en_flows ?d 0)))\<rparr>"
  have 3: "engine_step ?d ?w" by (rule engine_step.detach_closed) (use d in auto)
  have fl: "fo_connections (fl_owner (do_seal new_flows)) = Map.empty" "flow_wait_begin (fl_owner (do_seal new_flows)) = (0, 0)"
    by (simp_all add: do_seal_def seal_def new_flows_def new_flow_owner_def flow_wait_begin_def)
  have 4: "engine_step ?w (detach_finish None ?w)"
    by (rule engine_step.detach_wait[of _ "(0, 0)" 0 "[]" None])
      (simp_all add: d fl listed_def flow_wait_end_def residualErrorLocked_def)
  have reach: "engine_step\<^sup>*\<^sup>* new_engine (detach_finish None ?w)"
    by (rule converse_rtranclp_into_rtranclp[OF 1 converse_rtranclp_into_rtranclp[OF 2
          converse_rtranclp_into_rtranclp[OF 3 r_into_rtranclp[of engine_step, OF 4]]]])
  have f: "en_count (detach_finish None ?w) = 1" "en_proxy (detach_finish None ?w) = None"
    by (simp_all add: detach_finish_def d)
  from retired_attempts_stay_fenced[OF reach rtranclp.rtrancl_refl, of 0] f reach show ?thesis by auto
qed

text \<open>
  C8. The engine refines a slot for one transport: under the abstraction that forgets dials, retained
  maps, channels and the phases of \<^verbatim>\<open>Detach\<close> and \<^verbatim>\<open>Stop\<close>, every run of the engine is a run of the slot, in
  which flows open only on the installed transport and a transport is installed or retired only
  while no flow is open.
\<close>

theorem engine_refines_slot:
  assumes "engine_step\<^sup>*\<^sup>* new_engine e"
  shows "slot_step\<^sup>*\<^sup>* \<lparr>sl_current = None, sl_flows = {}\<rparr> (abs_engine e)"
  using engine_slot.abst_run[OF refl assms] by metis

theorem engine_refines_slot_witness:
  "slot_step\<^sup>*\<^sup>* \<lparr>sl_current = None, sl_flows = {}\<rparr> (abs_engine sample_engine)
   \<and> sl_flows (abs_engine sample_engine) = {(0, 0)}"
  using engine_refines_slot[OF sample_engine_reachable] sample_engine_open by (auto simp: abs_engine_def)

text \<open>
  Nothing is reused before it is drained. \<^verbatim>\<open>Attach\<close> succeeds only on an engine without an installed
  attempt and without a single open flow; after a failed \<^verbatim>\<open>Detach\<close> it is refused. A stopped engine has no
  flow either, its handle has given up tun2socks, and its router refuses every TCP and UDP dial and
  every packet flow.
\<close>

theorem drained_before_reuse:
  assumes "engine_step\<^sup>*\<^sup>* new_engine e"
  shows "(Attach env generation e = (e', None) \<longrightarrow>
            en_proxy e = None \<and> sl_flows (abs_engine e) = {} \<and> en_proxy e' = Some (en_count e))
    \<and> (en_proxy e \<noteq> None \<longrightarrow> fst (Attach env generation e) = e \<and> snd (Attach env generation e) \<noteq> None)
    \<and> (en_stopped e \<longrightarrow> sl_flows (abs_engine e) = {} \<and> \<not> en_owner e
        \<and> router_DialContext ctxErr (en_router e) = Fails (Sentinel NetErrClosed)
        \<and> router_DialUDP (en_router e) = Inl (Sentinel NetErrClosed)
        \<and> HandleUDP_admit (en_router e) (\<lambda>i. fl_owner (en_flows e i)) = None)"
proof -
  have inv: "eng_inv e" using tunnels.reach_inv[OF refl assms] .
  have "sl_flows (abs_engine e) = {}" if "en_proxy e = None" using inv_no_flows[OF inv] that by simp
  moreover have "sl_flows (abs_engine e) = {}" if "en_stopped e"
    by (rule inv_no_flows[OF inv]) (use inv that in \<open>auto simp: eng_inv_def\<close>)
  moreover have "ro_closed (en_router e)" "ro_target (en_router e) = None" "\<not> en_owner e" if "en_stopped e"
    using inv that by (auto simp: eng_inv_def router_ok_def)
  ultimately show ?thesis
    by (auto simp: Attach_def attachLocked_def router_DialContext_def router_DialUDP_def HandleUDP_admit_def
        split: option.splits if_splits)
qed

theorem drained_before_reuse_witness:
  "en_proxy sample_engine \<noteq> None
   \<and> snd (Attach \<lparr>ae_ctxErr = None, ae_inputs = True, ae_buildErr = None\<rparr> 8 sample_engine) \<noteq> None"
proof -
  have "en_proxy sample_engine = Some 0"
    by (simp add: sample_engine_def sample_attached_def Attach_def attachLocked_def new_engine_def)
  with drained_before_reuse[OF sample_engine_reachable, of "\<lparr>ae_ctxErr = None, ae_inputs = True, ae_buildErr = None\<rparr>" 8]
  show ?thesis by auto
qed

end
