(* ===== verification/Go_Net.thy ===== *)
theory Go_Net
  imports Go_Errors
begin

text \<open>
  The parts of Go's \<^verbatim>\<open>net\<close> and \<^verbatim>\<open>net/netip\<close> packages that the bypass policy calls: parsing of
  addresses and CIDR blocks, \<^verbatim>\<open>IP.To4\<close>, \<^verbatim>\<open>IP.To16\<close> and \<^verbatim>\<open>IPNet.Contains\<close>. A \<^verbatim>\<open>net.IP\<close> or \<^verbatim>\<open>net.IPMask\<close>
  is its byte slice, so its length is part of its value, as in Go.
\<close>

unbundle bit_operations_syntax

type_synonym byte = "8 word"
type_synonym ip = "byte list"

record ipnet =
  n_IP :: ip
  n_Mask :: "byte list"

definition v4InV6Prefix :: ip where
  "v4InV6Prefix = replicate 10 0 @ [255, 255]"

definition To4 :: "ip \<Rightarrow> ip option" where
  "To4 a = (if length a = 4 then Some a
            else if length a = 16 \<and> take 12 a = v4InV6Prefix then Some (drop 12 a) else None)"

definition To16 :: "ip \<Rightarrow> ip option" where
  "To16 a = (if length a = 4 then Some (v4InV6Prefix @ a) else if length a = 16 then Some a else None)"

text \<open>\<^verbatim>\<open>CIDRMask(ones, bits)\<close> for \<open>bits = 8 * k\<close>.\<close>

fun cidr_mask :: "nat \<Rightarrow> nat \<Rightarrow> byte list" where
  "cidr_mask n 0 = []"
| "cidr_mask n (Suc k) =
     (if 8 \<le> n then 255 # cidr_mask (n - 8) k else push_bit (8 - n) (mask n) # cidr_mask 0 k)"

section \<open>Textual addresses\<close>

fun parse_ipv4_fields :: "string \<Rightarrow> int \<Rightarrow> nat \<Rightarrow> ip \<Rightarrow> ip option" where
  "parse_ipv4_fields [] val digLen acc = (if length acc < 3 then None else Some (acc @ [of_int val]))"
| "parse_ipv4_fields (c # s) val digLen acc =
     (if is_digit c then
        if digLen = 1 \<and> val = 0 then None
        else (let v = val * 10 + (of_char c - 48)
              in if 255 < v then None else parse_ipv4_fields s v (digLen + 1) acc)
      else if c = CHR ''.'' then
        if digLen = 0 \<or> s = [] then None
        else if length acc = 3 then None
        else parse_ipv4_fields s 0 0 (acc @ [of_int val])
      else None)"

definition hex_digit_value :: "char \<Rightarrow> int option" where
  "hex_digit_value c =
     (let n = of_char c in
      if 48 \<le> n \<and> n \<le> 57 then Some (n - 48)
      else if 97 \<le> n \<and> n \<le> 102 then Some (n - 87)
      else if 65 \<le> n \<and> n \<le> 70 then Some (n - 55) else None)"

text \<open>One hexadecimal group: its value, the number of digits and the rest; at most four digits.\<close>

fun hex_group :: "string \<Rightarrow> int \<Rightarrow> nat \<Rightarrow> (int \<times> nat \<times> string) option" where
  "hex_group [] acc off = Some (acc, off, [])"
| "hex_group (c # s) acc off = (case hex_digit_value c of
       None \<Rightarrow> Some (acc, off, c # s)
     | Some d \<Rightarrow> if 3 < off \<or> 65535 < acc * 16 + d then None else hex_group s (acc * 16 + d) (off + 1))"

text \<open>
  The loop of \<^verbatim>\<open>parseIPv6\<close>: the remaining text, the bytes so far and the position of the ellipsis.
\<close>

function ipv6_loop :: "string \<Rightarrow> ip \<Rightarrow> nat option \<Rightarrow> (string \<times> ip \<times> nat option) option" where
  "ipv6_loop s acc ell =
     (if 16 \<le> length acc then Some (s, acc, ell)
      else (case hex_group s 0 0 of
          None \<Rightarrow> None
        | Some (v, off, rest) \<Rightarrow>
            if off = 0 then None
            else if rest \<noteq> [] \<and> hd rest = CHR ''.'' then
              if ell = None \<and> length acc \<noteq> 12 \<or> 16 < length acc + 4 then None
              else (case parse_ipv4_fields s 0 0 [] of
                  None \<Rightarrow> None
                | Some f \<Rightarrow> Some ([], acc @ f, ell))
            else (let acc' = acc @ [of_int (v div 256), of_int v] in
              case rest of
                [] \<Rightarrow> Some ([], acc', ell)
              | c # rest1 \<Rightarrow>
                  if c \<noteq> CHR '':'' then None
                  else (case rest1 of
                      [] \<Rightarrow> None
                    | d # rest2 \<Rightarrow>
                        if d = CHR '':'' then
                          if ell \<noteq> None then None
                          else if rest2 = [] then Some ([], acc', Some (length acc'))
                          else ipv6_loop rest2 acc' (Some (length acc'))
                        else ipv6_loop rest1 acc' ell))))"
  by pat_completeness auto
termination
  by (relation "measure (\<lambda>(s, acc, ell). 16 - length acc)") auto

declare ipv6_loop.simps [simp del]

definition ipv6_expand :: "ip \<Rightarrow> nat option \<Rightarrow> ip option" where
  "ipv6_expand acc ell =
     (if length acc < 16 then
        (case ell of None \<Rightarrow> None
         | Some e \<Rightarrow> Some (take e acc @ replicate (16 - length acc) 0 @ drop e acc))
      else if ell \<noteq> None then None else Some acc)"

text \<open>\<^verbatim>\<open>parseIPv6\<close> without a zone: every caller here refuses a zone.\<close>

definition parse_ipv6 :: "string \<Rightarrow> ip option" where
  "parse_ipv6 s =
     (let lead = has_prefix s ''::''; t = (if lead then drop 2 s else s) in
      if lead \<and> t = [] then Some (replicate 16 0)
      else (case ipv6_loop t [] (if lead then Some 0 else None) of
          Some ([], acc, ell) \<Rightarrow> ipv6_expand acc ell
        | _ \<Rightarrow> None))"

text \<open>
  \<^verbatim>\<open>netip.ParseAddr\<close>: the first dot, colon or percent sign decides the family. The result carries the
  family, since \<^verbatim>\<open>BitLen\<close> of an IPv4-mapped IPv6 address is 128.
\<close>

datatype addr = Addr4 ip | Addr6 ip

definition parse_addr :: "string \<Rightarrow> addr option" where
  "parse_addr s = (case find (\<lambda>c. c \<in> set ''.:%'') s of
       None \<Rightarrow> None
     | Some c \<Rightarrow> if c = CHR ''.'' then map_option Addr4 (parse_ipv4_fields s 0 0 [])
                 else if c = CHR '':'' then (if contains_char s (CHR ''%'') then None else map_option Addr6 (parse_ipv6 s))
                 else None)"

fun dtoi :: "string \<Rightarrow> int \<Rightarrow> int option" where
  "dtoi [] n = Some n"
| "dtoi (c # s) n = (if is_digit c \<and> n * 10 + (of_char c - 48) < 0xFFFFFF then dtoi s (n * 10 + (of_char c - 48)) else None)"

definition masked :: "ip \<Rightarrow> byte list \<Rightarrow> ip" where
  "masked a m = map2 (AND) a m"

definition parse_cidr :: "string \<Rightarrow> ipnet option" where
  "parse_cidr s = (case index_char s (CHR ''/'') of
       None \<Rightarrow> None
     | Some i \<Rightarrow>
         (let text = take i s; len = drop (i + 1) s in
          case (parse_addr text, if len = [] then None else dtoi len 0) of
            (Some (Addr4 a), Some n) \<Rightarrow>
              if n \<le> 32 then Some \<lparr>n_IP = masked a (cidr_mask (nat n) 4), n_Mask = cidr_mask (nat n) 4\<rparr> else None
          | (Some (Addr6 a), Some n) \<Rightarrow>
              if n \<le> 128 then Some \<lparr>n_IP = masked a (cidr_mask (nat n) 16), n_Mask = cidr_mask (nat n) 16\<rparr> else None
          | _ \<Rightarrow> None))"

definition ipv4_string :: "ip \<Rightarrow> string" where
  "ipv4_string a = join_strings ''.'' (map (\<lambda>b. nat_digits (unat b)) a)"

section \<open>Membership\<close>

text \<open>\<^verbatim>\<open>networkNumberAndMask\<close>: \<^const>\<open>None\<close> for a pair of nil slices.\<close>

definition network_number_and_mask :: "ipnet \<Rightarrow> (ip \<times> byte list) option" where
  "network_number_and_mask n =
     (let a = (case To4 (n_IP n) of Some x \<Rightarrow> Some x | None \<Rightarrow> if length (n_IP n) = 16 then Some (n_IP n) else None) in
      case a of None \<Rightarrow> None
      | Some nn \<Rightarrow>
          if length (n_Mask n) = 4 then (if length nn = 4 then Some (nn, n_Mask n) else None)
          else if length (n_Mask n) = 16 then Some (nn, if length nn = 4 then drop 12 (n_Mask n) else n_Mask n)
          else None)"

definition Contains :: "ipnet \<Rightarrow> ip \<Rightarrow> bool" where
  "Contains n a =
     (let x = (case To4 a of Some y \<Rightarrow> y | None \<Rightarrow> a) in
      case network_number_and_mask n of
        None \<Rightarrow> x = []
      | Some (nn, m) \<Rightarrow> length x = length nn \<and> map2 (AND) nn m = map2 (AND) x m)"


lemma length_cidr_mask [simp]: "length (cidr_mask n k) = k"
  by (induction n k rule: cidr_mask.induct) auto

lemma cidr_mask_full: "cidr_mask (8 * k) k = replicate k 255"
  by (induction k) auto

lemma and_all_ones [simp]: "(a :: byte) AND 255 = a"
proof -
  have "(255 :: byte) = - 1" by simp
  then show ?thesis by (simp only: and.right_neutral)
qed

lemma map2_and_ones: "length a = k \<Longrightarrow> map2 (AND) a (replicate k (255 :: byte)) = a"
  by (induction a arbitrary: k) (auto simp: Suc_length_conv)

text \<open>A block with a full mask contains exactly its own address, in either notation.\<close>

definition normal_ip :: "ip \<Rightarrow> ip" where
  "normal_ip a = (case To4 a of Some x \<Rightarrow> x | None \<Rightarrow> a)"

lemma To4_length: "To4 a = Some x \<Longrightarrow> length x = 4"
  by (auto simp: To4_def split: if_splits)

lemma normal_ip_length: "length (normal_ip a) = (if To4 a = None then length a else 4)"
  by (auto simp: normal_ip_def To4_length split: option.splits)

lemma Contains_host4:
  assumes "length a = 4"
  shows "Contains \<lparr>n_IP = a, n_Mask = cidr_mask 32 4\<rparr> x \<longleftrightarrow> normal_ip x = a"
proof -
  have n: "network_number_and_mask \<lparr>n_IP = a, n_Mask = cidr_mask 32 4\<rparr> = Some (a, cidr_mask 32 4)"
    using assms by (simp add: network_number_and_mask_def To4_def)
  have m: "cidr_mask 32 4 = replicate 4 255" using cidr_mask_full[of 4] by simp
  have "map2 (AND) y (cidr_mask 32 4) = y" if "length y = 4" for y
    unfolding m by (rule map2_and_ones[OF that])
  with assms show ?thesis
    unfolding Contains_def n Let_def normal_ip_def[symmetric] option.case prod.case by metis
qed

lemma Contains_host16:
  assumes "length a = 16" and "To4 a = None"
  shows "Contains \<lparr>n_IP = a, n_Mask = cidr_mask 128 16\<rparr> x \<longleftrightarrow> normal_ip x = a"
proof -
  have n: "network_number_and_mask \<lparr>n_IP = a, n_Mask = cidr_mask 128 16\<rparr> = Some (a, cidr_mask 128 16)"
    using assms by (simp add: network_number_and_mask_def)
  have m: "cidr_mask 128 16 = replicate 16 255" using cidr_mask_full[of 16] by simp
  have "map2 (AND) y (cidr_mask 128 16) = y" if "length y = 16" for y
    unfolding m by (rule map2_and_ones[OF that])
  with assms show ?thesis
    unfolding Contains_def n Let_def normal_ip_def[symmetric] option.case prod.case by metis
qed

section \<open>Printing and parsing\<close>

lemma digit_char:
  assumes "k < 10"
  shows "is_digit (char_of (48 + k :: nat))" and "(of_char (char_of (48 + k :: nat) :: char) :: int) = 48 + int k"
proof -
  have "(of_char (char_of (48 + k) :: char) :: nat) = 48 + k" using assms by simp
  then show "is_digit (char_of (48 + k :: nat))" using assms by (simp add: is_digit_def)
  have "(of_char (char_of (48 + k :: nat) :: char) :: int) = int (of_char (char_of (48 + k) :: char))"
    by (rule of_nat_of_char[symmetric])
  also have "\<dots> = int (48 + k)" by (simp only: \<open>of_char (char_of (48 + k) :: char) = 48 + k\<close>)
  also have "\<dots> = 48 + int k" by simp
  finally show "(of_char (char_of (48 + k :: nat) :: char) :: int) = 48 + int k" .
qed

lemma parse_digit:
  "k < 10 \<Longrightarrow> \<not> (digLen = 1 \<and> v = 0) \<Longrightarrow> v * 10 + int k \<le> 255 \<Longrightarrow>
     parse_ipv4_fields (char_of (48 + k) # s) v digLen acc = parse_ipv4_fields s (v * 10 + int k) (digLen + 1) acc"
  by (auto simp add: digit_char Let_def)

lemma parse_octet:
  assumes "n < 256"
  shows "\<exists>d>0. parse_ipv4_fields (nat_digits n @ rest) 0 0 acc = parse_ipv4_fields rest (int n) d acc"
proof (cases "n < 10")
  case True
  then have "nat_digits n = [char_of (48 + n)]" by (simp add: nat_digits.simps)
  with True show ?thesis by (intro exI[of _ 1]) (simp add: parse_digit del: parse_ipv4_fields.simps)
next
  case False
  show ?thesis
  proof (cases "n < 100")
    case True
    with False have d: "nat_digits n = [char_of (48 + n div 10), char_of (48 + n mod 10)]"
      by (simp add: nat_digits.simps[of n] nat_digits.simps[of "n div 10"])
    have "int (n div 10) * 10 + int (n mod 10) = int n" by presburger
    with True False show ?thesis
      by (intro exI[of _ "Suc (Suc 0)"]) (simp add: d parse_digit del: parse_ipv4_fields.simps)
  next
    case big: False
    have d: "nat_digits n = [char_of (48 + n div 100), char_of (48 + n div 10 mod 10), char_of (48 + n mod 10)]"
    proof -
      have "nat_digits n = nat_digits (n div 10) @ [char_of (48 + n mod 10)]"
        using big nat_digits.simps[of n] by simp
      also have "nat_digits (n div 10) = nat_digits (n div 10 div 10) @ [char_of (48 + n div 10 mod 10)]"
        using big nat_digits.simps[of "n div 10"] by simp
      also have "n div 10 div 10 = n div 100" using div_mult2_eq[of n 10 10] by simp
      also have "nat_digits (n div 100) = [char_of (48 + n div 100)]"
        using assms nat_digits.simps[of "n div 100"] by simp
      finally show ?thesis by simp
    qed
    have "n div 100 * 10 + n div 10 mod 10 = n div 10"
      using div_mult_mod_eq[of "n div 10" 10] div_mult2_eq[of n 10 10] by simp
    then have "int (n div 100) * 10 + int (n div 10 mod 10) = int (n div 10)"
      by (metis of_nat_add of_nat_mult of_nat_numeral)
    moreover have "int (n div 10) * 10 + int (n mod 10) = int n" by presburger
    moreover have "n div 100 < 10" "0 < n div 100" using assms big by linarith+
    moreover have "int (n div 10) \<le> 255" using assms by linarith
    ultimately show ?thesis using assms
      by (intro exI[of _ "Suc (Suc (Suc 0))"]) (simp add: d parse_digit del: parse_ipv4_fields.simps)
  qed
qed

lemma parse_dot: "0 < d \<Longrightarrow> s \<noteq> [] \<Longrightarrow> length acc < 3 \<Longrightarrow>
    parse_ipv4_fields (CHR ''.'' # s) v d acc = parse_ipv4_fields s 0 0 (acc @ [of_int v])"
  by (simp add: is_digit_def)

lemma parse_ipv4_string:
  fixes a :: "byte list"
  assumes "length a = 4"
  shows "parse_ipv4_fields (ipv4_string a) 0 0 [] = Some a"
proof -
  from assms obtain p q r s where a: "a = [p, q, r, s]" by (auto simp: length_Suc_conv eval_nat_numeral)
  have b: "unat x < 256" for x :: byte using unsigned_less[of x] by simp
  have w: "word_of_int (int (unat x)) = x" for x :: byte by simp
  have t: "ipv4_string a = nat_digits (unat p) @ CHR ''.'' # nat_digits (unat q) @ CHR ''.'' # nat_digits (unat r) @ CHR ''.'' # nat_digits (unat s) @ []"
    by (simp add: ipv4_string_def a)
  obtain d1 where d1: "0 < d1" "parse_ipv4_fields (ipv4_string a) 0 0 [] =
      parse_ipv4_fields (CHR ''.'' # nat_digits (unat q) @ CHR ''.'' # nat_digits (unat r) @ CHR ''.'' # nat_digits (unat s) @ []) (int (unat p)) d1 []"
    unfolding t using parse_octet[OF b[of p]] by blast
  obtain d2 where d2: "0 < d2" "parse_ipv4_fields (nat_digits (unat q) @ CHR ''.'' # nat_digits (unat r) @ CHR ''.'' # nat_digits (unat s) @ []) 0 0 [p] =
      parse_ipv4_fields (CHR ''.'' # nat_digits (unat r) @ CHR ''.'' # nat_digits (unat s) @ []) (int (unat q)) d2 [p]"
    using parse_octet[OF b[of q]] by blast
  obtain d3 where d3: "0 < d3" "parse_ipv4_fields (nat_digits (unat r) @ CHR ''.'' # nat_digits (unat s) @ []) 0 0 [p, q] =
      parse_ipv4_fields (CHR ''.'' # nat_digits (unat s) @ []) (int (unat r)) d3 [p, q]"
    using parse_octet[OF b[of r]] by blast
  obtain d4 where d4: "parse_ipv4_fields (nat_digits (unat s) @ []) 0 0 [p, q, r] =
      parse_ipv4_fields [] (int (unat s)) d4 [p, q, r]"
    using parse_octet[OF b[of s]] by blast
  show ?thesis
    using d1 d2 d3 d4 by (simp add: parse_dot a del: parse_ipv4_fields.simps(2))
qed

end
