(* ===== verification/Bypass_Policy.thy ===== *)
theory Bypass_Policy
  imports Go_Net
begin

text \<open>
  The bypass policy of a runtime attempt (\<^verbatim>\<open>core/tunnel/bypass_policy.go\<close>): resolution of the
  configured CIDR blocks and host names into address blocks, its extension by a device's numeric
  upstreams, and the routing decision \<^verbatim>\<open>IsBypass\<close>. The resolver is a parameter that maps a host name
  and the world to a new world and its answer. Log calls are left out.
\<close>

section \<open>Data\<close>

record bypass_policy =
  bp_cidrs :: "ipnet list"
  bp_entryCount :: nat

text \<open>\<^verbatim>\<open>net.IPAddr\<close>: the address and its zone.\<close>

type_synonym ipaddr = "ip \<times> string"

type_synonym 'w resolver = "string \<Rightarrow> 'w \<Rightarrow> 'w \<times> (go_error + ipaddr list)"

text \<open>The one field of tun2socks metadata that routing reads; \<^const>\<open>None\<close> is an invalid \<^verbatim>\<open>netip.Addr\<close>.\<close>

record metadata =
  md_DstIP :: "ip option"

section \<open>Operations\<close>

definition IsBypass :: "bypass_policy option \<Rightarrow> metadata option \<Rightarrow> bool" where
  "IsBypass p m = (case p of
       None \<Rightarrow> False
     | Some policy \<Rightarrow> (case m of
         None \<Rightarrow> False
       | Some md \<Rightarrow> (case md_DstIP md of
           None \<Rightarrow> False
         | Some stdIP \<Rightarrow> list_ex (\<lambda>route. Contains route stdIP) (bp_cidrs policy))))"

text \<open>The route of a dial, TCP or UDP: the first lines of \<^verbatim>\<open>DobbyProxy.DialContext\<close> and \<^verbatim>\<open>DobbyProxy.DialUDP\<close>.\<close>

datatype route = VPN | DIRECT

definition DobbyProxy_route :: "bypass_policy option \<Rightarrow> metadata option \<Rightarrow> route" where
  "DobbyProxy_route bypass md = (if IsBypass bypass md then DIRECT else VPN)"

text \<open>The \<^verbatim>\<open>%v\<close> text of an address that is neither four nor sixteen bytes long.\<close>

definition invalid_ipaddr_text :: "ipaddr \<Rightarrow> string" where
  "invalid_ipaddr_text a =
     ''{'' @ (if fst a = [] then ''<nil>''
              else CHR ''?'' # concat (map (\<lambda>b. [lower_char (hex_digit (unat b div 16)), lower_char (hex_digit (unat b mod 16))]) (fst a)))
     @ '' '' @ snd a @ ''}''"

fun host_cidrs :: "ipaddr list \<Rightarrow> ipnet list \<Rightarrow> go_error + ipnet list" where
  "host_cidrs [] result = Inr result"
| "host_cidrs (a # rest) result = (case To4 (fst a) of
       Some v4 \<Rightarrow> host_cidrs rest (result @ (case parse_cidr (ipv4_string v4 @ ''/32'') of Some n \<Rightarrow> [n] | None \<Rightarrow> []))
     | None \<Rightarrow> (case To16 (fst a) of
         Some v6 \<Rightarrow> host_cidrs rest (result @ [\<lparr>n_IP = v6, n_Mask = cidr_mask 128 16\<rparr>])
       | None \<Rightarrow> Inl (Plain (''resolver returned invalid address '' @ invalid_ipaddr_text a))))"

definition resolveHostToCIDRsWithResolver ::
  "string \<Rightarrow> 'w resolver option \<Rightarrow> 'w \<Rightarrow> 'w \<times> (go_error + ipnet list)" where
  "resolveHostToCIDRsWithResolver host resolve w = (case resolve of
       None \<Rightarrow> (w, Inl (Plain ''underlying bypass resolver is required''))
     | Some f \<Rightarrow> (case f host w of
         (w', Inl err) \<Rightarrow> (w', Inl err)
       | (w', Inr ips) \<Rightarrow> (w', case host_cidrs ips [] of
             Inl err \<Rightarrow> Inl err
           | Inr [] \<Rightarrow> Inl (Plain ''resolver returned no IP addresses'')
           | Inr result \<Rightarrow> Inr result)))"

fun routing_entries ::
  "'w resolver option \<Rightarrow> string list \<Rightarrow> ipnet list \<Rightarrow> go_error list \<Rightarrow> 'w \<Rightarrow> 'w \<times> ipnet list \<times> go_error list" where
  "routing_entries resolve [] result errs w = (w, result, errs)"
| "routing_entries resolve (e # rest) result errs w =
     (let entry = trim_space e in
      if entry = [] then routing_entries resolve rest result errs w
      else (case parse_cidr entry of
          Some network \<Rightarrow> routing_entries resolve rest (result @ [network]) errs w
        | None \<Rightarrow> (case resolveHostToCIDRsWithResolver entry resolve w of
            (w', Inl err) \<Rightarrow>
              routing_entries resolve rest result (errs @ [Wrap (''resolve bypass host '' @ go_quote entry @ '': '') err]) w'
          | (w', Inr resolved) \<Rightarrow> routing_entries resolve rest (result @ resolved) errs w')))"

definition resolveRoutingEntriesWithResolver ::
  "string list \<Rightarrow> 'w resolver option \<Rightarrow> 'w \<Rightarrow> 'w \<times> (go_error + ipnet list)" where
  "resolveRoutingEntriesWithResolver entries resolve w =
     (case routing_entries resolve entries [] [] w of
        (w', result, errs) \<Rightarrow>
          (w', case errors_join (map Some errs) of Some err \<Rightarrow> Inl err | None \<Rightarrow> Inr result))"

definition ResolveBypassPolicyWithResolver ::
  "string list \<Rightarrow> 'w resolver option \<Rightarrow> 'w \<Rightarrow> 'w \<times> (go_error + bypass_policy)" where
  "ResolveBypassPolicyWithResolver entries resolve w =
     (case resolveRoutingEntriesWithResolver entries resolve w of
        (w', Inl err) \<Rightarrow> (w', Inl err)
      | (w', Inr cidrs) \<Rightarrow> (w', Inr \<lparr>bp_cidrs = cidrs, bp_entryCount = length entries\<rparr>))"

fun numeric_cidrs :: "nat \<Rightarrow> ip list \<Rightarrow> ipnet list \<Rightarrow> go_error + ipnet list" where
  "numeric_cidrs index [] cidrs = Inr cidrs"
| "numeric_cidrs index (a # rest) cidrs = (case To4 a of
       Some ipv4 \<Rightarrow> numeric_cidrs (Suc index) rest (cidrs @ [\<lparr>n_IP = ipv4, n_Mask = cidr_mask 32 4\<rparr>])
     | None \<Rightarrow> (case To16 a of
         Some ipv6 \<Rightarrow> numeric_cidrs (Suc index) rest (cidrs @ [\<lparr>n_IP = ipv6, n_Mask = cidr_mask 128 16\<rparr>])
       | None \<Rightarrow> Inl (Plain (''numeric bypass address['' @ itoa (int index) @ ''] is invalid''))))"

definition WithNumericIPs :: "bypass_policy option \<Rightarrow> ip list \<Rightarrow> go_error + bypass_policy" where
  "WithNumericIPs p ips = (case p of
       None \<Rightarrow> Inl (Plain ''cannot copy a nil bypass policy'')
     | Some policy \<Rightarrow> (case numeric_cidrs 0 ips (bp_cidrs policy) of
         Inl err \<Rightarrow> Inl err
       | Inr cidrs \<Rightarrow> Inr \<lparr>bp_cidrs = cidrs, bp_entryCount = bp_entryCount policy\<rparr>))"

section \<open>Lemmas\<close>

definition valid_ip :: "ip \<Rightarrow> bool" where
  "valid_ip a \<longleftrightarrow> length a = 4 \<or> length a = 16"

definition host_block :: "ip \<Rightarrow> ipnet" where
  "host_block a = (case To4 a of
       Some v4 \<Rightarrow> \<lparr>n_IP = v4, n_Mask = cidr_mask 32 4\<rparr>
     | None \<Rightarrow> \<lparr>n_IP = a, n_Mask = cidr_mask 128 16\<rparr>)"

lemma To16_none: "To4 a = None \<Longrightarrow> To16 a = (if valid_ip a then Some a else None)"
  by (auto simp: To4_def To16_def valid_ip_def split: if_splits)

lemma To4_valid: "To4 a = Some x \<Longrightarrow> valid_ip a"
  by (auto simp: To4_def valid_ip_def split: if_splits)

text \<open>The dotted form of an IPv4 address with \<^verbatim>\<open>/32\<close> parses back to the address.\<close>

lemma ipv4_string_chars: "c \<in> set (ipv4_string a) \<Longrightarrow> is_digit c \<or> c = CHR ''.''"
proof -
  have "c \<in> set (join_strings ''.'' xs) \<Longrightarrow> (\<exists>x\<in>set xs. c \<in> set x) \<or> c = CHR ''.''" for xs
    by (induction "''.''" xs rule: join_strings.induct) auto
  moreover assume "c \<in> set (ipv4_string a)"
  ultimately have "(\<exists>x\<in>set (map (\<lambda>b. nat_digits (unat b)) a). c \<in> set x) \<or> c = CHR ''.''"
    unfolding ipv4_string_def by blast
  then show ?thesis using nat_digits_is_digit by auto
qed

lemma find_first: "(\<forall>x\<in>set xs. P x \<longrightarrow> x = y) \<Longrightarrow> y \<in> set xs \<Longrightarrow> P y \<Longrightarrow> find P xs = Some y"
proof (induction xs)
  case (Cons x xs)
  show ?case
  proof (cases "P x")
    case True
    with Cons.prems(1) have "x = y" by (meson list.set_intros(1))
    with True show ?thesis by simp
  next
    case False
    with Cons.prems(2,3) have "y \<in> set xs" by (metis set_ConsD)
    moreover have "\<forall>x\<in>set xs. P x \<longrightarrow> x = y" using Cons.prems(1) by (meson list.set_intros(2))
    ultimately have "find P xs = Some y" using Cons.prems(3) Cons.IH by blast
    with False show ?thesis by simp
  qed
qed simp

lemma index_char_append: "c \<notin> set s \<Longrightarrow> index_char (s @ c # t) c = Some (length s)"
  by (induction s) auto

lemma parse_cidr_host4:
  assumes "length a = 4"
  shows "parse_cidr (ipv4_string a @ ''/32'') = Some \<lparr>n_IP = a, n_Mask = cidr_mask 32 4\<rparr>"
proof -
  have dot: "CHR ''.'' \<in> set (ipv4_string a)"
    using assms by (auto simp: ipv4_string_def length_Suc_conv eval_nat_numeral)
  have chars: "\<forall>c\<in>set (ipv4_string a). c \<in> set ''.:%'' \<longrightarrow> c = CHR ''.''"
    using ipv4_string_chars[of "CHR '':''" a] ipv4_string_chars[of "CHR ''%''" a] by (auto simp: is_digit_def)
  have slash: "CHR ''/'' \<notin> set (ipv4_string a)"
    using ipv4_string_chars[of "CHR ''/''" a] by (auto simp: is_digit_def)
  have "find (\<lambda>c. c \<in> set ''.:%'') (ipv4_string a) = Some (CHR ''.'')"
    by (rule find_first[OF chars dot]) simp
  then have addr: "parse_addr (ipv4_string a) = Some (Addr4 a)"
    by (simp add: parse_addr_def parse_ipv4_string[OF assms])
  have len: "dtoi ''32'' 0 = Some 32" by (simp add: is_digit_def)
  have "masked a (cidr_mask 32 4) = a"
    using map2_and_ones[OF assms] cidr_mask_full[of 4] by (simp add: masked_def)
  then show ?thesis
    using index_char_append[OF slash, of "''32''"]
    by (simp add: parse_cidr_def Let_def addr len del: dtoi.simps)
qed

lemma host_cidrs_spec:
  "host_cidrs ips result = (if \<forall>a\<in>set ips. valid_ip (fst a) then Inr (result @ map (host_block \<circ> fst) ips)
     else Inl (Plain (''resolver returned invalid address '' @
       invalid_ipaddr_text (the (find (\<lambda>a. \<not> valid_ip (fst a)) ips)))))"
proof (induction ips result rule: host_cidrs.induct)
  case (2 a rest result)
  show ?case
  proof (cases "To4 (fst a)")
    case None
    with 2 show ?thesis by (auto simp: To16_none host_block_def)
  next
    case (Some v4)
    have "parse_cidr (ipv4_string v4 @ ''/32'') = Some (host_block (fst a))"
      using parse_cidr_host4[OF To4_length[OF Some]] by (simp add: host_block_def Some)
    with 2 Some To4_valid[OF Some] show ?thesis by auto
  qed
qed simp

lemma numeric_cidrs_spec:
  "(numeric_cidrs i ips cidrs = Inr r) \<longleftrightarrow> (\<forall>a\<in>set ips. valid_ip a) \<and> r = cidrs @ map host_block ips"
proof (induction i ips cidrs rule: numeric_cidrs.induct)
  case (2 i a rest cidrs)
  then show ?case by (cases "To4 a") (auto simp: To16_none host_block_def dest: To4_valid)
qed auto

lemma Contains_host_block: "valid_ip a \<Longrightarrow> Contains (host_block a) x \<longleftrightarrow> normal_ip x = normal_ip a"
proof (cases "To4 a")
  case None
  moreover assume "valid_ip a"
  ultimately have "length a = 16" by (auto simp: valid_ip_def To4_def)
  with None show ?thesis by (simp add: host_block_def Contains_host16 normal_ip_def[of a])
next
  case (Some v4)
  then show ?thesis by (simp add: host_block_def Contains_host4[OF To4_length[OF Some]] normal_ip_def[of a])
qed

lemma IsBypass_Some [simp]:
  "IsBypass (Some p) (Some \<lparr>md_DstIP = Some dst\<rparr>) \<longleftrightarrow> (\<exists>n\<in>set (bp_cidrs p). Contains n dst)"
  by (simp add: IsBypass_def list_ex_iff)

text \<open>What one entry contributes, for a resolver whose answers are the function \<open>ans\<close>.\<close>

definition entry_blocks :: "(string \<Rightarrow> go_error + ipaddr list) \<Rightarrow> string \<Rightarrow> ipnet list option" where
  "entry_blocks ans e = (let entry = trim_space e in
     if entry = [] then Some []
     else (case parse_cidr entry of
         Some n \<Rightarrow> Some [n]
       | None \<Rightarrow> (case ans entry of
           Inr ips \<Rightarrow> if ips \<noteq> [] \<and> (\<forall>a\<in>set ips. valid_ip (fst a)) then Some (map (host_block \<circ> fst) ips) else None
         | Inl _ \<Rightarrow> None)))"

lemma resolveHost_spec:
  assumes "\<And>h w. snd (f h w) = ans h"
  shows "\<exists>w' r. resolveHostToCIDRsWithResolver host (Some f) w = (w', r) \<and>
     (case ans host of
        Inr ips \<Rightarrow> if ips \<noteq> [] \<and> (\<forall>a\<in>set ips. valid_ip (fst a)) then r = Inr (map (host_block \<circ> fst) ips) else \<exists>e. r = Inl e
      | Inl _ \<Rightarrow> \<exists>e. r = Inl e)"
proof -
  obtain w' where f: "f host w = (w', ans host)" using assms[of host w] by (cases "f host w") auto
  show ?thesis
  proof (cases "ans host")
    case (Inl e)
    with f show ?thesis by (auto simp: resolveHostToCIDRsWithResolver_def)
  next
    case (Inr ips)
    show ?thesis
    proof (cases ips)
      case Nil
      with Inr f show ?thesis by (simp add: resolveHostToCIDRsWithResolver_def)
    next
      case (Cons a rest)
      with Inr f show ?thesis
        by (auto simp: resolveHostToCIDRsWithResolver_def host_cidrs_spec)
    qed
  qed
qed

lemma routing_entries_spec:
  assumes ans: "\<And>h w. snd (f h w) = ans h"
  shows "\<exists>w' errs'. routing_entries (Some f) es result errs w =
     (w', result @ concat (map (\<lambda>e. case entry_blocks ans e of Some ns \<Rightarrow> ns | None \<Rightarrow> []) es), errs @ errs')
   \<and> (errs' = [] \<longleftrightarrow> (\<forall>e\<in>set es. entry_blocks ans e \<noteq> None))"
proof (induction es arbitrary: result errs w)
  case (Cons e es)
  let ?t = "trim_space e"
  show ?case
  proof (cases "?t = [] \<or> parse_cidr ?t \<noteq> None")
    case True
    show ?thesis
    proof (cases "?t = []")
      case True
      then have "entry_blocks ans e = Some []" by (simp add: entry_blocks_def)
      with True Cons.IH[of result errs w] show ?thesis by (auto simp: Let_def)
    next
      case False
      with True obtain n where n: "parse_cidr ?t = Some n" by blast
      with False have "entry_blocks ans e = Some [n]" by (simp add: entry_blocks_def)
      with False n Cons.IH[of "result @ [n]" errs w] show ?thesis by (auto simp: Let_def)
    qed
  next
    case False
    from resolveHost_spec[of f ans ?t w, OF ans] obtain w1 r where
      r: "resolveHostToCIDRsWithResolver ?t (Some f) w = (w1, r)"
      and s: "case ans ?t of
        Inr ips \<Rightarrow> if ips \<noteq> [] \<and> (\<forall>a\<in>set ips. valid_ip (fst a)) then r = Inr (map (host_block \<circ> fst) ips) else \<exists>e. r = Inl e
      | Inl _ \<Rightarrow> \<exists>e. r = Inl e" by blast
    from False s have b: "case r of Inr ns \<Rightarrow> entry_blocks ans e = Some ns | Inl _ \<Rightarrow> entry_blocks ans e = None"
      by (auto simp: entry_blocks_def Let_def split: sum.splits if_splits)
    show ?thesis
    proof (cases r)
      case (Inl err)
      let ?errs = "errs @ [Wrap (''resolve bypass host '' @ go_quote ?t @ '': '') err]"
      from Cons.IH[of result ?errs w1] b Inl False r show ?thesis
        by (auto simp: Let_def)
    next
      case (Inr ns)
      from Cons.IH[of "result @ ns" errs w1] b Inr False r show ?thesis
        by (auto simp: Let_def)
    qed
  qed
qed simp

section \<open>Properties\<close>

text \<open>
  C37. Resolution of the bypass list is all or nothing, and the policy routes directly exactly what
  the list names. With a resolver whose answers are \<open>ans\<close>, a policy is returned exactly when every
  entry is blank, a CIDR block, or a name that resolves to at least one address and to no malformed
  one. A dial then takes the direct route exactly when some entry covers its destination: a CIDR block that
  contains it, or a name one of whose addresses it is, IPv4-mapped addresses being IPv4.
\<close>

definition entry_covers :: "(string \<Rightarrow> go_error + ipaddr list) \<Rightarrow> ip \<Rightarrow> string \<Rightarrow> bool" where
  "entry_covers ans dst e \<longleftrightarrow> trim_space e \<noteq> [] \<and>
     (case parse_cidr (trim_space e) of
        Some n \<Rightarrow> Contains n dst
      | None \<Rightarrow> (case ans (trim_space e) of
          Inr ips \<Rightarrow> \<exists>a\<in>set ips. normal_ip dst = normal_ip (fst a)
        | Inl _ \<Rightarrow> False))"

lemma entry_blocks_covers:
  "entry_blocks ans e = Some ns \<Longrightarrow> (\<exists>n\<in>set ns. Contains n dst) \<longleftrightarrow> entry_covers ans dst e"
proof -
  assume b: "entry_blocks ans e = Some ns"
  show ?thesis
  proof (cases "trim_space e = [] \<or> parse_cidr (trim_space e) \<noteq> None")
    case True
    with b show ?thesis by (auto simp: entry_blocks_def entry_covers_def Let_def split: if_splits)
  next
    case False
    with b obtain ips where ips: "ans (trim_space e) = Inr ips" "ns = map (host_block \<circ> fst) ips" "\<forall>a\<in>set ips. valid_ip (fst a)"
      by (auto simp: entry_blocks_def Let_def split: if_splits sum.splits)
    have "(\<exists>n\<in>set ns. Contains n dst) \<longleftrightarrow> (\<exists>a\<in>set ips. Contains (host_block (fst a)) dst)" by (simp add: ips(2))
    also have "\<dots> \<longleftrightarrow> (\<exists>a\<in>set ips. normal_ip dst = normal_ip (fst a))" using ips(3) Contains_host_block by blast
    finally show ?thesis using False ips(1) by (simp add: entry_covers_def)
  qed
qed

definition entry_usable :: "(string \<Rightarrow> go_error + ipaddr list) \<Rightarrow> string \<Rightarrow> bool" where
  "entry_usable ans e \<longleftrightarrow> trim_space e = [] \<or> parse_cidr (trim_space e) \<noteq> None
     \<or> (case ans (trim_space e) of
           Inr ips \<Rightarrow> ips \<noteq> [] \<and> (\<forall>a\<in>set ips. valid_ip (fst a))
         | Inl _ \<Rightarrow> False)"

lemma entry_usable_iff: "entry_usable ans e \<longleftrightarrow> entry_blocks ans e \<noteq> None"
  by (auto simp: entry_blocks_def entry_usable_def Let_def split: option.splits sum.splits)

theorem bypass_policy_exact:
  assumes ans: "\<forall>h w. snd (f h w) = ans h"
  shows "case ResolveBypassPolicyWithResolver entries (Some f) w of
     (w', Inl err) \<Rightarrow> (\<exists>e\<in>set entries. \<not> entry_usable ans e)
   | (w', Inr p) \<Rightarrow> (\<forall>e\<in>set entries. entry_usable ans e) \<and> bp_entryCount p = length entries
       \<and> (\<forall>dst. DobbyProxy_route (Some p) (Some \<lparr>md_DstIP = Some dst\<rparr>) =
            (if \<exists>e\<in>set entries. entry_covers ans dst e then DIRECT else VPN))"
proof -
  from ans have a: "\<And>h w. snd (f h w) = ans h" by simp
  let ?ns = "concat (map (\<lambda>e. case entry_blocks ans e of Some ns \<Rightarrow> ns | None \<Rightarrow> []) entries)"
  from routing_entries_spec[of f ans entries "[]" "[]" w, OF a] obtain w' errs where
    r: "routing_entries (Some f) entries [] [] w = (w', ?ns, errs)"
    and e: "errs = [] \<longleftrightarrow> (\<forall>e\<in>set entries. entry_usable ans e)" by (auto simp: entry_usable_iff)
  show ?thesis
  proof (cases "errs = []")
    case True
    have "(\<exists>n\<in>set ?ns. Contains n dst) \<longleftrightarrow> (\<exists>e\<in>set entries. entry_covers ans dst e)" for dst
    proof -
      have "(\<exists>n\<in>set (case entry_blocks ans x of Some ns \<Rightarrow> ns | None \<Rightarrow> []). Contains n dst) \<longleftrightarrow> entry_covers ans dst x"
        if "x \<in> set entries" for x
      proof -
        from True e that obtain ns where "entry_blocks ans x = Some ns" by (auto simp: entry_usable_iff)
        with entry_blocks_covers[OF this, of dst] show ?thesis by simp
      qed
      then show ?thesis by (simp only: set_concat set_map bex_simps UN_iff bex_UN image_iff) (metis (no_types, lifting))
    qed
    with True e r show ?thesis
      by (simp add: ResolveBypassPolicyWithResolver_def resolveRoutingEntriesWithResolver_def errors_join_def DobbyProxy_route_def)
  next
    case False
    then obtain x xs where "errs = x # xs" by (cases errs) auto
    with False e r show ?thesis
      by (simp add: ResolveBypassPolicyWithResolver_def resolveRoutingEntriesWithResolver_def errors_join_def)
  qed
qed

definition sample_answers :: "string \<Rightarrow> go_error + ipaddr list" where
  "sample_answers h = (if h = ''example.org'' then Inr [([93, 184, 215, 14], [])] else Inl (DNSError ''no such host'' True))"

theorem bypass_policy_exact_witness:
  "(\<exists>p. ResolveBypassPolicyWithResolver ['' 10.0.0.0/8'', [], ''example.org''] (Some (\<lambda>h w. (w, sample_answers h))) () = ((), Inr p)
      \<and> DobbyProxy_route (Some p) (Some \<lparr>md_DstIP = Some [10, 1, 2, 3]\<rparr>) = DIRECT
      \<and> DobbyProxy_route (Some p) (Some \<lparr>md_DstIP = Some (v4InV6Prefix @ [93, 184, 215, 14])\<rparr>) = DIRECT
      \<and> DobbyProxy_route (Some p) (Some \<lparr>md_DstIP = Some [8, 8, 8, 8]\<rparr>) = VPN)
   \<and> (\<exists>e. ResolveBypassPolicyWithResolver [''10.0.0.0/8'', ''example.com''] (Some (\<lambda>h w. (w, sample_answers h))) () = ((), Inl e))"
proof -
  let ?f = "\<lambda>h w :: unit. (w, sample_answers h)"
  let ?es = "['' 10.0.0.0/8'', [], ''example.org'']"
  have ok: "snd (ResolveBypassPolicyWithResolver ?es (Some ?f) ()) =
      Inr \<lparr>bp_cidrs = [\<lparr>n_IP = [10, 0, 0, 0], n_Mask = [255, 0, 0, 0]\<rparr>, \<lparr>n_IP = [93, 184, 215, 14], n_Mask = [255, 255, 255, 255]\<rparr>], bp_entryCount = 3\<rparr>"
    by code_simp
  have cov: "list_ex (entry_covers sample_answers [10, 1, 2, 3]) ?es"
    "list_ex (entry_covers sample_answers (v4InV6Prefix @ [93, 184, 215, 14])) ?es"
    "\<not> list_ex (entry_covers sample_answers [8, 8, 8, 8]) ?es" by code_simp+
  have bad: "\<not> entry_usable sample_answers ''example.com''" by code_simp
  from bypass_policy_exact[of ?f sample_answers ?es "()"] ok cov
    bypass_policy_exact[of ?f sample_answers "[''10.0.0.0/8'', ''example.com'']" "()"] bad
  show ?thesis by (auto simp: list_ex_iff split: prod.splits sum.splits simp del: IsBypass_Some)
qed

text \<open>
  Extending a policy by a device's numeric upstreams adds exactly those addresses: it fails on a
  nil policy or a malformed address, and otherwise the copy keeps every decision of the original and
  routes directly exactly the supplied addresses besides.
\<close>

theorem WithNumericIPs_adds_exactly:
  "case WithNumericIPs p ips of
     Inl err \<Rightarrow> p = None \<or> (\<exists>a\<in>set ips. \<not> valid_ip a)
   | Inr p' \<Rightarrow> p \<noteq> None \<and> (\<forall>a\<in>set ips. valid_ip a) \<and> bp_entryCount p' = bp_entryCount (the p)
       \<and> (\<forall>dst. IsBypass (Some p') (Some \<lparr>md_DstIP = Some dst\<rparr>) \<longleftrightarrow>
            IsBypass p (Some \<lparr>md_DstIP = Some dst\<rparr>) \<or> (\<exists>a\<in>set ips. normal_ip dst = normal_ip a))"
proof (cases p)
  case None
  then show ?thesis by (simp add: WithNumericIPs_def)
next
  case (Some q)
  show ?thesis
  proof (cases "numeric_cidrs 0 ips (bp_cidrs q)")
    case (Inl err)
    with numeric_cidrs_spec[of 0 ips "bp_cidrs q"] have "\<not> (\<forall>a\<in>set ips. valid_ip a)" by auto
    with Inl Some show ?thesis by (simp add: WithNumericIPs_def)
  next
    case (Inr r)
    with numeric_cidrs_spec[of 0 ips "bp_cidrs q"]
    have v: "\<forall>a\<in>set ips. valid_ip a" and r: "r = bp_cidrs q @ map host_block ips" by auto
    from v have "(\<exists>a\<in>set ips. Contains (host_block a) dst) \<longleftrightarrow> (\<exists>a\<in>set ips. normal_ip dst = normal_ip a)" for dst
      using Contains_host_block by blast
    with Inr Some v r show ?thesis by (simp add: WithNumericIPs_def bex_Un)
  qed
qed

theorem WithNumericIPs_adds_exactly_witness:
  "\<exists>p'. WithNumericIPs (Some \<lparr>bp_cidrs = [], bp_entryCount = 0\<rparr>) [[203, 0, 113, 7]] = Inr p'
     \<and> IsBypass (Some p') (Some \<lparr>md_DstIP = Some [203, 0, 113, 7]\<rparr>)
     \<and> \<not> IsBypass (Some p') (Some \<lparr>md_DstIP = Some [203, 0, 113, 8]\<rparr>)"
  using WithNumericIPs_adds_exactly[of "Some \<lparr>bp_cidrs = [], bp_entryCount = 0\<rparr>" "[[203, 0, 113, 7]]"]
  by (auto simp: valid_ip_def normal_ip_def To4_def simp del: IsBypass_Some split: sum.splits) (simp add: IsBypass_def)

end
