(* ===== verification/Runtime_Lifecycle.thy ===== *)
theory Runtime_Lifecycle
  imports Session_State Bypass_Policy
begin

text \<open>
  The session runtime (\<^verbatim>\<open>core/sessionapi/runtime/lifecycle.go\<close>): acquisition of the network, protocol
  attempts on top of it, their leases, the initial readiness check and the health monitor.

  What the runtime calls is a parameter: the record \<open>rt_env\<close> has one field per method or callback, each
  a function of the world \<open>'w\<close>. A context's \<^verbatim>\<open>Err\<close> is such a field, so a cancellation can arrive
  between any two calls. A type assertion for an optional interface is a flag or an option.
  Leases are numbers into \<open>rt_leases\<close>, since callbacks compare them by identity. \<^const>\<open>Panic\<close> stands for a
  panic and for a goroutine that would block on a mutex it holds. Log calls are left out.
\<close>

section \<open>Options\<close>

record options =
  op_ReadinessAttempts :: int
  op_ReadinessAttemptTimeout :: int
  op_ReadinessRetryInterval :: int
  op_HealthInterval :: int
  op_HealthFailureThreshold :: int

definition defaultHealthFailureThreshold :: int where
  "defaultHealthFailureThreshold = 3"

text \<open>The numeric defaults of \<^verbatim>\<open>New\<close>, durations in nanoseconds.\<close>

definition New :: "options \<Rightarrow> options" where
  "New o1 =
     (let o2 = (if op_ReadinessAttempts o1 \<le> 0 then o1\<lparr>op_ReadinessAttempts := 6\<rparr> else o1);
          o3 = (if op_ReadinessAttemptTimeout o2 \<le> 0 then o2\<lparr>op_ReadinessAttemptTimeout := 5 * 1000000000\<rparr> else o2);
          o4 = (if op_ReadinessRetryInterval o3 \<le> 0 then o3\<lparr>op_ReadinessRetryInterval := 200 * 1000000\<rparr> else o3);
          o5 = (if op_HealthInterval o4 \<le> 0 then o4\<lparr>op_HealthInterval := 10 * 1000000000\<rparr> else o4)
      in if op_HealthFailureThreshold o5 \<le> 0 then o5\<lparr>op_HealthFailureThreshold := defaultHealthFailureThreshold\<rparr> else o5)"

section \<open>The environment\<close>

text \<open>
  How the race of \<^verbatim>\<open>connectContext\<close> ends: the core's \<^verbatim>\<open>Connect\<close> returns first, or the context is done first;
  then \<open>x_connectLate\<close> is what \<^verbatim>\<open>Connect\<close> returns in the end.
\<close>

datatype connect_race = ConnectReturned "go_error option" | ContextDone

record 'w rt_env =
  x_ctxErr :: "'w \<Rightarrow> 'w \<times> go_error option"
  x_mobile :: bool
  x_nativeInputs :: bool
  x_resolve :: "string list \<Rightarrow> 'w \<Rightarrow> 'w \<times> bypass_policy option \<times> go_error option"
  x_cacheResolve :: "'w resolver"
  x_tunnel :: bool
  x_acquire :: "session_ref \<Rightarrow> 'w \<Rightarrow> 'w \<times> bool \<times> go_error option"
  x_resolverProvider :: bool
  x_configureResolver :: "session_ref \<Rightarrow> 'w \<Rightarrow> 'w \<times> go_error option"
  x_newCore :: "'w \<Rightarrow> 'w \<times> bool"
  x_setNetworkRef :: "session_ref \<Rightarrow> 'w \<Rightarrow> 'w"
  x_connect :: "'w \<Rightarrow> 'w \<times> connect_race"
  x_connectLate :: "'w \<Rightarrow> 'w \<times> go_error option"
  x_canceler :: bool
  x_cancelConnect :: "'w \<Rightarrow> 'w"
  x_disconnect :: "'w \<Rightarrow> 'w \<times> go_error option"
  x_cancelNetwork :: "'w \<Rightarrow> 'w"
  x_tunRelease :: "'w \<Rightarrow> 'w \<times> go_error option"
  x_scopeClose :: "u64 \<Rightarrow> 'w \<Rightarrow> 'w \<times> go_error option"
  x_newDevice :: "session_ref \<Rightarrow> runtime_profile \<Rightarrow> 'w \<Rightarrow> 'w \<times> bool \<times> go_error option"
  x_deviceClose :: "u64 \<Rightarrow> 'w \<Rightarrow> 'w \<times> go_error option"
  x_upstreams :: "'w \<Rightarrow> ip list option"
  x_proxyAddr :: "'w \<Rightarrow> string"
  x_deviceWaits :: bool
  x_waitReady :: "'w \<Rightarrow> 'w \<times> go_error option"
  x_open :: "'w \<Rightarrow> 'w \<times> go_error option"
  x_attach :: "u64 \<Rightarrow> string \<Rightarrow> bypass_policy \<Rightarrow> 'w \<Rightarrow> 'w \<times> go_error option"
  x_detach :: "u64 \<Rightarrow> 'w \<Rightarrow> 'w \<times> go_error option"
  x_initialReadiness :: "session_ref \<Rightarrow> string \<Rightarrow> 'w \<Rightarrow> 'w \<times> go_error option"
  x_retryTimer :: "'w \<Rightarrow> 'w \<times> go_error option"
  x_healthWait :: "'w \<Rightarrow> 'w \<times> go_error option"

section \<open>Leases\<close>

text \<open>The closures a lease releases, in the order they are pushed.\<close>

datatype undo = UndoTunnel | UndoDisconnect | UndoScope u64 | UndoDevice u64 | UndoDetach u64

fun run_undo :: "'w rt_env \<Rightarrow> undo \<Rightarrow> 'w \<Rightarrow> 'w \<times> go_error option" where
  "run_undo x UndoTunnel w = x_tunRelease x w"
| "run_undo x UndoDisconnect w = (case x_disconnect x w of (w1, disconnectErr) \<Rightarrow> (x_cancelNetwork x w1, disconnectErr))"
| "run_undo x (UndoScope g) w = x_scopeClose x g w"
| "run_undo x (UndoDevice g) w = x_deviceClose x g w"
| "run_undo x (UndoDetach g) w = x_detach x g w"

datatype on_done = ReleaseActive | ReleaseNetwork nat

record rlease =
  rl_bypass :: "bypass_policy option"
  rl_proxyAddr :: string
  rl_waitReady :: bool
  rl_stopped :: bool
  rl_undo :: "undo list"
  rl_onDone :: "on_done option"
  rl_health :: "bool option"

definition new_lease :: rlease where
  "new_lease = \<lparr>rl_bypass = None, rl_proxyAddr = [], rl_waitReady = False, rl_stopped = False, rl_undo = [],
     rl_onDone = None, rl_health = None\<rparr>"

definition lease_push :: "undo \<Rightarrow> rlease \<Rightarrow> rlease" where
  "lease_push fn l = l\<lparr>rl_undo := rl_undo l @ [fn]\<rparr>"

definition setOnDone :: "on_done \<Rightarrow> rlease \<Rightarrow> rlease" where
  "setOnDone fn l = l\<lparr>rl_onDone := Some fn\<rparr>"

text \<open>
  \<^verbatim>\<open>lease.Stop\<close>: cancel and join the health monitor, then release from the end of the list and stop at
  the first failure. The last component is the \<^verbatim>\<open>onDone\<close> callback it calls, which takes the runtime's mutex.
\<close>

definition lease_Stop :: "'w rt_env \<Rightarrow> rlease \<Rightarrow> 'w \<Rightarrow> rlease \<times> 'w \<times> go_error option \<times> on_done option" where
  "lease_Stop x l w =
     (if rl_stopped l then (l, w, None, None)
      else (let l1 = (case rl_health l of None \<Rightarrow> l | Some _ \<Rightarrow> l\<lparr>rl_health := Some True\<rparr>) in
        case (if rl_health l1 = None then (w, None) else x_healthWait x w) of
          (w1, Some err) \<Rightarrow> (l1, w1, Some err, None)
        | (w1, None) \<Rightarrow> (case ledger_release (run_undo x) (rl_undo l1) w1 of
            (rest, w2, Some err) \<Rightarrow> (l1\<lparr>rl_undo := rest\<rparr>, w2, Some err, None)
          | (rest, w2, None) \<Rightarrow> (l1\<lparr>rl_undo := rest, rl_stopped := True\<rparr>, w2, None, rl_onDone l1))))"

definition markCleanupFailure :: "go_error option \<Rightarrow> go_error option" where
  "markCleanupFailure err = map_option CleanupFailure err"

section \<open>The runtime\<close>

record network_owner =
  no_ref :: session_ref
  no_core :: bool
  no_lease :: nat

record rt =
  rt_active :: bool
  rt_network :: "network_owner option"
  rt_leases :: "nat \<Rightarrow> rlease"
  rt_next :: nat
  rt_calling :: "(nat \<times> on_done) list"

definition new_runtime :: rt where
  "new_runtime = \<lparr>rt_active = False, rt_network = None, rt_leases = (\<lambda>_. new_lease), rt_next = 0, rt_calling = []\<rparr>"

definition errConnectCancellationPending :: go_error where
  "errConnectCancellationPending = Plain ''native session connect cancellation pending''"

definition connectContext :: "'w rt_env \<Rightarrow> 'w \<Rightarrow> 'w \<times> go_error option" where
  "connectContext x w = (case x_connect x w of
       (w1, ConnectReturned err) \<Rightarrow> (w1, err)
     | (w1, ContextDone) \<Rightarrow>
         if x_canceler x then
           (x_cancelConnect x w1, errors_join [Some (Sentinel Canceled), Some errConnectCancellationPending])
         else (case x_disconnect x w1 of
             (w2, cancelErr) \<Rightarrow> (case x_connectLate x w2 of
               (w3, connectErr) \<Rightarrow> (w3, errors_join [Some (Sentinel Canceled), cancelErr, connectErr]))))"

text \<open>
  \<^verbatim>\<open>acquireNetworkTunnel\<close> works on the lease of the new owner; a tunnel that came with an error is released
  with the owner.
\<close>

definition acquireNetworkTunnel :: "'w rt_env \<Rightarrow> session_ref \<Rightarrow> rlease \<Rightarrow> 'w \<Rightarrow> rlease \<times> 'w \<times> go_error option" where
  "acquireNetworkTunnel x ref l w =
     (if \<not> x_tunnel x then (l, w, Some (Plain ''mobile network requires a TunnelProvider''))
      else (case x_acquire x ref w of (w1, tun, err) \<Rightarrow>
        (let l1 = (if tun then lease_push UndoTunnel l else l) in
         case err of
           Some e \<Rightarrow> (l1, w1, Some e)
         | None \<Rightarrow>
             if \<not> tun then (l1, w1, Some (Plain ''platform returned no network interface''))
             else if \<not> x_resolverProvider x then (l1, w1, Some (Plain ''platform underlying resolver is unavailable''))
             else (case x_configureResolver x ref w1 of (w2, err2) \<Rightarrow> (l1, w2, err2)))))"

text \<open>The body of \<^verbatim>\<open>PrepareNetwork\<close> once the owner is installed: its lease, whether it has a core, and the error.\<close>

definition prepare_connect :: "'w rt_env \<Rightarrow> session_ref \<Rightarrow> rlease \<Rightarrow> 'w \<Rightarrow> rlease \<times> bool \<times> 'w \<times> go_error option" where
  "prepare_connect x ref l w = (case x_newCore x w of
       (w1, False) \<Rightarrow> (l, False, w1, Some (Plain ''network core is unavailable''))
     | (w1, True) \<Rightarrow>
         (let l1 = lease_push UndoDisconnect l in
          case connectContext x (x_setNetworkRef x ref w1) of
            (w2, Some err) \<Rightarrow> (l1, True, w2, Some err)
          | (w2, None) \<Rightarrow> (case x_ctxErr x w2 of (w3, err) \<Rightarrow> (l1, True, w3, err))))"

definition prepare_body :: "'w rt_env \<Rightarrow> session_ref \<Rightarrow> runtime_profile \<Rightarrow> rlease \<Rightarrow> 'w \<Rightarrow> rlease \<times> bool \<times> 'w \<times> go_error option" where
  "prepare_body x ref profile l w =
     (let entries = (if x_nativeInputs x then [] else rp_ExcludeCIDRs profile) in
      case x_resolve x entries w of
        (w1, bypass, Some err) \<Rightarrow> (l, False, w1, Some (Wrap ''resolve network bypass: '' err))
      | (w1, None, None) \<Rightarrow> (l, False, w1, Some (Plain ''network bypass is unavailable''))
      | (w1, Some bypass, None) \<Rightarrow>
          if x_mobile x then (case acquireNetworkTunnel x ref l w1 of
              (l1, w2, Some err) \<Rightarrow> (l1, False, w2, Some err)
            | (l1, w2, None) \<Rightarrow> prepare_connect x ref l1 w2)
          else prepare_connect x ref l w1)"

definition PrepareNetwork ::
  "'w rt_env \<Rightarrow> session_ref \<Rightarrow> runtime_profile \<Rightarrow> rt \<Rightarrow> 'w \<Rightarrow> rt \<times> 'w \<times> nat option \<times> go_error option" where
  "PrepareNetwork x ref profile r w =
     (if rt_network r \<noteq> None \<or> rt_active r then (r, w, None, Some (Plain ''previous network is still owned''))
      else (let i = rt_next r in
        case prepare_body x ref profile (setOnDone (ReleaseNetwork i) new_lease) w of
          (l, core, w1, err) \<Rightarrow>
            (r\<lparr>rt_network := Some \<lparr>no_ref = ref, no_core = core, no_lease = i\<rparr>,
               rt_leases := (rt_leases r)(i := l), rt_next := Suc i\<rparr>, w1, Some i, err)))"

text \<open>The helper \<^verbatim>\<open>fail\<close> of \<^verbatim>\<open>startLocked\<close>: roll back; a failed rollback hands the lease to the caller.\<close>

definition start_fail :: "'w rt_env \<Rightarrow> rlease \<Rightarrow> go_error \<Rightarrow> 'w \<Rightarrow> rlease option \<times> 'w \<times> go_error option" where
  "start_fail x owned cause w = (case lease_Stop x owned w of
       (owned1, w1, Some cleanupErr, cb) \<Rightarrow> (Some owned1, w1, errors_join [Some cause, markCleanupFailure (Some cleanupErr)])
     | (owned1, w1, None, cb) \<Rightarrow> (None, w1, Some cause))"

text \<open>\<^verbatim>\<open>startLocked\<close> from the device on.\<close>

definition start_open :: "'w rt_env \<Rightarrow> bool \<Rightarrow> rlease \<Rightarrow> 'w \<Rightarrow> (rlease option \<times> 'w \<times> go_error option) outcome" where
  "start_open x core owned w =
     (if rl_proxyAddr owned = [] then Ret (start_fail x owned (Plain ''protocol device returned an empty SOCKS endpoint'') w)
      else if \<not> core then Panic
      else (case x_open x w of
          (w1, Some err) \<Rightarrow> Ret (start_fail x owned (Wrap ''open protocol: '' err) w1)
        | (w1, None) \<Rightarrow> (case x_ctxErr x w1 of
            (w2, Some err) \<Rightarrow> Ret (start_fail x owned err w2)
          | (w2, None) \<Rightarrow> Ret (Some owned, w2, None))))"

definition start_device ::
  "'w rt_env \<Rightarrow> bool \<Rightarrow> session_ref \<Rightarrow> runtime_profile \<Rightarrow> bypass_policy \<Rightarrow> rlease \<Rightarrow> 'w \<Rightarrow> (rlease option \<times> 'w \<times> go_error option) outcome" where
  "start_device x core ref profile bypass owned w =
     (case x_newDevice x ref profile w of (w1, device, err) \<Rightarrow>
       (let owned1 = (if device then lease_push (UndoDevice (ref_Generation ref)) owned else owned) in
        case err of
          Some e \<Rightarrow> Ret (start_fail x owned1 (Wrap ''create protocol device: '' e) w1)
        | None \<Rightarrow>
            if \<not> device then Ret (start_fail x owned1 (Plain ''protocol device unavailable'') w1)
            else (case (case x_upstreams x w1 of None \<Rightarrow> Inr bypass | Some ips \<Rightarrow> WithNumericIPs (Some bypass) ips) of
                Inl e \<Rightarrow> Ret (start_fail x owned1 (Wrap ''extend bypass policy with numeric protocol upstreams: '' e) w1)
              | Inr policy \<Rightarrow> start_open x core
                  (owned1\<lparr>rl_proxyAddr := x_proxyAddr x w1, rl_bypass := Some policy, rl_waitReady := x_deviceWaits x\<rparr>) w1)))"

definition startLocked ::
  "'w rt_env \<Rightarrow> bool \<Rightarrow> session_ref \<Rightarrow> runtime_profile \<Rightarrow> 'w \<Rightarrow> (rlease option \<times> 'w \<times> go_error option) outcome" where
  "startLocked x core ref profile w =
     (if Config_Empty (rp_Config profile) then Ret (None, w, Some (Plain ''runtime profile has no normalized config''))
      else (case x_ctxErr x w of
          (w1, Some err) \<Rightarrow> Ret (None, w1, Some err)
        | (w1, None) \<Rightarrow>
            (case (if x_nativeInputs x then
                     (case ResolveBypassPolicyWithResolver (rp_ExcludeCIDRs profile) (Some (x_cacheResolve x)) w1 of
                        (w2, Inl err) \<Rightarrow> (w2, None, Some err)
                      | (w2, Inr p) \<Rightarrow> (w2, Some p, None))
                   else x_resolve x (rp_ExcludeCIDRs profile) w1) of
               (w2, bypass, Some err) \<Rightarrow> Ret (start_fail x new_lease (Wrap ''resolve bypass policy: '' err) w2)
             | (w2, None, None) \<Rightarrow> Ret (start_fail x new_lease (Plain ''bypass policy unavailable'') w2)
             | (w2, Some bypass, None) \<Rightarrow>
                 start_device x core ref profile bypass (lease_push (UndoScope (ref_Generation ref)) new_lease) w2)))"

section \<open>Readiness\<close>

text \<open>The check of one attempt: the device's own readiness first, where it has one.\<close>

definition readiness_check :: "'w rt_env \<Rightarrow> session_ref \<Rightarrow> rlease \<Rightarrow> 'w \<Rightarrow> 'w \<times> go_error option" where
  "readiness_check x ref l w =
     (if rl_waitReady l then (case x_waitReady x w of
          (w1, Some err) \<Rightarrow> (w1, Some (Wrap ''wait for protocol transport readiness: '' err))
        | (w1, None) \<Rightarrow> x_initialReadiness x ref (rl_proxyAddr l) w1)
      else x_initialReadiness x ref (rl_proxyAddr l) w)"

function readiness_loop ::
  "'w rt_env \<Rightarrow> ('w \<Rightarrow> 'w \<times> go_error option) \<Rightarrow> int \<Rightarrow> int \<Rightarrow> go_error list \<Rightarrow> 'w \<Rightarrow> 'w \<times> go_error option" where
  "readiness_loop x check attempts attempt errs w =
     (if attempt \<le> attempts then
        (case x_ctxErr x w of
           (w1, Some err) \<Rightarrow> (w1, errors_join [Some err, errors_join (map Some errs)])
         | (w1, None) \<Rightarrow> (case check w1 of
             (w2, None) \<Rightarrow> (w2, None)
           | (w2, Some err) \<Rightarrow>
               (let errs' = errs @ [Wrap (''attempt '' @ itoa attempt @ ''/'' @ itoa attempts @ '': '') err] in
                case x_ctxErr x w2 of
                  (w3, Some ctxErr) \<Rightarrow> (w3, errors_join [Some ctxErr, errors_join (map Some errs')])
                | (w3, None) \<Rightarrow>
                    if attempt = attempts then
                      (w3, Some (Wrap (''readiness failed after '' @ itoa attempts @ '' attempts: '') (Joined errs')))
                    else (case x_retryTimer x w3 of
                        (w4, Some ctxErr) \<Rightarrow> (w4, errors_join [Some ctxErr, errors_join (map Some errs')])
                      | (w4, None) \<Rightarrow> readiness_loop x check attempts (attempt + 1) errs' w4))))
      else (w, Some (Wrap (''readiness failed after '' @ itoa attempts @ '' attempts: '') (Joined errs))))"
  by pat_completeness auto
termination
  by (relation "measure (\<lambda>(x, check, attempts, attempt, errs, w). nat (attempts + 1 - attempt))") auto

declare readiness_loop.simps [simp del]

definition waitForInitialReadiness ::
  "'w rt_env \<Rightarrow> ('w \<Rightarrow> 'w \<times> go_error option) \<Rightarrow> int \<Rightarrow> 'w \<Rightarrow> 'w \<times> go_error option" where
  "waitForInitialReadiness x check attempts w =
     (if attempts < 1 then (w, Some (Plain ''initial readiness has no attempts configured''))
      else readiness_loop x check attempts 1 [] w)"

section \<open>Start\<close>

text \<open>
  A failed attempt after \<^verbatim>\<open>startLocked\<close>: stop the lease with the runtime's mutex held. A lease that had a
  callback by then would wait for that mutex forever.
\<close>

definition start_rollback ::
  "'w rt_env \<Rightarrow> rlease \<Rightarrow> (go_error option \<Rightarrow> go_error option) \<Rightarrow> rt \<Rightarrow> 'w \<Rightarrow> (rt \<times> 'w \<times> nat option \<times> go_error option) outcome" where
  "start_rollback x l cause r w = (case lease_Stop x l w of
       (l1, w1, None, None) \<Rightarrow> Ret (r\<lparr>rt_active := False\<rparr>, w1, None, cause None)
     | (l1, w1, None, Some fn) \<Rightarrow> Panic
     | (l1, w1, Some cleanupErr, cb) \<Rightarrow>
         Ret (r\<lparr>rt_leases := (rt_leases r)(rt_next r := setOnDone ReleaseActive l1), rt_next := Suc (rt_next r)\<rparr>, w1,
              Some (rt_next r), cause (Some cleanupErr)))"

definition start_ready ::
  "'w rt_env \<Rightarrow> options \<Rightarrow> session_ref \<Rightarrow> rlease \<Rightarrow> rt \<Rightarrow> 'w \<Rightarrow> (rt \<times> 'w \<times> nat option \<times> go_error option) outcome" where
  "start_ready x opts ref l r w =
     (case waitForInitialReadiness x (readiness_check x ref l) (op_ReadinessAttempts opts) w of
        (w1, Some err) \<Rightarrow>
          start_rollback x l
            (\<lambda>cleanupErr. errors_join [Some (Wrap ''wait for initial tunnel readiness: '' err), markCleanupFailure cleanupErr]) r w1
      | (w1, None) \<Rightarrow> (case rl_bypass l of
          None \<Rightarrow> Panic
        | Some bypass \<Rightarrow> (case x_attach x (ref_Generation ref) (rl_proxyAddr l) bypass w1 of
            (w2, Some err) \<Rightarrow>
              start_rollback x l
                (\<lambda>cleanupErr. case cleanupErr of None \<Rightarrow> Some err | Some c \<Rightarrow> errors_join [Some err, markCleanupFailure (Some c)]) r w2
          | (w2, None) \<Rightarrow>
              (let l1 = setOnDone ReleaseActive (lease_push (UndoDetach (ref_Generation ref)) l)
               in Ret (r\<lparr>rt_leases := (rt_leases r)(rt_next r := l1\<lparr>rl_health := Some False\<rparr>), rt_next := Suc (rt_next r)\<rparr>, w2,
                       Some (rt_next r), None)))))"

definition runtime_Start ::
  "'w rt_env \<Rightarrow> options \<Rightarrow> session_ref \<Rightarrow> runtime_profile \<Rightarrow> rt \<Rightarrow> 'w \<Rightarrow> (rt \<times> 'w \<times> nat option \<times> go_error option) outcome" where
  "runtime_Start x opts ref profile r w = (case x_ctxErr x w of
       (w1, Some err) \<Rightarrow> Ret (r, w1, None, Some err)
     | (w1, None) \<Rightarrow>
         if rt_active r then Ret (r, w1, None, Some (Plain ''another runtime lease is active''))
         else (case rt_network r of
             None \<Rightarrow> Ret (r, w1, None, Some (Plain ''VPN network must be acquired before a protocol attempt''))
           | Some n \<Rightarrow>
               if ref_SessionID (no_ref n) \<noteq> ref_SessionID ref then
                 Ret (r, w1, None, Some (Plain ''VPN network must be acquired before a protocol attempt''))
               else (case startLocked x (no_core n) ref profile w1 of
                   Panic \<Rightarrow> Panic
                 | Ret (Some l, w2, Some err) \<Rightarrow>
                     Ret (r\<lparr>rt_active := True, rt_leases := (rt_leases r)(rt_next r := setOnDone ReleaseActive l),
                            rt_next := Suc (rt_next r)\<rparr>, w2, Some (rt_next r), Some err)
                 | Ret (None, w2, Some err) \<Rightarrow> Ret (r\<lparr>rt_active := as_cleanup err\<rparr>, w2, None, Some err)
                 | Ret (Some l, w2, None) \<Rightarrow> start_ready x opts ref l (r\<lparr>rt_active := True\<rparr>) w2
                 | Ret (None, w2, None) \<Rightarrow> Panic)))"

section \<open>Stopping a lease the caller holds\<close>

text \<open>
  Releasing runs under the lease's own mutex; the callback then takes the runtime's mutex, so a start
  can come in between. \<open>rt_calling\<close> lists the callbacks that have yet to run.
\<close>

definition stop_lease :: "'w rt_env \<Rightarrow> nat \<Rightarrow> rt \<Rightarrow> 'w \<Rightarrow> rt \<times> 'w \<times> go_error option" where
  "stop_lease x i r w = (case lease_Stop x (rt_leases r i) w of
       (l, w1, err, cb) \<Rightarrow>
         (r\<lparr>rt_leases := (rt_leases r)(i := l),
            rt_calling := rt_calling r @ (case cb of None \<Rightarrow> [] | Some fn \<Rightarrow> [(i, fn)])\<rparr>, w1, err))"

fun call_onDone :: "on_done \<Rightarrow> rt \<Rightarrow> rt" where
  "call_onDone ReleaseActive r = r\<lparr>rt_active := False\<rparr>"
| "call_onDone (ReleaseNetwork i) r = (case rt_network r of
      Some n \<Rightarrow> if no_lease n = i then r\<lparr>rt_network := None\<rparr> else r
    | None \<Rightarrow> r)"

definition finish_call :: "nat \<Rightarrow> rt \<Rightarrow> rt" where
  "finish_call k r = (case drop k (rt_calling r) of
       [] \<Rightarrow> r
     | (i, fn) # rest \<Rightarrow> call_onDone fn (r\<lparr>rt_calling := take k (rt_calling r) @ rest\<rparr>))"

section \<open>The health monitor\<close>

text \<open>
  One event of the monitor's loop: a check that returned, a failed check whose report lost the
  race against cancellation, or the cancellation seen between two checks.
\<close>

datatype monitor_event = Checked "go_error option" | CheckedLost go_error | MonitorCanceled

datatype monitor = Watching "go_error list" | Reported go_error | MonitorDone

fun monitor_step :: "int \<Rightarrow> monitor \<Rightarrow> monitor_event \<Rightarrow> monitor" where
  "monitor_step threshold (Watching failures) (Checked (Some err)) =
     (if threshold \<le> int (length (failures @ [err])) then Reported (Joined (failures @ [err]))
      else Watching (failures @ [err]))"
| "monitor_step threshold (Watching failures) (Checked None) = Watching []"
| "monitor_step threshold (Watching failures) (CheckedLost err) =
     (if threshold \<le> int (length (failures @ [err])) then MonitorDone else Watching (failures @ [err]))"
| "monitor_step threshold (Watching failures) MonitorCanceled = MonitorDone"
| "monitor_step threshold m ev = m"

definition startHealthMonitor :: "int \<Rightarrow> monitor_event list \<Rightarrow> monitor" where
  "startHealthMonitor threshold evs = foldl (monitor_step threshold) (Watching []) evs"

end
