(* ===== verification/Runtime_Correct.thy ===== *)
theory Runtime_Correct
  imports Runtime_Lifecycle
begin

text \<open>
  The runtime as a transition system, its invariant, the shape of the leases a start returns, and the
  properties of the runtime: one network and one attempt, starts that are all or nothing, the bounded
  readiness wait and the health monitor.
\<close>

section \<open>The transition system\<close>

inductive rt_step :: "'w itself \<Rightarrow> rt \<Rightarrow> rt \<Rightarrow> bool" for W :: "'w itself" where
  prepare: "PrepareNetwork (x :: 'w rt_env) ref profile r w = (r', w', res) \<Longrightarrow> rt_step W r r'"
| start: "runtime_Start (x :: 'w rt_env) opts ref profile r w = Ret (r', w', res) \<Longrightarrow> rt_step W r r'"
| stop: "i < rt_next r \<Longrightarrow> stop_lease (x :: 'w rt_env) i r w = (r', w', err) \<Longrightarrow> rt_step W r r'"
| call: "k < length (rt_calling r) \<Longrightarrow> rt_step W r (finish_call k r)"

text \<open>A lease is live until its release has succeeded and its callback has run.\<close>

definition lease_live :: "rt \<Rightarrow> nat \<Rightarrow> on_done \<Rightarrow> bool" where
  "lease_live r i fn \<longleftrightarrow> i < rt_next r \<and> rl_onDone (rt_leases r i) = Some fn
     \<and> (\<not> rl_stopped (rt_leases r i) \<or> (i, fn) \<in> set (rt_calling r))"

definition rt_inv :: "rt \<Rightarrow> bool" where
  "rt_inv r \<longleftrightarrow>
     (\<forall>i. lease_live r i ReleaseActive \<longrightarrow> rt_active r)
   \<and> (\<forall>i j. lease_live r i ReleaseActive \<longrightarrow> lease_live r j ReleaseActive \<longrightarrow> i = j)
   \<and> (\<forall>i. lease_live r i (ReleaseNetwork i) \<longleftrightarrow> (\<exists>n. rt_network r = Some n \<and> no_lease n = i))
   \<and> distinct (map fst (rt_calling r))
   \<and> (\<forall>(i, fn)\<in>set (rt_calling r). i < rt_next r \<and> rl_stopped (rt_leases r i) \<and> rl_onDone (rt_leases r i) = Some fn)
   \<and> (\<forall>i<rt_next r. rl_onDone (rt_leases r i) \<in> {Some ReleaseActive, Some (ReleaseNetwork i)})"

lemma rt_inv_new: "rt_inv new_runtime"
  by (simp add: rt_inv_def new_runtime_def lease_live_def)

lemma lease_Stop_onDone: "lease_Stop x l w = (l', w', err, cb) \<Longrightarrow> rl_onDone l' = rl_onDone l"
  by (auto simp: lease_Stop_def Let_def split: if_splits option.splits prod.splits)

lemma lease_Stop_cb: "lease_Stop x l w = (l', w', err, cb) \<Longrightarrow>
    cb = (if \<not> rl_stopped l \<and> err = None then rl_onDone l else None)
    \<and> (rl_stopped l' \<longleftrightarrow> rl_stopped l \<or> err = None) \<and> (rl_stopped l \<longrightarrow> l' = l)"
  by (auto simp: lease_Stop_def Let_def split: if_splits option.splits prod.splits)

lemma lease_Stop_undo: "lease_Stop x l w = (l', w', err, cb) \<Longrightarrow> \<not> rl_stopped l \<Longrightarrow>
    \<exists>gone. rl_undo l = rl_undo l' @ gone \<and> (err = None \<longrightarrow> rl_undo l' = [])"
  by (auto simp: lease_Stop_def Let_def dest: ledger_release_suffix ledger_release_ok split: if_splits option.splits prod.splits)

lemma prepare_onDone:
  "prepare_body x ref profile l w = (l', core, w', err) \<Longrightarrow> rl_onDone l' = rl_onDone l \<and> rl_stopped l' = rl_stopped l"
  by (auto simp: prepare_body_def prepare_connect_def acquireNetworkTunnel_def lease_push_def Let_def
      split: if_splits option.splits prod.splits bool.splits)

text \<open>Adding a lease, and what it does to the live ones.\<close>

lemma live_add:
  assumes "rt_inv r" "rl_onDone l = Some fn" "\<not> rl_stopped l"
    and "rt_leases r' = (rt_leases r)(rt_next r := l)" "rt_next r' = Suc (rt_next r)" "rt_calling r' = rt_calling r"
  shows "lease_live r' i f \<longleftrightarrow> lease_live r i f \<or> i = rt_next r \<and> f = fn"
  using assms by (auto simp: lease_live_def less_Suc_eq)

lemma inv_prepare:
  assumes inv: "rt_inv r" and p: "PrepareNetwork x ref profile r w = (r', w', res, err)"
  shows "rt_inv r'"
proof (cases "rt_network r \<noteq> None \<or> rt_active r")
  case True
  with p inv show ?thesis by (simp add: PrepareNetwork_def)
next
  case False
  let ?i = "rt_next r"
  obtain l core w1 e where b: "prepare_body x ref profile (setOnDone (ReleaseNetwork ?i) new_lease) w = (l, core, w1, e)"
    by (cases "prepare_body x ref profile (setOnDone (ReleaseNetwork ?i) new_lease) w") auto
  from prepare_onDone[OF b] have l: "rl_onDone l = Some (ReleaseNetwork ?i)" "\<not> rl_stopped l"
    by (simp_all add: setOnDone_def new_lease_def)
  from p b False have r': "r' = r\<lparr>rt_network := Some \<lparr>no_ref = ref, no_core = core, no_lease = ?i\<rparr>,
               rt_leases := (rt_leases r)(?i := l), rt_next := Suc ?i\<rparr>"
    by (simp add: PrepareNetwork_def Let_def)
  note lv = live_add[OF inv l, of r', unfolded r', simplified]
  from inv False have "\<not> lease_live r i ReleaseActive" "\<not> lease_live r i (ReleaseNetwork i)" for i
    by (auto simp: rt_inv_def)
  with lv inv l show ?thesis unfolding r' by (auto simp: rt_inv_def less_Suc_eq)
qed

text \<open>What a start changes in the runtime: nothing but \<open>rt_active\<close>, or it adds one live lease.\<close>

definition started :: "rt \<Rightarrow> rt \<Rightarrow> bool" where
  "started r r' \<longleftrightarrow> r' = r
     \<or> \<not> rt_active r \<and>
       ((\<exists>b. r' = r\<lparr>rt_active := b\<rparr>)
        \<or> (\<exists>l. rl_onDone l = Some ReleaseActive \<and> \<not> rl_stopped l \<and>
             r' = r\<lparr>rt_active := True, rt_leases := (rt_leases r)(rt_next r := l), rt_next := Suc (rt_next r)\<rparr>))"

lemma live_active [simp]: "lease_live (r\<lparr>rt_active := b\<rparr>) i f = lease_live r i f"
  by (simp add: lease_live_def)

lemma inv_started:
  assumes inv: "rt_inv r" and st: "started r r'"
  shows "rt_inv r'"
proof (cases "rt_active r")
  case True
  with st inv show ?thesis by (simp add: started_def)
next
  case False
  with inv have none: "\<not> lease_live r i ReleaseActive" for i by (auto simp: rt_inv_def)
  from st False consider "r' = r" | b where "r' = r\<lparr>rt_active := b\<rparr>"
    | l where "rl_onDone l = Some ReleaseActive" "\<not> rl_stopped l"
        "r' = r\<lparr>rt_active := True, rt_leases := (rt_leases r)(rt_next r := l), rt_next := Suc (rt_next r)\<rparr>"
    by (auto simp: started_def)
  then show ?thesis
  proof cases
    case (2 b)
    with inv none show ?thesis by (simp add: rt_inv_def)
  next
    case (3 l)
    note lv = live_add[OF inv 3(1,2), of r', unfolded 3(3), simplified]
    from lv inv none 3(1) show ?thesis unfolding 3(3) by (auto simp: rt_inv_def less_Suc_eq)
  qed (use inv in simp)
qed

lemma start_fail_lease:
  "start_fail x owned cause w = (Some l, w', err) \<Longrightarrow> rl_onDone l = rl_onDone owned \<and> (rl_stopped owned \<or> \<not> rl_stopped l) \<and> err \<noteq> None"
  by (auto simp: start_fail_def errors_join_def split: prod.splits option.splits dest: lease_Stop_onDone lease_Stop_cb)

text \<open>The leases \<^verbatim>\<open>startLocked\<close> returns have no callback yet.\<close>

lemma startLocked_lease:
  "startLocked x core ref profile w = Ret (Some l, w', err) \<Longrightarrow> rl_onDone l = None \<and> \<not> rl_stopped l"
  by (auto simp: startLocked_def start_device_def start_open_def Let_def lease_push_def new_lease_def
      dest!: start_fail_lease split: if_splits option.splits prod.splits sum.splits)

lemma start_rollback_started:
  assumes "start_rollback x l cause (r\<lparr>rt_active := True\<rparr>) w = Ret (r', w', res)" "\<not> rl_stopped l" "\<not> rt_active r"
  shows "started r r'"
proof -
  obtain l1 w1 err cb where s: "lease_Stop x l w = (l1, w1, err, cb)" by (cases "lease_Stop x l w") auto
  note cb = lease_Stop_cb[OF s]
  show ?thesis
  proof (cases err)
    case None
    with s cb assms(1,2) have "r' = r\<lparr>rt_active := False\<rparr>"
      by (auto simp: start_rollback_def split: option.splits)
    with assms(3) show ?thesis by (auto simp: started_def)
  next
    case (Some e)
    let ?l = "setOnDone ReleaseActive l1"
    from Some s assms(1) have "r' = r\<lparr>rt_active := True, rt_leases := (rt_leases r)(rt_next r := ?l), rt_next := Suc (rt_next r)\<rparr>"
      by (auto simp: start_rollback_def split: option.splits)
    moreover have "rl_onDone ?l = Some ReleaseActive" "\<not> rl_stopped ?l"
      using cb assms(2) Some by (simp_all add: setOnDone_def)
    ultimately show ?thesis using assms(3) unfolding started_def by blast
  qed
qed

definition attempt_lease :: "u64 \<Rightarrow> rlease \<Rightarrow> rlease" where
  "attempt_lease g l = (setOnDone ReleaseActive (lease_push (UndoDetach g) l))\<lparr>rl_health := Some False\<rparr>"

lemma attempt_lease_simps [simp]:
  "rl_onDone (attempt_lease g l) = Some ReleaseActive" "rl_stopped (attempt_lease g l) = rl_stopped l"
  "rl_undo (attempt_lease g l) = rl_undo l @ [UndoDetach g]" "rl_health (attempt_lease g l) = Some False"
  by (simp_all add: attempt_lease_def setOnDone_def lease_push_def)

lemma start_ready_cases:
  "start_ready x opts ref l r w = Ret (r', w', res) \<Longrightarrow>
     (\<exists>cause w3. start_rollback x l cause r w3 = Ret (r', w', res) \<and>
        (\<forall>c. cause None \<noteq> None \<and> (\<exists>e. cause (Some c) = Some e \<and> as_cleanup e)))
   \<or> r' = r\<lparr>rt_leases := (rt_leases r)(rt_next r := attempt_lease (ref_Generation ref) l), rt_next := Suc (rt_next r)\<rparr>
     \<and> res = (Some (rt_next r), None)"
  by (force simp: start_ready_def attempt_lease_def Let_def errors_join_def markCleanupFailure_def split: prod.splits option.splits)

lemma runtime_Start_started:
  assumes "runtime_Start x opts ref profile r w = Ret (r', w', res)"
  shows "started r r'"
proof (cases "\<exists>w1 n. x_ctxErr x w = (w1, None) \<and> \<not> rt_active r \<and> rt_network r = Some n \<and> ref_SessionID (no_ref n) = ref_SessionID ref")
  case False
  with assms have "r' = r" by (auto simp: runtime_Start_def split: prod.splits option.splits if_splits)
  then show ?thesis by (simp add: started_def)
next
  case True
  then obtain w1 n where e: "x_ctxErr x w = (w1, None)" and a: "\<not> rt_active r" and n: "rt_network r = Some n"
    "ref_SessionID (no_ref n) = ref_SessionID ref" by blast
  show ?thesis
  proof (cases "startLocked x (no_core n) ref profile w1")
    case Panic
    with assms e a n show ?thesis by (simp add: runtime_Start_def)
  next
    case (Ret res1)
    obtain lo w2 err where r1: "res1 = (lo, w2, err)" by (cases res1)
    show ?thesis
    proof (cases lo)
      case None
      with assms e a n Ret r1 have "\<exists>b. r' = r\<lparr>rt_active := b\<rparr>"
        by (auto simp: runtime_Start_def split: option.splits)
      with a show ?thesis by (auto simp: started_def)
    next
      case (Some l)
      with Ret r1 startLocked_lease[of x "no_core n" ref profile w1 l w2 err]
      have l: "rl_onDone l = None" "\<not> rl_stopped l" by simp_all
      show ?thesis
      proof (cases err)
        case None
        with assms e a n Ret r1 Some have "start_ready x opts ref l (r\<lparr>rt_active := True\<rparr>) w2 = Ret (r', w', res)"
          by (simp add: runtime_Start_def)
        from start_ready_cases[OF this] consider
            cause w3 where "start_rollback x l cause (r\<lparr>rt_active := True\<rparr>) w3 = Ret (r', w', res)"
          | "r' = r\<lparr>rt_active := True, rt_leases := (rt_leases r)(rt_next r := attempt_lease (ref_Generation ref) l), rt_next := Suc (rt_next r)\<rparr>"
          by fastforce
        then show ?thesis
        proof cases
          case 1
          show ?thesis by (rule start_rollback_started[where r = r, OF 1 l(2) a])
        next
          case 2
          have "rl_onDone (attempt_lease (ref_Generation ref) l) = Some ReleaseActive" "\<not> rl_stopped (attempt_lease (ref_Generation ref) l)"
            using l by simp_all
          with 2 a show ?thesis unfolding started_def by blast
        qed
      next
        case (Some e')
        let ?l = "setOnDone ReleaseActive l"
        from assms e a n Ret r1 \<open>lo = Some l\<close> Some
        have "r' = r\<lparr>rt_active := True, rt_leases := (rt_leases r)(rt_next r := ?l), rt_next := Suc (rt_next r)\<rparr>"
          by (simp add: runtime_Start_def)
        moreover have "rl_onDone ?l = Some ReleaseActive" "\<not> rl_stopped ?l" using l by (simp_all add: setOnDone_def)
        ultimately show ?thesis using a unfolding started_def by blast
      qed
    qed
  qed
qed

lemma inv_stop_lease:
  assumes inv: "rt_inv r" and i: "i < rt_next r" and st: "stop_lease x i r w = (r', w', err)"
  shows "rt_inv r'"
proof -
  obtain l w1 e cb where s: "lease_Stop x (rt_leases r i) w = (l, w1, e, cb)" by (cases "lease_Stop x (rt_leases r i) w") auto
  note c = lease_Stop_cb[OF s] and d = lease_Stop_onDone[OF s]
  let ?new = "case cb of None \<Rightarrow> [] | Some fn \<Rightarrow> [(i, fn)]"
  from st s have r': "r' = r\<lparr>rt_leases := (rt_leases r)(i := l), rt_calling := rt_calling r @ ?new\<rparr>"
    by (simp add: stop_lease_def)
  have notin: "i \<notin> fst ` set (rt_calling r)" if "\<not> rl_stopped (rt_leases r i)"
    using inv that by (force simp: rt_inv_def)
  from inv i obtain fn where fn: "rl_onDone (rt_leases r i) = Some fn" by (auto simp: rt_inv_def)
  have lv: "lease_live r' j f = lease_live r j f" for j f
    using c d fn i unfolding r' lease_live_def by (auto split: option.splits if_splits)
  have dist: "distinct (map fst (rt_calling r @ ?new))"
    using inv c notin by (auto simp: rt_inv_def split: option.splits if_splits)
  have calls: "\<forall>(j, f)\<in>set (rt_calling r @ ?new). j < rt_next r \<and> rl_stopped (((rt_leases r)(i := l)) j) \<and> rl_onDone (((rt_leases r)(i := l)) j) = Some f"
    using inv c d i by (auto simp: rt_inv_def split: option.splits if_splits)
  from inv dist calls d show ?thesis
    unfolding rt_inv_def lv unfolding r' by auto
qed

lemma inv_call:
  assumes inv: "rt_inv r" and k: "k < length (rt_calling r)"
  shows "rt_inv (finish_call k r)"
proof -
  obtain i fn where ck: "rt_calling r ! k = (i, fn)" by (cases "rt_calling r ! k")
  let ?rest = "take k (rt_calling r) @ drop (Suc k) (rt_calling r)"
  have c: "rt_calling r = take k (rt_calling r) @ (i, fn) # drop (Suc k) (rt_calling r)"
    using id_take_nth_drop[OF k] ck by simp
  have f: "finish_call k r = call_onDone fn (r\<lparr>rt_calling := ?rest\<rparr>)"
    using Cons_nth_drop_Suc[OF k] ck by (simp add: finish_call_def flip: Cons_nth_drop_Suc[OF k])
  from inv have "distinct (map fst (rt_calling r))" by (simp add: rt_inv_def)
  then have dist: "distinct (map fst ?rest)" and ni: "i \<notin> fst ` set ?rest"
    by (subst (asm) c; auto)+
  have sub: "set ?rest \<subseteq> set (rt_calling r)" by (subst (2) c) auto
  have ii: "i < rt_next r" "rl_stopped (rt_leases r i)" "rl_onDone (rt_leases r i) = Some fn"
    using inv nth_mem[OF k] ck by (auto simp: rt_inv_def)
  have set: "set (rt_calling r) = insert (i, fn) (set ?rest)" by (subst c) auto
  have lv: "lease_live (r\<lparr>rt_calling := ?rest\<rparr>) j g \<longleftrightarrow> lease_live r j g \<and> j \<noteq> i" for j g
    using ii ni set by (force simp: lease_live_def)
  have li: "lease_live r i fn" using ii set by (simp add: lease_live_def)
  let ?r = "r\<lparr>rt_calling := ?rest\<rparr>"
  have calls: "\<forall>(j, g)\<in>set ?rest. j < rt_next r \<and> rl_stopped (rt_leases r j) \<and> rl_onDone (rt_leases r j) = Some g"
    using inv sub by (auto simp: rt_inv_def)
  show ?thesis
  proof (cases fn)
    case ReleaseActive
    have fr: "finish_call k r = ?r\<lparr>rt_active := False\<rparr>" unfolding f ReleaseActive by simp
    have "\<not> lease_live ?r j ReleaseActive" for j using lv li inv ReleaseActive by (auto simp: rt_inv_def)
    moreover have "lease_live ?r j (ReleaseNetwork j) \<longleftrightarrow> lease_live r j (ReleaseNetwork j)" for j
      using lv ii ReleaseActive by (auto simp: lease_live_def)
    ultimately show ?thesis using inv dist calls unfolding fr by (simp add: rt_inv_def)
  next
    case (ReleaseNetwork m)
    with inv ii have m: "m = i" by (auto simp: rt_inv_def)
    with li ReleaseNetwork inv obtain n where n: "rt_network r = Some n" "no_lease n = i" by (auto simp: rt_inv_def)
    have fr: "finish_call k r = ?r\<lparr>rt_network := None\<rparr>" unfolding f ReleaseNetwork m by (simp add: n)
    have a: "lease_live (?r\<lparr>rt_network := None\<rparr>) j g \<longleftrightarrow> lease_live ?r j g" for j g by (simp add: lease_live_def)
    have "\<not> lease_live ?r j (ReleaseNetwork j)" for j using lv inv n by (auto simp: rt_inv_def)
    moreover have "lease_live ?r j ReleaseActive \<longleftrightarrow> lease_live r j ReleaseActive" for j
      using lv ii ReleaseNetwork by (auto simp: lease_live_def)
    ultimately show ?thesis using inv dist calls unfolding fr by (simp add: rt_inv_def a)
  qed
qed

lemma rt_step_inv: "rt_step W r r' \<Longrightarrow> rt_inv r \<Longrightarrow> rt_inv r'"
proof (induction rule: rt_step.induct)
  case (prepare x ref profile r w r' w' res)
  then show ?case by (cases res) (auto intro: inv_prepare)
next
  case (start x opts ref profile r w r' w' res)
  then show ?case by (auto intro: inv_started runtime_Start_started)
qed (auto intro: inv_stop_lease inv_call)

interpretation runtimes: invariant_system "\<lambda>r. r = new_runtime" "rt_step W" rt_inv for W
  by unfold_locales (auto intro: rt_inv_new rt_step_inv)

section \<open>The shape of leases\<close>

lemma ledger_release_fail: "ledger_release run l w = (l', w', Some e) \<Longrightarrow> l' \<noteq> []"
  by (drule ledger.exec_spec) auto

text \<open>A lease without a monitor whose stop failed keeps a nonempty beginning of its releases.\<close>

lemma lease_Stop_fail:
  "lease_Stop x l w = (l', w', Some e, cb) \<Longrightarrow> rl_health l = None \<Longrightarrow>
     rl_undo l' \<noteq> [] \<and> (\<exists>gone. rl_undo l = rl_undo l' @ gone) \<and> rl_health l' = None \<and> rl_onDone l' = rl_onDone l"
  by (auto simp: lease_Stop_def dest: ledger_release_fail ledger_release_suffix split: if_splits option.splits prod.splits)

definition attempt_undo :: "u64 \<Rightarrow> undo list \<Rightarrow> bool" where
  "attempt_undo g us \<longleftrightarrow> us = [UndoScope g] \<or> us = [UndoScope g, UndoDevice g]"

lemma attempt_undo_prefix:
  "us \<noteq> [] \<Longrightarrow> vs = us @ gone \<Longrightarrow> attempt_undo g vs \<Longrightarrow> attempt_undo g us"
  by (cases us rule: rev_cases) (auto simp: attempt_undo_def append_eq_Cons_conv)

definition failed_start :: "u64 \<Rightarrow> rlease option \<Rightarrow> go_error option \<Rightarrow> bool" where
  "failed_start g lo err \<longleftrightarrow> err \<noteq> None \<and>
     (\<forall>l. lo = Some l \<longrightarrow> as_cleanup (the err) \<and> attempt_undo g (rl_undo l) \<and> rl_onDone l = None)"

lemma start_fail_shape:
  assumes "start_fail x owned cause w = (lo, w', err)" "rl_undo owned = [] \<or> attempt_undo g (rl_undo owned)"
    "rl_health owned = None" "rl_onDone owned = None"
  shows "failed_start g lo err"
proof -
  obtain l1 w1 e cb where s: "lease_Stop x owned w = (l1, w1, e, cb)" by (cases "lease_Stop x owned w") auto
  show ?thesis
  proof (cases e)
    case None
    with s assms(1) show ?thesis by (auto simp: start_fail_def failed_start_def)
  next
    case (Some c)
    with lease_Stop_fail[of x owned w l1 w1 c cb] s assms(3) obtain gone where
      u: "rl_undo l1 \<noteq> []" "rl_undo owned = rl_undo l1 @ gone" "rl_onDone l1 = rl_onDone owned" by auto
    with assms(2) have "attempt_undo g (rl_undo l1)" using attempt_undo_prefix by auto
    with Some s assms(1,4) u show ?thesis
      by (auto simp: start_fail_def failed_start_def errors_join_def markCleanupFailure_def)
  qed
qed

definition opened :: "u64 \<Rightarrow> rlease \<Rightarrow> bool" where
  "opened g l \<longleftrightarrow> rl_undo l = [UndoScope g, UndoDevice g] \<and> rl_onDone l = None \<and> rl_health l = None
     \<and> rl_bypass l \<noteq> None \<and> rl_proxyAddr l \<noteq> [] \<and> \<not> rl_stopped l"

definition start_shape :: "u64 \<Rightarrow> bool \<Rightarrow> (rlease option \<times> 'w \<times> go_error option) outcome \<Rightarrow> bool" where
  "start_shape g core res = (case res of
       Panic \<Rightarrow> \<not> core
     | Ret (lo, w, err) \<Rightarrow> failed_start g lo err \<or> err = None \<and> (\<exists>l. lo = Some l \<and> opened g l))"

lemma start_shape_fail:
  assumes "rl_undo owned = [] \<or> attempt_undo g (rl_undo owned)" "rl_health owned = None" "rl_onDone owned = None"
  shows "start_shape g core (Ret (start_fail x owned cause w))"
proof -
  obtain lo w' err where f: "start_fail x owned cause w = (lo, w', err)" by (cases "start_fail x owned cause w") auto
  from start_fail_shape[OF f assms] f show ?thesis by (simp add: start_shape_def)
qed

lemma start_open_shape:
  assumes "rl_undo owned = [UndoScope g, UndoDevice g]" "rl_health owned = None" "rl_onDone owned = None"
    "rl_bypass owned \<noteq> None" "\<not> rl_stopped owned"
  shows "start_shape g core (start_open x core owned w)"
proof -
  have f: "start_shape g core (Ret (start_fail x owned cause w'))" for cause w'
    by (rule start_shape_fail) (use assms in \<open>auto simp: attempt_undo_def\<close>)
  show ?thesis using assms f
    by (auto simp: start_open_def opened_def split: prod.splits option.splits) (auto simp: start_shape_def opened_def)
qed

lemma start_device_shape:
  assumes "rl_undo owned = [UndoScope (ref_Generation ref)]" "rl_health owned = None" "rl_onDone owned = None" "\<not> rl_stopped owned"
  shows "start_shape (ref_Generation ref) core (start_device x core ref profile bypass owned w)"
proof -
  let ?g = "ref_Generation ref"
  obtain w1 device err where d: "x_newDevice x ref profile w = (w1, device, err)" by (cases "x_newDevice x ref profile w") auto
  let ?o = "if device then lease_push (UndoDevice ?g) owned else owned"
  have f: "start_shape ?g core (Ret (start_fail x ?o cause w'))" for cause w'
    by (rule start_shape_fail) (use assms in \<open>auto simp: attempt_undo_def lease_push_def\<close>)
  show ?thesis
  proof (cases "err = None \<and> device")
    case False
    with f d show ?thesis by (auto simp: start_device_def Let_def split: option.splits)
  next
    case True
    show ?thesis
    proof (cases "case x_upstreams x w1 of None \<Rightarrow> Inr bypass | Some ips \<Rightarrow> WithNumericIPs (Some bypass) ips")
      case (Inl e)
      with f True d show ?thesis by (simp add: start_device_def Let_def)
    next
      case (Inr p)
      have "start_shape ?g core (start_open x core (?o\<lparr>rl_proxyAddr := x_proxyAddr x w1, rl_bypass := Some p, rl_waitReady := x_deviceWaits x\<rparr>) w1)"
        by (rule start_open_shape) (use assms True in \<open>auto simp: lease_push_def\<close>)
      with Inr True d show ?thesis by (simp add: start_device_def Let_def)
    qed
  qed
qed

lemma startLocked_shape: "start_shape (ref_Generation ref) core (startLocked x core ref profile w)"
proof -
  let ?g = "ref_Generation ref"
  have f: "start_shape ?g core (Ret (start_fail x new_lease cause w'))" for cause w'
    by (rule start_shape_fail) (simp_all add: new_lease_def)
  have n: "start_shape ?g core (Ret (None, w', Some e))" for w' e by (simp add: start_shape_def failed_start_def)
  have d: "start_shape ?g core (start_device x core ref profile bypass (lease_push (UndoScope ?g) new_lease) w')" for bypass w'
    by (rule start_device_shape) (simp_all add: lease_push_def new_lease_def)
  show ?thesis unfolding startLocked_def using f n d by (auto split: prod.splits option.splits)
qed

text \<open>What \<^verbatim>\<open>Start\<close> returns from a runtime without an attempt.\<close>

definition start_result :: "rt \<Rightarrow> u64 \<Rightarrow> (rt \<times> 'w \<times> nat option \<times> go_error option) outcome \<Rightarrow> bool" where
  "start_result r g res = (case res of
     Panic \<Rightarrow> \<exists>n. rt_network r = Some n \<and> \<not> no_core n
   | Ret (r', w', Some i, None) \<Rightarrow> i = rt_next r \<and> rt_active r' \<and> lease_live r' i ReleaseActive
       \<and> rl_undo (rt_leases r' i) = [UndoScope g, UndoDevice g, UndoDetach g] \<and> rl_health (rt_leases r' i) = Some False
   | Ret (r', w', Some i, Some e) \<Rightarrow> i = rt_next r \<and> rt_active r' \<and> lease_live r' i ReleaseActive \<and> as_cleanup e
       \<and> rl_undo (rt_leases r' i) \<in> {[UndoScope g], [UndoScope g, UndoDevice g]}
   | Ret (r', w', None, Some e) \<Rightarrow> rt_leases r' = rt_leases r \<and> rt_next r' = rt_next r \<and> rt_network r' = rt_network r
       \<and> (rt_active r' \<longrightarrow> as_cleanup e)
   | Ret (r', w', None, None) \<Rightarrow> False)"

lemma start_result_retained:
  assumes "attempt_undo g (rl_undo l)" "\<not> rl_stopped l" "as_cleanup e"
  shows "start_result r g (Ret (r\<lparr>rt_active := True, rt_leases := (rt_leases r)(rt_next r := setOnDone ReleaseActive l),
      rt_next := Suc (rt_next r)\<rparr>, w, Some (rt_next r), Some e))"
  using assms by (auto simp: start_result_def lease_live_def setOnDone_def attempt_undo_def)

lemma start_rollback_result:
  assumes o: "opened g l" and c: "\<And>c. cause None \<noteq> None \<and> (\<exists>e. cause (Some c) = Some e \<and> as_cleanup e)"
  shows "start_result r g (start_rollback x l cause (r\<lparr>rt_active := True\<rparr>) w)"
proof -
  obtain l1 w1 err cb where s: "lease_Stop x l w = (l1, w1, err, cb)" by (cases "lease_Stop x l w") auto
  from o have l: "rl_onDone l = None" "rl_health l = None" "\<not> rl_stopped l" "rl_undo l = [UndoScope g, UndoDevice g]"
    by (auto simp: opened_def)
  note cb = lease_Stop_cb[OF s]
  show ?thesis
  proof (cases err)
    case None
    obtain e where "cause None = Some e" using c by auto
    with None s cb l(1) show ?thesis by (simp add: start_rollback_def start_result_def)
  next
    case (Some c1)
    obtain e where e: "cause (Some c1) = Some e" "as_cleanup e" using c by blast
    from lease_Stop_fail[of x l w l1 w1 c1 cb] s Some l(2,4) obtain gone where
      u: "rl_undo l1 \<noteq> []" "[UndoScope g, UndoDevice g] = rl_undo l1 @ gone" by auto
    have "attempt_undo g (rl_undo l1)" by (rule attempt_undo_prefix[OF u]) (simp add: attempt_undo_def)
    moreover have "\<not> rl_stopped l1" using cb l(3) Some by simp
    ultimately show ?thesis using start_result_retained[of g l1 e r w1] e Some s by (simp add: start_rollback_def)
  qed
qed

lemma start_ready_result:
  assumes o: "opened g l" and g: "g = ref_Generation ref"
  shows "start_result r g (start_ready x opts ref l (r\<lparr>rt_active := True\<rparr>) w)"
proof (cases "start_ready x opts ref l (r\<lparr>rt_active := True\<rparr>) w")
  case (Ret t)
  obtain r' w' res where t: "t = (r', w', res)" by (cases t)
  from start_ready_cases[of x opts ref l "r\<lparr>rt_active := True\<rparr>" w r' w' res] Ret t consider
      cause w3 where "start_rollback x l cause (r\<lparr>rt_active := True\<rparr>) w3 = Ret (r', w', res)"
        "\<And>c. cause None \<noteq> None \<and> (\<exists>e. cause (Some c) = Some e \<and> as_cleanup e)"
    | "r' = r\<lparr>rt_active := True, rt_leases := (rt_leases r)(rt_next r := attempt_lease g l), rt_next := Suc (rt_next r)\<rparr>"
      "res = (Some (rt_next r), None)"
    unfolding g by fastforce
  then show ?thesis
  proof cases
    case (1 cause w3)
    from start_rollback_result[OF o 1(2), of r x w3] 1(1) Ret t show ?thesis by simp
  next
    case 2
    with o Ret t show ?thesis by (simp add: start_result_def lease_live_def opened_def)
  qed
next
  case Panic
  have False
  proof (cases "waitForInitialReadiness x (readiness_check x ref l) (op_ReadinessAttempts opts) w")
    case (Pair w1 err)
    have np: "start_rollback x l cause rr w2 \<noteq> Panic" for cause rr w2
      using o lease_Stop_cb[of x l w2] unfolding start_rollback_def opened_def
      by (cases "lease_Stop x l w2") (auto split: option.splits)
    show False
      using Panic Pair o np by (auto simp: start_ready_def opened_def Let_def split: option.splits prod.splits)
  qed
  then show ?thesis ..
qed

lemma runtime_Start_result:
  assumes "\<not> rt_active r"
  shows "start_result r (ref_Generation ref) (runtime_Start x opts ref profile r w)"
proof (cases "\<exists>w1 n. x_ctxErr x w = (w1, None) \<and> rt_network r = Some n \<and> ref_SessionID (no_ref n) = ref_SessionID ref")
  case False
  have n: "start_result r (ref_Generation ref) (Ret (r, w', None, Some e))" for w' e
    using assms by (simp add: start_result_def)
  from False assms n show ?thesis
    by (auto simp: runtime_Start_def split: prod.splits option.splits)
next
  case True
  then obtain w1 n where e: "x_ctxErr x w = (w1, None)" and n: "rt_network r = Some n"
    "ref_SessionID (no_ref n) = ref_SessionID ref" by blast
  let ?g = "ref_Generation ref"
  have sh: "start_shape ?g (no_core n) (startLocked x (no_core n) ref profile w1)" by (rule startLocked_shape)
  show ?thesis
  proof (cases "startLocked x (no_core n) ref profile w1")
    case Panic
    with sh have "\<not> no_core n" by (simp add: start_shape_def)
    with Panic e n assms show ?thesis by (simp add: runtime_Start_def start_result_def)
  next
    case (Ret t)
    obtain lo w2 err where t: "t = (lo, w2, err)" by (cases t)
    show ?thesis
    proof (cases err)
      case None
      with sh Ret t obtain l where l: "lo = Some l" "opened ?g l" by (auto simp: start_shape_def failed_start_def)
      from start_ready_result[OF l(2) refl, of r x opts w2] show ?thesis
        using Ret t None l(1) e n assms by (simp add: runtime_Start_def)
    next
      case (Some er)
      show ?thesis
      proof (cases lo)
        case None
        with Some Ret t e n assms show ?thesis by (simp add: runtime_Start_def start_result_def)
      next
        case (Some l)
        with \<open>err = Some er\<close> sh Ret t have f: "as_cleanup er" "attempt_undo ?g (rl_undo l)"
          by (auto simp: start_shape_def failed_start_def)
        have "\<not> rl_stopped l" using startLocked_lease[of x "no_core n" ref profile w1 l w2 err] Ret t Some by simp
        from start_result_retained[OF f(2) this f(1), of r w2] show ?thesis
          using Some \<open>err = Some er\<close> Ret t e n assms by (simp add: runtime_Start_def)
      qed
    qed
  qed
qed

section \<open>Properties\<close>

text \<open>
  C10. One network and one attempt. In every state of the runtime, however starts, stops and callbacks
  interleave and whatever the platform answers: at most one attempt lease is live, the network field
  names exactly the live network lease, and while an attempt is live both \<^verbatim>\<open>Start\<close> and \<^verbatim>\<open>PrepareNetwork\<close>
  are refused without changing anything. A lease is live until its releases have all succeeded and
  its callback has run.
\<close>

theorem one_network_one_attempt:
  assumes "(rt_step TYPE('w))\<^sup>*\<^sup>* new_runtime r"
  shows "(\<forall>i j. lease_live r i ReleaseActive \<longrightarrow> lease_live r j ReleaseActive \<longrightarrow> i = j)
    \<and> (\<forall>i. lease_live r i (ReleaseNetwork i) \<longleftrightarrow> (\<exists>n. rt_network r = Some n \<and> no_lease n = i))
    \<and> (\<forall>i. lease_live r i ReleaseActive \<longrightarrow>
         (\<exists>w1 err. runtime_Start (x :: 'v rt_env) opts ref profile r w = Ret (r, w1, None, Some err))
       \<and> (\<exists>err. PrepareNetwork x ref profile r w = (r, w, None, Some err)))
    \<and> (rt_network r \<noteq> None \<longrightarrow> (\<exists>err. PrepareNetwork x ref profile r w = (r, w, None, Some err)))"
proof -
  have inv: "rt_inv r" using runtimes.reach_inv[OF refl assms] .
  then have "\<forall>i. lease_live r i ReleaseActive \<longrightarrow> rt_active r" by (simp add: rt_inv_def)
  moreover have "\<exists>w1 err. runtime_Start x opts ref profile r w = Ret (r, w1, None, Some err)" if "rt_active r"
    using that by (cases "x_ctxErr x w") (auto simp: runtime_Start_def split: option.splits)
  ultimately show ?thesis using inv by (auto simp: rt_inv_def PrepareNetwork_def)
qed


definition sample_ext :: "unit rt_env" where
  "sample_ext = \<lparr>x_ctxErr = (\<lambda>w. (w, None)), x_mobile = False, x_nativeInputs = True,
     x_resolve = (\<lambda>es w. (w, Some \<lparr>bp_cidrs = [], bp_entryCount = 0\<rparr>, None)),
     x_cacheResolve = (\<lambda>h w. (w, Inl (DNSError ''no such host'' True))), x_tunnel = False,
     x_acquire = (\<lambda>ref w. (w, False, None)), x_resolverProvider = False, x_configureResolver = (\<lambda>ref w. (w, None)),
     x_newCore = (\<lambda>w. (w, True)), x_setNetworkRef = (\<lambda>ref w. w), x_connect = (\<lambda>w. (w, ConnectReturned None)),
     x_connectLate = (\<lambda>w. (w, None)), x_canceler = False, x_cancelConnect = (\<lambda>w. w),
     x_disconnect = (\<lambda>w. (w, None)), x_cancelNetwork = (\<lambda>w. w), x_tunRelease = (\<lambda>w. (w, None)),
     x_scopeClose = (\<lambda>g w. (w, None)), x_newDevice = (\<lambda>ref p w. (w, True, None)), x_deviceClose = (\<lambda>g w. (w, None)),
     x_upstreams = (\<lambda>w. Some [[203, 0, 113, 7]]), x_proxyAddr = (\<lambda>w. ''127.0.0.1:1080''), x_deviceWaits = False,
     x_waitReady = (\<lambda>w. (w, None)), x_open = (\<lambda>w. (w, None)), x_attach = (\<lambda>g a p w. (w, None)),
     x_detach = (\<lambda>g w. (w, None)), x_initialReadiness = (\<lambda>ref a w. (w, None)), x_retryTimer = (\<lambda>w. (w, None)),
     x_healthWait = (\<lambda>w. (w, None))\<rparr>"

definition sample_opts :: options where
  "sample_opts = New \<lparr>op_ReadinessAttempts = 0, op_ReadinessAttemptTimeout = 0, op_ReadinessRetryInterval = 0,
     op_HealthInterval = 0, op_HealthFailureThreshold = 0\<rparr>"

definition sample_ref :: session_ref where
  "sample_ref = \<lparr>ref_SessionID = ''default'', ref_Generation = 1\<rparr>"

definition sample_rt1 :: rt where
  "sample_rt1 = fst (PrepareNetwork sample_ext sample_ref sample_tt_profile new_runtime ())"

definition sample_rt2 :: rt where
  "sample_rt2 = (case runtime_Start sample_ext sample_opts sample_ref sample_tt_profile sample_rt1 () of
      Ret (r, _) \<Rightarrow> r | Panic \<Rightarrow> sample_rt1)"

lemma sample_rt2_reachable: "(rt_step TYPE(unit))\<^sup>*\<^sup>* new_runtime sample_rt2"
proof -
  have 1: "rt_step TYPE(unit) new_runtime sample_rt1"
    unfolding sample_rt1_def
    by (rule rt_step.prepare[of sample_ext sample_ref sample_tt_profile _ "()"]) (simp add: prod_eq_iff)
  have "\<exists>w res. runtime_Start sample_ext sample_opts sample_ref sample_tt_profile sample_rt1 () = Ret (sample_rt2, w, res)"
  proof (cases "runtime_Start sample_ext sample_opts sample_ref sample_tt_profile sample_rt1 ()")
    case (Ret t)
    then show ?thesis by (cases t) (auto simp: sample_rt2_def)
  next
    case Panic
    moreover have "(case runtime_Start sample_ext sample_opts sample_ref sample_tt_profile sample_rt1 () of Panic \<Rightarrow> False | _ \<Rightarrow> True)"
      by code_simp
    ultimately show ?thesis by simp
  qed
  then have 2: "rt_step TYPE(unit) sample_rt1 sample_rt2" by (auto intro: rt_step.start)
  from 1 2 show ?thesis by (meson converse_rtranclp_into_rtranclp r_into_rtranclp)
qed

lemma sample_rt2_live: "lease_live sample_rt2 1 ReleaseActive" "rt_active sample_rt2"
  by code_simp+

theorem one_network_one_attempt_witness:
  "lease_live sample_rt2 1 ReleaseActive
   \<and> (\<exists>err. PrepareNetwork sample_ext sample_ref sample_tt_profile sample_rt2 () = (sample_rt2, (), None, Some err))"
  using one_network_one_attempt[OF sample_rt2_reachable, of sample_ext sample_opts sample_ref sample_tt_profile "()"] sample_rt2_live
  by blast



text \<open>The world in which attempt \<open>n + 1\<close> of the readiness loop begins, if \<open>n\<close> attempts failed and the context lived.\<close>

fun attempts_failed :: "'w rt_env \<Rightarrow> ('w \<Rightarrow> 'w \<times> go_error option) \<Rightarrow> nat \<Rightarrow> 'w \<Rightarrow> 'w option" where
  "attempts_failed x check 0 w = Some w"
| "attempts_failed x check (Suc n) w = (case x_ctxErr x w of
       (w1, None) \<Rightarrow> (case check w1 of
         (w2, Some err) \<Rightarrow> (case x_ctxErr x w2 of
           (w3, None) \<Rightarrow> (case x_retryTimer x w3 of
             (w4, None) \<Rightarrow> attempts_failed x check n w4
           | _ \<Rightarrow> None)
         | _ \<Rightarrow> None)
       | _ \<Rightarrow> None)
     | _ \<Rightarrow> None)"

definition attempt_succeeds :: "'w rt_env \<Rightarrow> ('w \<Rightarrow> 'w \<times> go_error option) \<Rightarrow> 'w \<Rightarrow> bool" where
  "attempt_succeeds x check w \<longleftrightarrow> snd (x_ctxErr x w) = None \<and> snd (check (fst (x_ctxErr x w))) = None"

definition ready_at :: "'w rt_env \<Rightarrow> ('w \<Rightarrow> 'w \<times> go_error option) \<Rightarrow> nat \<Rightarrow> 'w \<Rightarrow> bool" where
  "ready_at x check k w = (case attempts_failed x check k w of Some wk \<Rightarrow> attempt_succeeds x check wk | None \<Rightarrow> False)"

lemma ready_at_Suc: "ready_at x check (Suc k) w =
    (case attempts_failed x check 1 w of Some w' \<Rightarrow> ready_at x check k w' | None \<Rightarrow> False)"
  by (auto simp: ready_at_def split: prod.splits option.splits)

lemma ready_at_bounded: "(\<exists>k. k < Suc n \<and> ready_at x check k w) \<longleftrightarrow>
    ready_at x check 0 w \<or> (\<exists>w'. attempts_failed x check 1 w = Some w' \<and> (\<exists>k<n. ready_at x check k w'))"
proof
  assume "\<exists>k. k < Suc n \<and> ready_at x check k w"
  then obtain k where k: "k < Suc n" "ready_at x check k w" by blast
  then show "ready_at x check 0 w \<or> (\<exists>w'. attempts_failed x check 1 w = Some w' \<and> (\<exists>k<n. ready_at x check k w'))"
    by (cases k) (auto simp: ready_at_Suc simp del: attempts_failed.simps One_nat_def split: option.splits)
next
  assume "ready_at x check 0 w \<or> (\<exists>w'. attempts_failed x check 1 w = Some w' \<and> (\<exists>k<n. ready_at x check k w'))"
  then show "\<exists>k. k < Suc n \<and> ready_at x check k w"
  proof
    assume "\<exists>w'. attempts_failed x check 1 w = Some w' \<and> (\<exists>k<n. ready_at x check k w')"
    then obtain w' k where "attempts_failed x check 1 w = Some w'" "k < n" "ready_at x check k w'" by blast
    then show ?thesis by (intro exI[of _ "Suc k"]) (simp add: ready_at_Suc del: attempts_failed.simps One_nat_def)
  qed blast
qed

lemma errors_join_ex [simp]: "\<exists>y. errors_join (Some e # es) = Some y"
  by (simp add: errors_join_def)

lemma readiness_loop_last:
  "snd (readiness_loop x check attempts attempts errs w) = None \<longleftrightarrow> ready_at x check 0 w"
  by (subst readiness_loop.simps)
     (auto simp: ready_at_def attempt_succeeds_def Let_def split: prod.splits option.splits)

lemma readiness_loop_next:
  "attempt < attempts \<Longrightarrow> \<exists>errs'. snd (readiness_loop x check attempts attempt errs w) = None \<longleftrightarrow>
     ready_at x check 0 w \<or> (\<exists>w'. attempts_failed x check 1 w = Some w' \<and> snd (readiness_loop x check attempts (attempt + 1) errs' w') = None)"
  by (subst readiness_loop.simps)
     (auto simp: ready_at_def attempt_succeeds_def Let_def split: prod.splits option.splits)

lemma readiness_loop_spec:
  "attempt \<le> attempts \<Longrightarrow> nat (attempts - attempt) = n \<Longrightarrow>
     snd (readiness_loop x check attempts attempt errs w) = None \<longleftrightarrow> (\<exists>k. k < Suc n \<and> ready_at x check k w)"
proof (induction n arbitrary: attempt errs w)
  case 0
  then have "attempt = attempts" by simp
  then show ?case using ready_at_bounded[of 0 x check w] by (simp add: readiness_loop_last)
next
  case (Suc n)
  then have lt: "attempt < attempts" by simp
  from readiness_loop_next[OF lt, of x check errs w] obtain errs' where e: "snd (readiness_loop x check attempts attempt errs w) = None \<longleftrightarrow>
     ready_at x check 0 w \<or> (\<exists>w'. attempts_failed x check 1 w = Some w' \<and> snd (readiness_loop x check attempts (attempt + 1) errs' w') = None)"
    by (rule exE)
  have ih: "snd (readiness_loop x check attempts (attempt + 1) errs' w') = None \<longleftrightarrow> (\<exists>k. k < Suc n \<and> ready_at x check k w')" for w'
    by (rule Suc.IH) (use lt Suc.prems in linarith)+
  show ?case unfolding ready_at_bounded[of "Suc n"] e ih ..
qed

text \<open>
  C38. Initial readiness is bounded and exact. \<^verbatim>\<open>New\<close> leaves at least one attempt, a positive timeout, a
  positive retry interval and a positive failure threshold whatever it is given. The wait then
  succeeds exactly when, within the configured number of attempts, some attempt's check succeeds
  with the context alive and every attempt before it merely failed its check; a canceled context
  ends it at once with an error.
\<close>

theorem readiness_bounded_and_exact:
  "op_ReadinessAttempts (New opts) \<ge> 1 \<and> op_ReadinessAttemptTimeout (New opts) > 0 \<and> op_ReadinessRetryInterval (New opts) > 0
     \<and> op_HealthInterval (New opts) > 0 \<and> op_HealthFailureThreshold (New opts) \<ge> 1
   \<and> (snd (waitForInitialReadiness x check attempts w) = None \<longleftrightarrow> (\<exists>k. k < nat attempts \<and> ready_at x check k w))
   \<and> (snd (x_ctxErr x w) \<noteq> None \<longrightarrow> snd (waitForInitialReadiness x check attempts w) \<noteq> None)"
proof -
  have "op_ReadinessAttempts (New opts) \<ge> 1 \<and> op_ReadinessAttemptTimeout (New opts) > 0 \<and> op_ReadinessRetryInterval (New opts) > 0
     \<and> op_HealthInterval (New opts) > 0 \<and> op_HealthFailureThreshold (New opts) \<ge> 1"
    by (simp add: New_def Let_def defaultHealthFailureThreshold_def)
  moreover have m: "snd (waitForInitialReadiness x check attempts w) = None \<longleftrightarrow> (\<exists>k. k < nat attempts \<and> ready_at x check k w)"
  proof (cases "attempts < 1")
    case True
    then show ?thesis by (simp add: waitForInitialReadiness_def)
  next
    case False
    then have "Suc (nat (attempts - 1)) = nat attempts" by linarith
    with False readiness_loop_spec[of 1 attempts "nat (attempts - 1)" x check "[]" w] show ?thesis
      by (simp add: waitForInitialReadiness_def)
  qed
  moreover have "\<not> ready_at x check k w" if "snd (x_ctxErr x w) \<noteq> None" for k
    using that by (cases k) (auto simp: ready_at_def attempt_succeeds_def split: prod.splits option.splits)
  ultimately show ?thesis by blast
qed

theorem readiness_bounded_and_exact_witness:
  "snd (waitForInitialReadiness (sample_ext\<lparr>x_ctxErr := \<lambda>w. (w, Some (Sentinel Canceled))\<rparr>) (\<lambda>w. (w, None)) 6 ()) \<noteq> None"
proof -
  let ?x = "sample_ext\<lparr>x_ctxErr := \<lambda>w. (w, Some (Sentinel Canceled))\<rparr>"
  have "snd (x_ctxErr ?x ()) \<noteq> None" by simp
  with readiness_bounded_and_exact[of sample_opts ?x "\<lambda>w. (w, None)" 6 "()"] show ?thesis by blast
qed

subsection \<open>Health reports\<close>

text \<open>The reference: the results so far end in a run of failures, and no shorter prefix reported.\<close>

fun trailing_failures :: "go_error option list \<Rightarrow> go_error list" where
  "trailing_failures rs = rev (map the (takeWhile (\<lambda>r. r \<noteq> None) (rev rs)))"

lemma trailing_snoc: "trailing_failures (rs @ [Some e]) = trailing_failures rs @ [e]" "trailing_failures (rs @ [None]) = []"
  by simp_all

lemma monitor_snoc: "startHealthMonitor t (evs @ [ev]) = monitor_step t (startHealthMonitor t evs) ev"
  by (simp add: startHealthMonitor_def)

lemma find_append: "find P (xs @ ys) = (case find P xs of Some n \<Rightarrow> Some n | None \<Rightarrow> find P ys)"
  by (induction xs) auto

text \<open>
  The health monitor tears an attempt down exactly at its threshold: fed with the results of its
  checks, it reports at the first moment when the last results, as many as the threshold, have all
  failed, and reports exactly those failures; a success in between starts the count again.
\<close>

theorem health_report_exact:
  assumes "1 \<le> threshold"
  shows "startHealthMonitor threshold (map Checked rs) =
    (case find (\<lambda>n. threshold \<le> int (length (trailing_failures (take n rs)))) [0..<Suc (length rs)] of
       Some n \<Rightarrow> Reported (Joined (trailing_failures (take n rs)))
     | None \<Rightarrow> Watching (trailing_failures rs))"
proof (induction rs rule: rev_induct)
  case Nil
  then show ?case using assms by (simp add: startHealthMonitor_def)
next
  case (snoc r rs)
  let ?P = "\<lambda>rs n. threshold \<le> int (length (trailing_failures (take n rs)))"
  have same: "find (?P (rs @ [r])) [0..<Suc (length rs)] = find (?P rs) [0..<Suc (length rs)]"
    by (rule find_cong) auto
  have find: "find (?P (rs @ [r])) [0..<Suc (length (rs @ [r]))] =
      (case find (?P rs) [0..<Suc (length rs)] of Some n \<Rightarrow> Some n
       | None \<Rightarrow> if ?P (rs @ [r]) (Suc (length rs)) then Some (Suc (length rs)) else None)"
    unfolding same[symmetric] by (simp add: find_append del: trailing_failures.simps split: option.split)
  show ?case
  proof (cases "find (?P rs) [0..<Suc (length rs)]")
    case (Some n)
    then have "n < Suc (length rs)" by (auto simp: find_Some_iff simp del: upt_Suc)
    with Some snoc.IH show ?thesis unfolding find by (simp add: monitor_snoc del: trailing_failures.simps upt_Suc)
  next
    case None
    have "startHealthMonitor threshold (map Checked (rs @ [r])) = monitor_step threshold (Watching (trailing_failures rs)) (Checked r)"
      using None snoc.IH by (simp add: monitor_snoc del: trailing_failures.simps upt_Suc)
    moreover have "take (Suc (length rs)) (rs @ [r]) = rs @ [r]" by simp
    ultimately show ?thesis unfolding find None option.case using assms
      by (cases r) (simp_all add: trailing_snoc del: trailing_failures.simps)
  qed
qed

theorem health_report_exact_witness:
  "startHealthMonitor 3 (map Checked [Some (Plain ''a''), None, Some (Plain ''b''), Some (Plain ''c''), Some (Plain ''d''), None])
     = Reported (Joined [Plain ''b'', Plain ''c'', Plain ''d''])"
  using health_report_exact[of 3 "[Some (Plain ''a''), None, Some (Plain ''b''), Some (Plain ''c''), Some (Plain ''d''), None]"]
  by (simp add: upt_rec)

end
