(* ===== verification/Native_Mobile.thy ===== *)
theory Native_Mobile
  imports Tunnel_Engine
begin

text \<open>
  The native resource adapter of the mobile builds: \<^verbatim>\<open>core/sessionapi/runtime/native_lifecycle.go\<close> and
  \<^verbatim>\<open>native_runtime_mobile.go\<close>, and the descriptor hand-over of \<^verbatim>\<open>core/tunnel/owned_engine_fd.go\<close>.

  The TUN device, the engine and \<^verbatim>\<open>unix\<close> calls are functions of a state \<open>'w\<close> of the outside that may
  return an error or panic. \<^verbatim>\<open>Connect\<close> holds the adapter's lock throughout, but \<^verbatim>\<open>CancelConnect\<close> does not
  take it, so a cancellation may arrive at either of the two points where \<^verbatim>\<open>Connect\<close> looks for one. Two
  counters that the code does not have record the calls of \<^verbatim>\<open>Close\<close> on the device and the engines alive.
\<close>

section \<open>Lifecycle\<close>

datatype lifecycle_state = stateIdle | statePreparing | stateConnected | stateStopping | stateFailed

fun lifecycle_string :: "lifecycle_state \<Rightarrow> string" where
  "lifecycle_string stateIdle = ''IDLE''"
| "lifecycle_string statePreparing = ''PREPARING''"
| "lifecycle_string stateConnected = ''CONNECTED''"
| "lifecycle_string stateStopping = ''STOPPING''"
| "lifecycle_string stateFailed = ''FAILED''"

definition lifecycleBusyError :: "lifecycle_state \<Rightarrow> go_error" where
  "lifecycleBusyError s = Plain (''native session runtime lifecycle is '' @ lifecycle_string s)"

type_synonym ('c, 'w) locked_op = "'c \<Rightarrow> 'w \<Rightarrow> 'c \<times> 'w \<times> go_error option outcome"

text \<open>A panicking operation keeps what it wrote. The text of the recovered value and the stack are left out.\<close>

definition runLockedWithPanicRecovery :: "string \<Rightarrow> ('c, 'w) locked_op \<Rightarrow> ('c, 'w) locked_op option \<Rightarrow> ('c, 'w) locked_op" where
  "runLockedWithPanicRecovery label operation cleanup c w = (case operation c w of
       (c1, w1, Ret err) \<Rightarrow> (c1, w1, Ret err)
     | (c1, w1, Panic) \<Rightarrow>
         (let cause = Plain (label @ '' panic'') in
          case cleanup of
            None \<Rightarrow> (c1, w1, Ret (errors_join [Some cause, None]))
          | Some clean \<Rightarrow> (case clean c1 w1 of
              (c2, w2, Ret cleanupErr) \<Rightarrow> (c2, w2, Ret (errors_join [Some cause, cleanupErr]))
            | (c2, w2, Panic) \<Rightarrow> (c2, w2, Panic))))"

section \<open>Handing a descriptor to the engine\<close>

record 'w fd_env =
  fe_dup :: "int \<Rightarrow> 'w \<Rightarrow> 'w \<times> (go_error + int)"
  fe_start :: "int \<Rightarrow> 'w \<Rightarrow> 'w \<times> bool \<times> bool \<times> go_error option"
  fe_close :: "int \<Rightarrow> 'w \<Rightarrow> 'w \<times> go_error option"

text \<open>\<open>fe_start\<close> returns whether there is a handle, whether the platform accepted the descriptor, and the error.\<close>

definition startOwnedFDEngineLocked :: "'w fd_env \<Rightarrow> bool \<Rightarrow> bool \<Rightarrow> int \<Rightarrow> 'w \<Rightarrow> 'w \<times> bool \<times> go_error option" where
  "startOwnedFDEngineLocked env hasCache hasBypass fd w =
     (if \<not> hasCache then (w, False, Some (Plain ''DNS cache is required for tunnel start''))
      else if \<not> hasBypass then (w, False, Some (Plain ''bypass policy is required for tunnel start''))
      else (case fe_dup env fd w of
          (w1, Inl err) \<Rightarrow> (w1, False, Some (Wrap ''duplicate TUN descriptor for tun2socks: '' err))
        | (w1, Inr engineFD) \<Rightarrow> (case fe_start env engineFD w1 of (w2, handle, accepted, startErr) \<Rightarrow>
            if startErr \<noteq> None \<and> \<not> accepted
            then (case fe_close env engineFD w2 of (w3, closeErr) \<Rightarrow> (w3, False, errors_join [startErr, closeErr]))
            else (w2, handle, startErr))))"

definition StartOwnedFDEngine :: "'w fd_env \<Rightarrow> bool \<Rightarrow> bool \<Rightarrow> bool \<Rightarrow> int \<Rightarrow> 'w \<Rightarrow> 'w \<times> bool \<times> go_error option" where
  "StartOwnedFDEngine env busy hasCache hasBypass fd w =
     (if busy then (w, False, Some ErrEngineBusy) else startOwnedFDEngineLocked env hasCache hasBypass fd w)"

section \<open>The mobile adapter\<close>

record mobile =
  mb_tun :: bool
  mb_engine :: bool
  mb_cleanupErr :: "go_error option"
  mb_state :: lifecycle_state
  mb_tunOwned :: bool
  mb_tunCloseAttempted :: bool
  mb_tunCloseErr :: "go_error option"
  mb_connectCancel :: "bool option"
  mb_closes :: nat
  mb_engines :: nat

text \<open>\<open>mn_start\<close> returns whether there is a handle and the error; the error of \<^verbatim>\<open>SetNonblock\<close> is only logged.\<close>

record 'w mobile_env =
  mn_exposes_fd :: bool
  mn_fd :: "'w \<Rightarrow> 'w \<times> unit outcome"
  mn_start :: "'w \<Rightarrow> 'w \<times> (bool \<times> go_error option) outcome"
  mn_close :: "'w \<Rightarrow> 'w \<times> go_error option outcome"
  mn_stop :: "'w \<Rightarrow> 'w \<times> go_error option outcome"

definition newNativeRuntime_mobile :: "bool \<Rightarrow> mobile" where
  "newNativeRuntime_mobile tun =
     \<lparr>mb_tun = tun, mb_engine = False, mb_cleanupErr = None, mb_state = stateIdle, mb_tunOwned = False,
      mb_tunCloseAttempted = False, mb_tunCloseErr = None, mb_connectCancel = Some False, mb_closes = 0, mb_engines = 0\<rparr>"

definition CancelConnect :: "mobile \<Rightarrow> mobile" where
  "CancelConnect c = c\<lparr>mb_connectCancel := Some True\<rparr>"

definition connectWasCanceled :: "mobile \<Rightarrow> bool" where
  "connectWasCanceled c = (case mb_connectCancel c of None \<Rightarrow> False | Some closed \<Rightarrow> closed)"

definition closeTunLocked :: "'w mobile_env \<Rightarrow> (mobile, 'w) locked_op" where
  "closeTunLocked env c w =
     (if \<not> mb_tun c then (c, w, Ret None)
      else if mb_tunCloseAttempted c then (c, w, Ret (mb_tunCloseErr c))
      else (let c1 = c\<lparr>mb_tunCloseAttempted := True, mb_closes := mb_closes c + 1\<rparr> in
            case mn_close env w of
              (w1, Ret err) \<Rightarrow> (c1\<lparr>mb_tunCloseErr := err\<rparr>, w1, Ret err)
            | (w1, Panic) \<Rightarrow> (c1, w1, Panic)))"

definition close_owned_tun :: "'w mobile_env \<Rightarrow> (mobile, 'w) locked_op" where
  "close_owned_tun env c w =
     (if mb_tunOwned c \<and> mb_tun c then (case closeTunLocked env c w of
          (c1, w1, Ret None) \<Rightarrow> (c1\<lparr>mb_tunOwned := False, mb_tun := False\<rparr>, w1, Ret None)
        | (c1, w1, Ret (Some err)) \<Rightarrow> (c1, w1, Ret (Some err))
        | (c1, w1, Panic) \<Rightarrow> (c1, w1, Panic))
      else (c, w, Ret None))"

definition cleanupResourcesLocked :: "'w mobile_env \<Rightarrow> (mobile, 'w) locked_op" where
  "cleanupResourcesLocked env c w =
     (if mb_engine c then (case mn_stop env w of
          (w1, Ret (Some err)) \<Rightarrow> (c, w1, Ret (Some err))
        | (w1, Ret None) \<Rightarrow> close_owned_tun env (c\<lparr>mb_engine := False, mb_engines := mb_engines c - 1\<rparr>) w1
        | (w1, Panic) \<Rightarrow> (c, w1, Panic))
      else close_owned_tun env c w)"

definition disconnectLocked :: "'w mobile_env \<Rightarrow> (mobile, 'w) locked_op" where
  "disconnectLocked env c w =
     (if mb_state c = stateIdle then (c, w, Ret None)
      else (case cleanupResourcesLocked env (c\<lparr>mb_state := stateStopping\<rparr>) w of
          (c1, w1, Ret (Some err)) \<Rightarrow> (c1\<lparr>mb_cleanupErr := Some err, mb_state := stateFailed\<rparr>, w1, Ret (Some err))
        | (c1, w1, Ret None) \<Rightarrow>
            (c1\<lparr>mb_cleanupErr := None, mb_state := stateIdle, mb_engine := False, mb_tun := False\<rparr>, w1, Ret None)
        | (c1, w1, Panic) \<Rightarrow> (c1, w1, Panic)))"

definition connect_fail :: "'w mobile_env \<Rightarrow> go_error \<Rightarrow> (mobile, 'w) locked_op" where
  "connect_fail env cause c w = (case cleanupResourcesLocked env (c\<lparr>mb_state := stateFailed\<rparr>) w of
       (c1, w1, Ret cleanupErr) \<Rightarrow> (c1\<lparr>mb_cleanupErr := cleanupErr\<rparr>, w1, Ret (errors_join [Some cause, cleanupErr]))
     | (c1, w1, Panic) \<Rightarrow> (c1, w1, Panic))"

text \<open>After the engine has started: the local copy of the descriptor is closed and forgotten.\<close>

definition connect_started :: "'w mobile_env \<Rightarrow> (mobile, 'w) locked_op" where
  "connect_started env c w =
     (if connectWasCanceled c
      then connect_fail env (Plain ''mobile session connect canceled after tun2socks startup'') c w
      else if mb_tun c then (case closeTunLocked env c w of
          (c1, w1, Ret (Some closeErr)) \<Rightarrow>
            connect_fail env (Wrap ''failed to close local TUN after engine start: '' closeErr) c1 w1
        | (c1, w1, Ret None) \<Rightarrow> (c1\<lparr>mb_tunOwned := False, mb_tun := False, mb_state := stateConnected\<rparr>, w1, Ret None)
        | (c1, w1, Panic) \<Rightarrow> (c1, w1, Panic))
      else (c\<lparr>mb_state := stateConnected\<rparr>, w, Ret None))"

definition connect_start :: "'w mobile_env \<Rightarrow> bool \<Rightarrow> (mobile, 'w) locked_op" where
  "connect_start env k2 c w = (case mn_fd env w of
       (w1, Panic) \<Rightarrow> (c, w1, Panic)
     | (w1, Ret _) \<Rightarrow> (case mn_start env w1 of
         (w2, Panic) \<Rightarrow> (c, w2, Panic)
       | (w2, Ret (handle, err)) \<Rightarrow>
           (let c1 = c\<lparr>mb_engine := handle, mb_engines := mb_engines c + of_bool handle\<rparr> in
            case err of
              Some e \<Rightarrow> connect_fail env (Wrap ''failed to start tun2socks engine: '' e) c1 w2
            | None \<Rightarrow> connect_started env (if k2 then CancelConnect c1 else c1) w2)))"

text \<open>\<open>k1\<close> and \<open>k2\<close>: a cancellation arrives before the first, or between the two, looks for one.\<close>

definition connectLocked :: "'w mobile_env \<Rightarrow> bool \<Rightarrow> bool \<Rightarrow> (mobile, 'w) locked_op" where
  "connectLocked env k1 k2 c w =
     (if mb_state c \<noteq> stateIdle then (c, w, Ret (Some (lifecycleBusyError (mb_state c))))
      else (let c0 = c\<lparr>mb_state := statePreparing, mb_cleanupErr := None, mb_tunOwned := False,
                       mb_tunCloseAttempted := False, mb_tunCloseErr := None\<rparr>;
                c1 = (if k1 then CancelConnect c0 else c0) in
            if connectWasCanceled c1
            then connect_fail env (Plain ''mobile session connect canceled before native startup'') c1 w
            else if \<not> mb_tun c1 then connect_fail env (Plain ''mobile TUN device is not initialized'') c1 w
            else (let c2 = c1\<lparr>mb_tunOwned := True\<rparr> in
                  if \<not> mn_exposes_fd env
                  then connect_fail env (Plain ''TUN device does not expose a descriptor'') c2 w
                  else connect_start env k2 c2 w)))"

definition mobile_Connect :: "'w mobile_env \<Rightarrow> bool \<Rightarrow> bool \<Rightarrow> mobile option \<Rightarrow> 'w \<Rightarrow> mobile option \<times> 'w \<times> go_error option outcome" where
  "mobile_Connect env k1 k2 co w = (case co of
       None \<Rightarrow> (None, w, Ret (Some (Plain ''mobile session runtime is not initialized'')))
     | Some c \<Rightarrow> (case runLockedWithPanicRecovery ''mobile session connect'' (connectLocked env k1 k2)
                    (Some (disconnectLocked env)) c w of (c1, w1, r) \<Rightarrow> (Some c1, w1, r)))"

definition mobile_Disconnect :: "'w mobile_env \<Rightarrow> mobile option \<Rightarrow> 'w \<Rightarrow> mobile option \<times> 'w \<times> go_error option outcome" where
  "mobile_Disconnect env co w = (case co of
       None \<Rightarrow> (None, w, Ret (Some (Plain ''mobile session runtime is not initialized'')))
     | Some c \<Rightarrow> (case disconnectLocked env c w of (c1, w1, r) \<Rightarrow> (Some c1, w1, r)))"

section \<open>Calls\<close>

text \<open>The adapter with the result of its last \<^verbatim>\<open>Disconnect\<close>, under the calls of its owner in any order.\<close>

datatype mobile_call = CallConnect bool bool | CallDisconnect | CallCancel

fun run_mobile_call :: "'w mobile_env \<Rightarrow> mobile_call \<Rightarrow> (mobile, 'w) locked_op" where
  "run_mobile_call env (CallConnect k1 k2) c w =
     runLockedWithPanicRecovery ''mobile session connect'' (connectLocked env k1 k2) (Some (disconnectLocked env)) c w"
| "run_mobile_call env CallDisconnect c w = disconnectLocked env c w"
| "run_mobile_call env CallCancel c w = (CancelConnect c, w, Ret None)"

inductive mobile_step :: "'w mobile_env \<Rightarrow> mobile \<Rightarrow> mobile \<Rightarrow> bool" for env where
  "run_mobile_call env a c w = (c1, w1, r) \<Longrightarrow> mobile_step env c c1"

text \<open>
  The invariant. While the device is held, the flag says whether it was closed; an idle adapter that still
  holds the device never closed it and has no engine.
\<close>

definition mobile_inv :: "mobile \<Rightarrow> bool" where
  "mobile_inv c \<longleftrightarrow>
     mb_closes c \<le> 1 \<and>
     mb_engines c = of_bool (mb_engine c) \<and>
     (mb_tun c \<longrightarrow> mb_state c = stateIdle \<longrightarrow> mb_closes c = 0) \<and>
     (mb_tun c \<longrightarrow> mb_state c \<noteq> stateIdle \<longrightarrow> mb_closes c = of_bool (mb_tunCloseAttempted c)) \<and>
     (mb_state c = stateIdle \<longrightarrow> \<not> mb_engine c) \<and>
     (mb_state c = stateConnected \<longrightarrow> \<not> mb_tun c \<and> mb_closes c = 1)"

text \<open>Within a call the state is not idle; cleanup keeps the rest of the invariant and the state it runs in.\<close>

definition mobile_busy :: "mobile \<Rightarrow> bool" where
  "mobile_busy c \<longleftrightarrow> mobile_inv c \<and> mb_state c \<notin> {stateIdle, stateConnected}"

lemma closeTun_cases:
  assumes "closeTunLocked env c w = (c1, w1, r)"
  obtains (gone) "\<not> mb_tun c" "c1 = c" "r = Ret None"
  | (again) "mb_tun c" "mb_tunCloseAttempted c" "c1 = c" "r = Ret (mb_tunCloseErr c)"
  | (now) e where "mb_tun c" "\<not> mb_tunCloseAttempted c"
      "c1 = c\<lparr>mb_tunCloseAttempted := True, mb_closes := mb_closes c + 1, mb_tunCloseErr := e\<rparr>"
proof -
  consider (a) "\<not> mb_tun c" | (b) "mb_tun c" "mb_tunCloseAttempted c" | (c) "mb_tun c" "\<not> mb_tunCloseAttempted c" by blast
  then show ?thesis
  proof cases
    case a
    then show ?thesis using assms by (intro gone) (simp_all add: closeTunLocked_def)
  next
    case b
    then show ?thesis using assms by (intro again) (auto simp: closeTunLocked_def)
  next
    case c
    obtain w2 r2 where close: "mn_close env w = (w2, r2)" by fastforce
    define e where "e = (case r2 of Ret err \<Rightarrow> err | Panic \<Rightarrow> mb_tunCloseErr c)"
    have "closeTunLocked env c w = (c\<lparr>mb_tunCloseAttempted := True, mb_closes := mb_closes c + 1, mb_tunCloseErr := e\<rparr>,
        w2, case r2 of Ret err \<Rightarrow> Ret err | Panic \<Rightarrow> Panic)"
      using c close by (cases r2) (simp_all add: closeTunLocked_def e_def)
    then show ?thesis using assms c by (intro now[of e]) (simp_all only: prod.inject not_False_eq_True)
  qed
qed

lemma mobile_busyD:
  assumes "mobile_busy c"
  shows "mb_closes c \<le> 1" "mb_engines c = of_bool (mb_engine c)"
    "mb_tun c \<Longrightarrow> mb_closes c = of_bool (mb_tunCloseAttempted c)" "mb_state c \<noteq> stateIdle" "mb_state c \<noteq> stateConnected"
  using assms by (simp_all add: mobile_busy_def mobile_inv_def)

lemma mobile_busyI:
  assumes "mb_closes c \<le> 1" "mb_engines c = of_bool (mb_engine c)"
    "mb_tun c \<Longrightarrow> mb_closes c = of_bool (mb_tunCloseAttempted c)" "mb_state c \<noteq> stateIdle" "mb_state c \<noteq> stateConnected"
  shows "mobile_busy c"
  using assms by (simp add: mobile_busy_def mobile_inv_def)

lemma busy_inv: "mobile_busy c \<Longrightarrow> mobile_inv c"
  by (simp add: mobile_busy_def)

lemma closeTun_busy:
  assumes "closeTunLocked env c w = (c1, w1, r)" "mobile_busy c"
  shows "mobile_busy c1 \<and> mb_state c1 = mb_state c \<and> mb_engine c1 = mb_engine c \<and> mb_tun c1 = mb_tun c \<and>
    (mb_tun c \<longrightarrow> mb_closes c1 = 1)"
  using assms(1)
proof (cases rule: closeTun_cases)
  case (now e)
  have "mobile_busy c1" using now mobile_busyD[OF assms(2)] by (intro mobile_busyI) simp_all
  then show ?thesis using now mobile_busyD(3)[OF assms(2)] by simp
qed (use assms(2) mobile_busyD(3)[OF assms(2)] in simp_all)

lemma close_owned_cases:
  assumes "close_owned_tun env c w = (c1, w1, r)"
  obtains (none) "\<not> (mb_tunOwned c \<and> mb_tun c)" "c1 = c" "r = Ret None"
  | (closed) c2 where "closeTunLocked env c w = (c2, w1, Ret None)" "c1 = c2\<lparr>mb_tunOwned := False, mb_tun := False\<rparr>" "r = Ret None"
  | (kept) "closeTunLocked env c w = (c1, w1, r)" "r \<noteq> Ret None"
proof (cases "mb_tunOwned c \<and> mb_tun c")
  case True
  obtain c2 w2 r2 where close: "closeTunLocked env c w = (c2, w2, r2)" by (cases "closeTunLocked env c w")
  consider (err) e where "r2 = Ret (Some e)" | (ok) "r2 = Ret None" | (panic) "r2 = Panic"
    by (metis option.exhaust outcome.exhaust)
  then show ?thesis
  proof cases
    case err
    then show ?thesis using assms True close by (intro kept) (auto simp: close_owned_tun_def)
  next
    case ok
    then show ?thesis using assms True close by (intro closed[of c2]) (simp_all add: close_owned_tun_def)
  next
    case panic
    then show ?thesis using assms True close by (intro kept) (auto simp: close_owned_tun_def)
  qed
next
  case False
  then show ?thesis using assms by (intro none) (auto simp: close_owned_tun_def)
qed

lemma close_owned_busy:
  assumes "close_owned_tun env c w = (c1, w1, r)" "mobile_busy c"
  shows "mobile_busy c1 \<and> mb_state c1 = mb_state c \<and> mb_engine c1 = mb_engine c \<and>
    (r = Ret None \<longrightarrow> \<not> (mb_tunOwned c1 \<and> mb_tun c1)) \<and> (mb_tun c1 \<longrightarrow> mb_tun c)"
  using assms(1)
proof (cases rule: close_owned_cases)
  case (closed c2)
  note busy = closeTun_busy[OF closed(1) assms(2)]
  then have "mobile_busy c1" using closed mobile_busyD[of c2] by (intro mobile_busyI) simp_all
  then show ?thesis using busy closed by simp
qed (use assms(2) closeTun_busy[of env c w c1 w1 r] in auto)

lemma cleanup_cases:
  assumes "cleanupResourcesLocked env c w = (c1, w1, r)"
  obtains (none) "\<not> mb_engine c" "close_owned_tun env c w = (c1, w1, r)"
  | (stopped) w2 where "mb_engine c"
      "close_owned_tun env (c\<lparr>mb_engine := False, mb_engines := mb_engines c - 1\<rparr>) w2 = (c1, w1, r)"
  | (kept) "mb_engine c" "c1 = c" "r \<noteq> Ret None"
proof (cases "mb_engine c")
  case True
  obtain w2 r2 where stop: "mn_stop env w = (w2, r2)" by fastforce
  consider (err) e where "r2 = Ret (Some e)" | (ok) "r2 = Ret None" | (panic) "r2 = Panic"
    by (metis option.exhaust outcome.exhaust)
  then show ?thesis
  proof cases
    case err
    then show ?thesis using assms True stop by (intro kept) (auto simp: cleanupResourcesLocked_def)
  next
    case ok
    then show ?thesis using assms True stop by (intro stopped[of w2]) (simp_all add: cleanupResourcesLocked_def)
  next
    case panic
    then show ?thesis using assms True stop by (intro kept) (auto simp: cleanupResourcesLocked_def)
  qed
next
  case False
  then show ?thesis using assms by (intro none) (simp_all add: cleanupResourcesLocked_def)
qed

lemma cleanup_busy:
  assumes "cleanupResourcesLocked env c w = (c1, w1, r)" "mobile_busy c"
  shows "mobile_busy c1 \<and> mb_state c1 = mb_state c \<and>
    (r = Ret None \<longrightarrow> \<not> mb_engine c1 \<and> \<not> (mb_tunOwned c1 \<and> mb_tun c1)) \<and>
    (mb_engine c1 \<longrightarrow> mb_engine c \<and> mb_closes c1 = mb_closes c) \<and> (mb_tun c1 \<longrightarrow> mb_tun c)"
  using assms(1)
proof (cases rule: cleanup_cases)
  case (stopped w2)
  have "mobile_busy (c\<lparr>mb_engine := False, mb_engines := mb_engines c - 1\<rparr>)"
    using stopped(1) mobile_busyD[OF assms(2)] by (intro mobile_busyI) simp_all
  from close_owned_busy[OF stopped(2) this] show ?thesis by simp
qed (use assms(2) close_owned_busy[of env c w c1 w1 r] in simp_all)

lemma cleanup_from:
  assumes "cleanupResourcesLocked env (c\<lparr>mb_state := s\<rparr>) w = (c1, w1, r)" "mobile_inv c"
    "mb_state c \<noteq> stateIdle" "s \<notin> {stateIdle, stateConnected}"
  shows "mobile_busy c1 \<and> mb_state c1 = s \<and>
    (r = Ret None \<longrightarrow> \<not> mb_engine c1 \<and> \<not> (mb_tunOwned c1 \<and> mb_tun c1)) \<and>
    (mb_engine c1 \<longrightarrow> mb_engine c \<and> mb_closes c1 = mb_closes c) \<and> (mb_tun c1 \<longrightarrow> mb_tun c)"
proof -
  have "mobile_busy (c\<lparr>mb_state := s\<rparr>)"
    using assms(2-4) by (intro mobile_busyI) (simp_all add: mobile_inv_def)
  from cleanup_busy[OF assms(1) this] show ?thesis by simp
qed

lemma disconnect_cases:
  assumes "disconnectLocked env c w = (c1, w1, r)" "mb_state c \<noteq> stateIdle"
  obtains (failed) c2 e where "cleanupResourcesLocked env (c\<lparr>mb_state := stateStopping\<rparr>) w = (c2, w1, r)" "r = Ret (Some e)"
      "c1 = c2\<lparr>mb_cleanupErr := Some e, mb_state := stateFailed\<rparr>"
  | (ok) c2 where "cleanupResourcesLocked env (c\<lparr>mb_state := stateStopping\<rparr>) w = (c2, w1, r)" "r = Ret None"
      "c1 = c2\<lparr>mb_cleanupErr := None, mb_state := stateIdle, mb_engine := False, mb_tun := False\<rparr>"
  | (panic) "cleanupResourcesLocked env (c\<lparr>mb_state := stateStopping\<rparr>) w = (c1, w1, r)" "r = Panic"
proof -
  obtain c2 w2 r2 where clean: "cleanupResourcesLocked env (c\<lparr>mb_state := stateStopping\<rparr>) w = (c2, w2, r2)"
    by (cases "cleanupResourcesLocked env (c\<lparr>mb_state := stateStopping\<rparr>) w")
  consider (err) e where "r2 = Ret (Some e)" | (fine) "r2 = Ret None" | (pan) "r2 = Panic"
    by (metis option.exhaust outcome.exhaust)
  then show ?thesis
  proof cases
    case err
    then show ?thesis using assms clean by (intro failed[of c2 e]) (simp_all add: disconnectLocked_def)
  next
    case fine
    then show ?thesis using assms clean by (intro ok[of c2]) (simp_all add: disconnectLocked_def)
  next
    case pan
    then show ?thesis using assms clean by (intro panic) (simp_all add: disconnectLocked_def)
  qed
qed

lemma disconnect_inv:
  assumes "disconnectLocked env c w = (c1, w1, r)" "mobile_inv c"
  shows "mobile_inv c1 \<and>
    (r = Ret None \<longrightarrow> mb_state c1 = stateIdle \<and> mb_engines c1 = 0 \<and> (mb_state c \<noteq> stateIdle \<longrightarrow> \<not> mb_tun c1)) \<and>
    (mb_engine c1 \<longrightarrow> mb_engine c \<and> mb_closes c1 = mb_closes c) \<and> (mb_tun c1 \<longrightarrow> mb_tun c)"
proof (cases "mb_state c = stateIdle")
  case True
  then show ?thesis using assms by (auto simp: disconnectLocked_def mobile_inv_def)
next
  case False
  from assms(1) False show ?thesis
  proof (cases rule: disconnect_cases)
    case (failed c2 e)
    note busy = cleanup_from[OF failed(1) assms(2) False]
    then have "mobile_busy c1" using failed mobile_busyD[of c2] by (intro mobile_busyI) simp_all
    then show ?thesis using busy failed by (simp add: busy_inv)
  next
    case (ok c2)
    note busy = cleanup_from[OF ok(1) assms(2) False]
    then show ?thesis using ok mobile_busyD[of c2] by (simp add: mobile_inv_def)
  next
    case panic
    then show ?thesis using cleanup_from[OF panic(1) assms(2) False] by (simp add: busy_inv)
  qed
qed

lemma connect_fail_busy:
  assumes "connect_fail env cause c w = (c1, w1, r)" "mobile_busy c"
  shows "mobile_busy c1 \<and> r \<noteq> Ret None \<and> (mb_tun c1 \<longrightarrow> mb_tun c)"
proof -
  obtain c2 w2 r2 where clean: "cleanupResourcesLocked env (c\<lparr>mb_state := stateFailed\<rparr>) w = (c2, w2, r2)"
    by (cases "cleanupResourcesLocked env (c\<lparr>mb_state := stateFailed\<rparr>) w")
  have busy: "mobile_busy c2" "mb_state c2 = stateFailed" "mb_tun c2 \<longrightarrow> mb_tun c"
    using cleanup_from[OF clean busy_inv[OF assms(2)]] mobile_busyD(4)[OF assms(2)] by simp_all
  show ?thesis
  proof (cases r2)
    case (Ret e)
    then have c1: "c1 = c2\<lparr>mb_cleanupErr := e\<rparr>" "r = Ret (errors_join [Some cause, e])"
      using assms(1) clean by (simp_all add: connect_fail_def)
    have "mobile_busy c1" using c1(1) mobile_busyD[OF busy(1)] by (intro mobile_busyI) simp_all
    then show ?thesis using c1 busy(3) by (simp add: errors_join_def Let_def)
  next
    case Panic
    then show ?thesis using assms(1) clean busy by (simp add: connect_fail_def)
  qed
qed

lemma connect_started_inv:
  assumes "connect_started env c w = (c1, w1, r)" "mobile_busy c" "mb_tun c"
  shows "mobile_inv c1 \<and> (r = Ret None \<longrightarrow> mb_state c1 = stateConnected \<and> mb_engine c1 = mb_engine c \<and> \<not> connectWasCanceled c) \<and>
    (r \<noteq> Ret None \<longrightarrow> mobile_busy c1)"
proof (cases "connectWasCanceled c")
  case True
  then show ?thesis
    using connect_fail_busy[OF _ assms(2), of env _ w c1 w1 r] assms(1) by (auto simp: connect_started_def busy_inv)
next
  case False
  obtain c2 w2 r2 where close: "closeTunLocked env c w = (c2, w2, r2)" by (cases "closeTunLocked env c w")
  note busy = closeTun_busy[OF close assms(2)]
  consider (err) e where "r2 = Ret (Some e)" | (ok) "r2 = Ret None" | (panic) "r2 = Panic"
    by (metis option.exhaust outcome.exhaust)
  then show ?thesis
  proof cases
    case err
    then show ?thesis
      using assms(1,3) False close busy connect_fail_busy[of env _ c2 w2 c1 w1 r]
      by (simp add: connect_started_def busy_inv)
  next
    case ok
    then have c1: "c1 = c2\<lparr>mb_tunOwned := False, mb_tun := False, mb_state := stateConnected\<rparr>" "r = Ret None"
      using assms(1,3) False close by (auto simp: connect_started_def)
    show ?thesis using busy mobile_busyD(2)[of c2] assms(3) False unfolding c1 by (simp add: mobile_inv_def)
  next
    case panic
    then show ?thesis using assms(1,3) False close busy by (simp add: connect_started_def busy_inv)
  qed
qed

lemma connect_start_inv:
  assumes "connect_start env k2 c w = (c1, w1, r)" "mobile_busy c" "mb_tun c" "\<not> mb_engine c" "\<not> connectWasCanceled c"
  shows "mobile_inv c1 \<and>
    (r = Ret None \<longrightarrow> mb_state c1 = stateConnected \<and> \<not> k2 \<and> (\<exists>v v1. mn_start env v = (v1, Ret (mb_engine c1, None)))) \<and>
    (r \<noteq> Ret None \<longrightarrow> mobile_busy c1)"
proof -
  obtain w2 r2 where fd: "mn_fd env w = (w2, r2)" by fastforce
  obtain w3 r3 where start: "mn_start env w2 = (w3, r3)" by fastforce
  show ?thesis
  proof (cases "r2 = Panic \<or> r3 = Panic")
    case True
    then show ?thesis
      using assms(1,2) fd start by (cases r2) (auto simp: connect_start_def busy_inv)
  next
    case False
    then obtain handle err where r: "r2 = Ret ()" "r3 = Ret (handle, err)"
      by (metis outcome.exhaust prod.exhaust unit.exhaust)
    let ?c = "c\<lparr>mb_engine := handle, mb_engines := mb_engines c + of_bool handle\<rparr>"
    let ?k = "if k2 then CancelConnect ?c else ?c"
    have busy: "mobile_busy ?c" "mobile_busy ?k" "mb_tun ?k" "mb_engine ?k = handle" "connectWasCanceled ?k = k2"
      using assms(2,3,4,5) by (auto simp: mobile_busy_def mobile_inv_def CancelConnect_def connectWasCanceled_def)
    show ?thesis
    proof (cases err)
      case None
      then have "connect_started env ?k w3 = (c1, w1, r)" using assms(1) fd start r by (simp add: connect_start_def Let_def)
      from connect_started_inv[OF this busy(2,3)] show ?thesis using busy(4,5) start r None by auto
    next
      case (Some e)
      then have "connect_fail env (Wrap ''failed to start tun2socks engine: '' e) ?c w3 = (c1, w1, r)"
        using assms(1) fd start r by (simp add: connect_start_def Let_def)
      from connect_fail_busy[OF this busy(1)] show ?thesis by (simp add: mobile_busy_def)
    qed
  qed
qed

lemma connect_locked_inv:
  assumes "connectLocked env k1 k2 c w = (c1, w1, r)" "mobile_inv c"
  shows "mobile_inv c1 \<and>
    (r = Ret None \<longrightarrow> mb_state c = stateIdle \<and> mb_state c1 = stateConnected \<and> mb_tun c \<and> \<not> connectWasCanceled c \<and> \<not> k1 \<and> \<not> k2 \<and>
       (\<exists>v v1. mn_start env v = (v1, Ret (mb_engine c1, None)))) \<and> (mb_tun c1 \<longrightarrow> mb_tun c)"
proof (cases "mb_state c = stateIdle")
  case False
  then show ?thesis using assms by (auto simp: connectLocked_def)
next
  case True
  let ?c0 = "c\<lparr>mb_state := statePreparing, mb_cleanupErr := None, mb_tunOwned := False,
               mb_tunCloseAttempted := False, mb_tunCloseErr := None\<rparr>"
  define d where "d = (if k1 then CancelConnect ?c0 else ?c0)"
  have busy: "mobile_busy d" "mobile_busy (d\<lparr>mb_tunOwned := True\<rparr>)" "mb_tun d = mb_tun c" "\<not> mb_engine d"
    "connectWasCanceled d \<longleftrightarrow> k1 \<or> connectWasCanceled c"
    using assms(2) True
    by (auto simp: d_def mobile_busy_def mobile_inv_def CancelConnect_def connectWasCanceled_def split: option.splits)
  have eq: "(if connectWasCanceled d
      then connect_fail env (Plain ''mobile session connect canceled before native startup'') d w
      else if \<not> mb_tun d then connect_fail env (Plain ''mobile TUN device is not initialized'') d w
      else if \<not> mn_exposes_fd env
      then connect_fail env (Plain ''TUN device does not expose a descriptor'') (d\<lparr>mb_tunOwned := True\<rparr>) w
      else connect_start env k2 (d\<lparr>mb_tunOwned := True\<rparr>) w) = (c1, w1, r)"
    using assms(1) True unfolding connectLocked_def Let_def d_def by simp
  show ?thesis
  proof (cases "connectWasCanceled d \<or> \<not> mb_tun d \<or> \<not> mn_exposes_fd env")
    case fails: True
    then obtain cause c2 where "connect_fail env cause c2 w = (c1, w1, r)" "mobile_busy c2" "mb_tun c2 = mb_tun c"
      using eq busy(1-3) that[of _ d] that[of _ "d\<lparr>mb_tunOwned := True\<rparr>"] by (simp split: if_splits)
    with connect_fail_busy[OF this(1,2)] show ?thesis by (auto simp: busy_inv)
  next
    case False
    then have "connect_start env k2 (d\<lparr>mb_tunOwned := True\<rparr>) w = (c1, w1, r)" using eq by simp
    from connect_start_inv[OF this busy(2)] show ?thesis
      using False busy(3-5) True by (simp add: connectWasCanceled_def)
  qed
qed

lemma connect_call_inv:
  assumes "run_mobile_call env (CallConnect k1 k2) c w = (c1, w1, r)" "mobile_inv c"
  shows "mobile_inv c1 \<and>
    (r = Ret None \<longrightarrow> mb_state c = stateIdle \<and> mb_state c1 = stateConnected \<and> mb_tun c \<and> \<not> connectWasCanceled c \<and> \<not> k1 \<and> \<not> k2 \<and>
       (\<exists>v v1. mn_start env v = (v1, Ret (mb_engine c1, None)))) \<and> (mb_tun c1 \<longrightarrow> mb_tun c)"
proof -
  obtain c2 w2 r2 where op: "connectLocked env k1 k2 c w = (c2, w2, r2)" by (cases "connectLocked env k1 k2 c w")
  note inv = connect_locked_inv[OF op assms(2)]
  obtain c3 w3 r3 where clean: "disconnectLocked env c2 w2 = (c3, w3, r3)" by (cases "disconnectLocked env c2 w2")
  have "mobile_inv c3 \<and> (mb_tun c3 \<longrightarrow> mb_tun c)" using disconnect_inv[OF clean] inv by blast
  show ?thesis
    using assms(1) op clean inv \<open>mobile_inv c3 \<and> _\<close>
    by (cases r2) (auto simp: runLockedWithPanicRecovery_def errors_join_def split: outcome.splits)
qed

lemma run_mobile_call_inv:
  assumes "run_mobile_call env a c w = (c1, w1, r)" "mobile_inv c"
  shows "mobile_inv c1 \<and> (mb_tun c1 \<longrightarrow> mb_tun c)"
proof (cases a)
  case (CallConnect k1 k2)
  then show ?thesis using connect_call_inv[OF assms(1)[unfolded CallConnect] assms(2)] by blast
next
  case CallDisconnect
  then show ?thesis using disconnect_inv[of env c w c1 w1 r] assms by simp
next
  case CallCancel
  then have "c1 = CancelConnect c" using assms(1) by simp
  then show ?thesis using assms(2) by (simp add: CancelConnect_def mobile_inv_def)
qed

lemma mobile_step_inv: "mobile_inv c \<Longrightarrow> mobile_step env c c1 \<Longrightarrow> mobile_inv c1"
  by (erule mobile_step.cases) (blast dest: run_mobile_call_inv)

interpretation mobiles: invariant_system "\<lambda>c. \<exists>tun. c = newNativeRuntime_mobile tun" "mobile_step env" mobile_inv for env
proof unfold_locales
  show "\<exists>tun. c = newNativeRuntime_mobile tun \<Longrightarrow> mobile_inv c" for c
    by (elim exE) (simp add: newNativeRuntime_mobile_def mobile_inv_def)
qed (rule mobile_step_inv)


text \<open>
  \<^verbatim>\<open>Connect\<close> succeeds only from an idle adapter that holds its device and was not cancelled, before or
  during the call, and then the engine runs, the local descriptor is closed, exactly once, and forgotten. So
  an adapter connects at most once: a second success would need the device it no longer holds.
\<close>

theorem mobile_connect_exact:
  assumes "(mobile_step env)\<^sup>*\<^sup>* (newNativeRuntime_mobile tun) c"
    and "run_mobile_call env (CallConnect k1 k2) c w = (c1, w1, Ret None)"
    and starts: "\<And>v v1 handle. mn_start env v = (v1, Ret (handle, None)) \<Longrightarrow> handle"
    and "(mobile_step env)\<^sup>*\<^sup>* c1 c2"
  shows "mb_state c = stateIdle \<and> mb_tun c \<and> \<not> connectWasCanceled c \<and> \<not> k1 \<and> \<not> k2 \<and>
    mb_state c1 = stateConnected \<and> mb_engines c1 = 1 \<and> mb_closes c1 = 1 \<and> \<not> mb_tun c1 \<and>
    (\<forall>j1 j2 v. snd (snd (run_mobile_call env (CallConnect j1 j2) c2 v)) \<noteq> Ret None)"
proof -
  have inv: "mobile_inv c" using mobiles.reach_inv assms(1) by blast
  note call = connect_call_inv[OF assms(2) inv]
  then have inv1: "mobile_inv c1" by blast
  have gone: "mobile_inv a \<Longrightarrow> mobile_step env a b \<Longrightarrow> \<not> mb_tun a \<longrightarrow> \<not> mb_tun b" for a b
    by (erule mobile_step.cases) (blast dest: run_mobile_call_inv)
  have "\<not> mb_tun c1 \<longrightarrow> \<not> mb_tun c2"
    by (rule mobiles.steps_relate[OF assms(4) inv1]) (auto dest: gone)
  moreover have "mobile_inv c2" using mobiles.steps_inv[OF assms(4) inv1] .
  ultimately have "\<not> mb_tun c1 \<longrightarrow> snd (snd (run_mobile_call env (CallConnect j1 j2) c2 v)) \<noteq> Ret None" for j1 j2 v
    using connect_call_inv[of env j1 j2 c2 v] by (metis prod.collapse)
  then show ?thesis using call inv1 starts by (auto simp: mobile_inv_def)
qed


section \<open>A run\<close>

text \<open>An engine that does not stop at first: the state of the outside counts the attempts.\<close>

definition sample_mobile :: "nat mobile_env" where
  "sample_mobile = \<lparr>mn_exposes_fd = True, mn_fd = (\<lambda>w. (w, Ret ())), mn_start = (\<lambda>w. (w, Ret (True, None))),
     mn_close = (\<lambda>w. (w, Ret None)),
     mn_stop = (\<lambda>w. (Suc w, if w = 0 then Ret (Some (Plain ''busy'')) else if w = 1 then Panic else Ret None))\<rparr>"

definition sample_connected :: mobile where
  "sample_connected = \<lparr>mb_tun = False, mb_engine = True, mb_cleanupErr = None, mb_state = stateConnected, mb_tunOwned = False,
     mb_tunCloseAttempted = True, mb_tunCloseErr = None, mb_connectCancel = Some False, mb_closes = 1, mb_engines = 1\<rparr>"

lemma sample_mobile_connect:
  "run_mobile_call sample_mobile (CallConnect False False) (newNativeRuntime_mobile True) 0 = (sample_connected, 0, Ret None)"
  by code_simp

lemma sample_mobile_reach: "(mobile_step sample_mobile)\<^sup>*\<^sup>* (newNativeRuntime_mobile True) sample_connected"
  by (rule r_into_rtranclp, rule mobile_step.intros, rule sample_mobile_connect)

lemma sample_mobile_disconnect:
  "disconnectLocked sample_mobile sample_connected 0 = (sample_connected\<lparr>mb_cleanupErr := Some (Plain ''busy''), mb_state := stateFailed\<rparr>, 1, Ret (Some (Plain ''busy'')))"
  "disconnectLocked sample_mobile sample_connected 2 = (sample_connected\<lparr>mb_engine := False, mb_state := stateIdle, mb_engines := 0\<rparr>, 3, Ret None)"
  by code_simp+


theorem mobile_connect_exact_witness:
  "\<exists>c1. run_mobile_call sample_mobile (CallConnect False False) (newNativeRuntime_mobile True) 0 = (c1, 0, Ret None) \<and>
     mb_engines c1 = 1 \<and> mb_closes c1 = 1 \<and>
     (\<forall>j1 j2 v. snd (snd (run_mobile_call sample_mobile (CallConnect j1 j2) c1 v)) \<noteq> Ret None)"
proof -
  obtain c1 where run: "run_mobile_call sample_mobile (CallConnect False False) (newNativeRuntime_mobile True) 0 = (c1, 0, Ret None)"
    by (rule that, rule sample_mobile_connect)
  have "handle" if "mn_start sample_mobile v = (v1, Ret (handle, None))" for v v1 handle
    using that by (simp add: sample_mobile_def)
  note starts = this
  have "mb_state (newNativeRuntime_mobile True) = stateIdle \<and> mb_tun (newNativeRuntime_mobile True) \<and>
      \<not> connectWasCanceled (newNativeRuntime_mobile True) \<and> \<not> False \<and> \<not> False \<and>
      mb_state c1 = stateConnected \<and> mb_engines c1 = 1 \<and> mb_closes c1 = 1 \<and> \<not> mb_tun c1 \<and>
      (\<forall>j1 j2 v. snd (snd (run_mobile_call sample_mobile (CallConnect j1 j2) c1 v)) \<noteq> Ret None)"
    by (rule mobile_connect_exact[OF rtranclp.rtrancl_refl run _ rtranclp.rtrancl_refl]) (rule starts)
  then show ?thesis using run by blast
qed

end
