(* ===== verification/Native_Desktop.thy ===== *)
theory Native_Desktop
  imports Release_Loop Native_Mobile
begin

text \<open>
  The native resource adapter of the desktop builds, \<^verbatim>\<open>core/sessionapi/runtime/native_runtime_desktop.go\<close>.

  \<^verbatim>\<open>Connect\<close> and \<^verbatim>\<open>Disconnect\<close> hold the adapter's lock only in short sections and wait for the goroutine
  that runs the native application in between, so each section is an operation of its own and \<open>desk_step\<close>
  interleaves them. The application is the one of \<open>Release_Loop\<close>; what it releases and with which result is
  arbitrary. The session runtime makes one adapter per network and calls \<^verbatim>\<open>Connect\<close> on it once; it may call
  \<^verbatim>\<open>Disconnect\<close> any number of times. Cancelling the run's context has no effect on the adapter itself.
  The application's constant routing configuration, log calls and the nil receiver are left out.
\<close>

section \<open>The adapter\<close>

record ('c, 'x) desktop =
  dk_app :: "('c, 'x) app option"
  dk_cancel :: bool
  dk_done :: bool
  dk_runErr :: "go_error option"
  dk_state :: lifecycle_state
  dk_generation :: u64

definition newNativeRuntime_desktop :: "('c, 'x) desktop" where
  "newNativeRuntime_desktop =
     \<lparr>dk_app = Some \<lparr>app_cleanup = [], app_cleanupErr = None, app_cleanupContext = None\<rparr>,
      dk_cancel = False, dk_done = False, dk_runErr = None, dk_state = stateIdle, dk_generation = 0\<rparr>"

text \<open>\<^verbatim>\<open>Connect\<close> up to the start of the run, and its end after a successful initialization.\<close>

definition desk_Connect_begin :: "('c, 'x) desktop \<Rightarrow> ('c, 'x) desktop \<times> (go_error + u64)" where
  "desk_Connect_begin c =
     (if dk_state c \<noteq> stateIdle then (c, Inl (lifecycleBusyError (dk_state c)))
      else if dk_app c = None
      then (c\<lparr>dk_state := stateFailed\<rparr>, Inl (Plain ''desktop session runtime app is not initialized''))
      else (let generation = dk_generation c + 1 in
            (c\<lparr>dk_generation := generation, dk_state := statePreparing, dk_runErr := None, dk_cancel := True, dk_done := True\<rparr>,
             Inr generation)))"

definition desk_Connect_ready :: "u64 \<Rightarrow> ('c, 'x) desktop \<Rightarrow> ('c, 'x) desktop \<times> go_error option" where
  "desk_Connect_ready generation c =
     (if dk_generation c \<noteq> generation \<or> dk_state c \<noteq> statePreparing
      then (c, Some (Plain (''native session runtime start generation '' @ nat_digits (unat generation) @
                            '' was cancelled while '' @ lifecycle_string (dk_state c))))
      else (c\<lparr>dk_state := stateConnected\<rparr>, None))"

text \<open>\<^verbatim>\<open>stopAndWait\<close> up to its wait: the new state, and whether there is a channel to wait for.\<close>

definition stopAndWait_begin :: "'x \<Rightarrow> ('c, 'x) desktop \<Rightarrow> ('c, 'x) desktop \<times> bool" where
  "stopAndWait_begin ctx c =
     (c\<lparr>dk_app := map_option (app_SetCleanupContext ctx) (dk_app c), dk_state := stateStopping\<rparr>, dk_done c)"

text \<open>\<open>timeout\<close> is the context's error when it ended before the channel was closed.\<close>

definition waitForShutdown :: "go_error option \<Rightarrow> bool \<Rightarrow> string \<Rightarrow> go_error option" where
  "waitForShutdown timeout waits reason =
     (if \<not> waits then None
      else map_option (Wrap (''waiting for native session runtime shutdown after '' @ reason @ '': '')) timeout)"

definition terminalRunError :: "u64 \<Rightarrow> ('c, 'x) desktop \<Rightarrow> go_error option" where
  "terminalRunError generation c = (if dk_generation c \<noteq> generation then None else dk_runErr c)"

text \<open>Why \<^verbatim>\<open>Connect\<close> gave up, and what it does after the wait.\<close>

datatype give_up = InitError go_error | Cancelled go_error | InitTimeout

fun give_up_reason :: "give_up \<Rightarrow> string" where
  "give_up_reason (InitError e) = ''after initialization error''"
| "give_up_reason (Cancelled e) = ''after acquisition cancellation''"
| "give_up_reason InitTimeout = ''after initialization timeout''"

definition connect_failed :: "u64 \<Rightarrow> ('c, 'x) desktop \<Rightarrow> ('c, 'x) desktop" where
  "connect_failed generation c = (if dk_generation c = generation then c\<lparr>dk_state := stateFailed\<rparr> else c)"

fun desk_Connect_end :: "u64 \<Rightarrow> give_up \<Rightarrow> go_error option \<Rightarrow> ('c, 'x) desktop \<Rightarrow> ('c, 'x) desktop \<times> go_error option" where
  "desk_Connect_end generation (InitError err) shutdownErr c =
     (let c1 = connect_failed generation c in
      (c1, errors_join [Some (Wrap ''failed to initialize native session runtime: '' err), shutdownErr, terminalRunError generation c1]))"
| "desk_Connect_end generation (Cancelled err) shutdownErr c = (c, errors_join [Some err, shutdownErr])"
| "desk_Connect_end generation InitTimeout shutdownErr c =
     (let c1 = connect_failed generation c in
      (c1, errors_join [Some (Plain ''timeout waiting for native session runtime initialization''), shutdownErr,
                        terminalRunError generation c1]))"

definition finishRun :: "u64 \<Rightarrow> go_error option \<Rightarrow> ('c, 'x) desktop \<Rightarrow> ('c, 'x) desktop" where
  "finishRun generation runErr c =
     (if dk_generation c \<noteq> generation then c
      else c\<lparr>dk_runErr := runErr,
             dk_state := (if dk_state c = stateStopping \<and> runErr = None then stateIdle else stateFailed),
             dk_cancel := False, dk_done := False\<rparr>)"

text \<open>\<^verbatim>\<open>Disconnect\<close> up to its wait: it returns at once, or waits for the run.\<close>

datatype disconnect = DiscReturned "go_error option" | DiscWaits bool

definition desk_Disconnect_begin ::
  "('x \<Rightarrow> ('c, 'w) runner) \<Rightarrow> 'x \<Rightarrow> ('c, 'x) desktop \<Rightarrow> 'w \<Rightarrow> ('c, 'x) desktop \<times> 'w \<times> disconnect" where
  "desk_Disconnect_begin run ctx c w =
     (if dk_state c = stateIdle then (c, w, DiscReturned None)
      else if dk_state c = stateStopping then (c, w, DiscReturned (Some (lifecycleBusyError stateStopping)))
      else if dk_state c = stateFailed \<and> \<not> dk_done c then
        (case dk_app c of
           Some a \<Rightarrow> (case app_close (run ctx) a w of (a1, w1, err) \<Rightarrow>
             (c\<lparr>dk_app := Some a1, dk_state := (if err = None then stateIdle else dk_state c)\<rparr>, w1, DiscReturned err))
         | None \<Rightarrow> (c, w, DiscReturned (dk_runErr c)))
      else (c\<lparr>dk_state := stateStopping, dk_app := map_option (app_SetCleanupContext ctx) (dk_app c)\<rparr>, w, DiscWaits (dk_done c)))"

definition desk_Disconnect_end :: "('c, 'x) desktop \<Rightarrow> ('c, 'x) desktop \<times> go_error option" where
  "desk_Disconnect_end c = (case dk_app c of
       Some a \<Rightarrow> (case app_CleanupError a of
         Some err \<Rightarrow> (c, Some (CleanupFailure err))
       | None \<Rightarrow> (c\<lparr>dk_state := stateIdle\<rparr>, None))
     | None \<Rightarrow> (c, map_option (Wrap ''native session runtime cleanup failed: '') (terminalRunError (dk_generation c) c)))"

section \<open>Interleavings\<close>

text \<open>The run goroutine: it runs, has closed the application, has called \<open>finishRun\<close>, has closed the channel.\<close>

datatype run_phase = RunNone | RunGo | RunCleaned "go_error option" | RunFinished | RunClosed

datatype connect_phase = ConnNone | ConnSelect u64 | ConnWait u64 give_up bool | ConnOver

record ('c, 'x, 'w) desk_sys =
  ds_core :: "('c, 'x) desktop"
  ds_world :: 'w
  ds_run :: run_phase
  ds_conn :: connect_phase
  ds_waiting :: "bool list"

definition run_over :: "run_phase \<Rightarrow> bool" where
  "run_over p \<longleftrightarrow> p = RunFinished \<or> p = RunClosed"

inductive desk_step ::
  "('x \<Rightarrow> 'x) \<Rightarrow> ('x \<Rightarrow> ('c, 'w) runner) \<Rightarrow> ('c, 'x, 'w) desk_sys \<Rightarrow> ('c, 'x, 'w) desk_sys \<Rightarrow> bool" for derive run where
  step_connect: "ds_conn s = ConnNone \<Longrightarrow> desk_Connect_begin (ds_core s) = (c, Inr g) \<Longrightarrow>
     desk_step derive run s (s\<lparr>ds_core := c, ds_conn := ConnSelect g, ds_run := RunGo\<rparr>)"
| step_work: "ds_run s = RunGo \<Longrightarrow> dk_app (ds_core s) = Some a \<Longrightarrow>
     desk_step derive run s (s\<lparr>ds_core := (ds_core s)\<lparr>dk_app := Some (app_setCleanup releases a)\<rparr>\<rparr>)"
| step_cleanup: "ds_run s = RunGo \<Longrightarrow> dk_app (ds_core s) = Some a \<Longrightarrow>
     app_finishCleanup derive run a ctx (ds_world s) err = (a1, w1, e) \<Longrightarrow> e1 = e \<or> e1 \<noteq> None \<Longrightarrow>
     desk_step derive run s (s\<lparr>ds_core := (ds_core s)\<lparr>dk_app := Some a1\<rparr>, ds_world := w1, ds_run := RunCleaned e1\<rparr>)"
| step_finish: "ds_run s = RunCleaned e \<Longrightarrow>
     desk_step derive run s (s\<lparr>ds_core := finishRun 1 e (ds_core s), ds_run := RunFinished\<rparr>)"
| step_close: "ds_run s = RunFinished \<Longrightarrow> desk_step derive run s (s\<lparr>ds_run := RunClosed\<rparr>)"
| step_ready: "ds_conn s = ConnSelect g \<Longrightarrow>
     desk_step derive run s (s\<lparr>ds_core := fst (desk_Connect_ready g (ds_core s)), ds_conn := ConnOver\<rparr>)"
| step_give_up: "ds_conn s = ConnSelect g \<Longrightarrow> stopAndWait_begin ctx (ds_core s) = (c, waits) \<Longrightarrow>
     desk_step derive run s (s\<lparr>ds_core := c, ds_conn := ConnWait g why waits\<rparr>)"
| step_gave_up: "ds_conn s = ConnWait g why waits \<Longrightarrow> timeout \<noteq> None \<or> \<not> waits \<or> ds_run s = RunClosed \<Longrightarrow>
     desk_step derive run s
       (s\<lparr>ds_core := fst (desk_Connect_end g why (waitForShutdown timeout waits (give_up_reason why)) (ds_core s)), ds_conn := ConnOver\<rparr>)"
| step_disconnect: "desk_Disconnect_begin run ctx (ds_core s) (ds_world s) = (c, w1, DiscReturned r) \<Longrightarrow>
     desk_step derive run s (s\<lparr>ds_core := c, ds_world := w1\<rparr>)"
| step_disconnect_wait: "desk_Disconnect_begin run ctx (ds_core s) (ds_world s) = (c, w1, DiscWaits waits) \<Longrightarrow>
     desk_step derive run s (s\<lparr>ds_core := c, ds_world := w1, ds_waiting := waits # ds_waiting s\<rparr>)"
| step_disconnect_timeout: "ds_waiting s = xs @ waits # ys \<Longrightarrow> desk_step derive run s (s\<lparr>ds_waiting := xs @ ys\<rparr>)"
| step_disconnect_end: "ds_waiting s = xs @ waits # ys \<Longrightarrow> \<not> waits \<or> ds_run s = RunClosed \<Longrightarrow>
     desk_step derive run s (s\<lparr>ds_core := fst (desk_Disconnect_end (ds_core s)), ds_waiting := xs @ ys\<rparr>)"

definition new_desk :: "'w \<Rightarrow> ('c, 'x, 'w) desk_sys" where
  "new_desk w = \<lparr>ds_core = newNativeRuntime_desktop, ds_world = w, ds_run = RunNone, ds_conn = ConnNone, ds_waiting = []\<rparr>"

section \<open>The invariant\<close>

text \<open>A settled application: \<^verbatim>\<open>CleanupError\<close> says whether a release is left.\<close>

definition app_settled :: "('c, 'x) desktop \<Rightarrow> bool" where
  "app_settled c = (case dk_app c of None \<Rightarrow> False | Some a \<Rightarrow> app_cleanupErr a = None \<longleftrightarrow> app_cleanup a = [])"

definition app_clean :: "('c, 'x) desktop \<Rightarrow> bool" where
  "app_clean c = (case dk_app c of None \<Rightarrow> False | Some a \<Rightarrow> app_cleanup a = [])"

definition conn_generation :: "connect_phase \<Rightarrow> bool" where
  "conn_generation p = (case p of ConnSelect g \<Rightarrow> g = 1 | ConnWait g why waits \<Rightarrow> g = 1 | _ \<Rightarrow> True)"

definition phase_ok :: "run_phase \<Rightarrow> connect_phase \<Rightarrow> ('c, 'x) desktop \<Rightarrow> bool" where
  "phase_ok p q c = (case p of
       RunNone \<Rightarrow> q = ConnNone \<and> dk_state c = stateIdle \<and> dk_generation c = 0 \<and> \<not> dk_done c \<and> app_settled c \<and> app_clean c
     | RunGo \<Rightarrow> q \<noteq> ConnNone \<and> dk_state c \<noteq> stateIdle \<and> dk_generation c = 1 \<and> dk_done c
     | RunCleaned e \<Rightarrow> q \<noteq> ConnNone \<and> dk_state c \<noteq> stateIdle \<and> dk_generation c = 1 \<and> dk_done c \<and> app_settled c \<and> (e = None \<longrightarrow> app_clean c)
     | _ \<Rightarrow> q \<noteq> ConnNone \<and> dk_state c \<noteq> statePreparing \<and> dk_state c \<noteq> stateConnected \<and> dk_generation c = 1 \<and> \<not> dk_done c \<and>
            app_settled c \<and> (dk_state c = stateIdle \<longrightarrow> app_clean c))"

definition desk_inv :: "('c, 'x, 'w) desk_sys \<Rightarrow> bool" where
  "desk_inv s \<longleftrightarrow> phase_ok (ds_run s) (ds_conn s) (ds_core s) \<and> conn_generation (ds_conn s) \<and>
     set (ds_waiting s) \<subseteq> {True} \<and> dk_app (ds_core s) \<noteq> None"

lemma app_close_settles:
  assumes "app_close run a w = (a1, w1, r)"
  shows "(app_cleanupErr a1 = None \<longleftrightarrow> app_cleanup a1 = []) \<and> (r = None \<longleftrightarrow> app_cleanup a1 = [])"
proof (cases r)
  case None
  then show ?thesis using app_close_error[OF assms] native_app.exec_spec[OF assms] by (auto simp: app_CleanupError_def)
next
  case (Some e)
  then show ?thesis using app_close_error[OF assms] native_app.exec_spec[OF assms] by (auto simp: app_CleanupError_def)
qed

lemma finishCleanup_settles:
  assumes "app_finishCleanup derive run a ctx w err = (a1, w1, e)"
  shows "(app_cleanupErr a1 = None \<longleftrightarrow> app_cleanup a1 = []) \<and> (e = None \<longrightarrow> app_cleanup a1 = [])"
proof -
  define x where "x = (case app_cleanupContext a of None \<Rightarrow> derive ctx | Some c \<Rightarrow> c)"
  obtain a2 w2 r where close: "app_close (run x) a w = (a2, w2, r)" by (cases "app_close (run x) a w")
  then have "a1 = a2" "r \<noteq> None \<Longrightarrow> e \<noteq> None"
    using assms by (auto simp: app_finishCleanup_def x_def[symmetric] Let_def errors_join_def split: option.splits)
  then show ?thesis using app_close_settles[OF close] by auto
qed


lemmas desk_inv_defs = desk_inv_def phase_ok_def conn_generation_def app_settled_def app_clean_def

lemma disconnect_begin_ok:
  assumes "desk_Disconnect_begin run ctx c w = (c1, w1, r)" "phase_ok p q c" "dk_app c \<noteq> None"
  shows "phase_ok p q c1 \<and> dk_app c1 \<noteq> None \<and> (\<forall>waits. r = DiscWaits waits \<longrightarrow> waits) \<and>
    (r = DiscReturned None \<longrightarrow> dk_state c1 = stateIdle)"
proof -
  obtain a where a: "dk_app c = Some a" using assms(3) by auto
  consider (idle) "dk_state c = stateIdle" | (stopping) "dk_state c = stateStopping"
    | (retry) "dk_state c = stateFailed" "\<not> dk_done c"
    | (wait) "dk_state c \<noteq> stateIdle" "dk_state c \<noteq> stateStopping" "\<not> (dk_state c = stateFailed \<and> \<not> dk_done c)" by blast
  then show ?thesis
  proof cases
    case idle
    then show ?thesis using assms by (auto simp: desk_Disconnect_begin_def)
  next
    case stopping
    then show ?thesis using assms by (auto simp: desk_Disconnect_begin_def)
  next
    case retry
    obtain a1 w2 err where close: "app_close (run ctx) a w = (a1, w2, err)" by (cases "app_close (run ctx) a w")
    have c1: "c1 = c\<lparr>dk_app := Some a1, dk_state := (if err = None then stateIdle else dk_state c)\<rparr>" "r = DiscReturned err"
      using assms(1) retry a close by (simp_all add: desk_Disconnect_begin_def)
    show ?thesis
      using assms(2) retry app_close_settles[OF close] unfolding c1
      by (cases p) (simp_all add: phase_ok_def app_settled_def app_clean_def)
  next
    case wait
    then have c1: "c1 = c\<lparr>dk_state := stateStopping, dk_app := map_option (app_SetCleanupContext ctx) (dk_app c)\<rparr>" "r = DiscWaits (dk_done c)"
      using assms(1) by (auto simp: desk_Disconnect_begin_def)
    show ?thesis
      using assms(2) wait a unfolding c1
      by (cases p; cases "dk_state c") (simp_all add: phase_ok_def app_settled_def app_clean_def app_SetCleanupContext_def)
  qed
qed

lemma stop_begin_ok:
  assumes "phase_ok p q c" "dk_app c \<noteq> None" "q \<noteq> ConnNone"
  shows "phase_ok p (ConnWait g why waits) (fst (stopAndWait_begin ctx c)) \<and> dk_app (fst (stopAndWait_begin ctx c)) \<noteq> None"
  using assms
  by (cases p; cases "dk_app c")
     (simp_all add: stopAndWait_begin_def phase_ok_def app_settled_def app_clean_def app_SetCleanupContext_def)

lemma connect_end_ok:
  assumes "phase_ok p q c" "q \<noteq> ConnNone"
  shows "phase_ok p ConnOver (fst (desk_Connect_end g why r c)) \<and> dk_app (fst (desk_Connect_end g why r c)) = dk_app c"
  using assms
  by (cases p; cases why) (simp_all add: phase_ok_def app_settled_def app_clean_def connect_failed_def Let_def)

lemma disconnect_end_ok:
  assumes "phase_ok RunClosed q c" "dk_app c \<noteq> None"
  shows "phase_ok RunClosed q (fst (desk_Disconnect_end c)) \<and> dk_app (fst (desk_Disconnect_end c)) \<noteq> None \<and>
    (snd (desk_Disconnect_end c) = None \<longrightarrow> dk_state (fst (desk_Disconnect_end c)) = stateIdle)"
  using assms
  by (cases "dk_app c"; cases "app_CleanupError (the (dk_app c))")
     (simp_all add: desk_Disconnect_end_def phase_ok_def app_settled_def app_clean_def app_CleanupError_def)

lemma finish_ok:
  assumes "phase_ok (RunCleaned e) q c"
  shows "phase_ok RunFinished q (finishRun 1 e c) \<and> dk_app (finishRun 1 e c) = dk_app c"
  using assms by (auto simp: phase_ok_def app_settled_def app_clean_def finishRun_def)

lemma ready_ok:
  assumes "phase_ok p (ConnSelect g) c"
  shows "phase_ok p ConnOver (fst (desk_Connect_ready g c)) \<and> dk_app (fst (desk_Connect_ready g c)) = dk_app c"
  using assms by (cases p) (simp_all add: phase_ok_def app_settled_def app_clean_def desk_Connect_ready_def)

lemma desk_step_inv:
  assumes "desk_inv s" "desk_step derive run s s'"
  shows "desk_inv s'"
  using assms(2,1)
proof (cases rule: desk_step.cases)
  case (step_connect c g)
  then show ?thesis
    using assms(1) by (cases "ds_run s") (auto simp: desk_inv_defs desk_Connect_begin_def Let_def split: if_splits)
next
  case (step_work a releases)
  then show ?thesis using assms(1) by (simp add: desk_inv_defs)
next
  case (step_cleanup a ctx err a1 w1 e e1)
  then show ?thesis using assms(1) finishCleanup_settles[OF step_cleanup(4)] by (auto simp: desk_inv_defs)
next
  case (step_finish e)
  then show ?thesis using assms(1) finish_ok[of e "ds_conn s" "ds_core s"] by (simp add: desk_inv_def)
next
  case step_close
  then show ?thesis using assms(1) by (simp add: desk_inv_defs)
next
  case (step_ready g)
  then show ?thesis using assms(1) ready_ok[of "ds_run s" g "ds_core s"] by (auto simp: desk_inv_def conn_generation_def)
next
  case (step_give_up g ctx c waits why)
  have inv: "phase_ok (ds_run s) (ds_conn s) (ds_core s)" "dk_app (ds_core s) \<noteq> None" "g = 1" "set (ds_waiting s) \<subseteq> {True}"
    using assms(1) step_give_up(2) by (auto simp: desk_inv_def conn_generation_def)
  have "phase_ok (ds_run s) (ConnWait g why waits) c \<and> dk_app c \<noteq> None"
    using stop_begin_ok[OF inv(1,2), of g why waits ctx] step_give_up(2,3) by simp
  then show ?thesis using inv step_give_up(1) by (simp add: desk_inv_def conn_generation_def)
next
  case (step_gave_up g why waits timeout)
  then show ?thesis
    using assms(1) connect_end_ok[of "ds_run s" "ds_conn s" "ds_core s"] by (auto simp: desk_inv_def conn_generation_def)
next
  case (step_disconnect ctx c w1 r)
  then show ?thesis using assms(1) disconnect_begin_ok[OF step_disconnect(2), of "ds_run s" "ds_conn s"] by (simp add: desk_inv_def)
next
  case (step_disconnect_wait ctx c w1 waits)
  then show ?thesis using assms(1) disconnect_begin_ok[OF step_disconnect_wait(2), of "ds_run s" "ds_conn s"] by (simp add: desk_inv_def)
next
  case (step_disconnect_timeout xs waits ys)
  then show ?thesis using assms(1) by (auto simp: desk_inv_def)
next
  case (step_disconnect_end xs waits ys)
  then have "ds_run s = RunClosed" using assms(1) by (auto simp: desk_inv_def)
  then show ?thesis
    using assms(1) step_disconnect_end disconnect_end_ok[of "ds_conn s" "ds_core s"] by (auto simp: desk_inv_def)
qed

interpretation desks: invariant_system "\<lambda>s. \<exists>w. s = new_desk w" "desk_step derive run" desk_inv for derive run
proof unfold_locales
  show "\<exists>w. s = new_desk w \<Longrightarrow> desk_inv s" for s :: "('a, 'b, 'c) desk_sys"
    by (elim exE) (simp add: new_desk_def newNativeRuntime_desktop_def desk_inv_defs)
qed (rule desk_step_inv)


lemma desk_reach_inv: "(desk_step derive run)\<^sup>*\<^sup>* (new_desk w) s \<Longrightarrow> desk_inv s"
  by (rule desks.reach_inv[of "new_desk w"]) auto

section \<open>Properties\<close>

text \<open>
  C12. The desktop adapter tells the truth about native resources, in every interleaving of \<^verbatim>\<open>Connect\<close>,
  any number of \<^verbatim>\<open>Disconnect\<close> calls and the run goroutine, whatever fails or times out: it is connected only
  while the run has not ended; it is idle, and \<^verbatim>\<open>Disconnect\<close> returns nil, only when the run never started
  or is over and every release that the run registered has succeeded; otherwise the releases are kept.
\<close>

theorem desktop_disconnect_truthful:
  assumes "(desk_step derive run)\<^sup>*\<^sup>* (new_desk w0) s"
  shows "(dk_state (ds_core s) = stateConnected \<longrightarrow> dk_done (ds_core s) \<and> \<not> run_over (ds_run s)) \<and>
    (dk_state (ds_core s) = stateIdle \<longrightarrow> app_clean (ds_core s) \<and> (ds_run s = RunNone \<or> run_over (ds_run s))) \<and>
    (desk_Disconnect_begin run ctx (ds_core s) (ds_world s) = (c1, w1, DiscReturned None) \<longrightarrow>
       app_clean c1 \<and> dk_state c1 = stateIdle \<and> (ds_run s = RunNone \<or> run_over (ds_run s))) \<and>
    (ds_run s = RunClosed \<and> desk_Disconnect_end (ds_core s) = (c2, None) \<longrightarrow> app_clean c2 \<and> dk_state c2 = stateIdle)"
proof -
  have inv: "desk_inv s" by (rule desk_reach_inv[OF assms])
  have idle: "phase_ok p q c \<Longrightarrow> dk_state c = stateIdle \<Longrightarrow> app_clean c \<and> (p = RunNone \<or> run_over p)" for p q c
    by (cases p) (simp_all add: phase_ok_def run_over_def)
  have "dk_state (ds_core s) = stateConnected \<longrightarrow> dk_done (ds_core s) \<and> \<not> run_over (ds_run s)"
    using inv by (cases "ds_run s") (simp_all add: desk_inv_def phase_ok_def run_over_def)
  moreover have "app_clean c1 \<and> dk_state c1 = stateIdle \<and> (ds_run s = RunNone \<or> run_over (ds_run s))"
    if "desk_Disconnect_begin run ctx (ds_core s) (ds_world s) = (c1, w1, DiscReturned None)"
    using disconnect_begin_ok[OF that, of "ds_run s" "ds_conn s"] inv idle[of "ds_run s" "ds_conn s" c1] by (simp add: desk_inv_def)
  moreover have "app_clean c2 \<and> dk_state c2 = stateIdle"
    if "ds_run s = RunClosed" "desk_Disconnect_end (ds_core s) = (c2, None)"
    using disconnect_end_ok[of "ds_conn s" "ds_core s"] that inv idle[of RunClosed "ds_conn s" c2] by (simp add: desk_inv_def)
  ultimately show ?thesis using inv idle[of "ds_run s" "ds_conn s" "ds_core s"] by (simp add: desk_inv_def)
qed

text \<open>
  C39. Cleanup of a desktop network can always be completed, except in one race: once the run is over and the
  adapter is not in \<^verbatim>\<open>STOPPING\<close>, one \<^verbatim>\<open>Disconnect\<close> whose releases succeed returns nil and leaves the adapter idle.
\<close>

theorem desktop_disconnect_settles:
  assumes "(desk_step derive run)\<^sup>*\<^sup>* (new_desk w0) s" "run_over (ds_run s)" "dk_state (ds_core s) \<noteq> stateStopping"
    and a: "dk_app (ds_core s) = Some a" and ok: "runs_ok (run ctx) (app_cleanup a) (ds_world s) w1"
  shows "\<exists>c1 w1. desk_Disconnect_begin run ctx (ds_core s) (ds_world s) = (c1, w1, DiscReturned None) \<and>
    dk_state c1 = stateIdle \<and> app_clean c1"
proof -
  have inv: "desk_inv s" by (rule desk_reach_inv[OF assms(1)])
  show ?thesis
  proof (cases "dk_state (ds_core s) = stateIdle")
    case True
    then show ?thesis
      using inv assms(2) by (cases "ds_run s") (simp_all add: desk_Disconnect_begin_def desk_inv_def phase_ok_def run_over_def)
  next
    case False
    have "\<not> dk_done (ds_core s) \<and> dk_state (ds_core s) \<notin> {statePreparing, stateConnected}"
      using inv assms(2) by (cases "ds_run s") (simp_all add: desk_inv_def phase_ok_def run_over_def)
    then have st: "dk_state (ds_core s) = stateFailed" "\<not> dk_done (ds_core s)"
      using False assms(3) by (cases "dk_state (ds_core s)"; simp)+
    obtain a1 w2 where close: "app_close (run ctx) a (ds_world s) = (a1, w2, None)"
      using native_app.exec_None_iff[of "run ctx" a "ds_world s"] ok by blast
    then show ?thesis
      using st a app_close_settles[OF close] by (simp add: desk_Disconnect_begin_def app_clean_def)
  qed
qed

text \<open>
  The race. When the acquisition is cancelled and the run ends before \<^verbatim>\<open>Connect\<close> reaches \<^verbatim>\<open>stopAndWait\<close>, the
  state is overwritten by \<^verbatim>\<open>STOPPING\<close> although nothing is left to stop and nothing will leave that state:
  every later \<^verbatim>\<open>Disconnect\<close> is refused, for good, although the application has released everything.
\<close>

definition stuck :: "('c, 'x, 'w) desk_sys \<Rightarrow> bool" where
  "stuck s \<longleftrightarrow> ds_conn s = ConnOver \<and> ds_waiting s = [] \<and> ds_run s = RunClosed \<and> dk_state (ds_core s) = stateStopping"

lemma stuck_step: "stuck s \<Longrightarrow> desk_step derive run s s' \<Longrightarrow> stuck s'"
  by (erule desk_step.cases) (auto simp: stuck_def desk_Disconnect_begin_def)

lemma stuck_steps: "(desk_step derive run)\<^sup>*\<^sup>* s s' \<Longrightarrow> stuck s \<Longrightarrow> stuck s'"
  by (induction rule: rtranclp_induct) (auto intro: stuck_step)

definition race_desk :: "run_phase \<Rightarrow> connect_phase \<Rightarrow> lifecycle_state \<Rightarrow> bool \<Rightarrow> unit option \<Rightarrow> (unit, unit, unit) desk_sys" where
  "race_desk p q st running ctx =
     \<lparr>ds_core = \<lparr>dk_app = Some \<lparr>app_cleanup = [], app_cleanupErr = None, app_cleanupContext = ctx\<rparr>,
        dk_cancel = running, dk_done = running, dk_runErr = None, dk_state = st, dk_generation = 1\<rparr>,
      ds_world = (), ds_run = p, ds_conn = q, ds_waiting = []\<rparr>"

lemma desk_stepI: "desk_step derive run s t \<Longrightarrow> t = s' \<Longrightarrow> desk_step derive run s s'"
  by simp

lemma race_run:
  "(desk_step id (\<lambda>_ _ w. (w, None)))\<^sup>*\<^sup>* (new_desk ()) (race_desk RunClosed ConnOver stateStopping False (Some ()))"
proof -
  let ?step = "desk_step id (\<lambda>(_ :: unit) (_ :: unit) w. (w :: unit, None))"
  let ?app = "\<lparr>app_cleanup = [], app_cleanupErr = None, app_cleanupContext = None\<rparr> :: (unit, unit) app"
  let ?why = "Cancelled (Sentinel Canceled)"
  define s1 where "s1 = race_desk RunGo (ConnSelect 1) statePreparing True None"
  define s2 where "s2 = race_desk (RunCleaned None) (ConnSelect 1) statePreparing True None"
  define s3 where "s3 = race_desk RunFinished (ConnSelect 1) stateFailed False None"
  define s4 where "s4 = race_desk RunClosed (ConnSelect 1) stateFailed False None"
  define s5 where "s5 = race_desk RunClosed (ConnWait 1 ?why False) stateStopping False (Some ())"
  note defs = s1_def s2_def s3_def s4_def s5_def race_desk_def
  have "?step (new_desk ()) s1"
    by (rule desk_stepI[OF step_connect[of _ "fst (desk_Connect_begin newNativeRuntime_desktop)" 1]])
       (simp_all add: defs new_desk_def newNativeRuntime_desktop_def desk_Connect_begin_def)
  moreover have "?step s1 s2"
    by (rule desk_stepI[OF step_cleanup[of s1 ?app id _ "()" None ?app "()" None None]])
       (simp_all add: defs app_finishCleanup_def app_close_Nil)
  moreover have "?step s2 s3"
    by (rule desk_stepI[OF step_finish[of s2 None]]) (simp_all add: defs finishRun_def)
  moreover have "?step s3 s4"
    by (rule desk_stepI[OF step_close[of s3]]) (simp_all add: defs)
  moreover have "?step s4 s5"
    by (rule desk_stepI[OF step_give_up[of s4 1 "()" "fst (stopAndWait_begin () (ds_core s4))" False _ _ ?why]])
       (simp_all add: defs stopAndWait_begin_def app_SetCleanupContext_def)
  moreover have "?step s5 (race_desk RunClosed ConnOver stateStopping False (Some ()))"
    by (rule desk_stepI[OF step_gave_up[of s5 1 ?why False None]]) (simp_all add: defs)
  ultimately show ?thesis by (meson converse_rtranclp_into_rtranclp rtranclp.rtrancl_refl)
qed

theorem cancelled_connect_can_wedge:
  "\<exists>s :: (unit, unit, unit) desk_sys. (desk_step id (\<lambda>_ _ w. (w, None)))\<^sup>*\<^sup>* (new_desk ()) s \<and> app_clean (ds_core s) \<and>
     (\<forall>s' ctx. (desk_step id (\<lambda>_ _ w. (w, None)))\<^sup>*\<^sup>* s s' \<longrightarrow>
        desk_Disconnect_begin (\<lambda>_ _ w. (w, None)) ctx (ds_core s') (ds_world s')
          = (ds_core s', ds_world s', DiscReturned (Some (lifecycleBusyError stateStopping))))"
proof (intro exI conjI allI impI)
  let ?s = "race_desk RunClosed ConnOver stateStopping False (Some ())"
  show "(desk_step id (\<lambda>_ _ w. (w, None)))\<^sup>*\<^sup>* (new_desk ()) ?s" by (rule race_run)
  show "app_clean (ds_core ?s)" by (simp add: race_desk_def app_clean_def)
  fix s' :: "(unit, unit, unit) desk_sys" and ctx :: unit
  assume "(desk_step id (\<lambda>_ _ w. (w, None)))\<^sup>*\<^sup>* ?s s'"
  then have "stuck s'" by (rule stuck_steps) (simp add: stuck_def race_desk_def)
  then show "desk_Disconnect_begin (\<lambda>_ _ w. (w, None)) ctx (ds_core s') (ds_world s')
      = (ds_core s', ds_world s', DiscReturned (Some (lifecycleBusyError stateStopping)))"
    by (simp add: stuck_def desk_Disconnect_begin_def)
qed


text \<open>A run that registers one release, which fails at first.\<close>

definition ends_desk :: "(nat, unit, nat) desk_sys" where
  "ends_desk = \<lparr>ds_core = \<lparr>dk_app = Some \<lparr>app_cleanup = [7], app_cleanupErr = Some (Plain ''busy''), app_cleanupContext = None\<rparr>,
        dk_cancel = False, dk_done = False, dk_runErr = Some (Joined [CleanupFailure (Plain ''busy'')]), dk_state = stateFailed, dk_generation = 1\<rparr>,
      ds_world = 1, ds_run = RunFinished, ds_conn = ConnSelect 1, ds_waiting = []\<rparr>"

definition flaky_release :: "unit \<Rightarrow> (nat, nat) runner" where
  "flaky_release _ c w = (w + 1, if w = 0 then Some (Plain ''busy'') else None)"

lemma ends_desk_reach: "(desk_step id flaky_release)\<^sup>*\<^sup>* (new_desk 0) ends_desk"
proof -
  let ?app = "\<lambda>l e. \<lparr>app_cleanup = l, app_cleanupErr = e, app_cleanupContext = None\<rparr> :: (nat, unit) app"
  let ?core = "\<lambda>l. \<lparr>dk_app = Some (?app l None), dk_cancel = True, dk_done = True, dk_runErr = None, dk_state = statePreparing, dk_generation = 1\<rparr>"
  let ?err = "Some (Joined [CleanupFailure (Plain ''busy'')])"
  define s1 :: "(nat, unit, nat) desk_sys" where "s1 = \<lparr>ds_core = ?core [], ds_world = 0, ds_run = RunGo, ds_conn = ConnSelect 1, ds_waiting = []\<rparr>"
  define s2 :: "(nat, unit, nat) desk_sys" where "s2 = s1\<lparr>ds_core := ?core [7]\<rparr>"
  define s3 :: "(nat, unit, nat) desk_sys" where
    "s3 = s2\<lparr>ds_core := (?core [7])\<lparr>dk_app := Some (?app [7] (Some (Plain ''busy'')))\<rparr>, ds_world := 1, ds_run := RunCleaned ?err\<rparr>"
  note defs = s1_def s2_def s3_def
  have "desk_step id flaky_release (new_desk 0) s1"
    by (rule desk_stepI[OF step_connect[of _ "?core []" 1]])
       (simp_all add: defs new_desk_def newNativeRuntime_desktop_def desk_Connect_begin_def)
  moreover have "desk_step id flaky_release s1 s2"
    by (rule desk_stepI[OF step_work[of _ "?app [] None" _ _ "[7]"]]) (simp_all add: defs app_setCleanup_def)
  moreover have "desk_step id flaky_release s2 s3"
    by (rule desk_stepI[OF step_cleanup[of _ "?app [7] None" id flaky_release "()" None "?app [7] (Some (Plain ''busy''))" 1 ?err ?err]])
       (simp_all add: defs app_finishCleanup_def app_close_Cons flaky_release_def errors_join_def)
  moreover have "desk_step id flaky_release s3 ends_desk"
    by (rule desk_stepI[OF step_finish[of _ ?err]]) (simp_all add: defs finishRun_def ends_desk_def)
  ultimately show ?thesis by (meson converse_rtranclp_into_rtranclp rtranclp.rtrancl_refl)
qed

theorem desktop_disconnect_truthful_witness:
  "\<exists>c1 w1. desk_Disconnect_begin flaky_release () (ds_core ends_desk) (ds_world ends_desk) = (c1, w1, DiscReturned None) \<and>
     \<not> app_clean (ds_core ends_desk) \<and> app_clean c1 \<and> dk_state c1 = stateIdle"
proof -
  obtain c1 w1 where "desk_Disconnect_begin flaky_release () (ds_core ends_desk) (ds_world ends_desk) = (c1, w1, DiscReturned None)"
    by (simp add: desk_Disconnect_begin_def ends_desk_def app_close_Cons app_close_Nil flaky_release_def)
  then show ?thesis
    using desktop_disconnect_truthful[OF ends_desk_reach, of "()" c1 w1] by (auto simp: app_clean_def ends_desk_def)
qed

theorem desktop_disconnect_settles_witness:
  "\<exists>c1 w1. desk_Disconnect_begin flaky_release () (ds_core ends_desk) (ds_world ends_desk) = (c1, w1, DiscReturned None) \<and>
     dk_state c1 = stateIdle \<and> app_clean c1"
  by (rule desktop_disconnect_settles[OF ends_desk_reach, of "\<lparr>app_cleanup = [7], app_cleanupErr = Some (Plain ''busy''), app_cleanupContext = None\<rparr>" _ 2])
     (simp_all add: ends_desk_def run_over_def flaky_release_def)

end
