(* ===== verification/DNS_Cache.thy ===== *)
theory DNS_Cache
  imports Bypass_Policy
begin

text \<open>
  Endpoint resolution on the physical network (\<^verbatim>\<open>core/dnscache/cache.go\<close> and \<^verbatim>\<open>resolver_wire.go\<close>): the
  resolver cache with its revision counter, and the captured DNS client that races the servers of the
  physical network and follows aliases.

  The resolver, the resolver source, the DNS exchange of \<^verbatim>\<open>miekg/dns\<close> and \<^verbatim>\<open>idna\<close> are parameters. A lookup
  runs without the cache's lock, so what other goroutines do to the cache meanwhile is an argument of
  \<open>ResolveAddresses\<close>. Log calls are left out.
\<close>

section \<open>Hosts\<close>

text \<open>\<^verbatim>\<open>netip.ParseAddr\<close> with its zone.\<close>

definition parse_addr_zone :: "string \<Rightarrow> ipaddr option" where
  "parse_addr_zone s = (case find (\<lambda>c. c \<in> set ''.:%'') s of
       None \<Rightarrow> None
     | Some c \<Rightarrow>
         if c = CHR ''.'' then map_option (\<lambda>a. (a, [])) (parse_ipv4_fields s 0 0 [])
         else if c = CHR '':'' then (case index_char s (CHR ''%'') of
             None \<Rightarrow> map_option (\<lambda>a. (a, [])) (parse_ipv6 s)
           | Some i \<Rightarrow> if drop (i + 1) s = [] then None
                       else map_option (\<lambda>a. (a, drop (i + 1) s)) (parse_ipv6 (take i s)))
         else None)"

definition NormalizeHost :: "string \<Rightarrow> string" where
  "NormalizeHost h =
     (let host = trim_prefix (trim_suffix (trim_space h) '']'') ''['' in
      if parse_addr_zone host \<noteq> None then host else trim_suffix (to_lower host) ''.'')"

section \<open>The cache\<close>

type_synonym 'w lookup = "string \<Rightarrow> 'w \<Rightarrow> 'w \<times> ipaddr list \<times> go_error option"

type_synonym 'w source = "'w \<Rightarrow> 'w \<times> string \<times> 'w lookup option \<times> go_error option"

record 'w cache =
  dc_resolver :: "'w lookup option"
  dc_identity :: string
  dc_revision :: u64
  dc_source :: "'w source option"

definition new_cache :: "'w cache" where
  "new_cache = \<lparr>dc_resolver = None, dc_identity = [], dc_revision = 1, dc_source = None\<rparr>"

definition SetResolverSource :: "'w source option \<Rightarrow> 'w cache \<Rightarrow> 'w cache" where
  "SetResolverSource src c = c\<lparr>dc_source := src, dc_resolver := None, dc_revision := dc_revision c + 1\<rparr>"

definition SetResolver :: "string \<Rightarrow> 'w lookup option \<Rightarrow> 'w cache \<Rightarrow> 'w cache" where
  "SetResolver identity resolver c =
     (if dc_identity c = identity \<and> dc_resolver c \<noteq> None then c
      else c\<lparr>dc_identity := identity, dc_resolver := resolver, dc_revision := dc_revision c + 1\<rparr>)"

text \<open>
  \<open>during\<close> is the effect of the other goroutines on the cache while the lookup runs; \<open>ctx1\<close> and \<open>ctx2\<close> are
  the context's error before and after it.
\<close>

definition lookup_with ::
  "string \<Rightarrow> ('w cache \<Rightarrow> 'w cache) \<Rightarrow> go_error option \<Rightarrow> 'w cache \<Rightarrow> 'w \<Rightarrow> 'w cache \<times> 'w \<times> (go_error + ipaddr list)" where
  "lookup_with host during ctx2 c w = (case dc_resolver c of
       None \<Rightarrow> (c, w, Inl (Plain ''underlying network resolver is unavailable''))
     | Some resolve \<Rightarrow> (case resolve host w of (w1, addresses, err) \<Rightarrow>
         (let c1 = during c;
              err1 = (if dc_revision c1 \<noteq> dc_revision c
                      then errors_join [err, Some (Plain ''underlying network changed during resolution'')] else err);
              err2 = (if ctx2 \<noteq> None then errors_join [err1, ctx2] else err1);
              err3 = (if err2 = None \<and> addresses = [] then Some (Plain ''underlying resolver returned no addresses'') else err2)
          in (c1, w1, case err3 of
                Some e \<Rightarrow> Inl (Wrap (''resolve endpoint '' @ host @ '': '') e)
              | None \<Rightarrow> Inr addresses))))"

definition ResolveAddresses ::
  "go_error option \<Rightarrow> string \<Rightarrow> ('w cache \<Rightarrow> 'w cache) \<Rightarrow> go_error option \<Rightarrow> 'w cache option \<Rightarrow> 'w
     \<Rightarrow> 'w cache option \<times> 'w \<times> (go_error + ipaddr list)" where
  "ResolveAddresses ctx1 h during ctx2 co w = (case co of
       None \<Rightarrow> (None, w, Inl (Plain ''underlying resolver is required''))
     | Some c \<Rightarrow> (case ctx1 of
         Some err \<Rightarrow> (Some c, w, Inl err)
       | None \<Rightarrow>
           (let host = NormalizeHost h in
            if host = [] then (Some c, w, Inl (Plain ''empty host''))
            else (case parse_addr_zone host of
                Some a \<Rightarrow> (Some c, w, Inr [a])
              | None \<Rightarrow> (case dc_source c of
                  None \<Rightarrow> (case lookup_with host during ctx2 c w of (c1, w1, res) \<Rightarrow> (Some c1, w1, res))
                | Some src \<Rightarrow> (case src w of
                    (w1, identity, resolver, Some err) \<Rightarrow> (Some c, w1, Inl (Wrap ''capture underlying resolver: '' err))
                  | (w1, identity, resolver, None) \<Rightarrow>
                      (case lookup_with host during ctx2 (SetResolver identity resolver c) w1 of
                         (c1, w2, res) \<Rightarrow> (Some c1, w2, res))))))))"

section \<open>The captured DNS client\<close>

text \<open>\<^verbatim>\<open>net.SplitHostPort\<close>, the host and the port; the port starts after the last colon.\<close>

definition last_index_char :: "string \<Rightarrow> char \<Rightarrow> nat option" where
  "last_index_char s c = map_option (\<lambda>i. length s - 1 - i) (index_char (rev s) c)"

definition addr_error :: "string \<Rightarrow> string \<Rightarrow> go_error" where
  "addr_error a why = Plain ((if a = [] then [] else ''address '' @ a @ '': '') @ why)"

definition split_tail :: "string \<Rightarrow> string \<Rightarrow> nat \<Rightarrow> nat \<Rightarrow> nat \<Rightarrow> go_error + string \<times> string" where
  "split_tail s host i j k =
     (if contains_char (drop j s) (CHR ''['') then Inl (addr_error s ''unexpected '[' in address'')
      else if contains_char (drop k s) (CHR '']'') then Inl (addr_error s ''unexpected ']' in address'')
      else Inr (host, drop (i + 1) s))"

definition SplitHostPort :: "string \<Rightarrow> go_error + string \<times> string" where
  "SplitHostPort s = (case last_index_char s (CHR '':'') of
       None \<Rightarrow> Inl (addr_error s ''missing port in address'')
     | Some i \<Rightarrow>
         if hd s = CHR ''['' then (case index_char s (CHR '']'') of
             None \<Rightarrow> Inl (addr_error s ''missing ']' in address'')
           | Some end \<Rightarrow>
               if end + 1 = length s then Inl (addr_error s ''missing port in address'')
               else if end + 1 = i then split_tail s (drop 1 (take end s)) i 1 (end + 1)
               else if s ! (end + 1) = CHR '':'' then Inl (addr_error s ''too many colons in address'')
               else Inl (addr_error s ''missing port in address''))
         else if contains_char (take i s) (CHR '':'') then Inl (addr_error s ''too many colons in address'')
         else split_tail s (take i s) i 0 0)"

datatype rdata = RecA ip | RecAAAA ip | RecCNAME string | RecOther

record dns_msg =
  dm_Truncated :: bool
  dm_Rcode :: nat
  dm_Answer :: "(string \<times> rdata) list"

datatype query_type = TypeA | TypeAAAA

fun type_digits :: "query_type \<Rightarrow> string" where
  "type_digits TypeA = ''1''"
| "type_digits TypeAAAA = ''28''"

text \<open>The context, the dialer, the exchange on a connection and its close, over the state \<open>'w\<close> of the outside.\<close>

record 'w dns_net =
  dn_err :: "'w \<Rightarrow> go_error option"
  dn_dial :: "string \<Rightarrow> string \<Rightarrow> 'w \<Rightarrow> 'w \<times> go_error option"
  dn_exchange :: "string \<Rightarrow> query_type \<Rightarrow> 'w \<Rightarrow> 'w \<times> (go_error + dns_msg)"
  dn_close :: "'w \<Rightarrow> 'w \<times> go_error option"

text \<open>The deferred close: its error joins the result, unless the connection was closed already.\<close>

definition close_joined :: "'w dns_net \<Rightarrow> 'w \<Rightarrow> go_error + dns_msg \<Rightarrow> 'w \<times> (go_error + dns_msg)" where
  "close_joined net w res = (case dn_close net w of
       (w1, Some e) \<Rightarrow> if errors_is e NetErrClosed then (w1, res)
                       else (w1, Inl (Joined (case res of Inl err \<Rightarrow> [err, e] | Inr _ \<Rightarrow> [e])))
     | (w1, None) \<Rightarrow> (w1, res))"

definition exchangeCapturedDNS ::
  "'w dns_net \<Rightarrow> string \<Rightarrow> query_type \<Rightarrow> string \<Rightarrow> string \<Rightarrow> 'w \<Rightarrow> 'w \<times> (go_error + dns_msg)" where
  "exchangeCapturedDNS net name kind server protocol w = (case SplitHostPort server of
       Inl err \<Rightarrow> (w, Inl err)
     | Inr (host, _) \<Rightarrow> (case parse_addr_zone host of
         None \<Rightarrow> (w, Inl (Plain (''captured DNS server must be a numeric address: '' @ server)))
       | Some (a, _) \<Rightarrow>
           (case dn_dial net (protocol @ (if To4 a \<noteq> None then ''4'' else ''6'')) server w of
              (w1, Some err) \<Rightarrow> (w1, Inl err)
            | (w1, None) \<Rightarrow> (case dn_exchange net name kind w1 of (w2, res) \<Rightarrow>
                close_joined net w2
                  (case dn_err net w2 of
                     None \<Rightarrow> res
                   | Some c \<Rightarrow> Inl (Joined (case res of Inl err \<Rightarrow> [err, c] | Inr _ \<Rightarrow> [c])))))))"

fun answer_records ::
  "(string \<Rightarrow> string) \<Rightarrow> string \<Rightarrow> query_type \<Rightarrow> (string \<times> rdata) list \<Rightarrow> ipaddr list \<Rightarrow> string \<Rightarrow> ipaddr list \<times> string" where
  "answer_records fqdn name kind [] addresses cname = (addresses, cname)"
| "answer_records fqdn name kind ((owner, record) # rest) addresses cname =
     (if \<not> equal_fold owner name then answer_records fqdn name kind rest addresses cname
      else (case record of
          RecA a \<Rightarrow> answer_records fqdn name kind rest (if kind = TypeA then addresses @ [(a, [])] else addresses) cname
        | RecAAAA a \<Rightarrow> answer_records fqdn name kind rest (if kind = TypeAAAA then addresses @ [(a, [])] else addresses) cname
        | RecCNAME target \<Rightarrow> answer_records fqdn name kind rest addresses (to_lower (fqdn target))
        | RecOther \<Rightarrow> answer_records fqdn name kind rest addresses cname))"

definition capturedDNSAnswerRecords ::
  "(string \<Rightarrow> string) \<Rightarrow> dns_msg \<Rightarrow> string \<Rightarrow> query_type \<Rightarrow> ipaddr list \<times> string" where
  "capturedDNSAnswerRecords fqdn response name kind = answer_records fqdn name kind (dm_Answer response) [] []"

text \<open>An answered cname is lower case and is the target of a record of the response.\<close>

definition answer_aliases :: "(string \<Rightarrow> string) \<Rightarrow> dns_msg \<Rightarrow> string \<Rightarrow> string set" where
  "answer_aliases fqdn response name =
     {to_lower (fqdn target) | owner target. (owner, RecCNAME target) \<in> set (dm_Answer response) \<and> equal_fold owner name}"

definition answer_addresses :: "dns_msg \<Rightarrow> query_type \<Rightarrow> string \<Rightarrow> ipaddr set" where
  "answer_addresses response kind name =
     {(a, []) | a owner. equal_fold owner name \<and>
        (owner, case kind of TypeA \<Rightarrow> RecA a | TypeAAAA \<Rightarrow> RecAAAA a) \<in> set (dm_Answer response)}"

lemma answer_records_alias:
  "answer_records fqdn name kind rs addresses cname = (as, al) \<Longrightarrow>
   al = cname \<or> (\<exists>owner target. (owner, RecCNAME target) \<in> set rs \<and> equal_fold owner name \<and> al = to_lower (fqdn target))"
  by (induction fqdn name kind rs addresses cname rule: answer_records.induct)
     (auto split: if_splits rdata.splits)

lemma answer_records_addresses:
  "answer_records fqdn name kind rs addresses cname = (as, al) \<Longrightarrow>
   set as = set addresses \<union> {(a, []) | a owner. equal_fold owner name \<and>
     (owner, case kind of TypeA \<Rightarrow> RecA a | TypeAAAA \<Rightarrow> RecAAAA a) \<in> set rs}"
  by (induction fqdn name kind rs addresses cname rule: answer_records.induct)
     (auto split: if_splits rdata.splits query_type.splits)

lemma captured_records:
  assumes "capturedDNSAnswerRecords fqdn response name kind = (addresses, cname)"
  shows "set addresses = answer_addresses response kind name"
    and "cname = [] \<or> cname \<in> answer_aliases fqdn response name"
  using answer_records_addresses[of fqdn name kind "dm_Answer response" "[]" "[]" addresses cname]
    answer_records_alias[of fqdn name kind "dm_Answer response" "[]" "[]" addresses cname] assms
  by (auto simp: capturedDNSAnswerRecords_def answer_addresses_def answer_aliases_def)

lemma answer_aliases_lower: "cname \<in> answer_aliases fqdn response name \<Longrightarrow> to_lower cname = cname"
  by (auto simp: answer_aliases_def)

text \<open>
  The inner loop of \<^verbatim>\<open>queryCapturedDNSServer\<close>, which follows aliases inside one response: it returns, or
  goes on with the next name and the names seen so far. Each turn adds a name of the response to \<open>seen\<close>.
\<close>

datatype follow = Answered "ipaddr list" | AliasLoop string | AskFor string "string set"

definition present_in :: "dns_msg \<Rightarrow> string \<Rightarrow> bool" where
  "present_in response name = list_ex (\<lambda>(owner, record). equal_fold owner name) (dm_Answer response)"

definition answer_names :: "dns_msg \<Rightarrow> string set" where
  "answer_names response = (to_lower \<circ> fst) ` set (dm_Answer response)"

lemma present_in_names: "present_in response name \<Longrightarrow> to_lower name \<in> answer_names response"
  by (force simp: present_in_def answer_names_def list_ex_iff equal_fold_def)

function follow_aliases :: "(string \<Rightarrow> string) \<Rightarrow> dns_msg \<Rightarrow> query_type \<Rightarrow> string set \<Rightarrow> string \<Rightarrow> follow" where
  "follow_aliases fqdn response kind seen name =
     (case capturedDNSAnswerRecords fqdn response name kind of (addresses, cname) \<Rightarrow>
        if addresses \<noteq> [] \<or> cname = [] then Answered addresses
        else if cname \<in> seen then AliasLoop cname
        else if \<not> present_in response cname then AskFor cname seen
        else follow_aliases fqdn response kind (insert cname seen) cname)"
  by pat_completeness auto
termination
proof (relation "measure (\<lambda>(fqdn, response, kind, seen, name). card (answer_names response - seen))", goal_cases)
  case 1
  then show ?case by simp
next
  case (2 fqdn response kind seen name addresses cname)
  then have "cname \<in> answer_aliases fqdn response name"
    using captured_records(2)[of fqdn response name kind addresses cname] by auto
  then have "cname \<in> answer_names response - seen"
    using 2 present_in_names answer_aliases_lower by fastforce
  then have "answer_names response - insert cname seen \<subset> answer_names response - seen" by auto
  then show ?case by (simp add: answer_names_def psubset_card_mono)
qed

declare follow_aliases.simps [simp del]

text \<open>One question: over UDP, and again over TCP when the response was truncated.\<close>

definition ask_server :: "'w dns_net \<Rightarrow> string \<Rightarrow> query_type \<Rightarrow> string \<Rightarrow> 'w \<Rightarrow> 'w \<times> (go_error + dns_msg)" where
  "ask_server net name kind server w = (case exchangeCapturedDNS net name kind server ''udp'' w of
       (w1, Inl err) \<Rightarrow> (w1, Inl err)
     | (w1, Inr response) \<Rightarrow>
         if dm_Truncated response then exchangeCapturedDNS net name kind server ''tcp'' w1 else (w1, Inr response))"

text \<open>The loop over questions. A server can answer fresh aliases for ever: not returning is \<^const>\<open>None\<close>.\<close>

partial_function (option) query_loop ::
  "'w dns_net \<Rightarrow> (string \<Rightarrow> string) \<Rightarrow> string \<Rightarrow> query_type \<Rightarrow> string \<Rightarrow> string set \<Rightarrow> string \<Rightarrow> 'w
     \<Rightarrow> ('w \<times> (go_error + ipaddr list)) option" where
  "query_loop net fqdn host kind server seen name w =
     (if name \<in> seen then Some (w, Inl (Plain (''DNS alias loop at '' @ name)))
      else (case ask_server net name kind server w of
          (w1, Inl err) \<Rightarrow> Some (w1, Inl err)
        | (w1, Inr response) \<Rightarrow>
            if dm_Rcode response = 3
            then Some (w1, Inl (DNSError (''lookup '' @ host @ '' on '' @ server @ '': no such host'') True))
            else if dm_Rcode response \<noteq> 0
            then Some (w1, Inl (Plain (''DNS response code '' @ nat_digits (dm_Rcode response))))
            else (case follow_aliases fqdn response kind (insert name seen) name of
                Answered addresses \<Rightarrow> Some (w1, Inr addresses)
              | AliasLoop cname \<Rightarrow> Some (w1, Inl (Plain (''DNS alias loop at '' @ cname)))
              | AskFor cname seen1 \<Rightarrow> query_loop net fqdn host kind server seen1 cname w1)))"

definition queryCapturedDNSServer ::
  "'w dns_net \<Rightarrow> (string \<Rightarrow> string) \<Rightarrow> string \<Rightarrow> query_type \<Rightarrow> string \<Rightarrow> 'w \<Rightarrow> ('w \<times> (go_error + ipaddr list)) option" where
  "queryCapturedDNSServer net fqdn host kind server w = query_loop net fqdn host kind server {} (to_lower (fqdn host)) w"

text \<open>
  The race of one record family, over the replies in the order they arrive: the first decisive one, an
  answer or a name that does not exist, ends it.
\<close>

fun as_dns_error :: "go_error \<Rightarrow> (string \<times> bool) option" where
  "as_dns_error (Wrap p e) = as_dns_error e"
| "as_dns_error (Joined es) = first_some (\<lambda>r. r) (map as_dns_error es)"
| "as_dns_error (DomainError c m cause) = (case cause of None \<Rightarrow> None | Some e \<Rightarrow> as_dns_error e)"
| "as_dns_error (CleanupFailure e) = as_dns_error e"
| "as_dns_error (DNSError m nf) = Some (m, nf)"
| "as_dns_error _ = None"

definition decisive :: "go_error option \<Rightarrow> bool" where
  "decisive err = (case err of None \<Rightarrow> True
     | Some e \<Rightarrow> (case as_dns_error e of Some (_, nf) \<Rightarrow> nf | None \<Rightarrow> False))"

fun family_race ::
  "(ipaddr list \<times> go_error option) list \<Rightarrow> go_error option list \<Rightarrow> ipaddr list \<times> go_error option" where
  "family_race [] failures = ([], errors_join failures)"
| "family_race ((addresses, err) # rest) failures =
     (if decisive err then (addresses, err) else family_race rest (failures @ [err]))"

definition wire_reply :: "string \<Rightarrow> query_type \<Rightarrow> string \<Rightarrow> go_error + ipaddr list \<Rightarrow> ipaddr list \<times> go_error option" where
  "wire_reply host kind server res = (case res of
       Inr addresses \<Rightarrow> (addresses, None)
     | Inl e \<Rightarrow> ([], Some (Wrap (''physical DNS '' @ server @ '' type='' @ type_digits kind @ '' host='' @ host @ '': '') e)))"

text \<open>
  \<open>answers kind\<close> is what the queries to the servers return, in the order their replies arrive; \<open>order\<close> is
  the order in which the two families finish, and \<open>ctx1\<close> and \<open>ctx2\<close> the context's error before and after.
\<close>

definition resolveCapturedDNSServers ::
  "go_error option \<Rightarrow> (string \<Rightarrow> go_error + string) \<Rightarrow> (query_type \<Rightarrow> string \<Rightarrow> (string \<times> (go_error + ipaddr list)) list)
     \<Rightarrow> query_type list \<Rightarrow> go_error option \<Rightarrow> string list \<Rightarrow> string \<Rightarrow> ipaddr list \<times> go_error option" where
  "resolveCapturedDNSServers ctx1 toASCII answers order ctx2 servers host = (case ctx1 of
       Some err \<Rightarrow> ([], Some err)
     | None \<Rightarrow>
         if servers = [] then ([], Some (Plain ''captured physical DNS server inventory is empty''))
         else (case toASCII host of
             Inl err \<Rightarrow> ([], Some (Wrap (''invalid endpoint DNS name '' @ go_quote host @ '': '') err))
           | Inr ascii \<Rightarrow>
               (let families = map (\<lambda>kind. family_race
                                     (map (\<lambda>(server, res). wire_reply host kind server res) (answers kind ascii)) []) order;
                    addresses = concat (map fst families);
                    failures = map snd families
                in case ctx2 of
                     Some c \<Rightarrow> ([], errors_join [Some c, errors_join failures])
                   | None \<Rightarrow> if addresses \<noteq> [] then (addresses, None) else ([], errors_join failures))))"


section \<open>What a query returns\<close>

text \<open>The responses a server can give, and the names its aliases lead to.\<close>

definition wire_responses :: "'w dns_net \<Rightarrow> query_type \<Rightarrow> string \<Rightarrow> dns_msg set" where
  "wire_responses net kind server = {m. \<exists>name w w1. ask_server net name kind server w = (w1, Inr m)}"

inductive cname_chain :: "(string \<Rightarrow> string) \<Rightarrow> dns_msg set \<Rightarrow> string \<Rightarrow> string \<Rightarrow> bool" for fqdn R a where
  chain_refl: "cname_chain fqdn R a a"
| chain_step: "cname_chain fqdn R a b \<Longrightarrow> m \<in> R \<Longrightarrow> c \<in> answer_aliases fqdn m b \<Longrightarrow> cname_chain fqdn R a c"

definition chased_answer :: "(string \<Rightarrow> string) \<Rightarrow> dns_msg set \<Rightarrow> query_type \<Rightarrow> string \<Rightarrow> ipaddr list \<Rightarrow> bool" where
  "chased_answer fqdn R kind start addresses \<longleftrightarrow>
     (\<exists>m\<in>R. \<exists>name. cname_chain fqdn R start name \<and> dm_Rcode m = 0 \<and> set addresses = answer_addresses m kind name)"

lemma follow_aliases_outcome:
  assumes "m \<in> R" "cname_chain fqdn R start name" "dm_Rcode m = 0"
  shows "case follow_aliases fqdn m kind seen name of
      Answered addresses \<Rightarrow> chased_answer fqdn R kind start addresses
    | AliasLoop c \<Rightarrow> True
    | AskFor c seen1 \<Rightarrow> seen \<subseteq> seen1 \<and> c \<notin> seen1 \<and> cname_chain fqdn R start c \<and> (\<exists>n. c \<in> answer_aliases fqdn m n)"
  using assms
proof (induction fqdn m kind seen name rule: follow_aliases.induct)
  case (1 fqdn m kind seen name)
  obtain addresses c where rec: "capturedDNSAnswerRecords fqdn m name kind = (addresses, c)" by fastforce
  note found = captured_records[OF rec]
  have step: "c \<noteq> [] \<Longrightarrow> cname_chain fqdn R start c"
    using found(2) 1(2,3) chain_step by metis
  show ?case
  proof (cases "\<not> (addresses \<noteq> [] \<or> c = []) \<and> c \<notin> seen \<and> present_in m c")
    case True
    then have eq: "follow_aliases fqdn m kind seen name = follow_aliases fqdn m kind (insert c seen) c"
      using rec by (simp add: follow_aliases.simps[of fqdn m kind seen name])
    show ?thesis
      using 1(1)[OF rec[symmetric]] True 1(2,4) step unfolding eq by (auto split: follow.splits)
  next
    case False
    then show ?thesis
      using rec found 1(2,3,4) step
      by (auto simp: follow_aliases.simps[of fqdn m kind seen name] chased_answer_def)
  qed
qed

lemma query_loop_returns:
  fixes net :: "'w dns_net" and kind :: query_type and server :: string
  defines "R \<equiv> wire_responses net kind server"
  assumes "finite S" and S: "\<And>m n. m \<in> R \<Longrightarrow> answer_aliases fqdn m n \<subseteq> S"
    and "cname_chain fqdn R start name"
  shows "\<exists>w1 res. query_loop net fqdn host kind server seen name w = Some (w1, res) \<and>
           (\<forall>addresses. res = Inr addresses \<longrightarrow> chased_answer fqdn R kind start addresses)"
  using assms(4)
proof (induction "card (S - insert name seen)" arbitrary: seen name w rule: less_induct)
  case less
  note unfold = query_loop.simps[of net fqdn host kind server seen name w]
  obtain w1 r where ask: "ask_server net name kind server w = (w1, r)" by fastforce
  show ?case
  proof (cases "name \<in> seen \<or> (\<exists>e. r = Inl e)")
    case True
    then show ?thesis using ask by (auto simp: unfold)
  next
    case False
    then obtain m where m: "r = Inr m" by (cases r) auto
    then have mR: "m \<in> R" using ask by (auto simp: R_def wire_responses_def)
    show ?thesis
    proof (cases "dm_Rcode m = 0")
      case rcode: True
      note out = follow_aliases_outcome[OF mR less.prems rcode, of kind "insert name seen"]
      show ?thesis
      proof (cases "follow_aliases fqdn m kind (insert name seen) name")
        case (AskFor c seen1)
        then have c: "insert name seen \<subseteq> seen1" "c \<notin> seen1" "cname_chain fqdn R start c" "c \<in> S"
          using out S[OF mR] by auto
        then have "S - insert c seen1 \<subset> S - insert name seen" by auto
        then have "card (S - insert c seen1) < card (S - insert name seen)"
          using assms(2) by (simp add: psubset_card_mono)
        from less.hyps[OF this c(3)] show ?thesis
          using ask m False AskFor rcode by (simp add: unfold)
      qed (use ask m False rcode out in \<open>auto simp: unfold\<close>)
    qed (use ask m False in \<open>auto simp: unfold\<close>)
  qed
qed

text \<open>
  C40. A captured DNS query ends: when the aliases of the server's responses stay in some finite set of
  names, the query returns, with an error or with exactly the addresses of the asked type that one successful
  response of this server holds for a name reached from the question by this server's aliases. Cyclic
  aliases end in an error.
\<close>

theorem captured_query_returns:
  assumes "finite S" and "\<And>m n. m \<in> wire_responses net kind server \<Longrightarrow> answer_aliases fqdn m n \<subseteq> S"
  shows "\<exists>w1 res. queryCapturedDNSServer net fqdn host kind server w = Some (w1, res) \<and>
           (\<forall>addresses. res = Inr addresses \<longrightarrow>
              chased_answer fqdn (wire_responses net kind server) kind (to_lower (fqdn host)) addresses)"
  unfolding queryCapturedDNSServer_def
  by (rule query_loop_returns[OF assms chain_refl])

definition sample_net :: "unit dns_net" where
  "sample_net = \<lparr>dn_err = (\<lambda>w. None), dn_dial = (\<lambda>p s w. (w, None)),
     dn_exchange = (\<lambda>name kind w. (w, Inr \<lparr>dm_Truncated = False, dm_Rcode = 0, dm_Answer =
        (if name = ''a.'' then [(''A.'', RecCNAME ''B.'')]
         else if name = ''b.'' then [(''b.'', RecCNAME ''c.''), (''c.'', RecA [1, 2, 3, 4]), (''c.'', RecAAAA [])]
         else if name = ''x.'' then [(''x.'', RecCNAME ''X.'')] else [])\<rparr>)),
     dn_close = (\<lambda>w. (w, None))\<rparr>"

lemma sample_split: "SplitHostPort ''1.1.1.1:53'' = Inr (''1.1.1.1'', ''53'')"
  by code_simp

lemma sample_numeric: "parse_addr_zone ''1.1.1.1'' = Some ([1, 1, 1, 1], [])"
  by code_simp

lemma sample_ask:
  "ask_server sample_net name kind ''1.1.1.1:53'' w = ((), Inr \<lparr>dm_Truncated = False, dm_Rcode = 0, dm_Answer =
        (if name = ''a.'' then [(''A.'', RecCNAME ''B.'')]
         else if name = ''b.'' then [(''b.'', RecCNAME ''c.''), (''c.'', RecA [1, 2, 3, 4]), (''c.'', RecAAAA [])]
         else if name = ''x.'' then [(''x.'', RecCNAME ''X.'')] else [])\<rparr>)"
  by (simp add: ask_server_def exchangeCapturedDNS_def sample_split sample_numeric sample_net_def close_joined_def)

lemma sample_aliases:
  assumes "m \<in> wire_responses sample_net kind ''1.1.1.1:53''"
  shows "answer_aliases (\<lambda>s. s) m n \<subseteq> {''b.'', ''c.'', ''x.''}"
proof -
  have "to_lower ''B.'' = ''b.''" "to_lower ''c.'' = ''c.''" "to_lower ''X.'' = ''x.''" by code_simp+
  then show ?thesis
    using assms by (auto simp: wire_responses_def sample_ask answer_aliases_def split: if_splits)
qed

lemma sample_follow:
  "follow_aliases (\<lambda>s. s) \<lparr>dm_Truncated = False, dm_Rcode = 0, dm_Answer = [(''A.'', RecCNAME ''B.'')]\<rparr> TypeA {''a.''} ''a.''
     = AskFor ''b.'' {''a.''}"
  "follow_aliases (\<lambda>s. s) \<lparr>dm_Truncated = False, dm_Rcode = 0, dm_Answer =
     [(''b.'', RecCNAME ''c.''), (''c.'', RecA [1, 2, 3, 4]), (''c.'', RecAAAA [])]\<rparr> TypeA {''b.'', ''a.''} ''b.''
     = Answered [([1, 2, 3, 4], [])]"
  by code_simp+

theorem captured_query_returns_witness:
  "queryCapturedDNSServer sample_net (\<lambda>s. s) ''a.'' TypeA ''1.1.1.1:53'' () = Some ((), Inr [([1, 2, 3, 4], [])]) \<and>
   chased_answer (\<lambda>s. s) (wire_responses sample_net TypeA ''1.1.1.1:53'') TypeA ''a.'' [([1, 2, 3, 4], [])]"
proof -
  have name: "to_lower ''a.'' = ''a.''" by code_simp
  have run: "queryCapturedDNSServer sample_net (\<lambda>s. s) ''a.'' TypeA ''1.1.1.1:53'' () = Some ((), Inr [([1, 2, 3, 4], [])])"
    by (simp add: queryCapturedDNSServer_def name query_loop.simps sample_ask sample_follow)
  then show ?thesis
    using captured_query_returns[of "{''b.'', ''c.'', ''x.''}" sample_net TypeA "''1.1.1.1:53''" "\<lambda>s. s" "''a.''" "()"]
      sample_aliases name by auto
qed

section \<open>Late answers\<close>

text \<open>What other goroutines can do to the cache during a lookup.\<close>

datatype 'w cache_op = OpSource "'w source option" | OpResolver string "'w lookup option"

fun run_cache_op :: "'w cache_op \<Rightarrow> 'w cache \<Rightarrow> 'w cache" where
  "run_cache_op (OpSource src) c = SetResolverSource src c"
| "run_cache_op (OpResolver identity resolver) c = SetResolver identity resolver c"

text \<open>An operation changes nothing or counts one revision.\<close>

lemma cache_op_revision: "run_cache_op a c = c \<or> dc_revision (run_cache_op a c) = dc_revision c + 1"
  by (cases a) (auto simp: SetResolverSource_def SetResolver_def)

lemma cache_ops_revision:
  "\<exists>k \<le> length ops. dc_revision (fold run_cache_op ops c) = dc_revision c + of_nat k \<and> (k = 0 \<longrightarrow> fold run_cache_op ops c = c)"
proof (induction ops arbitrary: c)
  case Nil
  then show ?case by simp
next
  case (Cons a ops)
  obtain k where k: "k \<le> length ops" "dc_revision (fold run_cache_op ops (run_cache_op a c)) = dc_revision (run_cache_op a c) + of_nat k"
      "k = 0 \<longrightarrow> fold run_cache_op ops (run_cache_op a c) = run_cache_op a c"
    using Cons[of "run_cache_op a c"] by blast
  show ?case
  proof (cases "run_cache_op a c = c")
    case True
    then show ?thesis using k by (intro exI[of _ k]) simp
  next
    case False
    then show ?thesis using k cache_op_revision[of a c] by (intro exI[of _ "Suc k"]) (simp add: algebra_simps)
  qed
qed

lemma same_revision_same_cache:
  assumes "int (length ops) < 2 ^ 64" "dc_revision (fold run_cache_op ops c) = dc_revision c"
  shows "fold run_cache_op ops c = c"
proof -
  obtain k where k: "k \<le> length ops" "dc_revision (fold run_cache_op ops c) = dc_revision c + of_nat k"
      "k = 0 \<longrightarrow> fold run_cache_op ops c = c"
    using cache_ops_revision[of ops c] by blast
  have "(of_nat k :: u64) = 0" using k(2) assms(2) by simp
  then have "k mod 2 ^ 64 = 0" by (simp add: word_of_nat_eq_0_iff dvd_eq_mod_eq_0)
  moreover have "k < 2 ^ 64"
  proof -
    have "int k < int (2 ^ 64)" using k(1) assms(1) by simp
    then show ?thesis by (simp only: of_nat_less_iff)
  qed
  ultimately show ?thesis using k(3) by simp
qed

lemma lookup_with_Inr:
  assumes "lookup_with host during ctx2 c w = (c1, w1, Inr addresses)"
  shows "\<exists>resolve. dc_resolver c = Some resolve \<and> resolve host w = (w1, addresses, None) \<and> addresses \<noteq> [] \<and>
           ctx2 = None \<and> c1 = during c \<and> dc_revision c1 = dc_revision c"
  using assms
  by (auto simp: lookup_with_def Let_def errors_join_def split: option.splits prod.splits if_splits)

text \<open>The cache a lookup of a name starts from: the source of the physical network is captured first.\<close>

definition captured_cache :: "'w cache \<Rightarrow> 'w \<Rightarrow> 'w cache \<times> 'w" where
  "captured_cache c w = (case dc_source c of
       None \<Rightarrow> (c, w)
     | Some src \<Rightarrow> (case src w of (w1, identity, resolver, err) \<Rightarrow> (SetResolver identity resolver c, w1)))"

lemma lookup_answer:
  assumes "ResolveAddresses None h (fold run_cache_op ops) ctx2 (Some c) w = (co, w2, Inr addresses)"
    and "parse_addr_zone (NormalizeHost h) = None" and "captured_cache c w = (c1, w1)"
    and "int (length ops) < 2 ^ 64"
  shows "co = Some c1 \<and> addresses \<noteq> [] \<and> ctx2 = None \<and>
     (\<exists>resolve. dc_resolver c1 = Some resolve \<and> resolve (NormalizeHost h) w1 = (w2, addresses, None))"
proof -
  have "\<exists>c2. lookup_with (NormalizeHost h) (fold run_cache_op ops) ctx2 c1 w1 = (c2, w2, Inr addresses) \<and> co = Some c2"
    using assms(1-3)
    by (auto simp: ResolveAddresses_def captured_cache_def Let_def split: if_splits option.splits prod.splits)
  then show ?thesis using lookup_with_Inr same_revision_same_cache[OF assms(4)] by metis
qed

text \<open>
  C20. A lookup never returns an answer of a physical network that was replaced meanwhile: when it returns
  addresses for a name, and other goroutines made fewer than 2^64 calls on the cache during the lookup, none
  of these calls changed anything, the addresses are exactly what the captured network's resolver returned,
  there is at least one, and the context is still live. The bound is needed because the revision wraps.
\<close>

theorem late_answers_rejected:
  assumes "ResolveAddresses None h (fold run_cache_op ops) ctx2 (Some c) w = (co, w2, Inr addresses)"
    and "parse_addr_zone (NormalizeHost h) = None" and "captured_cache c w = (c1, w1)"
    and "int (length ops) < 2 ^ 64"
  shows "co = Some c1 \<and> addresses \<noteq> [] \<and> ctx2 = None \<and>
     (\<exists>resolve. dc_resolver c1 = Some resolve \<and> resolve (NormalizeHost h) w1 = (w2, addresses, None))"
  using lookup_answer[OF assms] .

definition sample_cache :: "unit cache" where
  "sample_cache = new_cache\<lparr>dc_source := Some (\<lambda>w. (w, ''wlan0'', Some (\<lambda>host w. (w, [([1, 2, 3, 4], [])], None)), None))\<rparr>"

lemma sample_host: "NormalizeHost '' VPN.example. '' = ''vpn.example''" "parse_addr_zone ''vpn.example'' = None"
  by code_simp+

theorem late_answers_rejected_witness:
  "\<exists>c1. ResolveAddresses None '' VPN.example. '' (fold run_cache_op [OpResolver ''wlan0'' None]) None (Some sample_cache) ()
      = (Some c1, (), Inr [([1, 2, 3, 4], [])]) \<and> dc_identity c1 = ''wlan0'' \<and>
   (\<exists>resolve. dc_resolver c1 = Some resolve \<and> resolve ''vpn.example'' () = ((), [([1, 2, 3, 4], [])], None))"
proof -
  have "ResolveAddresses None '' VPN.example. '' (fold run_cache_op [OpResolver ''wlan0'' None]) None (Some sample_cache) ()
      = (Some (fst (captured_cache sample_cache ())), (), Inr [([1, 2, 3, 4], [])])"
    by (simp add: ResolveAddresses_def sample_host sample_cache_def new_cache_def captured_cache_def lookup_with_def
        SetResolver_def Let_def)
  from this late_answers_rejected[OF this, of "fst (captured_cache sample_cache ())" "()"]
  show ?thesis
    by (auto simp: sample_host captured_cache_def sample_cache_def new_cache_def SetResolver_def)
qed

section \<open>Failover\<close>

text \<open>
  A family of records fails over: it ends with the first decisive reply in the order of arrival, and without
  one it reports the failures of all servers.
\<close>

lemma family_race_exact:
  "family_race replies failures =
     (case dropWhile (\<lambda>(addresses, err). \<not> decisive err) replies of
        reply # _ \<Rightarrow> reply
      | [] \<Rightarrow> ([], errors_join (failures @ map snd replies)))"
  by (induction replies failures rule: family_race.induct) (simp_all split: list.split del: dropWhile_eq_Nil_conv)

end
