(* ===== verification/Mobile_Platform.thy ===== *)
theory Mobile_Platform
  imports Session_State
begin

text \<open>
  The platform adapter of the mobile builds (\<^verbatim>\<open>core/sessionapi/mobilebinding/platform.go\<close>, \<^verbatim>\<open>ownership.go\<close> and
  the publisher of \<^verbatim>\<open>platform_mobile.go\<close>): tunnel descriptors handed over by the Android service or the iOS
  extension, their leases, socket protection and state publication.

  The callbacks into the platform are functions of a state \<open>'w\<close> of the outside. A reply appears as what
  \<^verbatim>\<open>json.Unmarshal\<close> and \<^verbatim>\<open>json.Valid\<close> make of it, beside its text. An \<^verbatim>\<open>int32\<close> or \<^verbatim>\<open>int64\<close> is an integer here;
  the conversions check its range as the code does. The calls of a lease run outside the adapter's lock, so
  \<open>binding_step\<close> interleaves their sections. Log calls are left out.
\<close>

section \<open>Descriptors\<close>

record fd_owner =
  fo_session :: string
  fo_generation :: u64

type_synonym tunnel_fds = "int \<rightharpoonup> fd_owner"

definition fds_reserve :: "int \<Rightarrow> fd_owner \<Rightarrow> tunnel_fds \<Rightarrow> tunnel_fds \<times> bool" where
  "fds_reserve fd owner fds = (if fds fd \<noteq> None then (fds, False) else (fds(fd \<mapsto> owner), True))"

definition fds_release :: "int \<Rightarrow> fd_owner \<Rightarrow> tunnel_fds \<Rightarrow> tunnel_fds" where
  "fds_release fd owner fds = (if fds fd = Some owner then fds(fd := None) else fds)"

definition generationAsInt64 :: "u64 \<Rightarrow> go_error + int" where
  "generationAsInt64 generation =
     (if generation > 0x7FFFFFFFFFFFFFFF then Inl (Plain ''generation exceeds the native callback range'') else Inr (uint generation))"

definition descriptorAsUintptr :: "int \<Rightarrow> go_error + int" where
  "descriptorAsUintptr fd = (if fd < 0 then Inl (Plain ''descriptor must be non-negative'') else Inr fd)"

definition descriptorAsInt32 :: "int \<Rightarrow> go_error + int" where
  "descriptorAsInt32 fd =
     (if fd < 0 \<or> fd > 0x7FFFFFFF then Inl (Plain ''socket descriptor exceeds the native callback range'') else Inr fd)"

section \<open>Callbacks\<close>

record native_tunnel_result =
  nt_FD :: "int option"
  nt_Error :: string
  nt_CleanupPending :: bool

record tunnel_reply =
  tr_raw :: string
  tr_result :: native_tunnel_result
  tr_err :: "go_error option"
  tr_valid :: bool

record 'w callbacks =
  cb_AcquireTunnel :: "string \<Rightarrow> int \<Rightarrow> string list \<Rightarrow> 'w \<Rightarrow> 'w \<times> tunnel_reply"
  cb_ReleaseTunnel :: "string \<Rightarrow> int \<Rightarrow> int \<Rightarrow> int \<Rightarrow> 'w \<Rightarrow> 'w \<times> tunnel_reply"
  cb_ProtectSocket :: "string \<Rightarrow> int \<Rightarrow> int \<Rightarrow> 'w \<Rightarrow> 'w \<times> bool"
  cb_PublishState :: "string \<Rightarrow> int \<Rightarrow> sstate \<Rightarrow> failure_code option \<Rightarrow> 'w \<Rightarrow> 'w"

definition decodeTunnelResult :: "tunnel_reply \<Rightarrow> native_tunnel_result \<times> go_error option" where
  "decodeTunnelResult r = (tr_result r, case tr_err r of
       Some e \<Rightarrow> Some (Wrap (''invalid native tunnel result '' @ go_quote (tr_raw r) @ '': '') e)
     | None \<Rightarrow> if nt_Error (tr_result r) \<noteq> [] then Some (Plain (nt_Error (tr_result r))) else None)"

definition VPNDNSServers :: "string list" where
  "VPNDNSServers = [''9.9.9.9'', ''1.1.1.1'', ''2620:fe::fe'', ''2606:4700:4700::1111'']"

section \<open>The adapter\<close>

record 'w platform =
  pa_callbacks :: "'w callbacks option"
  pa_tunnels :: tunnel_fds
  pa_active :: "string \<rightharpoonup> session_ref"
  pa_stateChanges :: "state_change option"

definition setCallbacks :: "'w callbacks option \<Rightarrow> 'w platform \<Rightarrow> 'w platform" where
  "setCallbacks cb p = p\<lparr>pa_callbacks := cb\<rparr>"

definition PrepareTunnel :: "session_ref \<Rightarrow> 'w platform \<Rightarrow> 'w platform \<times> (go_error + session_ref)" where
  "PrepareTunnel ref p = (case pa_active p (ref_SessionID ref) of
       Some existing \<Rightarrow> if existing \<noteq> ref then (p, Inl (Plain ''another generation is still active''))
                        else (p\<lparr>pa_active := (pa_active p)(ref_SessionID ref \<mapsto> ref)\<rparr>, Inr ref)
     | None \<Rightarrow> (p\<lparr>pa_active := (pa_active p)(ref_SessionID ref \<mapsto> ref)\<rparr>, Inr ref))"

definition platformLease_Release :: "session_ref \<Rightarrow> 'w platform \<Rightarrow> 'w platform" where
  "platformLease_Release ref p =
     (if pa_active p (ref_SessionID ref) = Some ref then p\<lparr>pa_active := (pa_active p)(ref_SessionID ref := None)\<rparr> else p)"

definition ref_owner :: "session_ref \<Rightarrow> fd_owner" where
  "ref_owner ref = \<lparr>fo_session = ref_SessionID ref, fo_generation = ref_Generation ref\<rparr>"

text \<open>
  \<^verbatim>\<open>acquire\<close> up to the reservation: an error, with the callbacks when the platform may still own something, or
  the descriptor with the callbacks.
\<close>

definition acquire_reply ::
  "session_ref \<Rightarrow> 'w platform \<Rightarrow> 'w \<Rightarrow> 'w \<times> (go_error \<times> 'w callbacks option + int \<times> 'w callbacks)" where
  "acquire_reply ref p w = (case pa_callbacks p of
       None \<Rightarrow> (w, Inl (Plain ''platform tunnel callback is not registered'', None))
     | Some cb \<Rightarrow> (case generationAsInt64 (ref_Generation ref) of
         Inl err \<Rightarrow> (w, Inl (err, None))
       | Inr generation \<Rightarrow>
           (case cb_AcquireTunnel cb (ref_SessionID ref) generation VPNDNSServers w of (w1, raw) \<Rightarrow>
              (case decodeTunnelResult raw of (result, err) \<Rightarrow>
                 (w1, case (err, nt_FD result) of
                    (None, Some fd) \<Rightarrow>
                      if fd < 0 then Inl (Plain (''platform returned no tunnel descriptor: '' @ tr_raw raw),
                                          if nt_CleanupPending result \<or> \<not> tr_valid raw then Some cb else None)
                      else Inr (fd, cb)
                  | _ \<Rightarrow> Inl (case err of Some e \<Rightarrow> e | None \<Rightarrow> Plain (''platform returned no tunnel descriptor: '' @ tr_raw raw),
                              if nt_CleanupPending result \<or> \<not> tr_valid raw \<or> nt_FD result = None \<and> nt_Error result = []
                              then Some cb else None))))))"

definition acquire_reserve :: "session_ref \<Rightarrow> int \<Rightarrow> 'w platform \<Rightarrow> 'w platform \<times> go_error option" where
  "acquire_reserve ref fd p = (case fds_reserve fd (ref_owner ref) (pa_tunnels p) of
       (fds, True) \<Rightarrow> (p\<lparr>pa_tunnels := fds\<rparr>, None)
     | (fds, False) \<Rightarrow>
         (p, Some (CleanupFailure (Plain (''platform reused an active tunnel descriptor '' @ nat_digits (nat fd))))))"

record 'w tunnel_lease =
  tl_file :: bool
  tl_fd :: int
  tl_ref :: session_ref
  tl_callbacks :: "'w callbacks option"
  tl_closed :: bool
  tl_closeErr :: "go_error option"
  tl_released :: bool

definition make_lease :: "bool \<Rightarrow> int \<Rightarrow> session_ref \<Rightarrow> 'w callbacks option \<Rightarrow> 'w tunnel_lease" where
  "make_lease file fd ref cb =
     \<lparr>tl_file = file, tl_fd = fd, tl_ref = ref, tl_callbacks = cb, tl_closed = False, tl_closeErr = None, tl_released = False\<rparr>"

text \<open>\<^verbatim>\<open>Acquire\<close> after a successful reservation; \<open>hasFile\<close> is whether \<^verbatim>\<open>os.NewFile\<close> returned a file.\<close>

definition acquired_lease :: "(int \<Rightarrow> bool) \<Rightarrow> session_ref \<Rightarrow> int \<Rightarrow> 'w callbacks \<Rightarrow> 'w tunnel_lease \<times> go_error option" where
  "acquired_lease hasFile ref fd cb = (case descriptorAsUintptr fd of
       Inl err \<Rightarrow> (make_lease False fd ref (Some cb), Some err)
     | Inr d \<Rightarrow> (make_lease (hasFile d) fd ref (Some cb),
                 if hasFile d then None else Some (Plain ''could not own tunnel descriptor'')))"

definition Acquire ::
  "(int \<Rightarrow> bool) \<Rightarrow> session_ref \<Rightarrow> 'w platform \<Rightarrow> 'w \<Rightarrow> 'w platform \<times> 'w \<times> 'w tunnel_lease option \<times> go_error option" where
  "Acquire hasFile ref p w = (case acquire_reply ref p w of
       (w1, Inl (err, None)) \<Rightarrow> (p, w1, None, Some err)
     | (w1, Inl (err, Some cb)) \<Rightarrow> (p, w1, Some (make_lease False (- 1) ref (Some cb)), Some err)
     | (w1, Inr (fd, cb)) \<Rightarrow> (case acquire_reserve ref fd p of
         (p1, Some err) \<Rightarrow> (p1, w1, None, Some err)
       | (p1, None) \<Rightarrow> (case acquired_lease hasFile ref fd cb of (l, err) \<Rightarrow> (p1, w1, Some l, err))))"

text \<open>\<open>fclose\<close> closes the file of a lease; \<^verbatim>\<open>sync.Once\<close> runs it at most once.\<close>

definition lease_Close :: "('w \<Rightarrow> 'w \<times> go_error option) \<Rightarrow> 'w tunnel_lease \<Rightarrow> 'w \<Rightarrow> 'w tunnel_lease \<times> 'w \<times> go_error option" where
  "lease_Close fclose l w =
     (if tl_closed l then (l, w, tl_closeErr l)
      else if \<not> tl_file l then (l\<lparr>tl_closed := True\<rparr>, w, tl_closeErr l)
      else (case fclose w of (w1, err) \<Rightarrow> (l\<lparr>tl_closed := True, tl_closeErr := err\<rparr>, w1, err)))"

text \<open>\<^verbatim>\<open>release\<close> up to the reservation table; \<open>remaining\<close> is the rest of the cleanup deadline in milliseconds.\<close>

definition release_reply :: "int \<Rightarrow> session_ref \<Rightarrow> int \<Rightarrow> 'w callbacks option \<Rightarrow> 'w \<Rightarrow> 'w \<times> go_error option" where
  "release_reply remaining ref fd cbo w = (case cbo of
       None \<Rightarrow> (w, Some (Plain ''platform tunnel cleanup callback is unavailable''))
     | Some cb \<Rightarrow> (case generationAsInt64 (ref_Generation ref) of
         Inl err \<Rightarrow> (w, Some err)
       | Inr generation \<Rightarrow>
           if remaining \<le> 0 then (w, Some (Wrap ''platform tunnel cleanup still pending: '' (Sentinel DeadlineExceeded)))
           else (case cb_ReleaseTunnel cb (ref_SessionID ref) generation fd remaining w of (w1, raw) \<Rightarrow>
                   (w1, case decodeTunnelResult raw of
                      (result, Some err) \<Rightarrow> Some (Wrap ''platform tunnel cleanup failed: '' err)
                    | (result, None) \<Rightarrow> if nt_CleanupPending result then Some (Plain ''platform tunnel cleanup still pending'')
                                        else None))))"

definition release_commit :: "session_ref \<Rightarrow> int \<Rightarrow> 'w platform \<Rightarrow> 'w platform" where
  "release_commit ref fd p = p\<lparr>pa_tunnels := fds_release fd (ref_owner ref) (pa_tunnels p)\<rparr>"

definition lease_Release ::
  "('w \<Rightarrow> 'w \<times> go_error option) \<Rightarrow> int \<Rightarrow> 'w tunnel_lease \<Rightarrow> 'w platform \<Rightarrow> 'w
     \<Rightarrow> 'w tunnel_lease \<times> 'w platform \<times> 'w \<times> go_error option" where
  "lease_Release fclose remaining l p w =
     (if tl_released l then (l, p, w, tl_closeErr l)
      else (case lease_Close fclose l w of (l1, w1, closeErr) \<Rightarrow>
        (case release_reply remaining (tl_ref l) (tl_fd l) (tl_callbacks l) w1 of
           (w2, Some releaseErr) \<Rightarrow> (l1, p, w2, errors_join [closeErr, Some releaseErr])
         | (w2, None) \<Rightarrow> (l1\<lparr>tl_released := True\<rparr>, release_commit (tl_ref l) (tl_fd l) p, w2, errors_join [closeErr, None]))))"

definition platform_ProtectSocket :: "session_ref \<Rightarrow> int \<Rightarrow> 'w platform \<Rightarrow> 'w \<Rightarrow> 'w \<times> go_error option" where
  "platform_ProtectSocket ref fd p w =
     (if fd < 0 then (w, Some (Plain ''invalid socket descriptor''))
      else (case pa_callbacks p of
          None \<Rightarrow> (w, Some (Plain ''platform socket protector is not registered''))
        | Some cb \<Rightarrow> (case generationAsInt64 (ref_Generation ref) of
            Inl err \<Rightarrow> (w, Some err)
          | Inr generation \<Rightarrow> (case descriptorAsInt32 fd of
              Inl err \<Rightarrow> (w, Some err)
            | Inr descriptor \<Rightarrow> (case cb_ProtectSocket cb (ref_SessionID ref) generation descriptor w of
                (w1, ok) \<Rightarrow> (w1, if ok then None else Some (Plain ''platform rejected socket protection'')))))))"

text \<open>\<open>actives\<close> lists the map, in the order a loop over it visits it.\<close>

definition protectActive :: "session_ref list \<Rightarrow> int \<Rightarrow> 'w platform \<Rightarrow> 'w \<Rightarrow> 'w \<times> bool" where
  "protectActive actives fd p w =
     (if fd < 0 then (w, False)
      else (case actives of
          [ref] \<Rightarrow> (case pa_callbacks p of
              None \<Rightarrow> (w, False)
            | Some cb \<Rightarrow> (case generationAsInt64 (ref_Generation ref) of
                Inl err \<Rightarrow> (w, False)
              | Inr generation \<Rightarrow> cb_ProtectSocket cb (ref_SessionID ref) generation fd w))
        | _ \<Rightarrow> (w, False)))"

text \<open>The channel of state changes holds one event; a newer one replaces it.\<close>

definition PublishState :: "state_change \<Rightarrow> 'w platform \<Rightarrow> 'w platform" where
  "PublishState event p = p\<lparr>pa_stateChanges := Some event\<rparr>"

definition publishStateChange :: "'w platform \<Rightarrow> 'w \<Rightarrow> 'w platform \<times> 'w" where
  "publishStateChange p w = (case pa_stateChanges p of
       None \<Rightarrow> (p, w)
     | Some event \<Rightarrow> (p\<lparr>pa_stateChanges := None\<rparr>, case pa_callbacks p of
         None \<Rightarrow> w
       | Some cb \<Rightarrow> (case generationAsInt64 (sc_NetworkGeneration event) of
           Inl err \<Rightarrow> w
         | Inr generation \<Rightarrow> cb_PublishState cb (sc_SessionID event) generation (sc_State event) (sc_Failure event) w)))"

section \<open>Interleavings\<close>

text \<open>
  Leases in the order they were made, with the calls in progress: descriptors that the platform returned and
  that are not reserved yet, and leases whose release has returned from the platform but is not committed.
  \<^verbatim>\<open>releaseMu\<close> keeps a second release of the same lease out meanwhile.
\<close>

record 'w binding =
  bd_platform :: "'w platform"
  bd_world :: 'w
  bd_leases :: "'w tunnel_lease list"
  bd_pending :: "(session_ref \<times> int \<times> 'w callbacks) list"
  bd_releasing :: "nat set"

definition new_binding :: "'w callbacks option \<Rightarrow> 'w \<Rightarrow> 'w binding" where
  "new_binding cb w = \<lparr>bd_platform = \<lparr>pa_callbacks = cb, pa_tunnels = Map.empty, pa_active = Map.empty, pa_stateChanges = None\<rparr>,
     bd_world = w, bd_leases = [], bd_pending = [], bd_releasing = {}\<rparr>"

inductive binding_step :: "('w \<Rightarrow> 'w \<times> go_error option) \<Rightarrow> 'w binding \<Rightarrow> 'w binding \<Rightarrow> bool" for fclose where
  step_refused: "acquire_reply ref (bd_platform s) (bd_world s) = (w1, Inl (err, cb)) \<Longrightarrow>
     binding_step fclose s (s\<lparr>bd_world := w1, bd_leases := bd_leases s @ (if cb = None then [] else [make_lease False (- 1) ref cb])\<rparr>)"
| step_reply: "acquire_reply ref (bd_platform s) (bd_world s) = (w1, Inr (fd, cb)) \<Longrightarrow>
     binding_step fclose s (s\<lparr>bd_world := w1, bd_pending := (ref, fd, cb) # bd_pending s\<rparr>)"
| step_reserved: "bd_pending s = xs @ (ref, fd, cb) # ys \<Longrightarrow> acquire_reserve ref fd (bd_platform s) = (p1, None) \<Longrightarrow>
     binding_step fclose s (s\<lparr>bd_platform := p1, bd_pending := xs @ ys,
       bd_leases := bd_leases s @ [fst (acquired_lease hasFile ref fd cb)]\<rparr>)"
| step_reused: "bd_pending s = xs @ (ref, fd, cb) # ys \<Longrightarrow> acquire_reserve ref fd (bd_platform s) = (p1, Some err) \<Longrightarrow>
     binding_step fclose s (s\<lparr>bd_platform := p1, bd_pending := xs @ ys\<rparr>)"
| step_lease_close: "i < length (bd_leases s) \<Longrightarrow> lease_Close fclose (bd_leases s ! i) (bd_world s) = (l1, w1, err) \<Longrightarrow>
     binding_step fclose s (s\<lparr>bd_leases := (bd_leases s)[i := l1], bd_world := w1\<rparr>)"
| step_release_call: "i < length (bd_leases s) \<Longrightarrow> i \<notin> bd_releasing s \<Longrightarrow> \<not> tl_released (bd_leases s ! i) \<Longrightarrow> tl_closed (bd_leases s ! i) \<Longrightarrow>
     release_reply remaining (tl_ref (bd_leases s ! i)) (tl_fd (bd_leases s ! i)) (tl_callbacks (bd_leases s ! i)) (bd_world s) = (w1, r) \<Longrightarrow>
     binding_step fclose s (s\<lparr>bd_world := w1, bd_releasing := (if r = None then insert i (bd_releasing s) else bd_releasing s)\<rparr>)"
| step_release_commit: "i \<in> bd_releasing s \<Longrightarrow>
     binding_step fclose s (s\<lparr>bd_platform := release_commit (tl_ref (bd_leases s ! i)) (tl_fd (bd_leases s ! i)) (bd_platform s),
       bd_leases := (bd_leases s)[i := (bd_leases s ! i)\<lparr>tl_released := True\<rparr>], bd_releasing := bd_releasing s - {i}\<rparr>)"
| step_callbacks: "binding_step fclose s (s\<lparr>bd_platform := setCallbacks cb (bd_platform s)\<rparr>)"
| step_prepare: "binding_step fclose s (s\<lparr>bd_platform := fst (PrepareTunnel ref (bd_platform s))\<rparr>)"
| step_platform_release: "binding_step fclose s (s\<lparr>bd_platform := platformLease_Release ref (bd_platform s)\<rparr>)"
| step_publish: "binding_step fclose s (s\<lparr>bd_platform := PublishState event (bd_platform s)\<rparr>)"
| step_published: "publishStateChange (bd_platform s) (bd_world s) = (p1, w1) \<Longrightarrow>
     binding_step fclose s (s\<lparr>bd_platform := p1, bd_world := w1\<rparr>)"
| step_outside: "binding_step fclose s (s\<lparr>bd_world := w1\<rparr>)"


section \<open>The invariant\<close>

text \<open>
  What the reservation table depends on, per lease: descriptor, reference, whether it was released. A lease
  without a descriptor has the number -1.
\<close>

type_synonym fd_key = "int \<times> session_ref \<times> bool"

definition lease_key :: "'w tunnel_lease \<Rightarrow> fd_key" where
  "lease_key l = (tl_fd l, tl_ref l, tl_released l)"

fun key_held :: "fd_key \<Rightarrow> bool" where
  "key_held (fd, ref, released) \<longleftrightarrow> fd \<ge> 0 \<and> \<not> released"

definition fds_ok :: "fd_key list \<Rightarrow> tunnel_fds \<Rightarrow> bool" where
  "fds_ok ks t \<longleftrightarrow>
     (\<forall>i < length ks. key_held (ks ! i) \<longrightarrow> t (fst (ks ! i)) = Some (ref_owner (fst (snd (ks ! i))))) \<and>
     (\<forall>i < length ks. \<forall>j < length ks. key_held (ks ! i) \<longrightarrow> key_held (ks ! j) \<longrightarrow> fst (ks ! i) = fst (ks ! j) \<longrightarrow> i = j) \<and>
     (\<forall>fd. t fd \<noteq> None \<longrightarrow> (\<exists>i < length ks. key_held (ks ! i) \<and> fst (ks ! i) = fd))"

lemma fds_ok_refused: "fds_ok ks t \<Longrightarrow> fds_ok (ks @ [(- 1, ref, False)]) t"
  by (auto simp: fds_ok_def nth_append less_Suc_eq)

lemma fds_ok_reserve:
  assumes "fds_ok ks t" "t fd = None" "fd \<ge> 0"
  shows "fds_ok (ks @ [(fd, ref, False)]) (t(fd \<mapsto> ref_owner ref))"
proof -
  have free: "key_held (ks ! i) \<Longrightarrow> i < length ks \<Longrightarrow> fst (ks ! i) \<noteq> fd" for i
    using assms(1,2) unfolding fds_ok_def by (metis option.distinct(1))
  have "\<exists>i < Suc (length ks). key_held ((ks @ [(fd, ref, False)]) ! i) \<and> fst ((ks @ [(fd, ref, False)]) ! i) = x"
    if "(t(fd \<mapsto> ref_owner ref)) x \<noteq> None" for x
  proof (cases "x = fd")
    case True
    then show ?thesis using assms(3) by (intro exI[of _ "length ks"]) simp
  next
    case False
    then obtain i where "i < length ks" "key_held (ks ! i)" "fst (ks ! i) = x" using assms(1) \<open>_ \<noteq> None\<close> unfolding fds_ok_def by auto
    then show ?thesis by (intro exI[of _ i]) (simp add: nth_append)
  qed
  moreover have "t (fst (ks ! i)) = Some (ref_owner (fst (snd (ks ! i))))" if "i < length ks" "key_held (ks ! i)" for i
    using assms(1) that unfolding fds_ok_def by blast
  moreover have "i = j" if "i < length ks" "j < length ks" "key_held (ks ! i)" "key_held (ks ! j)" "fst (ks ! i) = fst (ks ! j)" for i j
    using assms(1) that unfolding fds_ok_def by blast
  moreover have "i = j" if "i < Suc (length ks)" "j < Suc (length ks)" "key_held ((ks @ [(fd, ref, False)]) ! i)"
      "key_held ((ks @ [(fd, ref, False)]) ! j)" "fst ((ks @ [(fd, ref, False)]) ! i) = fst ((ks @ [(fd, ref, False)]) ! j)" for i j
    using that free[of i] free[of j] calculation(3)[of i j] by (auto simp: nth_append less_Suc_eq)
  ultimately show ?thesis
    unfolding fds_ok_def using free by (auto simp: nth_append less_Suc_eq)
qed

lemma fds_ok_release:
  assumes "fds_ok ks t" "i < length ks" "ks ! i = (fd, ref, False)"
  shows "fds_ok (ks[i := (fd, ref, True)]) (fds_release fd (ref_owner ref) t)"
proof -
  let ?ks = "ks[i := (fd, ref, True)]"
  have other: "key_held (?ks ! j) \<longleftrightarrow> j \<noteq> i \<and> key_held (ks ! j)" "j \<noteq> i \<Longrightarrow> ?ks ! j = ks ! j" if "j < length ks" for j
    using that assms(2) by (auto simp: nth_list_update)
  have t: "j < length ks \<Longrightarrow> key_held (ks ! j) \<Longrightarrow> t (fst (ks ! j)) = Some (ref_owner (fst (snd (ks ! j))))" for j
    using assms(1) unfolding fds_ok_def by blast
  have uniq: "a < length ks \<Longrightarrow> b < length ks \<Longrightarrow> key_held (ks ! a) \<Longrightarrow> key_held (ks ! b) \<Longrightarrow> fst (ks ! a) = fst (ks ! b) \<Longrightarrow> a = b" for a b
    using assms(1) unfolding fds_ok_def by blast
  have cover: "t x \<noteq> None \<Longrightarrow> \<exists>j < length ks. key_held (ks ! j) \<and> fst (ks ! j) = x" for x
    using assms(1) unfolding fds_ok_def by blast
  have rel: "fds_release fd (ref_owner ref) t x = (if x = fd \<and> t fd = Some (ref_owner ref) then None else t x)" for x
    by (simp add: fds_release_def)
  have gone: "t fd = Some (ref_owner ref)" if "fd \<ge> 0" using t[OF assms(2)] assms(3) that by simp
  have distinct: "fst (ks ! j) \<noteq> fd" if "j < length ks" "key_held (ks ! j)" "j \<noteq> i" for j
  proof
    assume eq: "fst (ks ! j) = fd"
    then have "fd \<ge> 0" using that(2) by (cases "ks ! j") simp
    then have "key_held (ks ! i)" using assms(3) by simp
    from uniq[OF that(1) assms(2) that(2) this] eq assms(3) that(3) show False by simp
  qed
  have "\<exists>j < length ks. key_held (?ks ! j) \<and> fst (?ks ! j) = x" if "fds_release fd (ref_owner ref) t x \<noteq> None" for x
  proof -
    have x: "t x \<noteq> None" "x = fd \<longrightarrow> t fd \<noteq> Some (ref_owner ref)" using that rel[of x] by (auto split: if_splits)
    then obtain j where j: "j < length ks" "key_held (ks ! j)" "fst (ks ! j) = x" using cover by blast
    have "j \<noteq> i" using j x(2) gone assms(3) by auto
    then show ?thesis using j other by (intro exI[of _ j]) simp
  qed
  moreover have "fds_release fd (ref_owner ref) t (fst (?ks ! j)) = Some (ref_owner (fst (snd (?ks ! j))))"
    if "j < length ks" "key_held (?ks ! j)" for j
    using that other[OF that(1)] t distinct rel by simp
  moreover have "a = b" if "a < length ks" "b < length ks" "key_held (?ks ! a)" "key_held (?ks ! b)" "fst (?ks ! a) = fst (?ks ! b)" for a b
    using that other uniq by simp
  ultimately show ?thesis unfolding fds_ok_def by simp
qed

definition binding_inv :: "'w binding \<Rightarrow> bool" where
  "binding_inv s \<longleftrightarrow>
     fds_ok (map lease_key (bd_leases s)) (pa_tunnels (bd_platform s)) \<and>
     (\<forall>i \<in> bd_releasing s. i < length (bd_leases s) \<and> \<not> tl_released (bd_leases s ! i) \<and> tl_closed (bd_leases s ! i)) \<and>
     (\<forall>l \<in> set (bd_leases s). tl_released l \<longrightarrow> tl_closed l) \<and>
     (\<forall>(ref, fd, cb) \<in> set (bd_pending s). fd \<ge> 0)"


lemma lease_Close_key:
  "lease_Close fclose l w = (l1, w1, err) \<Longrightarrow> lease_key l1 = lease_key l \<and> tl_released l1 = tl_released l \<and> tl_closed l1"
  by (auto simp: lease_Close_def lease_key_def split: if_splits prod.splits)

lemma map_key_update: "lease_key l1 = lease_key (ls ! i) \<Longrightarrow> map lease_key (ls[i := l1]) = map lease_key ls"
  by (cases "i < length ls") (simp_all add: map_update list_update_same_conv[THEN iffD2] list_update_beyond)

lemma acquire_reply_fd: "acquire_reply ref p w = (w1, Inr (fd, cb)) \<Longrightarrow> fd \<ge> 0"
  by (auto simp: acquire_reply_def split: option.splits sum.splits prod.splits if_splits)

lemma tunnels_simps [simp]:
  "pa_tunnels (setCallbacks cb p) = pa_tunnels p"
  "pa_tunnels (fst (PrepareTunnel ref p)) = pa_tunnels p"
  "pa_tunnels (platformLease_Release ref p) = pa_tunnels p"
  "pa_tunnels (PublishState event p) = pa_tunnels p"
  by (simp_all add: setCallbacks_def PrepareTunnel_def platformLease_Release_def PublishState_def split: option.split)

lemma publish_tunnels: "publishStateChange p w = (p1, w1) \<Longrightarrow> pa_tunnels p1 = pa_tunnels p"
  by (auto simp: publishStateChange_def split: option.splits)

lemma acquired_lease_key: "fd \<ge> 0 \<Longrightarrow> lease_key (fst (acquired_lease hasFile ref fd cb)) = (fd, ref, False)"
  by (simp add: acquired_lease_def descriptorAsUintptr_def lease_key_def make_lease_def)

lemma acquired_lease_fresh: "\<not> tl_released (fst (acquired_lease hasFile ref fd cb))"
  by (simp add: acquired_lease_def make_lease_def split: sum.split)

lemma binding_step_inv:
  assumes "binding_inv s" "binding_step fclose s s'"
  shows "binding_inv s'"
  using assms(2)
proof (cases rule: binding_step.cases)
  case (step_refused ref w1 err cb)
  then show ?thesis
    using assms(1) fds_ok_refused[of "map lease_key (bd_leases s)" _ ref]
    by (auto simp: binding_inv_def make_lease_def lease_key_def nth_append)
next
  case (step_reply ref w1 fd cb)
  then show ?thesis using assms(1) acquire_reply_fd[OF step_reply(2)] by (auto simp: binding_inv_def)
next
  case (step_reserved xs ref fd cb ys p1 hasFile)
  have fd: "fd \<ge> 0" using assms(1) step_reserved(2) by (auto simp: binding_inv_def)
  have p1: "pa_tunnels (bd_platform s) fd = None" "pa_tunnels p1 = (pa_tunnels (bd_platform s))(fd \<mapsto> ref_owner ref)"
    using step_reserved(3) by (auto simp: acquire_reserve_def fds_reserve_def split: if_splits)
  have "fds_ok (map lease_key (bd_leases s) @ [(fd, ref, False)]) (pa_tunnels p1)"
    using fds_ok_reserve[of "map lease_key (bd_leases s)" "pa_tunnels (bd_platform s)" fd ref] p1 fd assms(1) by (simp add: binding_inv_def)
  moreover have "\<forall>i \<in> bd_releasing s. i < length (bd_leases s)" using assms(1) by (simp add: binding_inv_def)
  ultimately show ?thesis
    using assms(1) step_reserved(1,2)
    by (auto simp: binding_inv_def nth_append acquired_lease_key[OF fd] acquired_lease_fresh)
next
  case (step_reused xs ref fd cb ys p1 err)
  then have "p1 = bd_platform s" by (auto simp: acquire_reserve_def fds_reserve_def split: if_splits)
  then show ?thesis using assms(1) step_reused by (auto simp: binding_inv_def)
next
  case (step_lease_close i l1 w1 err)
  note key = lease_Close_key[OF step_lease_close(3)]
  then have "map lease_key ((bd_leases s)[i := l1]) = map lease_key (bd_leases s)" by (simp add: map_key_update)
  then show ?thesis
    using assms(1) step_lease_close(1,2) key
    by (auto simp: binding_inv_def nth_list_update dest!: set_update_subset_insert[THEN subsetD])
next
  case (step_release_call i remaining w1 r)
  then show ?thesis using assms(1) by (auto simp: binding_inv_def)
next
  case (step_release_commit i)
  let ?l = "bd_leases s ! i"
  have i: "i < length (bd_leases s)" "\<not> tl_released ?l" "tl_closed ?l"
    using assms(1) step_release_commit(2) by (auto simp: binding_inv_def)
  have "fds_ok ((map lease_key (bd_leases s))[i := (tl_fd ?l, tl_ref ?l, True)])
      (fds_release (tl_fd ?l) (ref_owner (tl_ref ?l)) (pa_tunnels (bd_platform s)))"
    using fds_ok_release[of "map lease_key (bd_leases s)" _ i "tl_fd ?l" "tl_ref ?l"] assms(1) i
    by (simp add: binding_inv_def lease_key_def)
  then have "fds_ok (map lease_key ((bd_leases s)[i := ?l\<lparr>tl_released := True\<rparr>]))
      (pa_tunnels (release_commit (tl_ref ?l) (tl_fd ?l) (bd_platform s)))"
    by (simp add: map_update lease_key_def release_commit_def)
  then show ?thesis
    using assms(1) step_release_commit i
    by (auto simp: binding_inv_def nth_list_update dest!: set_update_subset_insert[THEN subsetD])
next
  case (step_published p1 w1)
  then show ?thesis using assms(1) publish_tunnels[OF step_published(2)] by (simp add: binding_inv_def)
qed (use assms(1) in \<open>simp_all add: binding_inv_def\<close>)

interpretation bindings: invariant_system "\<lambda>s. \<exists>cb w. s = new_binding cb w" "binding_step fclose" binding_inv for fclose
proof unfold_locales
  show "\<exists>cb w. s = new_binding cb w \<Longrightarrow> binding_inv s" for s :: "'a binding"
    by (elim exE) (simp add: new_binding_def binding_inv_def fds_ok_def)
qed (rule binding_step_inv)

text \<open>
  C22. A tunnel descriptor has one owner. In every interleaving of acquisitions and releases and whatever the
  platform replies, two leases that hold a descriptor and are not released hold different ones, the adapter's
  table lists exactly these descriptors with the session generations that own them, and a lease counts as
  released only after its file was closed. A descriptor that the platform hands out again while it is key_held is
  refused as a cleanup failure.
\<close>

theorem tunnel_fds_exclusive:
  assumes "(binding_step fclose)\<^sup>*\<^sup>* (new_binding cb w) s"
    and "i < length (bd_leases s)" "tl_fd (bd_leases s ! i) \<ge> 0" "\<not> tl_released (bd_leases s ! i)"
  shows "pa_tunnels (bd_platform s) (tl_fd (bd_leases s ! i)) = Some (ref_owner (tl_ref (bd_leases s ! i))) \<and>
    (\<forall>j < length (bd_leases s). j \<noteq> i \<longrightarrow> \<not> tl_released (bd_leases s ! j) \<longrightarrow> tl_fd (bd_leases s ! j) \<noteq> tl_fd (bd_leases s ! i)) \<and>
    (\<forall>fd. pa_tunnels (bd_platform s) fd \<noteq> None \<longrightarrow>
       (\<exists>j < length (bd_leases s). tl_fd (bd_leases s ! j) = fd \<and> fd \<ge> 0 \<and> \<not> tl_released (bd_leases s ! j))) \<and>
    (\<forall>l \<in> set (bd_leases s). tl_released l \<longrightarrow> tl_closed l) \<and>
    (\<exists>e. acquire_reserve ref (tl_fd (bd_leases s ! i)) (bd_platform s) = (bd_platform s, Some (CleanupFailure e)))"
proof -
  have inv: "binding_inv s" by (rule bindings.reach_inv[OF _ assms(1)]) blast
  let ?ks = "map lease_key (bd_leases s)"
  have key: "?ks ! j = (tl_fd (bd_leases s ! j), tl_ref (bd_leases s ! j), tl_released (bd_leases s ! j))"
    if "j < length (bd_leases s)" for j
    using that by (simp add: lease_key_def)
  have ok: "fds_ok ?ks (pa_tunnels (bd_platform s))" using inv by (simp add: binding_inv_def)
  have here: "pa_tunnels (bd_platform s) (tl_fd (bd_leases s ! i)) = Some (ref_owner (tl_ref (bd_leases s ! i)))"
    using ok assms(2-4) key[OF assms(2)] unfolding fds_ok_def by (metis fst_conv key_held.simps length_map snd_conv)
  have other: "tl_fd (bd_leases s ! j) \<noteq> tl_fd (bd_leases s ! i)"
    if "j < length (bd_leases s)" "j \<noteq> i" "\<not> tl_released (bd_leases s ! j)" for j
  proof
    assume eq: "tl_fd (bd_leases s ! j) = tl_fd (bd_leases s ! i)"
    have "key_held (?ks ! j)" "key_held (?ks ! i)" "fst (?ks ! j) = fst (?ks ! i)"
      using eq that assms(2-4) key by simp_all
    then show False using ok that assms(2) unfolding fds_ok_def by (metis length_map)
  qed
  have cover: "\<exists>j < length (bd_leases s). tl_fd (bd_leases s ! j) = fd \<and> fd \<ge> 0 \<and> \<not> tl_released (bd_leases s ! j)"
    if t: "pa_tunnels (bd_platform s) fd \<noteq> None" for fd
  proof -
    obtain j where j: "j < length (bd_leases s)" "key_held (?ks ! j)" "fst (?ks ! j) = fd"
      using ok t unfolding fds_ok_def by (metis length_map)
    then show ?thesis using key[OF j(1)] by (intro exI[of _ j]) simp
  qed
  have "acquire_reserve ref (tl_fd (bd_leases s ! i)) (bd_platform s) = (bd_platform s, Some (CleanupFailure
      (Plain (''platform reused an active tunnel descriptor '' @ nat_digits (nat (tl_fd (bd_leases s ! i)))))))"
    using here by (simp add: acquire_reserve_def fds_reserve_def)
  then show ?thesis using here other cover inv by (auto simp: binding_inv_def)
qed

section \<open>A run\<close>

definition sample_callbacks :: "unit callbacks" where
  "sample_callbacks = \<lparr>cb_AcquireTunnel = (\<lambda>s g d w. (w, \<lparr>tr_raw = [], tr_result = \<lparr>nt_FD = Some 5, nt_Error = [], nt_CleanupPending = False\<rparr>,
       tr_err = None, tr_valid = True\<rparr>)),
     cb_ReleaseTunnel = (\<lambda>s g f t w. (w, \<lparr>tr_raw = [], tr_result = \<lparr>nt_FD = None, nt_Error = [], nt_CleanupPending = False\<rparr>,
       tr_err = None, tr_valid = True\<rparr>)),
     cb_ProtectSocket = (\<lambda>s g f w. (w, True)), cb_PublishState = (\<lambda>s g st f w. w)\<rparr>"

definition sample_mobile_ref :: session_ref where
  "sample_mobile_ref = \<lparr>ref_SessionID = ''s'', ref_Generation = 1\<rparr>"

definition sample_pending :: "unit binding" where
  "sample_pending = (new_binding (Some sample_callbacks) ())\<lparr>bd_pending := [(sample_mobile_ref, 5, sample_callbacks)]\<rparr>"

definition sample_binding :: "unit binding" where
  "sample_binding = sample_pending\<lparr>bd_platform := fst (acquire_reserve sample_mobile_ref 5 (bd_platform sample_pending)), bd_pending := [],
     bd_leases := [fst (acquired_lease (\<lambda>_. True) sample_mobile_ref 5 sample_callbacks)]\<rparr>"

lemma sample_binding_reach: "(binding_step (\<lambda>w. (w, None)))\<^sup>*\<^sup>* (new_binding (Some sample_callbacks) ()) sample_binding"
proof -
  have "acquire_reply sample_mobile_ref (bd_platform (new_binding (Some sample_callbacks) ())) () = ((), Inr (5, sample_callbacks))"
    by (simp add: acquire_reply_def new_binding_def sample_mobile_ref_def generationAsInt64_def decodeTunnelResult_def) 
       (simp add: sample_callbacks_def)
  then have "binding_step (\<lambda>w. (w, None)) (new_binding (Some sample_callbacks) ()) sample_pending"
    using step_reply[of sample_mobile_ref "new_binding (Some sample_callbacks) ()" "()" 5 sample_callbacks "\<lambda>w. (w, None)"]
    by (simp add: sample_pending_def new_binding_def)
  moreover have "binding_step (\<lambda>w. (w, None)) sample_pending sample_binding"
    using step_reserved[of sample_pending "[]" sample_mobile_ref 5 sample_callbacks "[]" "fst (acquire_reserve sample_mobile_ref 5 (bd_platform sample_pending))"
        "\<lambda>w. (w, None)" "\<lambda>_. True"]
    by (simp add: sample_binding_def sample_pending_def new_binding_def acquire_reserve_def fds_reserve_def)
  ultimately show ?thesis by (meson converse_rtranclp_into_rtranclp rtranclp.rtrancl_refl)
qed

theorem tunnel_fds_exclusive_witness:
  "pa_tunnels (bd_platform sample_binding) 5 = Some \<lparr>fo_session = ''s'', fo_generation = 1\<rparr> \<and>
   (\<exists>e. acquire_reserve sample_mobile_ref 5 (bd_platform sample_binding) = (bd_platform sample_binding, Some (CleanupFailure e)))"
proof -
  have l: "bd_leases sample_binding = [make_lease True 5 sample_mobile_ref (Some sample_callbacks)]"
    by (simp add: sample_binding_def acquired_lease_def descriptorAsUintptr_def)
  show ?thesis
    using tunnel_fds_exclusive[OF sample_binding_reach, of 0 sample_mobile_ref]
    by (simp add: l make_lease_def ref_owner_def sample_mobile_ref_def)
qed

end
