(* ===== verification/Mobile_Resolver.thy ===== *)
theory Mobile_Resolver
  imports DNS_Cache Mobile_Platform
begin

text \<open>
  Name resolution of the mobile builds (\<^verbatim>\<open>core/sessionapi/mobilebinding/resolver.go\<close>): the capture of the
  underlying network, the native resolver of Android, and \<^verbatim>\<open>ConfigureResolver\<close>, which installs both as the
  resolver source of a cache of theory \<open>DNS_Cache\<close>.

  The adapter's table of active references is part of the state \<open>'w\<close> of the outside, since it changes while a
  query runs. A reply of the platform appears as what \<^verbatim>\<open>json.Unmarshal\<close> makes of it. The cancellation of a
  native query while it runs is part of what the query does to the outside.
\<close>

record underlying_network =
  un_Revision :: string
  un_InterfaceIndex :: int
  un_Error :: string

record 'w native_lookup =
  nl_next :: "'w \<Rightarrow> 'w \<times> int"
  nl_remaining :: "'w \<Rightarrow> int option"
  nl_resolve :: "string \<Rightarrow> int \<Rightarrow> string \<Rightarrow> int \<Rightarrow> string \<Rightarrow> int \<Rightarrow> 'w \<Rightarrow> 'w \<times> string list \<times> string \<times> go_error option"
  nl_finish :: "int \<Rightarrow> 'w \<Rightarrow> 'w"

record 'w native_env =
  ne_ctx :: "'w \<Rightarrow> go_error option"
  ne_active :: "'w \<Rightarrow> string \<rightharpoonup> session_ref"
  ne_underlying :: "string \<Rightarrow> int \<Rightarrow> 'w \<Rightarrow> 'w \<times> underlying_network \<times> go_error option"
  ne_lookup :: "'w native_lookup option"
  ne_scoped :: "int \<Rightarrow> go_error + 'w lookup"

text \<open>A missing entry of the table reads as the zero reference.\<close>

definition ref_active :: "'w native_env \<Rightarrow> session_ref \<Rightarrow> 'w \<Rightarrow> bool" where
  "ref_active env ref w \<longleftrightarrow> (case ne_active env w (ref_SessionID ref) of
       Some r \<Rightarrow> r = ref
     | None \<Rightarrow> ref = \<lparr>ref_SessionID = [], ref_Generation = 0\<rparr>)"

definition captureUnderlyingNetwork ::
  "'w native_env \<Rightarrow> session_ref \<Rightarrow> int \<Rightarrow> 'w \<Rightarrow> 'w \<times> (go_error + underlying_network)" where
  "captureUnderlyingNetwork env ref generation w = (case ne_ctx env w of
       Some err \<Rightarrow> (w, Inl err)
     | None \<Rightarrow>
         if \<not> ref_active env ref w then (w, Inl (Plain ''underlying network owner is obsolete''))
         else (case ne_underlying env (ref_SessionID ref) generation w of
             (w1, network, Some err) \<Rightarrow> (w1, Inl err)
           | (w1, network, None) \<Rightarrow>
               (w1, if un_Error network \<noteq> [] then Inl (Plain (un_Error network))
                    else if un_Revision network = [] then Inl (Plain ''underlying network has no revision'')
                    else Inr network)))"

text \<open>The reason in the text of a \<^verbatim>\<open>netip.ParseAddr\<close> error is left out.\<close>

fun parse_native_addresses :: "string list \<Rightarrow> ipaddr list \<Rightarrow> go_error + ipaddr list" where
  "parse_native_addresses [] addresses = Inr addresses"
| "parse_native_addresses (value # rest) addresses = (case parse_addr_zone value of
       None \<Rightarrow> Inl (Wrap (''native DNS address '' @ go_quote value @ '': '') (Plain (''ParseAddr('' @ go_quote value @ '')'')))
     | Some a \<Rightarrow> parse_native_addresses rest (addresses @ [a]))"

definition newNativeUnderlyingResolver :: "'w native_lookup \<Rightarrow> session_ref \<Rightarrow> int \<Rightarrow> string \<Rightarrow> 'w lookup" where
  "newNativeUnderlyingResolver nl ref generation revision host w = (case nl_next nl w of (w1, query) \<Rightarrow>
     (case nl_remaining nl w1 of
        None \<Rightarrow> (w1, [], Some (Plain ''native DNS query requires a deadline''))
      | Some remaining \<Rightarrow>
          if remaining \<le> 0 then (w1, [], Some (Sentinel DeadlineExceeded))
          else (case nl_resolve nl (ref_SessionID ref) generation revision query host remaining w1 of (w2, values, message, err) \<Rightarrow>
            (let w3 = nl_finish nl query w2 in
             case err of
               Some e \<Rightarrow> (w3, [], Some e)
             | None \<Rightarrow> if message \<noteq> [] then (w3, [], Some (Plain message))
                       else (case parse_native_addresses values [] of
                           Inl e \<Rightarrow> (w3, [], Some e)
                         | Inr addresses \<Rightarrow> (w3, addresses, None))))))"

text \<open>The closure that checks after each query that the captured network is still the current one.\<close>

definition fenced_resolver :: "'w native_env \<Rightarrow> session_ref \<Rightarrow> int \<Rightarrow> underlying_network \<Rightarrow> 'w lookup \<Rightarrow> 'w lookup" where
  "fenced_resolver env ref generation network resolve host w = (case resolve host w of (w1, addresses, err) \<Rightarrow>
     (case captureUnderlyingNetwork env ref generation w1 of
        (w2, Inl captureErr) \<Rightarrow> (w2, [], errors_join [err, Some captureErr])
      | (w2, Inr current) \<Rightarrow>
          if current \<noteq> network
          then (w2, [], errors_join [err, Some (Plain ''native underlying network changed during DNS query'')])
          else (w2, addresses, err)))"

definition network_resolver :: "'w native_env \<Rightarrow> session_ref \<Rightarrow> int \<Rightarrow> underlying_network \<Rightarrow> go_error + 'w lookup" where
  "network_resolver env ref generation network = (case ne_lookup env of
       Some nl \<Rightarrow> Inr (newNativeUnderlyingResolver nl ref generation (un_Revision network))
     | None \<Rightarrow> ne_scoped env (un_InterfaceIndex network))"

definition native_source :: "'w native_env \<Rightarrow> session_ref \<Rightarrow> int \<Rightarrow> 'w source" where
  "native_source env ref generation w = (case captureUnderlyingNetwork env ref generation w of
       (w1, Inl err) \<Rightarrow> (w1, [], None, Some err)
     | (w1, Inr network) \<Rightarrow> (case network_resolver env ref generation network of
         Inl err \<Rightarrow> (w1, [], None, Some err)
       | Inr resolve \<Rightarrow> (w1, un_Revision network, Some (fenced_resolver env ref generation network resolve), None)))"

text \<open>\<open>native\<close> is whether the registered callbacks have \<^verbatim>\<open>UnderlyingNetwork\<close>.\<close>

definition ConfigureResolver ::
  "'w native_env \<Rightarrow> bool \<Rightarrow> session_ref \<Rightarrow> 'w cache \<Rightarrow> 'w \<Rightarrow> 'w cache \<times> 'w \<times> go_error option" where
  "ConfigureResolver env native ref c w =
     (if \<not> native then (c, w, Some (Plain ''native underlying network context is unavailable''))
      else (case generationAsInt64 (ref_Generation ref) of
          Inl err \<Rightarrow> (c, w, Some err)
        | Inr generation \<Rightarrow> (case captureUnderlyingNetwork env ref generation w of
            (w1, Inl err) \<Rightarrow> (c, w1, Some err)
          | (w1, Inr network) \<Rightarrow> (SetResolverSource (Some (native_source env ref generation)) c, w1, None))))"

section \<open>Answers\<close>

lemma capture_Inr:
  "captureUnderlyingNetwork env ref generation w = (w1, Inr network) \<Longrightarrow>
   ne_ctx env w = None \<and> ref_active env ref w \<and> un_Revision network \<noteq> [] \<and> un_Error network = []"
  by (auto simp: captureUnderlyingNetwork_def split: option.splits if_splits prod.splits)

lemma fenced_answer:
  assumes "fenced_resolver env ref generation network resolve host w = (w2, addresses, None)"
  shows "\<exists>w1. resolve host w = (w1, addresses, None) \<and> captureUnderlyingNetwork env ref generation w1 = (w2, Inr network)"
  using assms by (auto simp: fenced_resolver_def errors_join_def Let_def split: prod.splits sum.splits if_splits)

text \<open>
  C29. A mobile lookup is fenced to one network and one session generation. When a cache configured by
  \<^verbatim>\<open>ConfigureResolver\<close> returns addresses for a name, the platform reported the same underlying network, with a
  revision, before and after the query; the session generation that configured the cache was the active one at
  both moments, the context was live, and the addresses are what the resolver of that network returned.
\<close>

theorem native_answers_fenced:
  assumes "ConfigureResolver env native ref c0 w0 = (c, w, None)"
    and "generationAsInt64 (ref_Generation ref) = Inr generation"
    and "ResolveAddresses None h (fold run_cache_op ops) ctx2 (Some c) w' = (co, w2, Inr addresses)"
    and "parse_addr_zone (NormalizeHost h) = None" and "int (length ops) < 2 ^ 64"
  shows "\<exists>network resolve w3 w4. captureUnderlyingNetwork env ref generation w' = (w3, Inr network) \<and>
     network_resolver env ref generation network = Inr resolve \<and>
     resolve (NormalizeHost h) w3 = (w4, addresses, None) \<and>
     captureUnderlyingNetwork env ref generation w4 = (w2, Inr network) \<and>
     ref_active env ref w' \<and> ref_active env ref w4 \<and> ne_ctx env w4 = None \<and> un_Revision network \<noteq> [] \<and> addresses \<noteq> []"
proof -
  have c: "dc_source c = Some (native_source env ref generation)" "dc_resolver c = None"
    using assms(1,2) by (auto simp: ConfigureResolver_def SetResolverSource_def split: if_splits sum.splits prod.splits)
  obtain c1 w1 where cap: "captured_cache c w' = (c1, w1)" by fastforce
  note answer = lookup_answer[OF assms(3,4) cap assms(5)]
  obtain w3 r where capture: "captureUnderlyingNetwork env ref generation w' = (w3, r)" by fastforce
  have "\<exists>network resolve. r = Inr network \<and> network_resolver env ref generation network = Inr resolve"
    using answer c cap capture
    by (cases r; cases "network_resolver env ref generation (projr r)")
       (auto simp: captured_cache_def native_source_def SetResolver_def)
  then obtain network resolve where n: "r = Inr network" "network_resolver env ref generation network = Inr resolve" by blast
  then have "w1 = w3" "dc_resolver c1 = Some (fenced_resolver env ref generation network resolve)"
    using c cap capture by (auto simp: captured_cache_def native_source_def SetResolver_def)
  then have "fenced_resolver env ref generation network resolve (NormalizeHost h) w3 = (w2, addresses, None)" "addresses \<noteq> []"
    using answer by auto
  then show ?thesis
    using fenced_answer[of env ref generation network resolve] capture_Inr capture n by metis
qed


definition sample_native :: "unit native_env" where
  "sample_native = \<lparr>ne_ctx = (\<lambda>w. None), ne_active = (\<lambda>w. [''s'' \<mapsto> sample_mobile_ref]),
     ne_underlying = (\<lambda>s g w. (w, \<lparr>un_Revision = ''r1'', un_InterfaceIndex = 2, un_Error = []\<rparr>, None)),
     ne_lookup = Some \<lparr>nl_next = (\<lambda>w. (w, 1)), nl_remaining = (\<lambda>w. Some 5000),
       nl_resolve = (\<lambda>s g r q h t w. (w, [''1.2.3.4''], [], None)), nl_finish = (\<lambda>q w. w)\<rparr>,
     ne_scoped = (\<lambda>i. Inl (Plain ''no interface''))\<rparr>"

lemma sample_native_address: "parse_native_addresses [''1.2.3.4''] [] = Inr [([1, 2, 3, 4], [])]"
  by code_simp

lemma sample_generation: "generationAsInt64 (ref_Generation sample_mobile_ref) = Inr 1"
  by (simp add: generationAsInt64_def sample_mobile_ref_def)

lemma sample_capture:
  "captureUnderlyingNetwork sample_native sample_mobile_ref 1 w = (w, Inr \<lparr>un_Revision = ''r1'', un_InterfaceIndex = 2, un_Error = []\<rparr>)"
  by (simp add: captureUnderlyingNetwork_def sample_native_def ref_active_def sample_mobile_ref_def)

lemma sample_configure:
  "ConfigureResolver sample_native True sample_mobile_ref new_cache () =
     (SetResolverSource (Some (native_source sample_native sample_mobile_ref 1)) new_cache, (), None)"
  by (simp add: ConfigureResolver_def sample_generation sample_capture)

lemma sample_network_resolver:
  "network_resolver sample_native sample_mobile_ref 1 \<lparr>un_Revision = ''r1'', un_InterfaceIndex = 2, un_Error = []\<rparr> =
     Inr (newNativeUnderlyingResolver (the (ne_lookup sample_native)) sample_mobile_ref 1 ''r1'')"
  "newNativeUnderlyingResolver (the (ne_lookup sample_native)) sample_mobile_ref 1 ''r1'' host w = (w, [([1, 2, 3, 4], [])], None)"
  by (simp_all add: network_resolver_def newNativeUnderlyingResolver_def sample_native_def sample_native_address
      del: parse_native_addresses.simps)

theorem native_answers_fenced_witness:
  "fst (snd (ResolveAddresses None ''vpn.example'' (fold run_cache_op []) None
     (Some (SetResolverSource (Some (native_source sample_native sample_mobile_ref 1)) new_cache)) ())) = () \<and>
   (\<exists>network w3. captureUnderlyingNetwork sample_native sample_mobile_ref 1 () = (w3, Inr network) \<and> ref_active sample_native sample_mobile_ref w3)"
proof -
  have host: "NormalizeHost ''vpn.example'' = ''vpn.example''" "parse_addr_zone ''vpn.example'' = None" by code_simp+
  have run: "\<exists>co. ResolveAddresses None ''vpn.example'' (fold run_cache_op []) None
     (Some (SetResolverSource (Some (native_source sample_native sample_mobile_ref 1)) new_cache)) () = (co, (), Inr [([1, 2, 3, 4], [])])"
    by (simp add: ResolveAddresses_def host SetResolverSource_def new_cache_def native_source_def sample_capture
        sample_network_resolver SetResolver_def lookup_with_def fenced_resolver_def)
  then obtain co where "ResolveAddresses None ''vpn.example'' (fold run_cache_op []) None
     (Some (SetResolverSource (Some (native_source sample_native sample_mobile_ref 1)) new_cache)) () = (co, (), Inr [([1, 2, 3, 4], [])])" by blast
  from native_answers_fenced[OF sample_configure sample_generation this] host show ?thesis by auto
qed

end
