(* ===== verification/Outline_Device.thy ===== *)
theory Outline_Device
  imports Go_Net
begin

text \<open>
  The Outline protocol device (\<^verbatim>\<open>core/outline/ownership.go\<close> and \<^verbatim>\<open>outline_device.go\<close>): ownership of half-open
  transport streams while a dial runs, ownership of the connections and workers of the local SOCKS server and
  its shutdown, and the synthetic connection that answers DNS over UDP with a truncated response.

  Connections are numbers. The transports, the SOCKS server and the operating system may do and return
  anything; log calls and the slow-close timer are left out.
\<close>

section \<open>Streams of a dial in progress\<close>

text \<open>\<open>ps_pending\<close> is the map of pending streams, \<^const>\<open>None\<close> after it was taken; \<open>ps_open\<close> are the streams that are open.\<close>

record stream_scope =
  ps_pending :: "nat set option"
  ps_aborted :: bool
  ps_handedOff :: bool
  ps_open :: "nat set"

definition newPendingStreamConnScope :: stream_scope where
  "newPendingStreamConnScope = \<lparr>ps_pending = Some {}, ps_aborted = False, ps_handedOff = False, ps_open = {}\<rparr>"

definition takePendingLocked :: "stream_scope \<Rightarrow> stream_scope \<times> nat set" where
  "takePendingLocked s = (s\<lparr>ps_pending := None\<rparr>, case ps_pending s of None \<Rightarrow> {} | Some p \<Rightarrow> p)"

definition closeStreamConns :: "nat set \<Rightarrow> stream_scope \<Rightarrow> stream_scope" where
  "closeStreamConns conns s = s\<lparr>ps_open := ps_open s - conns\<rparr>"

text \<open>\<open>ctxErr\<close> is the context's error at the call. Writing to the nil map panics.\<close>

definition scope_register :: "go_error option \<Rightarrow> nat \<Rightarrow> stream_scope \<Rightarrow> (stream_scope \<times> go_error option) outcome" where
  "scope_register ctxErr conn s =
     (if ps_aborted s \<or> ps_handedOff s \<or> ctxErr \<noteq> None then
        (case takePendingLocked (if \<not> ps_handedOff s then s\<lparr>ps_aborted := True\<rparr> else s) of
           (s1, pending) \<Rightarrow> Ret (closeStreamConns (insert conn pending) s1,
              case ctxErr of Some err \<Rightarrow> Some err | None \<Rightarrow> Some (Sentinel NetErrClosed)))
      else (case ps_pending s of
          None \<Rightarrow> Panic
        | Some pending \<Rightarrow> Ret (s\<lparr>ps_pending := Some (insert conn pending)\<rparr>, None)))"

definition scope_handoff :: "go_error option \<Rightarrow> stream_scope \<Rightarrow> stream_scope \<times> bool" where
  "scope_handoff ctxErr s =
     (if ps_aborted s \<or> ctxErr \<noteq> None then
        (case takePendingLocked (s\<lparr>ps_aborted := True\<rparr>) of (s1, pending) \<Rightarrow> (closeStreamConns pending s1, False))
      else (s\<lparr>ps_handedOff := True, ps_pending := None\<rparr>, True))"

definition scope_abort :: "stream_scope \<Rightarrow> stream_scope" where
  "scope_abort s =
     (if ps_handedOff s then s
      else (case takePendingLocked (s\<lparr>ps_aborted := True\<rparr>) of (s1, pending) \<Rightarrow> closeStreamConns pending s1))"

text \<open>
  The dial of one flow: the transport registers the streams it opens, the context may be cancelled at any time,
  \<^verbatim>\<open>handleDial\<close> hands off at the end and always discards. A stream that the transport opens counts as open
  before it is registered.
\<close>

datatype scope_op = OpRegister nat "go_error option" | OpHandoff "go_error option" | OpAbort

fun run_scope_op :: "scope_op \<Rightarrow> stream_scope \<Rightarrow> stream_scope outcome" where
  "run_scope_op (OpRegister conn ctxErr) s =
     (case scope_register ctxErr conn (s\<lparr>ps_open := insert conn (ps_open s)\<rparr>) of Ret (s1, err) \<Rightarrow> Ret s1 | Panic \<Rightarrow> Panic)"
| "run_scope_op (OpHandoff ctxErr) s = Ret (fst (scope_handoff ctxErr s))"
| "run_scope_op OpAbort s = Ret (scope_abort s)"

fun scope_run :: "scope_op list \<Rightarrow> stream_scope \<Rightarrow> stream_scope outcome" where
  "scope_run [] s = Ret s"
| "scope_run (a # as) s = (case run_scope_op a s of Ret s1 \<Rightarrow> scope_run as s1 | Panic \<Rightarrow> Panic)"

definition scope_inv :: "stream_scope \<Rightarrow> bool" where
  "scope_inv s \<longleftrightarrow>
     (ps_pending s = None \<longrightarrow> ps_aborted s \<or> ps_handedOff s) \<and>
     (ps_handedOff s \<longrightarrow> ps_pending s = None) \<and>
     (ps_aborted s \<longrightarrow> ps_pending s = None \<and> (\<not> ps_handedOff s \<longrightarrow> ps_open s = {})) \<and>
     (\<forall>p. ps_pending s = Some p \<longrightarrow> ps_open s = p)"


lemmas scope_defs = scope_register_def scope_handoff_def scope_abort_def takePendingLocked_def closeStreamConns_def

lemma run_scope_op_inv:
  assumes "scope_inv s"
  shows "\<exists>s1. run_scope_op a s = Ret s1 \<and> scope_inv s1"
proof (cases "ps_pending s")
  case None
  then show ?thesis using assms by (cases a) (auto simp: scope_defs scope_inv_def)
next
  case (Some p)
  then show ?thesis
    using assms by (cases a; cases "ps_aborted s") (auto simp: scope_defs scope_inv_def)
qed

lemma scope_run_inv: "scope_inv s \<Longrightarrow> \<exists>s1. scope_run ops s = Ret s1 \<and> scope_inv s1"
proof (induction ops arbitrary: s)
  case (Cons a ops)
  then show ?case using run_scope_op_inv[of s a] by fastforce
qed simp

lemma scope_run_append:
  "scope_run (xs @ ys) s = (case scope_run xs s of Ret s1 \<Rightarrow> scope_run ys s1 | Panic \<Rightarrow> Panic)"
  by (induction xs arbitrary: s) (auto split: outcome.split)

fun registered :: "scope_op list \<Rightarrow> nat set" where
  "registered [] = {}"
| "registered (OpRegister conn _ # ops) = insert conn (registered ops)"
| "registered (OpHandoff err # ops) = registered ops"
| "registered (OpAbort # ops) = registered ops"

lemma handed_off_stays:
  "ps_handedOff s \<Longrightarrow> ps_pending s = None \<Longrightarrow> scope_run ops s = Ret s1 \<Longrightarrow>
     ps_handedOff s1 \<and> ps_open s1 = ps_open s - registered ops"
proof (induction ops arbitrary: s rule: registered.induct)
  case (2 conn err ops)
  have "run_scope_op (OpRegister conn err) s = Ret (s\<lparr>ps_pending := None, ps_open := ps_open s - {conn}\<rparr>)"
    using 2(2,3) by (cases err) (auto simp: scope_defs)
  then show ?case using 2(1)[of "s\<lparr>ps_pending := None, ps_open := ps_open s - {conn}\<rparr>"] 2(2,4) by auto
next
  case (3 err ops)
  have "\<exists>t. run_scope_op (OpHandoff err) s = Ret t \<and> ps_handedOff t \<and> ps_pending t = None \<and> ps_open t = ps_open s"
    using 3(2,3) by (cases "ps_aborted s"; cases err) (auto simp: scope_defs)
  then show ?case using 3(1,4) by fastforce
next
  case (4 ops)
  then show ?case by (simp add: scope_defs)
qed simp

text \<open>
  The streams of a dial always find an owner. Whatever the transport opens and whenever the context is
  cancelled, no call panics; when the dial is discarded without a hand-over, every stream it opened is closed;
  after a hand-over exactly the streams open at that moment stay open, and any stream the transport registers
  late is closed.
\<close>

theorem outline_streams_settle:
  shows "\<exists>s. scope_run ops newPendingStreamConnScope = Ret s \<and>
     (\<exists>s1. scope_run (ops @ [OpAbort]) newPendingStreamConnScope = Ret s1 \<and> (ps_handedOff s1 \<or> ps_open s1 = {})) \<and>
     (\<not> ps_aborted s \<longrightarrow> (\<exists>s2. scope_run (ops @ OpHandoff None # late) newPendingStreamConnScope = Ret s2 \<and>
        ps_open s2 = ps_open s - registered late))"
proof -
  have "scope_inv newPendingStreamConnScope" by (simp add: scope_inv_def newPendingStreamConnScope_def)
  then obtain s where s: "scope_run ops newPendingStreamConnScope = Ret s" "scope_inv s" using scope_run_inv by blast
  have "scope_inv (scope_abort s)" using run_scope_op_inv[OF s(2), of OpAbort] by simp
  moreover have "ps_handedOff (scope_abort s) \<or> ps_aborted (scope_abort s)" by (simp add: scope_defs)
  ultimately have abort: "ps_handedOff (scope_abort s) \<or> ps_open (scope_abort s) = {}" by (auto simp: scope_inv_def)
  have late: "\<exists>s2. scope_run (OpHandoff None # late) s = Ret s2 \<and> ps_open s2 = ps_open s - registered late"
    if live: "\<not> ps_aborted s"
  proof -
    let ?h = "s\<lparr>ps_handedOff := True, ps_pending := None\<rparr>"
    have h: "scope_run (OpHandoff None # late) s = scope_run late ?h" using live by (simp add: scope_handoff_def)
    obtain s2 where "scope_run late ?h = Ret s2"
      using scope_run_inv[of ?h late] run_scope_op_inv[OF s(2), of "OpHandoff None"] live by (auto simp: scope_handoff_def)
    then show ?thesis using handed_off_stays[of ?h late s2] h by auto
  qed
  show ?thesis using s(1) abort late by (auto simp: scope_run_append)
qed

theorem outline_streams_settle_witness:
  "\<exists>s2. scope_run ([OpRegister 1 None] @ OpHandoff None # [OpRegister 2 None, OpAbort]) newPendingStreamConnScope = Ret s2 \<and>
     ps_open s2 = {1}"
proof -
  let ?s = "\<lparr>ps_pending = Some {1}, ps_aborted = False, ps_handedOff = False, ps_open = {1}\<rparr>"
  have "scope_run [OpRegister 1 None] newPendingStreamConnScope = Ret ?s" by code_simp
  then show ?thesis
    using outline_streams_settle[of "[OpRegister 1 None]" "[OpRegister 2 None, OpAbort]"] by auto
qed


section \<open>Connections and workers\<close>

text \<open>
  \<open>ow_connections\<close> is the set of owned connections, \<open>ow_live\<close> the ones whose raw connection is open. \<^verbatim>\<open>Close\<close> has the
  program counter \<open>ow_close\<close>: it holds \<^verbatim>\<open>closeMu\<close>, so there is one at a time.
\<close>

datatype close_pc = CloseNone | CloseFirst "nat list" "go_error option" | CloseDrain | CloseLate "nat list" "go_error option"
  | CloseDone "go_error option"

record outline =
  ow_connections :: "nat set"
  ow_live :: "nat set"
  ow_closing :: bool
  ow_canceled :: bool
  ow_listening :: bool
  ow_workers :: nat
  ow_close :: close_pc
  ow_next :: nat

definition NewOutlineDevice :: outline where
  "NewOutlineDevice = \<lparr>ow_connections = {}, ow_live = {}, ow_closing = False, ow_canceled = False, ow_listening = True,
     ow_workers = 1, ow_close = CloseNone, ow_next = 0\<rparr>"

text \<open>\<^verbatim>\<open>track\<close>: the connection is owned in any case; during shutdown the caller does not get it.\<close>

definition outline_track :: "nat \<Rightarrow> outline \<Rightarrow> outline \<times> go_error option" where
  "outline_track conn d = (d\<lparr>ow_connections := insert conn (ow_connections d)\<rparr>,
     if ow_closing d then Some (Sentinel NetErrClosed) else None)"

text \<open>A new raw connection, dialed or accepted by a worker, and its tracking.\<close>

definition outline_open :: "outline \<Rightarrow> outline \<times> go_error option" where
  "outline_open d = outline_track (ow_next d) (d\<lparr>ow_live := insert (ow_next d) (ow_live d), ow_next := ow_next d + 1\<rparr>)"

text \<open>
  \<^verbatim>\<open>ownedConn.Close\<close>, with the result of the raw close. A connection that is not owned any more was closed; a raw
  close that fails with another error may leave it open.
\<close>

definition ownedConn_Close :: "nat \<Rightarrow> go_error option \<Rightarrow> outline \<Rightarrow> outline \<times> go_error option" where
  "ownedConn_Close conn raw d =
     (if conn \<notin> ow_connections d then (d, None)
      else (case raw of
          Some err \<Rightarrow> if errors_is err NetErrClosed
                      then (d\<lparr>ow_connections := ow_connections d - {conn}, ow_live := ow_live d - {conn}\<rparr>, None)
                      else (d, Some err)
        | None \<Rightarrow> (d\<lparr>ow_connections := ow_connections d - {conn}, ow_live := ow_live d - {conn}\<rparr>, None)))"

definition outline_Submit :: "outline \<Rightarrow> outline" where
  "outline_Submit d = d\<lparr>ow_workers := ow_workers d + 1\<rparr>"

definition worker_done :: "outline \<Rightarrow> outline" where
  "worker_done d = d\<lparr>ow_workers := ow_workers d - 1\<rparr>"

text \<open>
  \<^verbatim>\<open>handleDial\<close> after the transport returned: \<open>dialErr\<close> is its error, \<open>ctxErr\<close> the context's error at the hand-over,
  \<open>dns\<close> whether the destination port is 53, \<open>forceTCP\<close> the platform's \<^verbatim>\<open>forceTCPDNSForPlatform\<close>. The deferred
  \<^verbatim>\<open>discard\<close> is the last abort. A connection that the device does not take over is closed here.
\<close>

definition dial_settled :: "string \<Rightarrow> string \<Rightarrow> go_error option \<Rightarrow> go_error option \<Rightarrow> stream_scope \<Rightarrow> go_error option" where
  "dial_settled what late dialErr ctxErr s = (case dialErr of
       Some err \<Rightarrow> Some (Wrap what err)
     | None \<Rightarrow> if snd (scope_handoff ctxErr s) then None
               else Some (Wrap (what @ late) (case ctxErr of Some e \<Rightarrow> e | None \<Rightarrow> Sentinel NetErrClosed)))"

definition handleDial ::
  "bool \<Rightarrow> string \<Rightarrow> string \<Rightarrow> bool \<Rightarrow> go_error option \<Rightarrow> go_error option \<Rightarrow> stream_scope \<Rightarrow> outline
     \<Rightarrow> stream_scope \<times> outline \<times> go_error option" where
  "handleDial forceTCP network address dns dialErr ctxErr s d =
     (if network = ''udp'' \<and> forceTCP \<and> dns then (case outline_open d of (d1, err) \<Rightarrow> (s, d1, err))
      else if network \<in> {''tcp'', ''udp''} then
        (let what = (if network = ''tcp'' then ''StreamDialer failed for '' else ''PacketDialer failed for '') @ address @ '': '';
             late = (if network = ''tcp'' then ''stream dial completed after its pending connection was canceled: '' else []);
             s1 = scope_abort (if dialErr = None then fst (scope_handoff ctxErr s) else s) in
         case dial_settled what late dialErr ctxErr s of
           Some err \<Rightarrow> (s1, d, Some err)
         | None \<Rightarrow> (case outline_open d of (d1, err) \<Rightarrow> (s1, d1, err)))
      else (s, d, Some (Plain (''unsupported network '' @ network))))"

text \<open>A dial gives its caller a connection only when the streams were handed over and the device is not closing.\<close>

lemma handleDial_success:
  assumes "handleDial forceTCP network address dns dialErr ctxErr s d = (s1, d1, None)" "network \<noteq> ''udp'' \<or> \<not> (forceTCP \<and> dns)"
  shows "dialErr = None \<and> snd (scope_handoff ctxErr s) \<and> \<not> ow_closing d \<and> ps_handedOff s1 \<and> ps_open s1 = ps_open s"
  using assms
  by (auto simp: handleDial_def Let_def dial_settled_def outline_open_def outline_track_def scope_handoff_def scope_abort_def
      split: if_splits option.splits prod.splits)

text \<open>
  \<^verbatim>\<open>Close\<close> up to the first loop: cancel, fence, take the connections in some order, close the listener. Then one
  connection per step, the wait for the workers, and the connections that arrived late.
\<close>

definition outline_Close_begin :: "nat list \<Rightarrow> go_error option \<Rightarrow> outline \<Rightarrow> outline" where
  "outline_Close_begin conns raw d =
     (let result = (case raw of
            Some err \<Rightarrow> if errors_is err NetErrClosed then None else Some (Wrap ''close Outline SOCKS listener: '' err)
          | None \<Rightarrow> None)
      in d\<lparr>ow_canceled := True, ow_closing := True, ow_listening := (ow_listening d \<and> result \<noteq> None), ow_close := CloseFirst conns result\<rparr>)"

fun outline_Close_step :: "go_error option \<Rightarrow> nat list \<Rightarrow> outline \<Rightarrow> close_pc \<Rightarrow> outline" where
  "outline_Close_step raw snapshot d (CloseFirst (conn # rest) result) =
     (case ownedConn_Close conn raw d of (d1, err) \<Rightarrow> d1\<lparr>ow_close := CloseFirst rest (errors_join [result, err])\<rparr>)"
| "outline_Close_step raw snapshot d (CloseFirst [] result) =
     d\<lparr>ow_close := (if result \<noteq> None then CloseDone result else CloseDrain)\<rparr>"
| "outline_Close_step raw snapshot d CloseDrain = (if ow_workers d = 0 then d\<lparr>ow_close := CloseLate snapshot None\<rparr> else d)"
| "outline_Close_step raw snapshot d (CloseLate (conn # rest) result) =
     (case ownedConn_Close conn raw d of (d1, err) \<Rightarrow> d1\<lparr>ow_close := CloseLate rest (errors_join [result, err])\<rparr>)"
| "outline_Close_step raw snapshot d (CloseLate [] result) = d\<lparr>ow_close := CloseDone result\<rparr>"
| "outline_Close_step raw snapshot d pc = d"

inductive outline_step :: "outline \<Rightarrow> outline \<Rightarrow> bool" where
  outline_dial: "ow_workers d > 0 \<Longrightarrow> outline_step d (fst (outline_open d))"
| outline_conn: "ow_workers d > 0 \<Longrightarrow> outline_step d (fst (ownedConn_Close conn raw d))"
| outline_submit: "ow_workers d > 0 \<Longrightarrow> outline_step d (outline_Submit d)"
| outline_worker_done: "ow_workers d > 0 \<Longrightarrow> outline_step d (worker_done d)"
| outline_close_begin: "ow_close d = CloseNone \<or> ow_close d = CloseDone r \<Longrightarrow> set conns = ow_connections d \<Longrightarrow>
     outline_step d (outline_Close_begin conns raw d)"
| outline_close_step: "set snapshot = ow_connections d \<Longrightarrow> outline_step d (outline_Close_step raw snapshot d (ow_close d))"

definition outline_inv :: "outline \<Rightarrow> bool" where
  "outline_inv d \<longleftrightarrow> ow_live d \<subseteq> ow_connections d \<and>
     (ow_close d \<noteq> CloseNone \<longrightarrow> ow_closing d \<and> ow_canceled d) \<and>
     (case ow_close d of
        CloseFirst conns result \<Rightarrow> result = None \<longrightarrow> \<not> ow_listening d
      | CloseDrain \<Rightarrow> \<not> ow_listening d
      | CloseLate conns result \<Rightarrow> \<not> ow_listening d \<and> ow_workers d = 0 \<and> (result = None \<longrightarrow> ow_connections d \<subseteq> set conns)
      | CloseDone result \<Rightarrow> result = None \<longrightarrow> \<not> ow_listening d \<and> ow_workers d = 0 \<and> ow_connections d = {}
      | _ \<Rightarrow> True)"

lemma ownedConn_Close_cases:
  obtains (gone) "ownedConn_Close conn raw d = (d, None)" "conn \<notin> ow_connections d"
  | (closed) "ownedConn_Close conn raw d = (d\<lparr>ow_connections := ow_connections d - {conn}, ow_live := ow_live d - {conn}\<rparr>, None)"
  | (failed) err where "ownedConn_Close conn raw d = (d, Some err)"
  by (cases "conn \<in> ow_connections d"; cases raw; cases "errors_is (the raw) NetErrClosed") (auto simp: ownedConn_Close_def)

lemma errors_join2: "errors_join [r, e] = None \<longleftrightarrow> r = None \<and> e = None"
  by (auto simp: errors_join_def split: option.splits)

lemma close_step_inv:
  assumes "outline_inv d" "set snapshot = ow_connections d"
  shows "outline_inv (outline_Close_step raw snapshot d (ow_close d))"
proof (cases "ow_close d")
  case (CloseFirst conns result)
  show ?thesis
  proof (cases conns)
    case Nil
    then show ?thesis using assms CloseFirst by (auto simp: outline_inv_def)
  next
    case (Cons conn rest)
    show ?thesis
      by (cases rule: ownedConn_Close_cases[of conn raw d])
         (use assms(1) CloseFirst Cons in \<open>auto simp: outline_inv_def errors_join2\<close>)
  qed
next
  case (CloseLate conns result)
  show ?thesis
  proof (cases conns)
    case Nil
    then show ?thesis using assms CloseLate by (auto simp: outline_inv_def)
  next
    case (Cons conn rest)
    show ?thesis
      by (cases rule: ownedConn_Close_cases[of conn raw d])
         (use assms(1) CloseLate Cons in \<open>auto simp: outline_inv_def errors_join2\<close>)
  qed
qed (use assms in \<open>auto simp: outline_inv_def\<close>)

lemma outline_step_inv: "outline_inv d \<Longrightarrow> outline_step d d' \<Longrightarrow> outline_inv d'"
proof (erule outline_step.cases, goal_cases)
  case (1 e)
  then show ?case
    by (cases "ow_close d") (auto simp: outline_inv_def outline_open_def outline_track_def)
next
  case (2 e conn raw)
  then show ?case
    by (cases rule: ownedConn_Close_cases[of conn raw d]; cases "ow_close d") (auto simp: outline_inv_def)
next
  case (3 e)
  then show ?case by (cases "ow_close d") (auto simp: outline_inv_def outline_Submit_def)
next
  case (4 e)
  then show ?case by (cases "ow_close d") (auto simp: outline_inv_def worker_done_def)
next
  case (5 e r conns raw)
  then show ?case by (auto simp: outline_inv_def outline_Close_begin_def Let_def split: option.split)
next
  case (6 snapshot e raw)
  then show ?case using close_step_inv by blast
qed

interpretation outlines: invariant_system "\<lambda>d. d = NewOutlineDevice" outline_step outline_inv
proof unfold_locales
  show "d = NewOutlineDevice \<Longrightarrow> outline_inv d" for d by (simp add: outline_inv_def NewOutlineDevice_def)
qed (rule outline_step_inv)

definition outline_quiet :: "outline \<Rightarrow> bool" where
  "outline_quiet d \<longleftrightarrow> ow_connections d = {} \<and> ow_live d = {} \<and> ow_workers d = 0 \<and> \<not> ow_listening d \<and> ow_closing d"

lemma quiet_close: "outline_quiet d \<Longrightarrow> ownedConn_Close conn raw d = (d, None)"
  by (simp add: outline_quiet_def ownedConn_Close_def)

lemma quiet_step: "outline_quiet d \<Longrightarrow> outline_step d d' \<Longrightarrow> outline_quiet d'"
proof (erule outline_step.cases, goal_cases)
  case (5 e r conns raw)
  then show ?case by (simp add: outline_quiet_def outline_Close_begin_def Let_def)
next
  case (6 snapshot e raw)
  have "outline_quiet (outline_Close_step raw snapshot d (ow_close d))"
    using 6(1) by (cases "(raw, snapshot, d, ow_close d)" rule: outline_Close_step.cases) (auto simp: quiet_close outline_quiet_def ownedConn_Close_def)
  then show ?case using 6 by simp
qed (auto simp: outline_quiet_def)

text \<open>
  C23. When \<^verbatim>\<open>Close\<close> of an Outline device returns nil, nothing of the device is left: the listener is closed, all
  workers have ended, every connection that was ever dialed or accepted is closed, and it stays that way. This
  holds for every interleaving with workers that dial, accept, spawn and close meanwhile, and for every repeated
  \<^verbatim>\<open>Close\<close> after failures. As long as \<^verbatim>\<open>Close\<close> has not succeeded, every open connection is still owned.
\<close>

theorem outline_close_complete:
  assumes "outline_step\<^sup>*\<^sup>* NewOutlineDevice d"
  shows "ow_live d \<subseteq> ow_connections d \<and>
    (ow_close d = CloseDone None \<and> outline_step\<^sup>*\<^sup>* d d' \<longrightarrow>
       ow_live d' = {} \<and> ow_connections d' = {} \<and> ow_workers d' = 0 \<and> \<not> ow_listening d')"
proof -
  have inv: "outline_inv d" using outlines.reach_inv assms by blast
  have quiet: "outline_quiet d" if "ow_close d = CloseDone None"
    using inv that by (auto simp: outline_inv_def outline_quiet_def)
  have "outline_quiet d'" if "outline_step\<^sup>*\<^sup>* d d'" "outline_quiet d"
    using that by (induction rule: rtranclp_induct) (auto intro: quiet_step)
  then show ?thesis using quiet inv by (auto simp: outline_inv_def outline_quiet_def)
qed

text \<open>A run in which a connection arrives during the shutdown.\<close>

fun outline_path :: "outline list \<Rightarrow> bool" where
  "outline_path (d # e # ds) \<longleftrightarrow> outline_step d e \<and> outline_path (e # ds)"
| "outline_path _ \<longleftrightarrow> True"

lemma outline_path_steps: "outline_path (d # ds) \<Longrightarrow> outline_step\<^sup>*\<^sup>* d (last (d # ds))"
  by (induction ds arbitrary: d) (auto intro: converse_rtranclp_into_rtranclp)

definition late_run :: "outline list" where
  "late_run =
     (let d1 = outline_Close_begin [] None NewOutlineDevice;
          d2 = fst (outline_open d1);
          d3 = outline_Close_step None [0] d2 (ow_close d2);
          d4 = worker_done d3;
          d5 = outline_Close_step None [0] d4 (ow_close d4);
          d6 = outline_Close_step None [0] d5 (ow_close d5);
          d7 = outline_Close_step None [] d6 (ow_close d6)
      in [d1, d2, d3, d4, d5, d6, d7])"

lemmas late_defs = late_run_def Let_def NewOutlineDevice_def outline_Close_begin_def outline_open_def outline_track_def
  worker_done_def ownedConn_Close_def errors_join_def

lemma late_run_path: "outline_path (NewOutlineDevice # late_run)"
proof -
  let ?d0 = NewOutlineDevice
  let ?d1 = "late_run ! 0" and ?d2 = "late_run ! 1" and ?d3 = "late_run ! 2" and ?d4 = "late_run ! 3" and ?d5 = "late_run ! 4"
    and ?d6 = "late_run ! 5" and ?d7 = "late_run ! 6"
  have run: "late_run = [?d1, ?d2, ?d3, ?d4, ?d5, ?d6, ?d7]" by (simp add: late_run_def Let_def)
  have "outline_step ?d0 ?d1" using outline_close_begin[of ?d0 None "[]" None] by (simp add: late_defs)
  moreover have "outline_step ?d1 ?d2" using outline_dial[of ?d1] by (simp add: late_defs)
  moreover have "outline_step ?d2 ?d3" using outline_close_step[of "[0]" ?d2 None] by (simp add: late_defs)
  moreover have "outline_step ?d3 ?d4" using outline_worker_done[of ?d3] by (simp add: late_defs)
  moreover have "outline_step ?d4 ?d5" using outline_close_step[of "[0]" ?d4 None] by (simp add: late_defs)
  moreover have "outline_step ?d5 ?d6" using outline_close_step[of "[0]" ?d5 None] by (simp add: late_defs)
  moreover have "outline_step ?d6 ?d7" using outline_close_step[of "[]" ?d6 None] by (simp add: late_defs)
  ultimately show ?thesis by (subst run) simp
qed

theorem outline_close_complete_witness:
  "ow_close (last late_run) = CloseDone None \<and> ow_live (late_run ! 1) = {0} \<and> ow_live (last late_run) = {} \<and>
   ow_workers (last late_run) = 0"
proof -
  have "outline_step\<^sup>*\<^sup>* NewOutlineDevice (last late_run)"
    using outline_path_steps[OF late_run_path] by (simp add: late_run_def Let_def)
  moreover have "ow_close (last late_run) = CloseDone None" "ow_live (late_run ! 1) = {0}" by (simp_all add: late_defs)
  ultimately show ?thesis using outline_close_complete[of "last late_run" "last late_run"] by auto
qed

section \<open>Truncated DNS answers\<close>

unbundle bit_operations_syntax

record truncated_dns =
  td_pending :: "byte list"
  td_readErr :: "go_error option"
  td_closed :: bool

definition newTruncatedDNSConn :: truncated_dns where
  "newTruncatedDNSConn = \<lparr>td_pending = [], td_readErr = None, td_closed = False\<rparr>"

text \<open>A call that waits is \<^const>\<open>None\<close>. \<open>n\<close> is the length of the caller's buffer.\<close>

definition truncated_Read :: "nat \<Rightarrow> truncated_dns \<Rightarrow> (truncated_dns \<times> byte list \<times> go_error option) option" where
  "truncated_Read n c =
     (if td_pending c = [] \<and> td_readErr c = None \<and> \<not> td_closed c then None
      else (case td_readErr c of
          Some err \<Rightarrow> Some (c\<lparr>td_readErr := None\<rparr>, [], Some err)
        | None \<Rightarrow> if td_pending c = [] \<and> td_closed c then Some (c, [], Some (Sentinel IoEOF))
                  else Some (c\<lparr>td_pending := drop n (td_pending c)\<rparr>, take n (td_pending c), None)))"

definition truncated_response :: "byte list \<Rightarrow> byte list" where
  "truncated_response b =
     (let p1 = b[2 := (b ! 2) OR 0x80]; p2 = p1[2 := (p1 ! 2) OR 0x02] in p2[6 := 0, 7 := 0])"

definition truncated_Write :: "byte list \<Rightarrow> truncated_dns \<Rightarrow> (truncated_dns \<times> nat \<times> go_error option) option" where
  "truncated_Write b c =
     (if td_pending c \<noteq> [] \<and> \<not> td_closed c then None
      else if td_closed c then Some (c, 0, Some (Sentinel NetErrClosed))
      else if length b < 12 then Some (c\<lparr>td_readErr := Some (Plain ''invalid dns packet'')\<rparr>, length b, None)
      else Some (c\<lparr>td_pending := truncated_response b\<rparr>, length b, None))"

definition truncated_Close :: "truncated_dns \<Rightarrow> truncated_dns" where
  "truncated_Close c = c\<lparr>td_closed := True, td_pending := []\<rparr>"

text \<open>Reads with buffers of the given sizes, until one waits or fails.\<close>

fun read_all :: "nat list \<Rightarrow> truncated_dns \<Rightarrow> byte list \<times> truncated_dns" where
  "read_all [] c = ([], c)"
| "read_all (n # ns) c = (case truncated_Read n c of
       Some (c1, bs, None) \<Rightarrow> (case read_all ns c1 of (rest, c2) \<Rightarrow> (bs @ rest, c2))
     | _ \<Rightarrow> ([], c))"

lemma read_all_prefix:
  assumes "td_readErr c = None" "\<not> td_closed c"
  shows "fst (read_all ns c) = take (sum_list ns) (td_pending c) \<and>
    snd (read_all ns c) = c\<lparr>td_pending := drop (sum_list ns) (td_pending c)\<rparr>"
  using assms
proof (induction ns arbitrary: c)
  case (Cons n ns)
  show ?case
  proof (cases "td_pending c = []")
    case True
    then show ?thesis using Cons.prems by (simp add: truncated_Read_def)
  next
    case False
    let ?c = "c\<lparr>td_pending := drop n (td_pending c)\<rparr>"
    have "truncated_Read n c = Some (?c, take n (td_pending c), None)"
      using False Cons.prems by (simp add: truncated_Read_def)
    then show ?thesis
      using Cons.IH[of ?c] Cons.prems by (auto simp: take_add ac_simps split: prod.split)
  qed
qed simp



lemma truncated_response_bytes:
  assumes "length b \<ge> 12"
  shows "length (truncated_response b) = length b"
    and "i < length b \<Longrightarrow> i \<notin> {2, 6, 7} \<Longrightarrow> truncated_response b ! i = b ! i"
    and "bit (truncated_response b ! 2) k \<longleftrightarrow> bit (b ! 2) k \<or> k = 7 \<or> k = 1"
    and "truncated_response b ! 6 = 0" and "truncated_response b ! 7 = 0"
proof -
  have "bit ((b ! 2 OR 0x80) OR 0x02 :: byte) k \<longleftrightarrow> bit (b ! 2) k \<or> bit (0x80 :: byte) k \<or> bit (0x02 :: byte) k"
    by (simp add: bit_or_iff)
  moreover have "bit (0x80 :: byte) k \<longleftrightarrow> k = 7" "bit (0x02 :: byte) k \<longleftrightarrow> k = 1"
  proof -
    have "bit ((2 :: byte) ^ 7) k \<longleftrightarrow> k = 7" "bit ((2 :: byte) ^ 1) k \<longleftrightarrow> k = 1"
      unfolding bit_exp_iff by auto
    then show "bit (0x80 :: byte) k \<longleftrightarrow> k = 7" "bit (0x02 :: byte) k \<longleftrightarrow> k = 1" by simp_all
  qed
  ultimately show "bit (truncated_response b ! 2) k \<longleftrightarrow> bit (b ! 2) k \<or> k = 7 \<or> k = 1"
    using assms by (simp add: truncated_response_def Let_def)
qed (use assms in \<open>auto simp: truncated_response_def Let_def nth_list_update\<close>)

text \<open>
  The synthetic DNS connection answers each query with exactly one response and then waits. A query of at
  least twelve bytes is answered by a packet of the same length that differs only in the response and truncation
  bits and in an answer count of zero, however the reader splits its reads; so the identifier and the question
  are kept. While an answer is unread no further query is accepted. A shorter packet yields one error, a closed
  connection the end of file.
\<close>

theorem truncated_dns_answer:
  assumes "truncated_Write b c = Some (c1, n, None)" "td_pending c = []" "td_readErr c = None" "length b \<ge> 12" "sum_list ns \<ge> length b"
  shows "\<exists>r. fst (read_all ns c1) = r \<and> n = length b \<and> length r = length b \<and>
     (\<forall>i < length b. i \<notin> {2, 6, 7} \<longrightarrow> r ! i = b ! i) \<and>
     (\<forall>k. bit (r ! 2) k \<longleftrightarrow> bit (b ! 2) k \<or> k = 7 \<or> k = 1) \<and> r ! 6 = 0 \<and> r ! 7 = 0 \<and>
     truncated_Write b' c1 = None \<and> truncated_Read m (snd (read_all ns c1)) = None \<and>
     truncated_Read m (truncated_Close c1) = Some (truncated_Close c1, [], Some (Sentinel IoEOF))"
proof -
  have c1: "c1 = c\<lparr>td_pending := truncated_response b\<rparr>" "n = length b" "\<not> td_closed c"
    using assms by (auto simp: truncated_Write_def split: if_splits)
  have len: "length (truncated_response b) = length b" using truncated_response_bytes(1)[OF assms(4)] .
  have r: "fst (read_all ns c1) = truncated_response b" "snd (read_all ns c1) = c"
    using read_all_prefix[of c1 ns] assms(2,3,5) c1 len by simp_all
  have "truncated_response b \<noteq> []" using len assms(4) by auto
  then show ?thesis
    using truncated_response_bytes[OF assms(4)] assms(2,3) c1 unfolding r
    by (intro exI[of _ "truncated_response b"]) (simp add: truncated_Write_def truncated_Read_def truncated_Close_def)
qed

theorem truncated_dns_answer_witness:
  "\<exists>c1. truncated_Write [1, 2, 1, 0, 0, 1, 9, 9, 0, 0, 0, 0] newTruncatedDNSConn = Some (c1, 12, None) \<and>
     fst (read_all [5, 7] c1) ! 1 = 2 \<and> bit (fst (read_all [5, 7] c1) ! 2) 1 \<and> fst (read_all [5, 7] c1) ! 6 = 0"
proof -
  let ?b = "[1, 2, 1, 0, 0, 1, 9, 9, 0, 0, 0, 0] :: byte list"
  obtain c1 where w: "truncated_Write ?b newTruncatedDNSConn = Some (c1, 12, None)"
    by (simp add: truncated_Write_def newTruncatedDNSConn_def)
  from truncated_dns_answer[OF w, of "[5, 7]"] have "fst (read_all [5, 7] c1) ! 1 = ?b ! 1" "bit (fst (read_all [5, 7] c1) ! 2) 1"
      "fst (read_all [5, 7] c1) ! 6 = 0"
    by (auto simp: newTruncatedDNSConn_def)
  then show ?thesis using w by simp
qed

end
