(* ===== verification/Go_Path.thy ===== *)
theory Go_Path
  imports Config_Parser "HOL-Library.Sublist"
begin

text \<open>
  The functions of \<^verbatim>\<open>path/filepath\<close> the source uses, for Unix: \<^verbatim>\<open>Clean\<close>, \<^verbatim>\<open>Dir\<close>, \<^verbatim>\<open>Join\<close>, \<^verbatim>\<open>IsAbs\<close> and \<^verbatim>\<open>Rel\<close>, and the
  test whether a relative path leaves its root. A walk to the parents ends, because cleaning only deletes characters.
\<close>

section \<open>Paths\<close>

text \<open>\<^verbatim>\<open>filepath.Clean\<close>: the components on a stack, innermost first; \<open>rooted\<close> says whether the path starts with a slash.\<close>

fun split_path :: "string \<Rightarrow> string \<Rightarrow> string list" where
  "split_path part [] = [part]"
| "split_path part (c # s) = (if c = CHR ''/'' then part # split_path [] s else split_path (part @ [c]) s)"

definition push_component :: "bool \<Rightarrow> string \<Rightarrow> string list \<Rightarrow> string list" where
  "push_component rooted part stack =
     (if part = [] \<or> part = ''.'' then stack
      else if part = ''..'' then
        (case stack of [] \<Rightarrow> if rooted then [] else [part] | outer # rest \<Rightarrow> if outer = ''..'' then part # stack else rest)
      else part # stack)"

definition render_path :: "bool \<Rightarrow> string list \<Rightarrow> string" where
  "render_path rooted stack = (if rooted then ''/'' else []) @ join_strings ''/'' (rev stack)"

definition filepath_Clean :: "string \<Rightarrow> string" where
  "filepath_Clean p = (let rooted = has_prefix p ''/'';
       out = render_path rooted (fold (push_component rooted) (split_path [] p) []) in
     if out = [] then ''.'' else out)"

definition filepath_Dir :: "string \<Rightarrow> string" where
  "filepath_Dir p = filepath_Clean (rev (dropWhile (\<lambda>c. c \<noteq> CHR ''/'') (rev p)))"

definition filepath_IsAbs :: "string \<Rightarrow> bool" where
  "filepath_IsAbs p \<longleftrightarrow> has_prefix p ''/''"

definition filepath_Join :: "string list \<Rightarrow> string" where
  "filepath_Join elems = (case dropWhile (\<lambda>e. e = []) elems of
       [] \<Rightarrow> [] | e # rest \<Rightarrow> filepath_Clean (join_strings ''/'' (e # filter (\<lambda>x. x \<noteq> []) rest)))"

text \<open>Cleaning only deletes characters, so a walk to the parents ends.\<close>

lemma join_strings_Cons: "join_strings sep (x # xs) = x @ (if xs = [] then [] else sep @ join_strings sep xs)"
  by (cases xs) auto

lemma subseq_join_strings: "subseq xs ys \<Longrightarrow> subseq (join_strings sep xs) (join_strings sep ys)"
  by (induction rule: list_emb.induct) (auto simp: join_strings_Cons subseq_append' list_emb_append2 dest: list_emb_Nil2)

lemma join_split_path: "join_strings ''/'' (split_path part s) = part @ s"
  by (induction part s rule: split_path.induct) (auto simp: join_strings_Cons elim: split_path.elims)

lemma push_component_subseq: "subseq (rev (push_component rooted part stack) @ parts) (rev stack @ part # parts)"
  by (auto simp: push_component_def subseq_append' list_emb_append2 split: list.splits)

lemma fold_push_subseq:
  "subseq (join_strings ''/'' (rev (fold (push_component rooted) parts stack))) (join_strings ''/'' (rev stack @ parts))"
proof (induction parts arbitrary: stack)
  case (Cons part parts)
  show ?case
    using subseq_order.trans[OF Cons.IH subseq_join_strings[OF push_component_subseq[of rooted part stack parts]]] by simp
qed simp

lemma Clean_subseq: "filepath_Clean p = ''.'' \<or> subseq (filepath_Clean p) p"
proof (cases p)
  case (Cons c s)
  have "subseq (render_path (has_prefix p ''/'') (fold (push_component (has_prefix p ''/'')) (split_path [] p) [])) p"
    using fold_push_subseq[of False "split_path [] p" "[]"] fold_push_subseq[of True "split_path [] s" "[]"] Cons
    by (auto simp: has_prefix_def render_path_def join_split_path push_component_def)
  then show ?thesis by (simp add: filepath_Clean_def Let_def)
qed (simp add: filepath_Clean_def render_path_def push_component_def has_prefix_def)

lemma Dir_smaller: "filepath_Dir p = ''.'' \<or> filepath_Dir p = p \<or> length (filepath_Dir p) < length p"
proof -
  have "suffix (dropWhile (\<lambda>c. c \<noteq> CHR ''/'') (rev p)) (rev p)" by (rule suffix_dropWhile)
  then have "subseq (rev (dropWhile (\<lambda>c. c \<noteq> CHR ''/'') (rev p))) p"
    by (metis prefix_imp_subseq rev_rev_ident suffix_to_prefix)
  with Clean_subseq show ?thesis
    unfolding filepath_Dir_def
    by (metis le_neq_implies_less list_emb_length subseq_order.trans subseq_same_length)
qed

lemma Dir_decreases:
  assumes "filepath_Dir p \<noteq> p"
  shows "(if filepath_Dir p = ''.'' then 0 else Suc (length (filepath_Dir p))) < (if p = ''.'' then 0 else Suc (length p))"
proof -
  have "filepath_Dir ''.'' = ''.''" by code_simp
  with assms Dir_smaller[of p] show ?thesis by auto
qed

text \<open>The path itself and its parents, as a walk with \<^verbatim>\<open>filepath.Dir\<close> sees them.\<close>

function ancestors :: "string \<Rightarrow> string list" where
  "ancestors p = p # (if filepath_Dir p = p then [] else ancestors (filepath_Dir p))"
  by pat_completeness auto
termination
  by (relation "measure (\<lambda>p. if p = ''.'' then 0 else Suc (length p))") (simp, simp only: in_measure Dir_decreases not_False_eq_True)

declare ancestors.simps [simp del]

section \<open>Relative paths\<close>

text \<open>The components of a cleaned path, outermost first; a path that is only a root or a dot has none.\<close>

definition path_components :: "string \<Rightarrow> string list" where
  "path_components p = rev (fold (push_component (has_prefix p ''/'')) (split_path [] p) [])"

fun drop_common :: "string list \<Rightarrow> string list \<Rightarrow> string list \<times> string list" where
  "drop_common (b # bs) (t # ts) = (if b = t then drop_common bs ts else (b # bs, t # ts))"
| "drop_common bs ts = (bs, ts)"

definition filepath_Rel :: "string \<Rightarrow> string \<Rightarrow> string option" where
  "filepath_Rel base targ =
     (if filepath_Clean targ = filepath_Clean base then Some ''.''
      else if filepath_IsAbs base \<noteq> filepath_IsAbs targ then None
      else (case drop_common (path_components base) (path_components targ) of (bs, ts) \<Rightarrow>
        if bs \<noteq> [] \<and> hd bs = ''..'' then None
        else Some (join_strings ''/'' (replicate (length bs) ''..'' @ ts))))"

text \<open>The test of the source: no relative path, or one that starts with \<^verbatim>\<open>..\<close>, leaves the root.\<close>

definition escapes_root :: "string \<Rightarrow> string \<Rightarrow> bool" where
  "escapes_root root path \<longleftrightarrow> (case filepath_Rel root path of
       None \<Rightarrow> True
     | Some relative \<Rightarrow> relative = ''..'' \<or> has_prefix relative ''../'' \<or> filepath_IsAbs relative)"

lemma drop_common_split:
  "drop_common bs ts = (bs', ts') \<Longrightarrow> \<exists>common. bs = common @ bs' \<and> ts = common @ ts'"
proof (induction bs ts arbitrary: bs' ts' rule: drop_common.induct)
  case (1 b bs t ts)
  show ?case
  proof (cases "b = t")
    case True
    then obtain common where "bs = common @ bs'" "ts = common @ ts'" using 1 by auto
    with True show ?thesis by (intro exI[of _ "b # common"]) simp
  qed (use 1 in auto)
qed auto

lemma drop_common_append: "drop_common bs (bs @ ts) = ([], ts)"
  by (induction bs) (cases ts, auto)

text \<open>A path that does not leave the root has all components of the root before its own.\<close>

lemma within_root:
  assumes "\<not> escapes_root root path"
  shows "filepath_Clean path = filepath_Clean root
    \<or> filepath_IsAbs path = filepath_IsAbs root \<and> (\<exists>rest. path_components path = path_components root @ rest)"
proof (cases "filepath_Clean path = filepath_Clean root")
  case False
  obtain bs ts where split: "drop_common (path_components root) (path_components path) = (bs, ts)"
    by (cases "drop_common (path_components root) (path_components path)")
  have "bs = []"
  proof (rule ccontr)
    assume "bs \<noteq> []"
    then obtain b rest where "bs = b # rest" by (cases bs) auto
    then have "\<exists>x. join_strings ''/'' (replicate (length bs) ''..'' @ ts) = ''..'' @ x \<and> (x = [] \<or> has_prefix x ''/'')"
      by (auto simp: join_strings_Cons has_prefix_def)
    then show False
      using assms False split \<open>bs \<noteq> []\<close> by (auto simp: escapes_root_def filepath_Rel_def has_prefix_def split: if_splits)
  qed
  with drop_common_split[OF split] False assms split show ?thesis
    by (auto simp: escapes_root_def filepath_Rel_def split: if_splits)
qed simp

end
