(* ===== verification/Source_Store.thy ===== *)
theory Source_Store
  imports Session_State Go_Path
begin

text \<open>
  The file that keeps the accepted configuration URL (\<^verbatim>\<open>core/sessionapi/source_store.go\<close>, \<^verbatim>\<open>source_replace_unix.go\<close>):
  the checks on its path, the replacement through a temporary file, reading and removal.

  A file system maps a cleaned path to what is there. Any call may fail: a record of faults has the error each
  call reports, and what a failed write or a failed \<^verbatim>\<open>MkdirAll\<close> leaves behind. Paths are those of Unix.
\<close>

section \<open>The file system\<close>

datatype node = DirNode | SymlinkNode | OtherNode | FileNode bytes nat

type_synonym fs = "string \<Rightarrow> node option"

record fs_faults =
  ff_lstat :: "string \<Rightarrow> go_error option"
  ff_mkdir :: "(string list \<times> go_error) option"
  ff_create :: "go_error option"
  ff_restrict_temporary :: "go_error option"
  ff_write :: "(nat \<times> go_error) option"
  ff_sync :: "go_error option"
  ff_close :: "go_error option"
  ff_replace :: "go_error option"
  ff_restrict :: "go_error option"
  ff_remove :: "go_error option"
  ff_read :: "go_error option"

definition no_faults :: fs_faults where
  "no_faults = \<lparr>ff_lstat = (\<lambda>_. None), ff_mkdir = None, ff_create = None, ff_restrict_temporary = None, ff_write = None,
     ff_sync = None, ff_close = None, ff_replace = None, ff_restrict = None, ff_remove = None, ff_read = None\<rparr>"

definition not_exist :: "string \<Rightarrow> string \<Rightarrow> go_error" where
  "not_exist call p = Wrap (call @ '' '' @ p @ '': '') (Sentinel OsErrNotExist)"

definition sys_Lstat :: "fs_faults \<Rightarrow> fs \<Rightarrow> string \<Rightarrow> go_error + node" where
  "sys_Lstat flt fs p = (case ff_lstat flt p of
       Some err \<Rightarrow> Inl err
     | None \<Rightarrow> (case fs (filepath_Clean p) of None \<Rightarrow> Inl (not_exist ''lstat'' p) | Some n \<Rightarrow> Inr n))"

text \<open>\<^verbatim>\<open>os.MkdirAll\<close>: directories for the path and its parents where nothing exists; a failure may have made some of them.\<close>

definition make_dirs :: "string list \<Rightarrow> fs \<Rightarrow> fs" where
  "make_dirs ps fs = (\<lambda>p. if fs p = None \<and> p \<in> set ps then Some DirNode else fs p)"

definition sys_MkdirAll :: "fs_faults \<Rightarrow> string \<Rightarrow> fs \<Rightarrow> fs \<times> go_error option" where
  "sys_MkdirAll flt dir fs = (case ff_mkdir flt of
       Some (made, err) \<Rightarrow> (make_dirs (filter (\<lambda>p. p \<in> set (ancestors (filepath_Clean dir))) made) fs, Some err)
     | None \<Rightarrow> (make_dirs (ancestors (filepath_Clean dir)) fs, None))"

text \<open>
  \<^verbatim>\<open>os.CreateTemp\<close> creates a new file exclusively; an existing name is an error here, where the library would try
  another. Octal 600 is 384.
\<close>

definition sys_CreateTemp :: "fs_faults \<Rightarrow> string \<Rightarrow> fs \<Rightarrow> fs \<times> go_error option" where
  "sys_CreateTemp flt name fs = (case ff_create flt of
       Some err \<Rightarrow> (fs, Some err)
     | None \<Rightarrow> if fs (filepath_Clean name) \<noteq> None then (fs, Some (Plain ''file exists''))
               else (fs(filepath_Clean name \<mapsto> FileNode [] 384), None))"

definition set_mode :: "nat \<Rightarrow> node \<Rightarrow> node" where
  "set_mode mode n = (case n of FileNode content _ \<Rightarrow> FileNode content mode | _ \<Rightarrow> n)"

definition set_content :: "bytes \<Rightarrow> node \<Rightarrow> node" where
  "set_content content n = (case n of FileNode _ mode \<Rightarrow> FileNode content mode | _ \<Rightarrow> n)"

definition sys_Chmod :: "go_error option \<Rightarrow> nat \<Rightarrow> string \<Rightarrow> fs \<Rightarrow> fs \<times> go_error option" where
  "sys_Chmod err mode name fs = (case err of
       Some e \<Rightarrow> (fs, Some e)
     | None \<Rightarrow> (fs(filepath_Clean name := map_option (set_mode mode) (fs (filepath_Clean name))), None))"

definition sys_Write :: "fs_faults \<Rightarrow> string \<Rightarrow> bytes \<Rightarrow> fs \<Rightarrow> fs \<times> go_error option" where
  "sys_Write flt name raw fs =
     (let (written, err) = (case ff_write flt of Some (n, e) \<Rightarrow> (take n raw, Some e) | None \<Rightarrow> (raw, None)) in
      (fs(filepath_Clean name := map_option (set_content written) (fs (filepath_Clean name))), err))"

definition sys_Rename :: "go_error option \<Rightarrow> string \<Rightarrow> string \<Rightarrow> fs \<Rightarrow> fs \<times> go_error option" where
  "sys_Rename err old new fs = (case err of
       Some e \<Rightarrow> (fs, Some e)
     | None \<Rightarrow> if fs (filepath_Clean new) = Some DirNode then (fs, Some (Plain ''file exists''))
               else (fs(filepath_Clean new := fs (filepath_Clean old), filepath_Clean old := None), None))"

definition sys_Remove :: "fs_faults \<Rightarrow> string \<Rightarrow> fs \<Rightarrow> fs \<times> go_error option" where
  "sys_Remove flt name fs = (case ff_remove flt of
       Some e \<Rightarrow> (fs, Some e)
     | None \<Rightarrow> (case fs (filepath_Clean name) of
          None \<Rightarrow> (fs, Some (not_exist ''remove'' name))
        | Some _ \<Rightarrow> (fs(filepath_Clean name := None), None)))"

section \<open>The store\<close>

definition maxStoredSourceURL :: nat where "maxStoredSourceURL = 2 ^ 20"

function check_ancestors :: "fs_faults \<Rightarrow> fs \<Rightarrow> string \<Rightarrow> go_error option" where
  "check_ancestors flt fs current = (case sys_Lstat flt fs current of
       Inl err \<Rightarrow> if \<not> errors_is err OsErrNotExist then Some err
                  else (let parent = filepath_Dir current in if parent = current then None else check_ancestors flt fs parent)
     | Inr info \<Rightarrow> if info = SymlinkNode then Some (Plain ''saved configuration path contains a symbolic link'')
                   else (let parent = filepath_Dir current in if parent = current then None else check_ancestors flt fs parent))"
  by pat_completeness auto
termination
  by (relation "measure (\<lambda>(flt, fs, p). if p = ''.'' then 0 else Suc (length p))")
    (simp, simp_all only: in_measure prod.case Dir_decreases not_False_eq_True)

declare check_ancestors.simps [simp del]

definition validateNoSymlinkAncestors :: "fs_faults \<Rightarrow> fs \<Rightarrow> string \<Rightarrow> go_error option" where
  "validateNoSymlinkAncestors flt fs path = check_ancestors flt fs (filepath_Clean path)"

definition validateSourcePath :: "fs_faults \<Rightarrow> fs \<Rightarrow> string \<Rightarrow> string \<Rightarrow> go_error option" where
  "validateSourcePath flt fs dir path = (case validateNoSymlinkAncestors flt fs dir of
       Some err \<Rightarrow> Some err
     | None \<Rightarrow> (case sys_Lstat flt fs dir of
          Inl err \<Rightarrow> Some err
        | Inr info \<Rightarrow>
            if info \<noteq> DirNode then Some (Plain ''saved configuration directory is not a real directory'')
            else (case sys_Lstat flt fs path of
               Inl err \<Rightarrow> if errors_is err OsErrNotExist then None else Some err
             | Inr (FileNode _ _) \<Rightarrow> None
             | Inr _ \<Rightarrow> Some (Plain ''saved configuration URL is not a regular file''))))"

definition store_read :: "fs_faults \<Rightarrow> fs \<Rightarrow> string \<Rightarrow> go_error + bytes" where
  "store_read flt fs path =
     (if path = [] then Inl (Sentinel OsErrNotExist)
      else (case validateSourcePath flt fs (filepath_Dir path) path of
          Some err \<Rightarrow> if errors_is err OsErrNotExist then Inl (Sentinel OsErrNotExist) else Inl err
        | None \<Rightarrow> (case ff_read flt of
             Some err \<Rightarrow> Inl err
           | None \<Rightarrow> (case fs (filepath_Clean path) of
                Some (FileNode raw _) \<Rightarrow>
                  if length raw > maxStoredSourceURL
                  then Inl (Plain (''saved configuration URL exceeds '' @ itoa (int maxStoredSourceURL) @ '' bytes''))
                  else Inr raw
              | None \<Rightarrow> Inl (not_exist ''open'' path)
              | Some _ \<Rightarrow> Inl (Plain (''read '' @ path @ '': is a directory''))))))"

definition store_Load :: "go_error option \<Rightarrow> fs_faults \<Rightarrow> fs \<Rightarrow> string \<Rightarrow> go_error + bytes" where
  "store_Load ctxErr flt fs path = (case ctxErr of
       Some err \<Rightarrow> Inl err
     | None \<Rightarrow> (case store_read flt fs path of
          Inr raw \<Rightarrow> Inr raw
        | Inl err \<Rightarrow> if errors_is err OsErrNotExist then Inr [] else Inl err))"

definition replaceSourceFile :: "go_error option \<Rightarrow> string \<Rightarrow> string \<Rightarrow> fs \<Rightarrow> fs \<times> go_error option" where
  "replaceSourceFile err temporary destination = sys_Rename err temporary destination"

text \<open>
  The calls of \<^verbatim>\<open>Save\<close> on the temporary file, each with the prefix of its error, up to the first that fails. The
  states of the file system after each call are kept: a process that dies in between leaves one of them behind.
\<close>

fun run_calls :: "(string \<times> (fs \<Rightarrow> fs \<times> go_error option)) list \<Rightarrow> fs \<Rightarrow> fs list \<times> fs \<times> go_error option" where
  "run_calls [] fs = ([], fs, None)"
| "run_calls ((what, call) # calls) fs = (case call fs of
       (fs1, Some err) \<Rightarrow> ([fs1], fs1, Some (Wrap what err))
     | (fs1, None) \<Rightarrow> (case run_calls calls fs1 of (seen, fs2, err) \<Rightarrow> (fs1 # seen, fs2, err)))"

definition save_calls :: "fs_faults \<Rightarrow> string \<Rightarrow> string \<Rightarrow> bytes \<Rightarrow> (string \<times> (fs \<Rightarrow> fs \<times> go_error option)) list" where
  "save_calls flt name path raw =
     [(''restrict saved configuration permissions: '', sys_Chmod (ff_restrict_temporary flt) 384 name),
      (''write saved configuration URL: '', sys_Write flt name raw),
      (''flush saved configuration URL: '', \<lambda>fs. (fs, ff_sync flt)),
      (''close saved configuration URL: '', \<lambda>fs. (fs, ff_close flt)),
      (''replace saved configuration URL: '', replaceSourceFile (ff_replace flt) name path),
      (''restrict saved configuration permissions: '', sys_Chmod (ff_restrict flt) 384 path)]"

text \<open>\<^verbatim>\<open>Save\<close> from the creation of the temporary file on, with its deferred removal, and as a whole.\<close>

definition save_file :: "fs_faults \<Rightarrow> string \<Rightarrow> string \<Rightarrow> bytes \<Rightarrow> fs \<Rightarrow> fs list \<times> fs \<times> go_error option" where
  "save_file flt name path raw fs = (case sys_CreateTemp flt name fs of
       (fs1, Some err) \<Rightarrow> ([fs1], fs1, Some (Wrap ''create saved configuration temporary file: '' err))
     | (fs1, None) \<Rightarrow> (case run_calls (save_calls flt name path raw) fs1 of
          (seen, fs2, err) \<Rightarrow> (let fs3 = fst (sys_Remove flt name fs2) in (fs1 # seen @ [fs3], fs3, err))))"

definition store_Save ::
  "go_error option \<Rightarrow> fs_faults \<Rightarrow> string \<Rightarrow> string \<Rightarrow> bytes \<Rightarrow> fs \<Rightarrow> fs list \<times> fs \<times> go_error option" where
  "store_Save ctxErr flt name path raw fs = (case ctxErr of
       Some err \<Rightarrow> ([], fs, Some err)
     | None \<Rightarrow>
         if raw = [] \<or> length raw > maxStoredSourceURL
         then ([], fs, Some (Plain (''saved configuration URL must contain 1 to '' @ itoa (int maxStoredSourceURL) @ '' bytes'')))
         else if trim_space raw = [] then ([], fs, Some (Plain ''saved configuration URL is empty''))
         else let dir = filepath_Dir path in
          (case validateNoSymlinkAncestors flt fs dir of
             Some err \<Rightarrow> ([], fs, Some err)
           | None \<Rightarrow> (case sys_MkdirAll flt dir fs of
                (fs1, Some err) \<Rightarrow> ([fs1], fs1, Some (Wrap ''create saved configuration directory: '' err))
              | (fs1, None) \<Rightarrow> (case validateSourcePath flt fs1 dir path of
                   Some err \<Rightarrow> ([fs1], fs1, Some err)
                 | None \<Rightarrow> (case save_file flt name path raw fs1 of (seen, fs2, err) \<Rightarrow> (fs1 # seen, fs2, err))))))"

definition clear_remove :: "fs_faults \<Rightarrow> string \<Rightarrow> fs \<Rightarrow> fs \<times> go_error option" where
  "clear_remove flt path fs = (case sys_Remove flt path fs of
       (fs1, Some e) \<Rightarrow> (fs1, if errors_is e OsErrNotExist then None else Some (Wrap ''remove saved configuration URL: '' e))
     | (fs1, None) \<Rightarrow> (fs1, None))"

definition store_Clear :: "go_error option \<Rightarrow> fs_faults \<Rightarrow> string \<Rightarrow> fs \<Rightarrow> fs \<times> go_error option" where
  "store_Clear ctxErr flt path fs = (case ctxErr of
       Some err \<Rightarrow> (fs, Some err)
     | None \<Rightarrow> (case validateSourcePath flt fs (filepath_Dir path) path of
          Some err \<Rightarrow> if \<not> errors_is err OsErrNotExist then (fs, Some err) else clear_remove flt path fs
        | None \<Rightarrow> clear_remove flt path fs))"

section \<open>Saving is atomic\<close>

text \<open>The content and mode of the regular file at a path, if there is one.\<close>

definition stored :: "fs \<Rightarrow> string \<Rightarrow> (bytes \<times> nat) option" where
  "stored fs path = (case fs (filepath_Clean path) of Some (FileNode raw mode) \<Rightarrow> Some (raw, mode) | _ \<Rightarrow> None)"

text \<open>The checks of the path: no link among the parents, a real directory, a regular file or nothing.\<close>

lemma check_ancestors_None_iff:
  "check_ancestors flt fs p = None \<longleftrightarrow> (\<forall>a\<in>set (ancestors p). case sys_Lstat flt fs a of
      Inl err \<Rightarrow> errors_is err OsErrNotExist | Inr info \<Rightarrow> info \<noteq> SymlinkNode)"
proof (induction flt fs p rule: check_ancestors.induct)
  case (1 flt fs p)
  show ?case
    using "1.IH" by (subst check_ancestors.simps, subst ancestors.simps) (auto simp: Let_def split: sum.splits)
qed

lemma validate_file_replaced:
  assumes "validateSourcePath flt fs dir path = None" "fs (filepath_Clean path) \<noteq> Some DirNode"
  shows "validateSourcePath flt (fs(filepath_Clean path \<mapsto> FileNode raw mode)) dir path = None"
proof -
  let ?fs = "fs(filepath_Clean path \<mapsto> FileNode raw mode)"
  have "check_ancestors flt ?fs (filepath_Clean dir) = None"
    using assms(1) unfolding validateSourcePath_def validateNoSymlinkAncestors_def
    by (auto simp: check_ancestors_None_iff sys_Lstat_def split: option.splits sum.splits if_splits)
  then show ?thesis
    using assms by (auto simp: validateSourcePath_def validateNoSymlinkAncestors_def sys_Lstat_def split: option.splits sum.splits if_splits)
qed

text \<open>The calls on a file of mode 600, the temporary one or its replacement.\<close>

lemma call_effects:
  "N = filepath_Clean name \<Longrightarrow> sys_Chmod e 384 name (fs(N \<mapsto> FileNode c 384)) = (fs(N \<mapsto> FileNode c 384), e)"
  "N = filepath_Clean name \<Longrightarrow> sys_Write flt name raw (fs(N \<mapsto> FileNode c m)) =
     (case ff_write flt of Some (n, e) \<Rightarrow> (fs(N \<mapsto> FileNode (take n raw) m), Some e) | None \<Rightarrow> (fs(N \<mapsto> FileNode raw m), None))"
  "N = filepath_Clean name \<Longrightarrow> P = filepath_Clean path \<Longrightarrow> N \<noteq> P \<Longrightarrow>
     replaceSourceFile r name path (fs(N \<mapsto> x)) = (case r of Some e \<Rightarrow> (fs(N \<mapsto> x), Some e) | None \<Rightarrow>
       if fs P = Some DirNode then (fs(N \<mapsto> x), Some (Plain ''file exists'')) else (fs(N := None, P \<mapsto> x), None))"
  by (auto simp: sys_Chmod_def sys_Write_def replaceSourceFile_def sys_Rename_def set_mode_def set_content_def fun_eq_iff
      split: option.splits)

text \<open>Every state on the way has a temporary file of mode 600 besides, or the complete new file.\<close>

lemma save_run:
  assumes run: "run_calls (save_calls flt name path raw) (fs(N \<mapsto> FileNode [] 384)) = (seen, fs1, err)"
    and names: "N \<noteq> P" "N = filepath_Clean name" "P = filepath_Clean path"
  shows "(\<forall>f\<in>insert fs1 (set seen). (\<exists>c. f = fs(N \<mapsto> FileNode c 384)) \<or> f = fs(N := None, P \<mapsto> FileNode raw 384)) \<and>
    (if err = None then fs1 = fs(N := None, P \<mapsto> FileNode raw 384) \<and> fs P \<noteq> Some DirNode
     else (\<exists>c. fs1 = fs(N \<mapsto> FileNode c 384)) \<or> ff_replace flt = None \<and> ff_restrict flt \<noteq> None)"
proof -
  note effects = call_effects[OF names(2)] call_effects(1)[OF names(3)] call_effects(3)[OF names(2,3,1)]
  show ?thesis
    using run by (auto simp: save_calls_def effects split: option.splits prod.splits if_splits)
qed

lemma save_file_states:
  assumes run: "save_file flt name path raw fs = (seen, fs1, err)" and names: "filepath_Clean name \<noteq> filepath_Clean path"
  shows "(\<forall>f\<in>insert fs1 (set seen). (\<exists>x. f = fs(filepath_Clean name := x))
        \<or> (\<exists>x. f = fs(filepath_Clean name := x, filepath_Clean path \<mapsto> FileNode raw 384)))
    \<and> (if err = None then fs1 = fs(filepath_Clean path \<mapsto> FileNode raw 384) \<and> fs (filepath_Clean path) \<noteq> Some DirNode
       else stored fs1 path = stored fs path \<or> ff_replace flt = None \<and> ff_restrict flt \<noteq> None)
    \<and> (ff_remove flt = None \<longrightarrow> stored fs1 name \<in> {None, stored fs name})"
proof (cases "sys_CreateTemp flt name fs")
  case (Pair fs2 createErr)
  let ?N = "filepath_Clean name" and ?P = "filepath_Clean path"
  show ?thesis
  proof (cases createErr)
    case None
    with Pair have new: "fs ?N = None" "fs2 = fs(?N \<mapsto> FileNode [] 384)"
      by (auto simp: sys_CreateTemp_def split: option.splits if_splits)
    obtain calls fs3 err3 where calls3: "run_calls (save_calls flt name path raw) (fs(?N \<mapsto> FileNode [] 384)) = (calls, fs3, err3)"
      by (cases "run_calls (save_calls flt name path raw) (fs(?N \<mapsto> FileNode [] 384))")
    have seen: "seen = fs2 # calls @ [fs1]" "fs1 = fst (sys_Remove flt name fs3)" and err: "err = err3"
      using run Pair None new calls3 by (auto simp: save_file_def Let_def)
    note spec = save_run[OF calls3[folded err] names refl refl]
    have removed: "fs1 = fs3 \<or> fs1 = fs3(?N := None)" "ff_remove flt = None \<Longrightarrow> fs1 ?N = None"
      using seen(2) by (auto simp: sys_Remove_def split: option.splits)
    have full: "fs(?N := None, ?P \<mapsto> FileNode raw 384) = fs(?P \<mapsto> FileNode raw 384)" using new(1) by (simp add: fun_upd_idem)
    have twist: "fs(?N := x, ?P \<mapsto> y, ?N := z) = fs(?N := z, ?P \<mapsto> y)" for x y z using names by (simp add: fun_upd_twist)
    have fin: "(\<exists>c. fs1 = fs(?N := c)) \<or> (\<exists>x. fs1 = fs(?N := x, ?P \<mapsto> FileNode raw 384))"
      using spec removed(1) twist by auto
    have "\<forall>f\<in>insert fs1 (set seen). (\<exists>x. f = fs(?N := x)) \<or> (\<exists>x. f = fs(?N := x, ?P \<mapsto> FileNode raw 384))"
      using spec fin seen(1) new(2) by auto
    moreover have "if err = None then fs1 = fs(?P \<mapsto> FileNode raw 384) \<and> fs ?P \<noteq> Some DirNode
       else stored fs1 path = stored fs path \<or> ff_replace flt = None \<and> ff_restrict flt \<noteq> None"
    proof (cases err)
      case None
      then have "fs3 = fs(?N := None, ?P \<mapsto> FileNode raw 384)" "fs ?P \<noteq> Some DirNode" using spec by auto
      then show ?thesis using None removed(1) full twist by auto
    next
      case (Some e)
      then have "(\<exists>c. fs3 = fs(?N \<mapsto> FileNode c 384)) \<or> ff_replace flt = None \<and> ff_restrict flt \<noteq> None" using spec by auto
      then show ?thesis using Some removed(1) names by (auto simp: stored_def)
    qed
    moreover have "ff_remove flt = None \<longrightarrow> stored fs1 name = None" using removed(2) by (simp add: stored_def)
    ultimately show ?thesis by blast
  next
    case (Some e)
    with Pair have "fs2 = fs" by (auto simp: sys_CreateTemp_def split: option.splits if_splits)
    with run Pair Some show ?thesis by (auto simp: save_file_def intro: exI[of _ "fs (filepath_Clean name)"])
  qed
qed

text \<open>A save that stops before its temporary file exists has made directories at most.\<close>

lemma make_dirs_Nil [simp]: "make_dirs [] fs = fs"
  by (simp add: make_dirs_def)

lemma sys_MkdirAll_effect:
  assumes "sys_MkdirAll flt dir fs = (fs1, err)"
  obtains ps where "fs1 = make_dirs ps fs"
  using assms by (auto simp: sys_MkdirAll_def split: option.splits)

lemma store_Save_cases:
  assumes "store_Save ctxErr flt name path raw fs = (seen, fs1, err)"
  shows "(\<exists>ps. set seen \<subseteq> {make_dirs ps fs} \<and> fs1 = make_dirs ps fs \<and> err \<noteq> None) \<or>
    (\<exists>ps seen1. save_file flt name path raw (make_dirs ps fs) = (seen1, fs1, err) \<and> seen = make_dirs ps fs # seen1 \<and>
       length raw \<le> maxStoredSourceURL \<and> validateSourcePath flt (make_dirs ps fs) (filepath_Dir path) path = None)"
proof (cases "seen = [] \<and> fs1 = fs \<and> err \<noteq> None")
  case True
  then show ?thesis by (intro disjI1 exI[of _ "[]"]) simp
next
  case False
  obtain fs2 mkErr where mk: "sys_MkdirAll flt (filepath_Dir path) fs = (fs2, mkErr)"
    by (cases "sys_MkdirAll flt (filepath_Dir path) fs")
  then obtain ps where ps: "fs2 = make_dirs ps fs" by (rule sys_MkdirAll_effect)
  have rest: "(case mkErr of Some e \<Rightarrow> ([fs2], fs2, Some (Wrap ''create saved configuration directory: '' e))
      | None \<Rightarrow> (case validateSourcePath flt fs2 (filepath_Dir path) path of Some e \<Rightarrow> ([fs2], fs2, Some e)
          | None \<Rightarrow> (case save_file flt name path raw fs2 of (seen, fs3, err) \<Rightarrow> (fs2 # seen, fs3, err)))) = (seen, fs1, err)"
    and "length raw \<le> maxStoredSourceURL"
    using assms False mk by (auto simp: store_Save_def Let_def split: option.splits if_splits)
  then show ?thesis
  proof (cases "mkErr = None \<and> validateSourcePath flt fs2 (filepath_Dir path) path = None")
    case True
    obtain seen1 fs3 err3 where "save_file flt name path raw fs2 = (seen1, fs3, err3)"
      by (cases "save_file flt name path raw fs2")
    with True rest have "save_file flt name path raw fs2 = (seen1, fs1, err)" "seen = fs2 # seen1" by auto
    with True ps \<open>length raw \<le> maxStoredSourceURL\<close> show ?thesis by blast
  next
    case False
    then have "seen = [fs2]" "fs1 = fs2" "err \<noteq> None"
      using rest by (cases mkErr; cases "validateSourcePath flt fs2 (filepath_Dir path) path"; auto)+
    then show ?thesis using ps by auto
  qed
qed

lemma make_dirs_stored: "stored (make_dirs ps fs) path = stored fs path"
  by (auto simp: make_dirs_def stored_def split: option.splits node.splits)

lemma make_dirs_frame: "make_dirs ps fs p = fs p \<or> fs p = None \<and> make_dirs ps fs p = Some DirNode"
  by (auto simp: make_dirs_def)

text \<open>
  What a state on the way of a save may look like: the old file or the new one, and nothing else changed but
  the temporary file and directories that were missing.
\<close>

definition old_or_new :: "fs \<Rightarrow> string \<Rightarrow> string \<Rightarrow> bytes \<Rightarrow> fs \<Rightarrow> bool" where
  "old_or_new fs name path raw f \<longleftrightarrow> stored f path \<in> {stored fs path, Some (raw, 384)}
     \<and> (\<forall>p. p \<notin> {filepath_Clean path, filepath_Clean name} \<longrightarrow> f p = fs p \<or> fs p = None \<and> f p = Some DirNode)"

lemma old_or_new_steps:
  assumes "filepath_Clean name \<noteq> filepath_Clean path"
  shows "old_or_new fs name path raw (make_dirs ps fs)"
    "old_or_new fs name path raw ((make_dirs ps fs)(filepath_Clean name := x))"
    "old_or_new fs name path raw ((make_dirs ps fs)(filepath_Clean name := x, filepath_Clean path \<mapsto> FileNode raw 384))"
  using assms make_dirs_stored[of ps fs path] by (simp_all add: old_or_new_def stored_def make_dirs_frame)

lemma save_then_load:
  assumes "validateSourcePath flt fs (filepath_Dir path) path = None" "fs (filepath_Clean path) \<noteq> Some DirNode"
    and "length raw \<le> maxStoredSourceURL" "ff_read flt = None" "path \<noteq> []"
  shows "store_Load None flt (fs(filepath_Clean path \<mapsto> FileNode raw mode)) path = Inr raw"
  using validate_file_replaced[OF assms(1,2)] assms(3-5) by (simp add: store_Load_def store_read_def)

text \<open>
  C27. Saving the configuration URL is atomic, private and complete, whichever call fails. In every state the
  file system passes through, the path holds the old file or the complete new one, readable by its owner only;
  at no other path but the temporary one anything changes except that missing directories may appear. When
  Save reports success, Load returns exactly the saved bytes. When it reports an error, the old file is still
  there, unless only the final permission call failed. The temporary file is gone unless its removal failed.
\<close>

theorem save_atomic:
  assumes "store_Save ctxErr flt name path raw fs = (seen, fs1, err)" "filepath_Clean name \<noteq> filepath_Clean path"
  shows "(\<forall>f\<in>insert fs1 (set seen). old_or_new fs name path raw f)
    \<and> (if err = None then stored fs1 path = Some (raw, 384) \<and> (ff_read flt = None \<and> path \<noteq> [] \<longrightarrow> store_Load None flt fs1 path = Inr raw)
       else stored fs1 path = stored fs path \<or> ff_replace flt = None \<and> ff_restrict flt \<noteq> None)
    \<and> (ff_remove flt = None \<longrightarrow> stored fs1 name \<in> {None, stored fs name})"
proof (cases "\<exists>ps. set seen \<subseteq> {make_dirs ps fs} \<and> fs1 = make_dirs ps fs \<and> err \<noteq> None")
  case True
  then obtain ps where early: "set seen \<subseteq> {make_dirs ps fs}" "fs1 = make_dirs ps fs" "err \<noteq> None" by blast
  then have "\<forall>f\<in>insert fs1 (set seen). old_or_new fs name path raw f" using old_or_new_steps(1)[OF assms(2)] by blast
  with early show ?thesis by (auto simp: make_dirs_stored)
next
  case False
  with store_Save_cases[OF assms(1)] obtain ps seen1 where run:
    "save_file flt name path raw (make_dirs ps fs) = (seen1, fs1, err)" "seen = make_dirs ps fs # seen1"
    "length raw \<le> maxStoredSourceURL" "validateSourcePath flt (make_dirs ps fs) (filepath_Dir path) path = None" by metis
  note spec = save_file_states[OF run(1) assms(2)]
  have "\<forall>f\<in>insert fs1 (set seen). old_or_new fs name path raw f"
  proof
    fix f assume "f \<in> insert fs1 (set seen)"
    then consider "f = make_dirs ps fs" | x where "f = (make_dirs ps fs)(filepath_Clean name := x)"
      | x where "f = (make_dirs ps fs)(filepath_Clean name := x, filepath_Clean path \<mapsto> FileNode raw 384)"
      using run(2) spec by (metis insert_iff list.set(2))
    then show "old_or_new fs name path raw f" by cases (simp_all only: old_or_new_steps[OF assms(2)])
  qed
  moreover have "err = None \<longrightarrow> stored fs1 path = Some (raw, 384)
      \<and> (ff_read flt = None \<and> path \<noteq> [] \<longrightarrow> store_Load None flt fs1 path = Inr raw)"
    using spec save_then_load[OF run(4) _ run(3)] by (simp add: stored_def)
  ultimately show ?thesis using conjunct2[OF spec] unfolding make_dirs_stored by (meson if_split)
qed

text \<open>A directory with an old file: a save that succeeds, and one whose write fails half-way.\<close>

definition sample_fs :: fs where
  "sample_fs = [''/'' \<mapsto> DirNode, ''/d'' \<mapsto> DirNode, ''/d/u'' \<mapsto> FileNode ''old'' 384]"

definition disk_full :: fs_faults where
  "disk_full = no_faults\<lparr>ff_write := Some (1, Plain ''no space left on device'')\<rparr>"

lemma sample_paths [simp]: "filepath_Dir ''/d/u'' = ''/d''" "filepath_Clean ''/d/u'' = ''/d/u''" "filepath_Clean ''/d/t'' = ''/d/t''"
  "filepath_Clean ''/d'' = ''/d''" "ancestors ''/d'' = [''/d'', ''/'']" "trim_space ''new'' = ''new''"
  by code_simp+

lemma sample_dirs [simp]: "make_dirs [''/d'', ''/''] sample_fs = sample_fs"
  by (auto simp: make_dirs_def sample_fs_def)

lemma sample_valid [simp]: "validateSourcePath no_faults sample_fs ''/d'' ''/d/u'' = None" "validateNoSymlinkAncestors no_faults sample_fs ''/d'' = None"
  "validateSourcePath disk_full sample_fs ''/d'' ''/d/u'' = None" "validateNoSymlinkAncestors disk_full sample_fs ''/d'' = None"
  by code_simp+

lemma sample_values [simp]: "sample_fs ''/d/t'' = None" "sample_fs ''/d/u'' = Some (FileNode ''old'' 384)"
  "ff_mkdir no_faults = None" "ff_create no_faults = None" "ff_restrict_temporary no_faults = None" "ff_write no_faults = None"
  "ff_sync no_faults = None" "ff_close no_faults = None" "ff_replace no_faults = None" "ff_restrict no_faults = None"
  "ff_read no_faults = None" "ff_mkdir disk_full = None" "ff_create disk_full = None" "ff_restrict_temporary disk_full = None"
  "ff_write disk_full = Some (1, Plain ''no space left on device'')" "ff_restrict disk_full = None"
  by (simp_all add: sample_fs_def no_faults_def disk_full_def)

lemma sample_saves:
  "snd (snd (store_Save None no_faults ''/d/t'' ''/d/u'' ''new'' sample_fs)) = None"
  "snd (snd (store_Save None disk_full ''/d/t'' ''/d/u'' ''new'' sample_fs)) = Some (Wrap ''write saved configuration URL: '' (Plain ''no space left on device''))"
  by (simp_all add: store_Save_def save_file_def sys_MkdirAll_def sys_CreateTemp_def save_calls_def sys_Chmod_def sys_Write_def
      replaceSourceFile_def sys_Rename_def Let_def maxStoredSourceURL_def)

theorem save_atomic_witness:
  "store_Load None no_faults (fst (snd (store_Save None no_faults ''/d/t'' ''/d/u'' ''new'' sample_fs))) ''/d/u'' = Inr ''new''
   \<and> stored (fst (snd (store_Save None disk_full ''/d/t'' ''/d/u'' ''new'' sample_fs))) ''/d/u'' = Some (''old'', 384)"
proof -
  have "store_Load None no_faults (fst (snd (store_Save None no_faults ''/d/t'' ''/d/u'' ''new'' sample_fs))) ''/d/u'' = Inr ''new''"
    using save_atomic[of None no_faults "''/d/t''" "''/d/u''" "''new''" sample_fs "fst (store_Save None no_faults ''/d/t'' ''/d/u'' ''new'' sample_fs)"
        "fst (snd (store_Save None no_faults ''/d/t'' ''/d/u'' ''new'' sample_fs))" None] sample_saves(1)
    by (simp add: prod_eq_iff)
  moreover have "stored (fst (snd (store_Save None disk_full ''/d/t'' ''/d/u'' ''new'' sample_fs))) ''/d/u'' = stored sample_fs ''/d/u''"
    using save_atomic[of None disk_full "''/d/t''" "''/d/u''" "''new''" sample_fs "fst (store_Save None disk_full ''/d/t'' ''/d/u'' ''new'' sample_fs)"
        "fst (snd (store_Save None disk_full ''/d/t'' ''/d/u'' ''new'' sample_fs))" "snd (snd (store_Save None disk_full ''/d/t'' ''/d/u'' ''new'' sample_fs))"]
      sample_saves(2)
    by (simp add: prod_eq_iff)
  ultimately show ?thesis by (simp add: stored_def)
qed

text \<open>A removal that reports success has removed the file, so that nothing is loaded afterwards.\<close>

lemma clear_removes:
  assumes "store_Clear None flt path fs = (fs1, None)" "ff_remove flt = None" "ff_read flt = None"
  shows "fs1 (filepath_Clean path) = None \<and> (\<forall>p. p \<noteq> filepath_Clean path \<longrightarrow> fs1 p = fs p)"
  using assms by (auto simp: store_Clear_def clear_remove_def sys_Remove_def not_exist_def split: option.splits if_splits)

end
