(* ===== verification/Config_Loader.thy ===== *)
theory Config_Loader
  imports Session_Api
begin

text \<open>
  Where configurations come from and where logs go to: \<^verbatim>\<open>DefaultConfigLoader\<close> of
  \<^verbatim>\<open>core/sessionapi/config_loader.go\<close>, which fetches a configuration over HTTPS, and \<^verbatim>\<open>PrepareLogUpload\<close> of
  \<^verbatim>\<open>log_upload.go\<close>.

  The HTTP transport and the servers behind it are a function of a state \<open>'w\<close> of the outside. \<^verbatim>\<open>Client.Do\<close> of the
  standard library is the loop that follows redirects; the requests it sends are recorded. A response body is
  the bytes it delivers and the error after them. Timeouts are errors that the transport or a body reports.
\<close>

section \<open>HTTP\<close>

record http_response =
  re_StatusCode :: int
  re_Body :: bytes
  re_readErr :: "go_error option"
  re_closeErr :: "go_error option"

datatype http_reply =
    TransportError go_error
  | Redirect url_parts http_response
  | Response http_response

type_synonym 'w transport = "url_parts \<Rightarrow> 'w \<Rightarrow> 'w \<times> http_reply"

text \<open>
  A redirect policy sees the target URL and the requests made so far. It may rewrite the URL of the request it was
  given, or set it to nil; \<^verbatim>\<open>http.ErrUseLastResponse\<close> ends the loop with the redirect response itself.
\<close>

datatype redirect_policy = RefuseRedirect go_error | UseLastResponse | FollowRedirect "url_parts option"

record http_client =
  hc_CheckRedirect :: "(url_parts \<Rightarrow> url_parts list \<Rightarrow> redirect_policy) option"
  hc_urlError :: "url_parts \<Rightarrow> go_error \<Rightarrow> go_error"

text \<open>\<^verbatim>\<open>io.ReadAll(io.LimitReader(body, n))\<close>: the error of the body is seen only when the limit is not reached before.\<close>

definition limit_read :: "nat \<Rightarrow> http_response \<Rightarrow> bytes \<times> go_error option" where
  "limit_read n r = (take n (re_Body r), if length (re_Body r) < n then re_readErr r else None)"

section \<open>Fetching\<close>

definition is_https :: "url_parts \<Rightarrow> bool" where
  "is_https u \<longleftrightarrow> equal_fold (u_Scheme u) ''https''"

text \<open>The closure assigned to \<^verbatim>\<open>client.CheckRedirect\<close>; the URL of the target request, or how the loop ends.\<close>

definition checkRedirect :: "http_client \<Rightarrow> url_parts \<Rightarrow> url_parts list \<Rightarrow> redirect_policy" where
  "checkRedirect c u via =
     (if \<not> is_https u then RefuseRedirect (Plain ''configuration redirect must use HTTPS'')
      else if length via \<ge> 10 then RefuseRedirect (Plain ''configuration URL stopped after 10 redirects'')
      else (case hc_CheckRedirect c of
          None \<Rightarrow> FollowRedirect (Some u)
        | Some check \<Rightarrow> (case check u via of
             FollowRedirect target \<Rightarrow>
               (case target of
                  None \<Rightarrow> RefuseRedirect (Plain ''configuration redirect must use HTTPS'')
                | Some v \<Rightarrow> if is_https v then FollowRedirect (Some v)
                            else RefuseRedirect (Plain ''configuration redirect must use HTTPS''))
           | refused \<Rightarrow> refused)))"

lemma checkRedirect_FollowRedirect:
  assumes "checkRedirect c u via = FollowRedirect target"
  obtains v where "target = Some v" "is_https v" "length via < 10"
  using assms by (auto simp: checkRedirect_def split: if_splits option.splits redirect_policy.splits)

text \<open>
  \<^verbatim>\<open>Client.Do\<close>: \<open>via\<close> are the requests made before this one, oldest first. The result has the URLs of all requests
  sent. A nil URL would be an error of the client; \<open>checkRedirect\<close> never lets one pass.
\<close>

function do_requests ::
  "http_client \<Rightarrow> 'w transport \<Rightarrow> url_parts \<Rightarrow> url_parts list \<Rightarrow> 'w \<Rightarrow> 'w \<times> url_parts list \<times> (go_error + http_response)" where
  "do_requests c send u via w = (case send u w of
       (w1, TransportError e) \<Rightarrow> (w1, via @ [u], Inl (hc_urlError c u e))
     | (w1, Response r) \<Rightarrow> (w1, via @ [u], Inr r)
     | (w1, Redirect target r) \<Rightarrow> (case checkRedirect c target (via @ [u]) of
          RefuseRedirect e \<Rightarrow> (w1, via @ [u], Inl (hc_urlError c target e))
        | UseLastResponse \<Rightarrow> (w1, via @ [u], Inr r)
        | FollowRedirect None \<Rightarrow> (w1, via @ [u], Inl (hc_urlError c target (Plain ''http: nil Request.URL'')))
        | FollowRedirect (Some v) \<Rightarrow> do_requests c send v (via @ [u]) w1))"
  by pat_completeness auto
termination
  by (relation "measure (\<lambda>(c, send, u, via, w). 10 - length via)") (auto elim: checkRedirect_FollowRedirect)

declare do_requests.simps [simp del]

definition versionOrDev :: "string \<Rightarrow> string" where
  "versionOrDev version = (if trim_space version = [] then ''dev'' else version)"

text \<open>The \<^verbatim>\<open>User-Agent\<close> of the request: the loader's version, else the build's, else \<^verbatim>\<open>dev\<close>.\<close>

definition user_agent :: "string \<Rightarrow> string \<Rightarrow> string" where
  "user_agent loaderVersion buildVersion =
     ''DobbyVPN/'' @ versionOrDev (if trim_space loaderVersion = [] then buildVersion else loaderVersion)"

text \<open>\<^verbatim>\<open>loadURL\<close> after \<^verbatim>\<open>client.Do\<close> returned a response.\<close>

definition non_success :: "http_response \<Rightarrow> go_error" where
  "non_success r = (case limit_read (maxConfigBytes + 1) r of (drained, drainErr) \<Rightarrow>
     failureWithCause FailureInvalidArgument ''configuration URL returned a non-success response''
       (errors_join [Some (Plain (''configuration URL returned HTTP '' @ itoa (re_StatusCode r))),
          if length drained > maxConfigBytes
          then errors_join [drainErr, Some (Plain (''configuration error response exceeded the '' @ itoa (int maxConfigBytes) @ ''-byte drain limit''))]
          else drainErr,
          re_closeErr r]))"

definition read_response :: "string \<Rightarrow> http_response \<Rightarrow> go_error + loaded_config" where
  "read_response source r =
     (if re_StatusCode r < 200 \<or> re_StatusCode r \<ge> 300 then Inl (non_success r)
      else (case limit_read (maxConfigBytes + 1) r of (body, readErr) \<Rightarrow>
        if length body > maxConfigBytes
        then Inl (failureWithCause FailureInvalidArgument ''configuration URL response exceeds the 1 MiB size limit''
               (errors_join [Some (Plain ''configuration response exceeded the size limit''), readErr, re_closeErr r]))
        else if readErr \<noteq> None
        then Inl (failureWithCause FailureInvalidArgument ''configuration URL response could not be read'' (errors_join [readErr, re_closeErr r]))
        else if re_closeErr r \<noteq> None
        then Inl (failureWithCause FailureInvalidArgument ''configuration URL response could not be closed'' (re_closeErr r))
        else Inr \<lparr>lc_Raw = body, lc_Kind = ConfigSourceURL, lc_SourceURL = source\<rparr>))"

definition loadURL ::
  "url_parser \<Rightarrow> http_client \<Rightarrow> 'w transport \<Rightarrow> string \<Rightarrow> 'w \<Rightarrow> 'w \<times> url_parts list \<times> (go_error + loaded_config)" where
  "loadURL urlparse c send source w = (case urlparse source of
       Inl err \<Rightarrow> (w, [], Inl (failureWithCause FailureInvalidArgument ''configuration URL is invalid'' (Some err)))
     | Inr u \<Rightarrow> (case do_requests c send u [] w of
          (w1, sent, Inl err) \<Rightarrow> (w1, sent, Inl (failureWithCause FailureInvalidArgument ''configuration URL could not be fetched'' (Some err)))
        | (w1, sent, Inr r) \<Rightarrow> (w1, sent, read_response source r)))"

definition DefaultConfigLoader_Load ::
  "url_parser \<Rightarrow> http_client \<Rightarrow> 'w transport \<Rightarrow> bytes \<Rightarrow> 'w \<Rightarrow> 'w \<times> url_parts list \<times> (go_error + loaded_config)" where
  "DefaultConfigLoader_Load urlparse c send source w =
     (if source = [] then (w, [], Inl (failure FailureInvalidArgument ''configuration source is empty''))
      else if length source > maxConfigBytes
      then (w, [], Inl (failure FailureInvalidArgument ''configuration exceeds the 1 MiB size limit''))
      else let trimmed = trim_space source in
        if has_source_scheme trimmed then
          (case urlparse trimmed of
             Inr u \<Rightarrow> if is_https u \<and> u_Host u \<noteq> [] then loadURL urlparse c send trimmed w
                      else (w, [], Inl (failure FailureInvalidArgument ''configuration URL must use HTTPS''))
           | Inl _ \<Rightarrow> (w, [], Inl (failure FailureInvalidArgument ''configuration URL must use HTTPS'')))
        else (w, [], Inr \<lparr>lc_Raw = source, lc_Kind = ConfigSourceInline, lc_SourceURL = []\<rparr>))"

section \<open>What a load may do\<close>

lemma do_requests_sent:
  assumes "do_requests c send u via w = (w1, sent, r)" "is_https u" "length via < 10" "\<forall>v\<in>set via. is_https v"
  shows "(\<forall>v\<in>set sent. is_https v) \<and> length sent \<le> 10 \<and> length via < length sent"
  using assms
proof (induction c send u via w rule: do_requests.induct)
  case (1 c send u via w)
  obtain w2 reply where reply: "send u w = (w2, reply)" by (cases "send u w")
  note run = "1.prems"(1)[unfolded do_requests.simps[of c send u via w] reply]
  have here: "(\<forall>v\<in>set (via @ [u]). is_https v) \<and> length (via @ [u]) \<le> 10 \<and> length via < length (via @ [u])"
    using "1.prems"(2-4) by auto
  show ?case
  proof (cases reply)
    case (Redirect target resp)
    show ?thesis
    proof (cases "checkRedirect c target (via @ [u])")
      case (FollowRedirect n)
      then obtain v where v: "n = Some v" "is_https v" "length (via @ [u]) < 10"
        by (rule checkRedirect_FollowRedirect)
      have "do_requests c send v (via @ [u]) w2 = (w1, sent, r)"
        using run Redirect FollowRedirect v(1) by simp
      then have "(\<forall>v\<in>set sent. is_https v) \<and> length sent \<le> 10 \<and> length (via @ [u]) < length sent"
        using "1.IH"[OF reply[symmetric] Redirect FollowRedirect v(1)] v here by blast
      then show ?thesis by simp
    qed (use run Redirect here in auto)
  qed (use run here in auto)
qed

lemma read_response_Inr:
  assumes "read_response source r = Inr loaded"
  shows "200 \<le> re_StatusCode r \<and> re_StatusCode r < 300 \<and> re_readErr r = None \<and> re_closeErr r = None
    \<and> loaded = \<lparr>lc_Raw = re_Body r, lc_Kind = ConfigSourceURL, lc_SourceURL = source\<rparr> \<and> length (re_Body r) \<le> maxConfigBytes"
  using assms by (auto simp: read_response_def limit_read_def min_def split: if_splits)

lemma loadURL_Inr:
  assumes "loadURL urlparse c send source w = (w1, sent, Inr loaded)"
  obtains u r where "urlparse source = Inr u" "do_requests c send u [] w = (w1, sent, Inr r)" "read_response source r = Inr loaded"
  using assms by (auto simp: loadURL_def split: sum.splits prod.splits)

lemma loadURL_sent:
  assumes "loadURL urlparse c send source w = (w1, sent, res)" "urlparse source = Inr u" "is_https u"
  shows "(\<forall>v\<in>set sent. is_https v) \<and> length sent \<le> 10"
  using assms do_requests_sent[of c send u "[]" w] by (auto simp: loadURL_def split: sum.splits prod.splits)

lemma Load_cases:
  assumes "DefaultConfigLoader_Load urlparse c send source w = (w1, sent, res)"
  obtains (refused) code message where "w1 = w" "sent = []" "res = Inl (failure FailureInvalidArgument message)"
  | (inline) "w1 = w" "sent = []" "\<not> has_source_scheme (trim_space source)" "source \<noteq> []" "length source \<le> maxConfigBytes"
      "res = Inr \<lparr>lc_Raw = source, lc_Kind = ConfigSourceInline, lc_SourceURL = []\<rparr>"
  | (fetched) u where "has_source_scheme (trim_space source)" "urlparse (trim_space source) = Inr u" "is_https u" "u_Host u \<noteq> []"
      "loadURL urlparse c send (trim_space source) w = (w1, sent, res)"
  using assms by (auto simp: DefaultConfigLoader_Load_def Let_def split: if_splits sum.splits)

text \<open>
  C28. A configuration is fetched over HTTPS only. Whatever the servers answer, and whatever a caller's redirect
  policy rewrites, every request of a load goes to an HTTPS URL and there are at most ten; a source that is no
  URL, or a URL of another scheme, causes none. A load that succeeds returns at most 1 MiB: the source itself
  when it is no URL, otherwise the complete body of a response with a success status, together with the trimmed URL.
\<close>

theorem config_fetched_only_over_https:
  assumes "DefaultConfigLoader_Load urlparse c send source w = (w1, sent, res)"
  shows "(\<forall>v\<in>set sent. is_https v) \<and> length sent \<le> 10
    \<and> (\<not> has_source_scheme (trim_space source) \<longrightarrow> sent = [] \<and> w1 = w)
    \<and> (\<forall>loaded. res = Inr loaded \<longrightarrow> length (lc_Raw loaded) \<le> maxConfigBytes
       \<and> (if has_source_scheme (trim_space source)
          then lc_Kind loaded = ConfigSourceURL \<and> lc_SourceURL loaded = trim_space source
             \<and> (\<exists>u r. urlparse (trim_space source) = Inr u \<and> do_requests c send u [] w = (w1, sent, Inr r)
                  \<and> 200 \<le> re_StatusCode r \<and> re_StatusCode r < 300 \<and> re_readErr r = None \<and> lc_Raw loaded = re_Body r)
          else loaded = \<lparr>lc_Raw = source, lc_Kind = ConfigSourceInline, lc_SourceURL = []\<rparr>))"
  by (rule Load_cases[OF assms]) (auto elim!: loadURL_Inr dest!: read_response_Inr loadURL_sent)

text \<open>
  A server that redirects a first request to a second host, which answers \<open>[Outline]\<close>; a caller's policy that
  rewrites a redirect to plain HTTP is refused.
\<close>

definition sample_url :: "string \<Rightarrow> string \<Rightarrow> url_parts" where
  "sample_url scheme host = \<lparr>u_Scheme = scheme, u_Host = host, u_Hostname = host, u_Port = [], u_EscapedPath = ''/'',
     u_RawQuery = [], u_ForceQuery = False, u_Opaque = [], u_User = None, u_String = scheme @ ''://'' @ host @ ''/''\<rparr>"

definition sample_parse :: url_parser where
  "sample_parse s = (if s = ''https://a/'' then Inr (sample_url ''https'' ''a'') else Inl (Plain ''parse''))"

definition sample_response :: http_response where
  "sample_response = \<lparr>re_StatusCode = 200, re_Body = ''[Outline]'', re_readErr = None, re_closeErr = None\<rparr>"

definition sample_send :: "nat transport" where
  "sample_send u w = (Suc w, if u_Host u = ''a'' then Redirect (sample_url ''HTTPS'' ''b'') sample_response else Response sample_response)"

definition sample_client :: "(url_parts \<Rightarrow> url_parts list \<Rightarrow> redirect_policy) option \<Rightarrow> http_client" where
  "sample_client check = \<lparr>hc_CheckRedirect = check, hc_urlError = (\<lambda>u e. e)\<rparr>"

definition downgrade :: "url_parts \<Rightarrow> url_parts list \<Rightarrow> redirect_policy" where
  "downgrade u via = FollowRedirect (Some (u\<lparr>u_Scheme := ''http''\<rparr>))"

lemmas sample_loader_defs = sample_parse_def sample_response_def sample_send_def sample_client_def sample_url_def downgrade_def
  DefaultConfigLoader_Load_def loadURL_def do_requests.simps checkRedirect_def is_https_def read_response_def limit_read_def
  Let_def

lemma sample_trim: "trim_space '' https://a/'' = ''https://a/''" "has_source_scheme ''https://a/''"
  "equal_fold ''https'' ''https''" "equal_fold ''HTTPS'' ''https''" "\<not> equal_fold ''http'' ''https''"
  by code_simp+

lemma sample_load:
  "DefaultConfigLoader_Load sample_parse (sample_client None) sample_send '' https://a/'' 0
     = (2, [sample_url ''https'' ''a'', sample_url ''HTTPS'' ''b''],
        Inr \<lparr>lc_Raw = ''[Outline]'', lc_Kind = ConfigSourceURL, lc_SourceURL = ''https://a/''\<rparr>)"
  by (simp add: sample_loader_defs sample_trim maxConfigBytes_def)

lemma sample_downgrade:
  "DefaultConfigLoader_Load sample_parse (sample_client (Some downgrade)) sample_send '' https://a/'' 0
     = (1, [sample_url ''https'' ''a''], Inl (failureWithCause FailureInvalidArgument ''configuration URL could not be fetched''
          (Some (Plain ''configuration redirect must use HTTPS''))))"
  by (simp add: sample_loader_defs sample_trim maxConfigBytes_def)

theorem config_fetched_only_over_https_witness:
  "is_https (sample_url ''https'' ''a'') \<and> is_https (sample_url ''HTTPS'' ''b'')
     \<and> DefaultConfigLoader_Load sample_parse (sample_client None) sample_send '' https://a/'' 0
         = (2, [sample_url ''https'' ''a'', sample_url ''HTTPS'' ''b''],
            Inr \<lparr>lc_Raw = ''[Outline]'', lc_Kind = ConfigSourceURL, lc_SourceURL = ''https://a/''\<rparr>)"
  using config_fetched_only_over_https[OF sample_load] sample_load by simp

section \<open>Log upload\<close>

definition LogUploadMaxBytes :: int where "LogUploadMaxBytes = 150000000"

record log_upload_preparation =
  lu_Reference :: string
  lu_Destination :: string
  lu_Authorization :: string
  lu_Provider :: string
  lu_MaxBytes :: int

text \<open>The \<^verbatim>\<open>Authorization\<close> header for the user part of the endpoint, and the endpoint without it.\<close>

definition upload_auth :: "url_parts \<Rightarrow> string \<times> url_parts" where
  "upload_auth endpoint = (case u_User endpoint of
       None \<Rightarrow> ([], endpoint)
     | Some (user, password) \<Rightarrow>
         (''Basic '' @ b64_encode (user @ '':'' @ (case password of None \<Rightarrow> [] | Some p \<Rightarrow> p)), endpoint\<lparr>u_User := None\<rparr>))"

text \<open>
  \<^verbatim>\<open>PrepareLogUpload\<close>. \<open>urlstring\<close> is \<^verbatim>\<open>URL.String\<close>, \<open>newV7\<close> the text of a new UUID or the error of its generator.
\<close>

definition PrepareLogUpload ::
  "url_parser \<Rightarrow> (url_parts \<Rightarrow> string) \<Rightarrow> go_error + string \<Rightarrow> string \<Rightarrow> string \<Rightarrow> manager \<Rightarrow> go_error + log_upload_preparation" where
  "PrepareLogUpload urlparse urlstring newV7 sessionID digest m =
     (if sessionID = [] \<or> digest = []
      then Inl (failure FailureInvalidArgument ''session ID and configuration digest are required'')
      else (case get_err sessionID m of
          Some err \<Rightarrow> Inl err
        | None \<Rightarrow>
            let s = m_session m in
            if digest \<noteq> s_digest s then Inl (failure FailureConflict ''configuration changed; refresh its snapshot'')
            else if s_logsEndpoint s = [] then Inl (failure FailureConflict ''log upload is unavailable'')
            else (case urlparse (s_logsEndpoint s) of
               Inl _ \<Rightarrow> Inl (failure FailureInternal ''accepted log endpoint is invalid'')
             | Inr endpoint \<Rightarrow> (case newV7 of
                  Inl err \<Rightarrow> Inl (failureWithCause FailureInternal ''could not allocate upload reference'' (Some err))
                | Inr reference \<Rightarrow>
                    (let provider = urlstring (snd (upload_auth endpoint)) in
                     Inr \<lparr>lu_Reference = reference, lu_Destination = provider @ reference @ ''.gz'',
                       lu_Authorization = fst (upload_auth endpoint), lu_Provider = provider, lu_MaxBytes = LogUploadMaxBytes\<rparr>)))))"

end
