(* ===== verification/Probe.thy ===== *)
theory Probe
  imports Config_Loader
begin

text \<open>
  The tunnel probe (\<^verbatim>\<open>core/probe/probe.go\<close>): requests through the local SOCKS endpoint of the active protocol
  device, in parallel, of which a quorum must succeed. The SOCKS dialer (\<^verbatim>\<open>golang.org/x/net/proxy\<close>) and what a
  request does are parameters. \<^verbatim>\<open>int64\<close> arithmetic wraps.
\<close>

definition as_int64 :: "int \<Rightarrow> int" where
  "as_int64 n = (n + 2 ^ 63) mod 2 ^ 64 - 2 ^ 63"

lemma as_int64_id: "- (2 ^ 63) \<le> n \<Longrightarrow> n < 2 ^ 63 \<Longrightarrow> as_int64 n = n"
  by (simp add: as_int64_def)

definition httpProbeMinSuccesses :: int where "httpProbeMinSuccesses = 2"

definition httpProbeURLs :: "string list" where
  "httpProbeURLs = [''https://www.google.com/generate_204'', ''https://www.cloudflare.com/cdn-cgi/trace'', ''https://about.google'']"

section \<open>One endpoint\<close>

datatype probe_stage = StageRequest | StageConnect | StageTLS | StageResponse | StageStatus

datatype probe_error = ProbeTimeout | ProbeCanceled | ProbeDNS | ProbeNetwork | ProbeProtocol

fun stage_string :: "probe_stage \<Rightarrow> string" where
  "stage_string StageRequest = ''request''"
| "stage_string StageConnect = ''connect''"
| "stage_string StageTLS = ''tls''"
| "stage_string StageResponse = ''response''"
| "stage_string StageStatus = ''status''"

fun class_string :: "probe_error \<Rightarrow> string" where
  "class_string ProbeTimeout = ''timeout''"
| "class_string ProbeCanceled = ''canceled''"
| "class_string ProbeDNS = ''dns''"
| "class_string ProbeNetwork = ''network''"
| "class_string ProbeProtocol = ''protocol''"

record endpoint_result =
  er_latencyMs :: int
  er_status :: int
  er_failureStage :: "probe_stage option"
  er_errorClass :: "probe_error option"
  er_err :: "go_error option"

definition probeFailureStage :: "int \<Rightarrow> probe_stage" where
  "probeFailureStage stage = (if stage = 1 then StageConnect else if stage = 2 then StageTLS
     else if stage = 3 \<or> stage = 4 then StageResponse else StageRequest)"

fun as_dns :: "go_error \<Rightarrow> bool" where
  "as_dns (Plain m) = False"
| "as_dns (Sentinel s) = False"
| "as_dns (Wrap p e) = as_dns e"
| "as_dns (Joined es) = list_ex as_dns es"
| "as_dns (DomainError c m cause) = (case cause of None \<Rightarrow> False | Some e \<Rightarrow> as_dns e)"
| "as_dns (CleanupFailure e) = as_dns e"
| "as_dns (DNSError m nf) = True"

text \<open>\<open>netErr\<close> is \<^verbatim>\<open>errors.As\<close> for a \<^verbatim>\<open>net.Error\<close> with its \<^verbatim>\<open>Timeout()\<close>.\<close>

definition probeErrorClass :: "(go_error \<Rightarrow> bool option) \<Rightarrow> go_error \<Rightarrow> probe_error" where
  "probeErrorClass netErr err =
     (if errors_is err DeadlineExceeded then ProbeTimeout
      else if errors_is err Canceled then ProbeCanceled
      else if as_dns err then ProbeDNS
      else (case netErr err of Some True \<Rightarrow> ProbeTimeout | Some False \<Rightarrow> ProbeNetwork | None \<Rightarrow> ProbeProtocol))"

definition failedProbeEndpoint :: "(go_error \<Rightarrow> bool option) \<Rightarrow> int \<Rightarrow> probe_stage \<Rightarrow> go_error \<Rightarrow> endpoint_result" where
  "failedProbeEndpoint netErr status stage err = \<lparr>er_latencyMs = 0, er_status = status, er_failureStage = Some stage,
     er_errorClass = Some (probeErrorClass netErr err), er_err = Some err\<rparr>"

definition maxInt64 :: "int \<Rightarrow> int \<Rightarrow> int" where
  "maxInt64 a b = (if a > b then a else b)"

text \<open>
  \<^verbatim>\<open>setStage\<close>: a successful compare-and-swap, or no change. The callbacks of the trace run in any order and on
  several goroutines; a lost race only repeats the loop, so they are applied one after the other.
\<close>

definition setStage :: "int \<Rightarrow> int \<Rightarrow> int" where
  "setStage candidate current = (if candidate \<le> current then current else candidate)"

text \<open>
  What a request does: whether \<^verbatim>\<open>NewRequest\<close> fails, the stages the trace reports, how long it takes, and the error
  of \<^verbatim>\<open>client.Do\<close> or the status of the response.
\<close>

record endpoint_run =
  en_requestErr :: "go_error option"
  en_stages :: "int list"
  en_elapsedMs :: int
  en_result :: "go_error + int"

definition probeEndpoint :: "(go_error \<Rightarrow> bool option) \<Rightarrow> endpoint_run \<Rightarrow> endpoint_result" where
  "probeEndpoint netErr r = (case en_requestErr r of
       Some err \<Rightarrow> failedProbeEndpoint netErr 0 StageRequest err
     | None \<Rightarrow> (case en_result r of
          Inl err \<Rightarrow> failedProbeEndpoint netErr 0 (probeFailureStage (fold setStage (en_stages r) 0)) err
        | Inr status \<Rightarrow>
            if status < 200 \<or> status \<ge> 400
            then failedProbeEndpoint netErr status StageStatus (Plain (''unexpected status '' @ itoa status))
            else \<lparr>er_latencyMs = maxInt64 1 (en_elapsedMs r), er_status = status, er_failureStage = None, er_errorClass = None, er_err = None\<rparr>))"

text \<open>The stage only grows, whatever the order of the callbacks: it is the furthest one reached.\<close>

lemma fold_setStage: "fold setStage stages n = Max (insert n (set stages))"
proof -
  have "setStage = max" by (auto simp: setStage_def max_def fun_eq_iff)
  then show ?thesis using Max.set_eq_fold[of n stages] by simp
qed

section \<open>The quorum\<close>

text \<open>One iteration of the evaluation: sum, successes, errors so far, over an index and its result.\<close>

definition probe_text :: "nat \<Rightarrow> endpoint_result \<Rightarrow> string" where
  "probe_text index r = ''endpoint '' @ itoa (int index) @ '' failed at ''
     @ (case er_failureStage r of None \<Rightarrow> [] | Some s \<Rightarrow> stage_string s) @ '' (status='' @ itoa (er_status r)
     @ '', error_class='' @ (case er_errorClass r of None \<Rightarrow> [] | Some c \<Rightarrow> class_string c) @ ''): ''"

text \<open>Division of \<^verbatim>\<open>int64\<close> values truncates towards zero.\<close>

definition go_div :: "int \<Rightarrow> int \<Rightarrow> int" where
  "go_div a b = sgn a * sgn b * (\<bar>a\<bar> div \<bar>b\<bar>)"

definition evaluate_one :: "nat \<times> endpoint_result \<Rightarrow> int \<times> int \<times> go_error list \<Rightarrow> int \<times> int \<times> go_error list" where
  "evaluate_one = (\<lambda>(index, r) (ms, successes, errs). case er_err r of
       Some err \<Rightarrow> (ms, successes, errs @ [Wrap (probe_text index r) err])
     | None \<Rightarrow> (as_int64 (ms + er_latencyMs r), successes + 1, errs))"

definition measureTunnelProbe :: "endpoint_result list \<Rightarrow> go_error + int" where
  "measureTunnelProbe results =
     (case fold evaluate_one (enumerate 0 results) (0, 0, []) of (ms, successes, errs) \<Rightarrow>
        let endpoints = int (length httpProbeURLs);
            requiredSuccesses = (if httpProbeMinSuccesses > endpoints then endpoints else httpProbeMinSuccesses) in
        if successes < requiredSuccesses
        then Inl (Wrap (''tunnel probe reached '' @ itoa successes @ ''/'' @ itoa endpoints @ '' successful endpoints; '' @ itoa requiredSuccesses @ '' required: '')
               (Joined errs))
        else Inr (go_div ms successes))"

section \<open>The SOCKS endpoint\<close>

record socks_url = url_parts +
  u_Fragment :: string

definition JoinHostPort :: "string \<Rightarrow> string \<Rightarrow> string" where
  "JoinHostPort host port =
     (if contains_char host (CHR '':'') \<or> contains_char host (CHR ''%'') then ''['' @ host @ '']:'' @ port else host @ '':'' @ port)"

text \<open>\<open>socks5\<close> is \<^verbatim>\<open>proxy.SOCKS5\<close> of the endpoint and its credentials; \<^const>\<open>None\<close> is a dialer without cancellation.\<close>

type_synonym 'd socks5 = "string \<Rightarrow> (string \<times> string) option \<Rightarrow> int \<Rightarrow> go_error + 'd option"

definition socks5DialContext :: "(string \<Rightarrow> go_error + socks_url) \<Rightarrow> 'd socks5 \<Rightarrow> string \<Rightarrow> int \<Rightarrow> go_error + 'd" where
  "socks5DialContext urlparse socks5 proxyAddr timeout =
     (if proxyAddr = [] then Inl (Plain ''empty SOCKS endpoint'')
      else (case urlparse (''socks5://'' @ proxyAddr) of
          Inl _ \<Rightarrow> Inl (Plain ''invalid SOCKS endpoint'')
        | Inr u \<Rightarrow>
            if u_Host u = [] \<or> u_EscapedPath u \<noteq> [] \<or> u_RawQuery u \<noteq> [] \<or> u_Fragment u \<noteq> [] then Inl (Plain ''invalid SOCKS endpoint'')
            else if u_Hostname u = [] \<or> u_Port u = [] then Inl (Plain ''SOCKS endpoint requires host and port'')
            else (case socks5 (JoinHostPort (u_Hostname u) (u_Port u))
                     (map_option (\<lambda>(user, password). (user, case password of None \<Rightarrow> [] | Some p \<Rightarrow> p)) (u_User u)) timeout of
               Inl err \<Rightarrow> Inl (Wrap ''create SOCKS dialer: '' err)
             | Inr None \<Rightarrow> Inl (Plain ''SOCKS dialer does not support cancellation'')
             | Inr (Some dial) \<Rightarrow> Inr dial)))"

text \<open>The timeout is a product of two \<^verbatim>\<open>int64\<close> values, in nanoseconds. \<open>request\<close> is a request through a dialer.\<close>

definition MeasureTunnelProbe ::
  "(string \<Rightarrow> go_error + socks_url) \<Rightarrow> 'd socks5 \<Rightarrow> (go_error \<Rightarrow> bool option) \<Rightarrow> ('d \<Rightarrow> int \<Rightarrow> string \<Rightarrow> endpoint_run)
     \<Rightarrow> int \<Rightarrow> string \<Rightarrow> go_error + int" where
  "MeasureTunnelProbe urlparse socks5 netErr request timeoutMillis proxyAddr =
     (let timeout = as_int64 (timeoutMillis * 1000000) in
      if timeout \<le> 0 then Inl (Plain (''tunnel probe timeout must be positive: '' @ itoa timeoutMillis @ ''ms''))
      else (case socks5DialContext urlparse socks5 proxyAddr timeout of
          Inl err \<Rightarrow> Inl (Wrap ''tunnel probe local SOCKS endpoint is unavailable: '' err)
        | Inr dial \<Rightarrow> measureTunnelProbe (map (\<lambda>u. probeEndpoint netErr (request dial timeout u)) httpProbeURLs)))"

section \<open>Exactness\<close>

definition succeeded :: "endpoint_result list \<Rightarrow> endpoint_result list" where
  "succeeded results = filter (\<lambda>r. er_err r = None) results"

lemma fold_evaluate_one:
  assumes "\<forall>r\<in>set results. 0 \<le> er_latencyMs r \<and> er_latencyMs r < 2 ^ 61" "0 \<le> ms" "ms + int (length results) * 2 ^ 61 \<le> 2 ^ 63"
  shows "\<exists>errs'. fold evaluate_one (enumerate n results) (ms, successes, errs)
    = (ms + sum_list (map er_latencyMs (succeeded results)), successes + int (length (succeeded results)), errs @ errs')
    \<and> (\<forall>r\<in>set results. \<forall>e. er_err r = Some e \<longrightarrow> (\<exists>p. Wrap p e \<in> set errs'))"
  using assms
proof (induction results arbitrary: n ms successes errs)
  case (Cons r results)
  show ?case
  proof (cases "er_err r")
    case None
    have small: "as_int64 (ms + er_latencyMs r) = ms + er_latencyMs r"
      using Cons.prems by (intro as_int64_id) auto
    have "\<exists>errs'. fold evaluate_one (enumerate (Suc n) results) (ms + er_latencyMs r, successes + 1, errs)
        = (ms + er_latencyMs r + sum_list (map er_latencyMs (succeeded results)), successes + 1 + int (length (succeeded results)), errs @ errs')
        \<and> (\<forall>r\<in>set results. \<forall>e. er_err r = Some e \<longrightarrow> (\<exists>p. Wrap p e \<in> set errs'))"
      by (rule Cons.IH) (use Cons.prems in auto)
    with None small show ?thesis by (auto simp: evaluate_one_def succeeded_def algebra_simps)
  next
    case (Some e)
    have "\<exists>errs'. fold evaluate_one (enumerate (Suc n) results) (ms, successes, errs @ [Wrap (probe_text n r) e])
        = (ms + sum_list (map er_latencyMs (succeeded results)), successes + int (length (succeeded results)), (errs @ [Wrap (probe_text n r) e]) @ errs')
        \<and> (\<forall>r\<in>set results. \<forall>e. er_err r = Some e \<longrightarrow> (\<exists>p. Wrap p e \<in> set errs'))"
      by (rule Cons.IH) (use Cons.prems in auto)
    then obtain errs' where "fold evaluate_one (enumerate (Suc n) results) (ms, successes, errs @ [Wrap (probe_text n r) e])
        = (ms + sum_list (map er_latencyMs (succeeded results)), successes + int (length (succeeded results)), (errs @ [Wrap (probe_text n r) e]) @ errs')"
      "\<forall>r\<in>set results. \<forall>e. er_err r = Some e \<longrightarrow> (\<exists>p. Wrap p e \<in> set errs')" by blast
    with Some show ?thesis
      by (intro exI[of _ "Wrap (probe_text n r) e # errs'"]) (auto simp: evaluate_one_def succeeded_def)
  qed
qed (simp add: succeeded_def)

text \<open>An average lies between the bounds of its samples.\<close>

lemma sum_list_bounds:
  assumes "\<forall>x\<in>set xs. lo \<le> x \<and> x \<le> (hi :: int)"
  shows "int (length xs) * lo \<le> sum_list xs \<and> sum_list xs \<le> int (length xs) * hi"
  using assms by (induction xs) (auto simp: algebra_simps)

lemma go_div_average:
  assumes "0 < n" "0 \<le> lo" "n * lo \<le> s" "s \<le> n * hi"
  shows "lo \<le> go_div s n \<and> go_div s n \<le> hi"
proof -
  have "0 \<le> s" using assms by (smt (verit) mult_nonneg_nonneg)
  then have "go_div s n = s div n" using assms(1) by (cases "s = 0") (auto simp: go_div_def)
  moreover have "n * lo div n \<le> s div n" "s div n \<le> n * hi div n"
    by (rule zdiv_mono1[OF assms(3,1)], rule zdiv_mono1[OF assms(4,1)])
  ultimately show ?thesis using assms(1) by simp
qed

lemma average_between:
  assumes "xs \<noteq> []" "\<forall>x\<in>set xs. 1 \<le> (x :: int)"
  shows "1 \<le> go_div (sum_list xs) (int (length xs)) \<and> (\<exists>x\<in>set xs. x \<le> go_div (sum_list xs) (int (length xs)))
    \<and> (\<exists>x\<in>set xs. go_div (sum_list xs) (int (length xs)) \<le> x)"
proof -
  have ends: "Min (set xs) \<in> set xs" "Max (set xs) \<in> set xs" using assms(1) by auto
  have "Min (set xs) \<le> go_div (sum_list xs) (int (length xs)) \<and> go_div (sum_list xs) (int (length xs)) \<le> Max (set xs)"
    using sum_list_bounds[of xs "Min (set xs)" "Max (set xs)"] assms ends by (intro go_div_average) force+
  with ends assms(2) show ?thesis by force
qed

lemma probeEndpoint_latency:
  assumes "- (2 ^ 61) \<le> en_elapsedMs r" "en_elapsedMs r < 2 ^ 61"
  shows "0 \<le> er_latencyMs (probeEndpoint netErr r) \<and> er_latencyMs (probeEndpoint netErr r) < 2 ^ 61"
    "er_err (probeEndpoint netErr r) = None \<Longrightarrow> er_latencyMs (probeEndpoint netErr r) = max 1 (en_elapsedMs r)
       \<and> (\<exists>status. en_result r = Inr status \<and> 200 \<le> status \<and> status < 400)"
  using assms by (auto simp: probeEndpoint_def failedProbeEndpoint_def maxInt64_def split: option.splits sum.splits)

text \<open>
  C30. The tunnel probe succeeds exactly when the timeout is positive, the local SOCKS endpoint is usable and at
  least two of the three endpoints answer with a status between 200 and 399. Its result is then a positive
  number of milliseconds between the fastest and the slowest success. When too few succeed, the error of every
  endpoint that failed is a part of the error it returns. No request takes 2^61 milliseconds.
\<close>

theorem probe_quorum:
  assumes "0 < as_int64 (timeoutMillis * 1000000)"
    and "socks5DialContext urlparse socks5 proxyAddr (as_int64 (timeoutMillis * 1000000)) = Inr dial"
    and "\<forall>u. \<bar>en_elapsedMs (request dial (as_int64 (timeoutMillis * 1000000)) u)\<bar> < 2 ^ 61"
    and results_def: "results = map (\<lambda>u. probeEndpoint netErr (request dial (as_int64 (timeoutMillis * 1000000)) u)) httpProbeURLs"
  shows "case MeasureTunnelProbe urlparse socks5 netErr request timeoutMillis proxyAddr of
      Inr ms \<Rightarrow> length (succeeded results) \<ge> 2 \<and> 1 \<le> ms \<and> (\<exists>r\<in>set (succeeded results). er_latencyMs r \<le> ms) \<and> (\<exists>r\<in>set (succeeded results). ms \<le> er_latencyMs r)
    | Inl err \<Rightarrow> length (succeeded results) < 2 \<and> (\<exists>p errs. err = Wrap p (Joined errs)
        \<and> (\<forall>r\<in>set results. \<forall>e. er_err r = Some e \<longrightarrow> (\<exists>q. Wrap q e \<in> set errs)))"
proof -
  let ?ok = "succeeded results" and ?run = "request dial (as_int64 (timeoutMillis * 1000000))"
  have run: "MeasureTunnelProbe urlparse socks5 netErr request timeoutMillis proxyAddr = measureTunnelProbe results"
    using assms(1,2) by (simp add: MeasureTunnelProbe_def Let_def results_def)
  have elapsed: "- (2 ^ 61) \<le> en_elapsedMs (?run u)" "en_elapsedMs (?run u) < 2 ^ 61" for u
    using assms(3)[rule_format, of u] by linarith+
  have lat: "\<forall>r\<in>set results. 0 \<le> er_latencyMs r \<and> er_latencyMs r < 2 ^ 61"
    using probeEndpoint_latency(1)[OF elapsed] by (auto simp: results_def)
  have three: "length results = 3" by (simp add: results_def httpProbeURLs_def)
  obtain errs where eval: "fold evaluate_one (enumerate 0 results) (0, 0, []) = (sum_list (map er_latencyMs ?ok), int (length ?ok), errs)"
    and errs: "\<forall>r\<in>set results. \<forall>e. er_err r = Some e \<longrightarrow> (\<exists>p. Wrap p e \<in> set errs)"
    using fold_evaluate_one[OF lat, of 0 0 0 "[]"] three by auto
  have ok_pos: "1 \<le> er_latencyMs r" if "r \<in> set ?ok" for r
    using that probeEndpoint_latency(2)[OF elapsed] by (auto simp: succeeded_def results_def)
  have avg: "1 \<le> go_div (sum_list (map er_latencyMs ?ok)) (int (length ?ok))
      \<and> (\<exists>r\<in>set ?ok. er_latencyMs r \<le> go_div (sum_list (map er_latencyMs ?ok)) (int (length ?ok)))
      \<and> (\<exists>r\<in>set ?ok. go_div (sum_list (map er_latencyMs ?ok)) (int (length ?ok)) \<le> er_latencyMs r)" if "length ?ok \<ge> 2"
    using average_between[of "map er_latencyMs ?ok"] ok_pos that by (cases ?ok) auto
  show ?thesis
    using avg errs by (auto simp: run measureTunnelProbe_def eval Let_def httpProbeMinSuccesses_def httpProbeURLs_def)
qed

text \<open>Two endpoints answer, in 30 and 41 milliseconds; the third does not resolve.\<close>

definition sample_probe_url :: "string \<Rightarrow> go_error + socks_url" where
  "sample_probe_url s = Inr \<lparr>u_Scheme = ''socks5'', u_Host = ''127.0.0.1:9'', u_Hostname = ''127.0.0.1'', u_Port = ''9'', u_EscapedPath = [],
     u_RawQuery = [], u_ForceQuery = False, u_Opaque = [], u_User = Some (''u'', Some ''p''), u_String = s, u_Fragment = []\<rparr>"

definition sample_request :: "string \<Rightarrow> int \<Rightarrow> string \<Rightarrow> endpoint_run" where
  "sample_request dial timeout u =
     (if u = ''https://about.google'' then \<lparr>en_requestErr = None, en_stages = [1], en_elapsedMs = 2000, en_result = Inl (DNSError ''no such host'' True)\<rparr>
      else \<lparr>en_requestErr = None, en_stages = [1, 2, 3, 4],
        en_elapsedMs = (if u = ''https://www.google.com/generate_204'' then 30 else 41), en_result = Inr 204\<rparr>)"

definition sample_socks5 :: "string socks5" where
  "sample_socks5 address auth timeout = Inr (Some address)"

definition no_net_error :: "go_error \<Rightarrow> bool option" where
  "no_net_error err = None"

lemma sample_probe:
  "MeasureTunnelProbe sample_probe_url sample_socks5 no_net_error sample_request 2000 ''u:p@127.0.0.1:9'' = Inr 35"
  "socks5DialContext sample_probe_url sample_socks5 ''u:p@127.0.0.1:9'' (as_int64 (2000 * 1000000)) = Inr ''127.0.0.1:9''"
  "0 < as_int64 (2000 * 1000000)"
  "length (succeeded (map (\<lambda>u. probeEndpoint no_net_error (sample_request ''127.0.0.1:9'' (as_int64 (2000 * 1000000)) u)) httpProbeURLs)) = 2"
  by code_simp+

theorem probe_quorum_witness:
  "MeasureTunnelProbe sample_probe_url sample_socks5 no_net_error sample_request 2000 ''u:p@127.0.0.1:9'' = Inr 35
   \<and> (\<exists>r\<in>set (succeeded (map (\<lambda>u. probeEndpoint no_net_error (sample_request ''127.0.0.1:9'' (as_int64 (2000 * 1000000)) u)) httpProbeURLs)).
        er_latencyMs r \<le> 35)"
proof -
  have "\<forall>u. \<bar>en_elapsedMs (sample_request ''127.0.0.1:9'' (as_int64 (2000 * 1000000)) u)\<bar> < 2 ^ 61"
    by (simp add: sample_request_def)
  then show ?thesis
    using probe_quorum[OF sample_probe(3,2) _ refl, of sample_request no_net_error] unfolding sample_probe(1) by auto
qed

end
