(* ===== verification/Control_Plane.thy ===== *)
theory Control_Plane
  imports Session_State Go_Path
begin

text \<open>
  Access to the desktop service (\<^verbatim>\<open>core/clientserver/controlplane/unix.go\<close>, \<^verbatim>\<open>unix_peer_linux.go\<close>,
  \<^verbatim>\<open>unix_peer_darwin.go\<close>, \<^verbatim>\<open>source_store.go\<close>, \<^verbatim>\<open>source_store_unix.go\<close>; \<^verbatim>\<open>controljson/serve.go\<close>): who may connect, where the
  control socket is, how it is created, and the accept loop.

  The environment of the process is a record: variables, user, directories. The file system maps a cleaned path
  to the kind, owner and mode of what is there; any call may fail. Modes are octal numbers in the source:
  0700, 0711, 0600 and 0622 are 448, 457, 384 and 402.
\<close>

section \<open>The installed user\<close>

text \<open>
  \<open>ho_runUser\<close>: the entries of \<^verbatim>\<open>/run/user\<close>, each with the owner of the directory when \<^verbatim>\<open>os.Stat\<close> finds one.
\<close>

record host =
  ho_goos :: string
  ho_env :: "string \<Rightarrow> string"
  ho_uid :: int
  ho_runUser :: "go_error + (string \<times> int option) list"
  ho_isDir :: "string \<Rightarrow> bool"
  ho_configDir :: "go_error + string"
  ho_eval :: "string \<Rightarrow> go_error + string"

definition desktop_uid :: "string \<times> int option \<Rightarrow> int list" where
  "desktop_uid = (\<lambda>(name, owner). case atoi name of
       None \<Rightarrow> []
     | Some uid \<Rightarrow> if uid < 1000 \<or> uid \<ge> 60000 then [] else if owner = Some uid then [uid] else [])"

definition privilegedDefaultPeerUID :: "host \<Rightarrow> go_error + int" where
  "privilegedDefaultPeerUID h =
     (if ho_goos h = ''darwin'' then Inl (Plain ''the macOS installer must configure its desktop UID'')
      else (case ho_runUser h of
          Inl err \<Rightarrow> Inl err
        | Inr entries \<Rightarrow> (case concat (map desktop_uid entries) of
             [uid] \<Rightarrow> Inr uid
           | candidates \<Rightarrow> Inl (Plain (''expected one logged-in desktop UID, found '' @ itoa (int (length candidates)))))))"

definition expectedPeerUID :: "host \<Rightarrow> go_error + int" where
  "expectedPeerUID h =
     (let value = ho_env h ''DOBBYVPN_CONTROL_PEER_UID'' in
      if value \<noteq> [] then (case atoi value of
          Some uid \<Rightarrow> if uid < 0 then Inl (Plain ''DOBBYVPN_CONTROL_PEER_UID is invalid'') else Inr uid
        | None \<Rightarrow> Inl (Plain ''DOBBYVPN_CONTROL_PEER_UID is invalid''))
      else if ho_uid h \<noteq> 0 then Inr (ho_uid h)
      else (case privilegedDefaultPeerUID h of
          Inl err \<Rightarrow> Inl (Wrap ''DOBBYVPN_CONTROL_PEER_UID is required for a privileged control service: '' err)
        | Inr uid \<Rightarrow> Inr uid))"

definition controlSocketPathForOS :: "string \<Rightarrow> host \<Rightarrow> go_error + string" where
  "controlSocketPathForOS goos h =
     (let configured = ho_env h ''DOBBYVPN_CONTROL_SOCKET'';
          userPath = (\<lambda>_ :: unit. case (if ho_env h ''XDG_RUNTIME_DIR'' = [] then ho_configDir h else Inr (ho_env h ''XDG_RUNTIME_DIR'')) of
             Inl err \<Rightarrow> Inl err | Inr dir \<Rightarrow> Inr (filepath_Join [dir, ''DobbyVPN'', ''control.sock''])) in
      if configured \<noteq> [] then Inr configured
      else if goos = ''darwin'' then Inr ''/var/run/dobbyvpn/control.sock''
      else if ho_uid h = 0 then (case expectedPeerUID h of
          Inl err \<Rightarrow> Inl err
        | Inr uid \<Rightarrow> let runtimeDir = filepath_Join [''/'', ''run'', ''user'', itoa uid] in
            if ho_isDir h runtimeDir then Inr (filepath_Join [runtimeDir, ''DobbyVPN'', ''control.sock'']) else userPath ())
      else userPath ())"

definition ControlSocketPath :: "host \<Rightarrow> go_error + string" where
  "ControlSocketPath h = controlSocketPathForOS (ho_goos h) h"

text \<open>\<open>homeOf\<close> is \<^verbatim>\<open>user.LookupId\<close> and the home directory of the account.\<close>

definition controlUserHome :: "(int \<Rightarrow> go_error + string) \<Rightarrow> host \<Rightarrow> go_error + string" where
  "controlUserHome homeOf h = (case expectedPeerUID h of
       Inl err \<Rightarrow> Inl err
     | Inr uid \<Rightarrow> (case homeOf uid of
          Inl err \<Rightarrow> Inl (Wrap ''resolve desktop connection URL owner: '' err)
        | Inr home \<Rightarrow> if home = [] then Inl (Plain ''desktop connection URL owner has no home directory'') else Inr home))"

definition ConnectionSourceStore :: "(int \<Rightarrow> go_error + string) \<Rightarrow> host \<Rightarrow> go_error + string" where
  "ConnectionSourceStore homeOf h = (case controlUserHome homeOf h of
       Inl err \<Rightarrow> Inl err
     | Inr home \<Rightarrow> Inr (filepath_Join [home, ''.dobbyvpn'', ''configs'', ''connection-url.txt'']))"

section \<open>Peers\<close>

record peer_conn =
  pc_unix :: bool
  pc_cred :: "go_error + int"

definition peerUID :: "peer_conn \<Rightarrow> go_error + int" where
  "peerUID c = (if \<not> pc_unix c then Inl (Plain ''control plane accepted a non-Unix connection'') else pc_cred c)"

definition AuthenticateLocalPeer :: "host \<Rightarrow> peer_conn \<Rightarrow> go_error option" where
  "AuthenticateLocalPeer h c = (case expectedPeerUID h of
       Inl err \<Rightarrow> Some err
     | Inr expected \<Rightarrow> (case peerUID c of
          Inl err \<Rightarrow> Some err
        | Inr uid \<Rightarrow> if uid \<noteq> expected then Some (Plain ''control peer UID is not the installed user'') else None))"

text \<open>
  \<^verbatim>\<open>Serve\<close> over the results of \<^verbatim>\<open>Accept\<close>: the connections handed to the handler, and how the loop ended; \<^const>\<open>None\<close>
  while it waits for the next connection. \<open>authorize\<close> may be nil.
\<close>

fun Serve :: "('c \<Rightarrow> go_error option) option \<Rightarrow> (go_error + 'c) list \<Rightarrow> 'c list \<times> go_error option option" where
  "Serve authorize [] = ([], None)"
| "Serve authorize (Inl err # accepts) = ([], Some (if errors_is err NetErrClosed then None else Some err))"
| "Serve authorize (Inr conn # accepts) =
     (if authorize \<noteq> None \<and> the authorize conn \<noteq> None then Serve authorize accepts
      else (case Serve authorize accepts of (served, r) \<Rightarrow> (conn # served, r)))"

text \<open>
  \<^verbatim>\<open>routineDisconnect\<close>: every leaf of the error is an ordinary end of a connection. \<open>reset\<close> says whether a leaf is
  \<^verbatim>\<open>EPIPE\<close>, \<^verbatim>\<open>ECONNRESET\<close> or the platform's own code.
\<close>

fun routineDisconnect :: "(go_error \<Rightarrow> bool) \<Rightarrow> go_error \<Rightarrow> bool" where
  "routineDisconnect reset (Joined es) = (es \<noteq> [] \<and> list_all (routineDisconnect reset) es)"
| "routineDisconnect reset (Wrap p e) = routineDisconnect reset e"
| "routineDisconnect reset (DomainError c m cause) = (case cause of None \<Rightarrow> False | Some e \<Rightarrow> routineDisconnect reset e)"
| "routineDisconnect reset (CleanupFailure e) = routineDisconnect reset e"
| "routineDisconnect reset (Sentinel s) = (s = IoEOF \<or> s = NetErrClosed \<or> reset (Sentinel s))"
| "routineDisconnect reset (Plain m) = reset (Plain m)"
| "routineDisconnect reset (DNSError m nf) = reset (DNSError m nf)"

section \<open>The control socket\<close>

datatype fkind = KDir | KSocket | KLink | KOther

record fnode =
  fn_kind :: fkind
  fn_uid :: int
  fn_mode :: nat

type_synonym ctl_fs = "string \<Rightarrow> fnode option"

record ctl_faults =
  cf_mkdir :: "go_error option"
  cf_lstat :: "string \<Rightarrow> go_error option"
  cf_chown_dir :: "go_error option"
  cf_chmod_dir :: "go_error option"
  cf_remove :: "go_error option"
  cf_listen :: "go_error option"
  cf_chmod :: "go_error option"
  cf_chown :: "go_error option"
  cf_close :: "go_error option"
  cf_bind_mode :: nat

definition ctl_Lstat :: "ctl_faults \<Rightarrow> ctl_fs \<Rightarrow> string \<Rightarrow> go_error + fnode" where
  "ctl_Lstat flt fs p = (case cf_lstat flt p of
       Some err \<Rightarrow> Inl err
     | None \<Rightarrow> (case fs (filepath_Clean p) of None \<Rightarrow> Inl (Wrap (''lstat '' @ p @ '': '') (Sentinel OsErrNotExist)) | Some n \<Rightarrow> Inr n))"

definition with_mode :: "go_error option \<Rightarrow> string \<Rightarrow> nat \<Rightarrow> ctl_fs \<Rightarrow> ctl_fs \<times> go_error option" where
  "with_mode err p mode fs = (case err of Some e \<Rightarrow> (fs, Some e)
     | None \<Rightarrow> (fs(filepath_Clean p := map_option (\<lambda>n. n\<lparr>fn_mode := mode\<rparr>) (fs (filepath_Clean p))), None))"

definition with_owner :: "go_error option \<Rightarrow> string \<Rightarrow> int \<Rightarrow> ctl_fs \<Rightarrow> ctl_fs \<times> go_error option" where
  "with_owner err p uid fs = (case err of Some e \<Rightarrow> (fs, Some e)
     | None \<Rightarrow> (fs(filepath_Clean p := map_option (\<lambda>n. n\<lparr>fn_uid := uid\<rparr>) (fs (filepath_Clean p))), None))"

definition ensureControlSocketDirectory :: "host \<Rightarrow> ctl_faults \<Rightarrow> string \<Rightarrow> ctl_fs \<Rightarrow> ctl_fs \<times> go_error option" where
  "ensureControlSocketDirectory h flt path fs =
     (let directory = filepath_Dir path in
      case cf_mkdir flt of
        Some err \<Rightarrow> (fs, Some err)
      | None \<Rightarrow>
          (let fs1 = (\<lambda>p. if fs p = None \<and> p \<in> set (ancestors (filepath_Clean directory))
                          then Some \<lparr>fn_kind = KDir, fn_uid = ho_uid h, fn_mode = 448\<rparr> else fs p) in
           case ctl_Lstat flt fs1 directory of
             Inl err \<Rightarrow> (fs1, Some (Wrap ''inspect control socket parent: '' err))
           | Inr info \<Rightarrow> (fs1, if fn_kind info \<noteq> KDir then Some (Plain ''control socket parent is not a directory'') else None)))"

definition supervisedUnprivilegedSocket :: "host \<Rightarrow> ctl_faults \<Rightarrow> string \<Rightarrow> int \<Rightarrow> ctl_fs \<Rightarrow> go_error + bool" where
  "supervisedUnprivilegedSocket h flt path expected fs =
     (if ho_env h ''DOBBYVPN_SUPERVISED_REQUEST'' \<noteq> ''1'' \<or> ho_uid h = 0 \<or> expected = ho_uid h then Inr False
      else let root = ho_env h ''DOBBYVPN_REQUEST_ROOT'' in
        if root = [] \<or> \<not> filepath_IsAbs root \<or> \<not> filepath_IsAbs path
        then Inl (Plain ''supervised control socket paths are invalid'')
        else (case ho_eval h root of
            Inl err \<Rightarrow> Inl (Wrap ''supervised request root is unavailable: '' err)
          | Inr resolvedRoot \<Rightarrow> (let parent = filepath_Dir path in
              case ho_eval h parent of
                Inl err \<Rightarrow> Inl (Wrap ''supervised control socket parent is unavailable: '' err)
              | Inr resolvedParent \<Rightarrow>
                  if escapes_root resolvedRoot resolvedParent then Inl (Plain ''supervised control socket escapes its request'')
                  else (case ctl_Lstat flt fs parent of
                     Inl err \<Rightarrow> Inl (Plain ''supervised control socket parent is unsafe'')
                   | Inr info \<Rightarrow>
                       if fn_kind info \<noteq> KDir then Inl (Plain ''supervised control socket parent is unsafe'')
                       else if fn_uid info \<noteq> ho_uid h then Inl (Plain ''supervised control socket parent has the wrong owner'')
                       else Inr True))))"

definition setControlSocketDirectoryPermissions ::
  "host \<Rightarrow> ctl_faults \<Rightarrow> string \<Rightarrow> int \<Rightarrow> bool \<Rightarrow> ctl_fs \<Rightarrow> ctl_fs \<times> go_error option" where
  "setControlSocketDirectoryPermissions h flt path expected supervised fs =
     (let directory = filepath_Dir path;
          (fs1, ownerErr) = (if expected \<noteq> ho_uid h \<and> \<not> supervised then with_owner (cf_chown_dir flt) directory (ho_uid h) fs else (fs, None)) in
      if ownerErr \<noteq> None then (fs1, ownerErr)
      else with_mode (cf_chmod_dir flt) directory (if expected \<noteq> ho_uid h then 457 else 448) fs1)"

definition removeStaleControlSocket :: "ctl_faults \<Rightarrow> string \<Rightarrow> ctl_fs \<Rightarrow> ctl_fs \<times> go_error option" where
  "removeStaleControlSocket flt path fs = (case ctl_Lstat flt fs path of
       Inl err \<Rightarrow> (fs, if errors_is err OsErrNotExist then None else Some err)
     | Inr info \<Rightarrow>
         if fn_kind info \<noteq> KSocket then (fs, Some (Plain ''control socket path is not a socket''))
         else (case cf_remove flt of Some err \<Rightarrow> (fs, Some err) | None \<Rightarrow> (fs(filepath_Clean path := None), None)))"

text \<open>\<^verbatim>\<open>Listen\<close> binds a new socket file of the current user; closing the listener unlinks it.\<close>

definition ctl_Listen :: "host \<Rightarrow> ctl_faults \<Rightarrow> string \<Rightarrow> ctl_fs \<Rightarrow> ctl_fs \<times> go_error option" where
  "ctl_Listen h flt path fs = (case cf_listen flt of
       Some err \<Rightarrow> (fs, Some err)
     | None \<Rightarrow> if fs (filepath_Clean path) \<noteq> None then (fs, Some (Plain ''bind: address already in use''))
               else (fs(filepath_Clean path \<mapsto> \<lparr>fn_kind = KSocket, fn_uid = ho_uid h, fn_mode = cf_bind_mode flt\<rparr>), None))"

definition setControlSocketPermissions ::
  "host \<Rightarrow> ctl_faults \<Rightarrow> string \<Rightarrow> int \<Rightarrow> bool \<Rightarrow> ctl_fs \<Rightarrow> ctl_fs \<times> go_error option" where
  "setControlSocketPermissions h flt path expected supervised fs =
     (case with_mode (cf_chmod flt) path (if supervised then 402 else 384) fs of
        (fs1, Some err) \<Rightarrow> (fs1, Some err)
      | (fs1, None) \<Rightarrow> if expected \<noteq> ho_uid h \<and> \<not> supervised then with_owner (cf_chown flt) path expected fs1 else (fs1, None))"

text \<open>\<^verbatim>\<open>listenControlSocket\<close>, from the removal of a stale socket on, and as a whole.\<close>

definition listen_socket :: "host \<Rightarrow> ctl_faults \<Rightarrow> string \<Rightarrow> int \<Rightarrow> bool \<Rightarrow> ctl_fs \<Rightarrow> ctl_fs \<times> go_error option" where
  "listen_socket h flt path expected supervised fs = (case removeStaleControlSocket flt path fs of
       (fs1, Some err) \<Rightarrow> (fs1, Some err)
     | (fs1, None) \<Rightarrow> (case ctl_Listen h flt path fs1 of
          (fs2, Some err) \<Rightarrow> (fs2, Some err)
        | (fs2, None) \<Rightarrow> (case setControlSocketPermissions h flt path expected supervised fs2 of
             (fs3, Some err) \<Rightarrow> (fs3(filepath_Clean path := None), errors_join [Some err, cf_close flt])
           | (fs3, None) \<Rightarrow> (fs3, None))))"

definition listenControlSocket :: "host \<Rightarrow> ctl_faults \<Rightarrow> string \<Rightarrow> ctl_fs \<Rightarrow> ctl_fs \<times> go_error option" where
  "listenControlSocket h flt path fs = (case expectedPeerUID h of
       Inl err \<Rightarrow> (fs, Some err)
     | Inr expected \<Rightarrow> (case ensureControlSocketDirectory h flt path fs of
          (fs1, Some err) \<Rightarrow> (fs1, Some err)
        | (fs1, None) \<Rightarrow> (case supervisedUnprivilegedSocket h flt path expected fs1 of
             Inl err \<Rightarrow> (fs1, Some err)
           | Inr supervised \<Rightarrow> (case setControlSocketDirectoryPermissions h flt path expected supervised fs1 of
                (fs2, Some err) \<Rightarrow> (fs2, Some err)
              | (fs2, None) \<Rightarrow> listen_socket h flt path expected supervised fs2))))"

text \<open>\<^verbatim>\<open>removingUnixListener.Close\<close>: the file is removed once.\<close>

definition listener_Close :: "ctl_faults \<Rightarrow> string \<Rightarrow> bool \<times> ctl_fs \<Rightarrow> (bool \<times> ctl_fs) \<times> go_error option" where
  "listener_Close flt path s = ((True, if fst s \<or> cf_remove flt \<noteq> None then snd s else (snd s)(filepath_Clean path := None)), cf_close flt)"

section \<open>Who is served\<close>

lemma expectedPeerUID_cases:
  assumes "expectedPeerUID h = Inr uid"
  shows "if ho_env h ''DOBBYVPN_CONTROL_PEER_UID'' \<noteq> [] then atoi (ho_env h ''DOBBYVPN_CONTROL_PEER_UID'') = Some uid \<and> 0 \<le> uid
    else if ho_uid h \<noteq> 0 then uid = ho_uid h
    else ho_goos h \<noteq> ''darwin'' \<and> (\<exists>entries. ho_runUser h = Inr entries \<and> concat (map desktop_uid entries) = [uid])"
  using assms
  by (auto simp: expectedPeerUID_def privilegedDefaultPeerUID_def Let_def split: if_splits option.splits sum.splits list.splits)

lemma desktop_uid_mem: "u \<in> set (desktop_uid (name, owner)) \<longleftrightarrow> atoi name = Some u \<and> 1000 \<le> u \<and> u < 60000 \<and> owner = Some u"
  by (cases "atoi name") (auto simp: desktop_uid_def)

lemma desktop_uid_sole:
  assumes "concat (map desktop_uid entries) = [uid]"
  shows "1000 \<le> uid \<and> uid < 60000 \<and> (\<exists>name. (name, Some uid) \<in> set entries \<and> atoi name = Some uid)
    \<and> (\<forall>name u. (name, Some u) \<in> set entries \<and> atoi name = Some u \<and> 1000 \<le> u \<and> u < 60000 \<longrightarrow> u = uid)"
proof -
  have member: "u \<in> set (concat (map desktop_uid entries)) \<longleftrightarrow> u = uid" for u by (simp add: assms)
  have found: "u \<in> set (concat (map desktop_uid entries)) \<longleftrightarrow>
      1000 \<le> u \<and> u < 60000 \<and> (\<exists>name. (name, Some u) \<in> set entries \<and> atoi name = Some u)" for u
    by (auto simp: desktop_uid_mem intro: bexI[of _ "(_, Some u)"])
  show ?thesis using member found by metis
qed

lemma Serve_served:
  "fst (Serve authorize accepts) =
     filter (\<lambda>c. authorize = None \<or> the authorize c = None) (map projr (takeWhile (\<lambda>a. \<not> isl a) accepts))"
  by (induction authorize accepts rule: Serve.induct) (auto split: prod.splits)

text \<open>
  C24. Only the installed user is served. Every connection that the accept loop hands to the request handler is a
  Unix connection whose peer has exactly the expected user ID, and no other connection is dropped. That ID is the
  configured one; without one it is the service's own user; and when the service runs as root it is a desktop
  user's, between 1000 and 59999, who owns the only such directory of \<^verbatim>\<open>/run/user\<close>, and on macOS nobody's.
\<close>

theorem only_installed_user_served:
  assumes "(h, c) \<in> set (fst (Serve (Some (\<lambda>(h, c). AuthenticateLocalPeer h c)) accepts))"
  shows "\<exists>uid. pc_unix c \<and> pc_cred c = Inr uid \<and> expectedPeerUID h = Inr uid
    \<and> (let configured = ho_env h ''DOBBYVPN_CONTROL_PEER_UID'' in
       if configured \<noteq> [] then atoi configured = Some uid \<and> 0 \<le> uid
       else if ho_uid h \<noteq> 0 then uid = ho_uid h
       else 1000 \<le> uid \<and> uid < 60000 \<and> ho_goos h \<noteq> ''darwin'' \<and> (\<exists>entries. ho_runUser h = Inr entries \<and> (\<exists>name. (name, Some uid) \<in> set entries)
         \<and> (\<forall>name u. (name, Some u) \<in> set entries \<and> atoi name = Some u \<and> 1000 \<le> u \<and> u < 60000 \<longrightarrow> u = uid)))
    \<and> set (fst (Serve (Some (\<lambda>(h, c). AuthenticateLocalPeer h c)) accepts))
        = {x. x \<in> projr ` set (takeWhile (\<lambda>a. \<not> isl a) accepts) \<and> AuthenticateLocalPeer (fst x) (snd x) = None}"
proof -
  have set: "set (fst (Serve (Some (\<lambda>(h, c). AuthenticateLocalPeer h c)) accepts))
      = {x. x \<in> projr ` set (takeWhile (\<lambda>a. \<not> isl a) accepts) \<and> AuthenticateLocalPeer (fst x) (snd x) = None}"
    by (auto simp: Serve_served case_prod_unfold)
  with assms have "AuthenticateLocalPeer h c = None" by auto
  then obtain uid where uid: "pc_unix c" "pc_cred c = Inr uid" "expectedPeerUID h = Inr uid"
    by (auto simp: AuthenticateLocalPeer_def peerUID_def split: sum.splits if_splits)
  show ?thesis
  proof (intro exI[of _ uid] conjI)
    show "let configured = ho_env h ''DOBBYVPN_CONTROL_PEER_UID'' in
       if configured \<noteq> [] then atoi configured = Some uid \<and> 0 \<le> uid
       else if ho_uid h \<noteq> 0 then uid = ho_uid h
       else 1000 \<le> uid \<and> uid < 60000 \<and> ho_goos h \<noteq> ''darwin'' \<and> (\<exists>entries. ho_runUser h = Inr entries \<and> (\<exists>name. (name, Some uid) \<in> set entries)
         \<and> (\<forall>name u. (name, Some u) \<in> set entries \<and> atoi name = Some u \<and> 1000 \<le> u \<and> u < 60000 \<longrightarrow> u = uid))"
      using expectedPeerUID_cases[OF uid(3)] unfolding Let_def by (auto dest!: desktop_uid_sole split: if_splits)
  qed (use uid set in blast)+
qed

definition sample_host :: host where
  "sample_host = \<lparr>ho_goos = ''linux'', ho_env = (\<lambda>_. []), ho_uid = 0, ho_runUser = Inr [(''0'', Some 0), (''1000'', Some 1000), (''1001'', None)],
     ho_isDir = (\<lambda>_. True), ho_configDir = Inr ''/root/.config'', ho_eval = (\<lambda>p. Inr p)\<rparr>"

definition sample_accepts :: "(go_error + host \<times> peer_conn) list" where
  "sample_accepts = [Inr (sample_host, \<lparr>pc_unix = True, pc_cred = Inr 1001\<rparr>), Inr (sample_host, \<lparr>pc_unix = True, pc_cred = Inr 1000\<rparr>)]"

theorem only_installed_user_served_witness:
  "fst (Serve (Some (\<lambda>(h, c). AuthenticateLocalPeer h c)) sample_accepts) = [(sample_host, \<lparr>pc_unix = True, pc_cred = Inr 1000\<rparr>)]
   \<and> expectedPeerUID sample_host = Inr 1000"
proof -
  have auth: "AuthenticateLocalPeer sample_host \<lparr>pc_unix = True, pc_cred = Inr 1001\<rparr> \<noteq> None"
    "AuthenticateLocalPeer sample_host \<lparr>pc_unix = True, pc_cred = Inr 1000\<rparr> = None" by code_simp+
  have served: "fst (Serve (Some (\<lambda>(h, c). AuthenticateLocalPeer h c)) sample_accepts) = [(sample_host, \<lparr>pc_unix = True, pc_cred = Inr 1000\<rparr>)]"
    using auth by (simp add: sample_accepts_def)
  then show ?thesis
    using only_installed_user_served[of sample_host "\<lparr>pc_unix = True, pc_cred = Inr 1000\<rparr>" sample_accepts] by auto
qed

section \<open>The socket is private\<close>

lemma listen_socket_ok:
  assumes "listen_socket h flt path expected supervised fs = (fs1, None)"
  shows "(case fs (filepath_Clean path) of None \<Rightarrow> True | Some n \<Rightarrow> fn_kind n = KSocket)
    \<and> fs1 = fs(filepath_Clean path \<mapsto> \<lparr>fn_kind = KSocket, fn_uid = (if expected \<noteq> ho_uid h \<and> \<not> supervised then expected else ho_uid h),
        fn_mode = (if supervised then 402 else 384)\<rparr>)"
  using assms
  by (auto simp: listen_socket_def removeStaleControlSocket_def ctl_Listen_def setControlSocketPermissions_def with_mode_def with_owner_def
      ctl_Lstat_def errors_join_def fun_upd_def split: option.splits prod.splits sum.splits if_splits)

lemma ensure_directory_ok:
  assumes "ensureControlSocketDirectory h flt path fs = (fs1, None)"
  shows "(\<exists>dir. fs1 (filepath_Clean (filepath_Dir path)) = Some dir \<and> fn_kind dir = KDir)
    \<and> (\<forall>p. fs1 p = fs p \<or> (\<exists>n. fs1 p = Some n \<and> fn_kind n = KDir))"
  using assms by (auto simp: ensureControlSocketDirectory_def Let_def ctl_Lstat_def split: option.splits sum.splits if_splits)

lemma directory_permissions_ok:
  assumes "setControlSocketDirectoryPermissions h flt path expected supervised fs = (fs1, None)" "fs (filepath_Clean (filepath_Dir path)) = Some dir"
  shows "fs1 = fs(filepath_Clean (filepath_Dir path) \<mapsto> dir\<lparr>fn_uid := (if expected \<noteq> ho_uid h \<and> \<not> supervised then ho_uid h else fn_uid dir),
     fn_mode := (if expected = ho_uid h then 448 else 457)\<rparr>)"
  using assms
  by (auto simp: setControlSocketDirectoryPermissions_def Let_def with_owner_def with_mode_def split: option.splits if_splits)

lemma supervised_ok:
  assumes "supervisedUnprivilegedSocket h flt path expected fs = Inr True" "fs (filepath_Clean (filepath_Dir path)) = Some dir"
  shows "ho_uid h \<noteq> 0 \<and> expected \<noteq> ho_uid h \<and> ho_env h ''DOBBYVPN_SUPERVISED_REQUEST'' = ''1'' \<and> fn_uid dir = ho_uid h
    \<and> (\<exists>root parent. ho_eval h (ho_env h ''DOBBYVPN_REQUEST_ROOT'') = Inr root \<and> ho_eval h (filepath_Dir path) = Inr parent \<and> \<not> escapes_root root parent)"
  using assms by (auto simp: supervisedUnprivilegedSocket_def Let_def ctl_Lstat_def split: option.splits sum.splits if_splits)

text \<open>
  C25. When the service listens, its socket is private. The path held nothing or an old socket before; a file of
  another kind is never removed. The socket belongs to the expected user with mode 0600, so only that user and
  root can connect; it is open to other users, with mode 0622, only for a supervised request of a service without
  privileges, whose directory is its own and lies inside the request's root. The directory is a real one with
  mode 0700, or 0711 and owned by the service itself when another user connects, who then cannot replace the socket.
\<close>

theorem control_socket_private:
  assumes "listenControlSocket h flt path fs = (fs1, None)"
  shows "\<exists>expected supervised dir. expectedPeerUID h = Inr expected
    \<and> (case fs (filepath_Clean path) of None \<Rightarrow> True | Some n \<Rightarrow> fn_kind n = KSocket)
    \<and> fs1 (filepath_Clean path) = Some \<lparr>fn_kind = KSocket, fn_uid = (if expected \<noteq> ho_uid h \<and> \<not> supervised then expected else ho_uid h),
        fn_mode = (if supervised then 402 else 384)\<rparr>
    \<and> fs1 (filepath_Clean (filepath_Dir path)) = Some dir \<and> fn_kind dir = KDir
    \<and> fn_mode dir = (if expected = ho_uid h then 448 else 457) \<and> (expected \<noteq> ho_uid h \<longrightarrow> fn_uid dir = ho_uid h)
    \<and> (supervised \<longrightarrow> ho_uid h \<noteq> 0 \<and> expected \<noteq> ho_uid h \<and> ho_env h ''DOBBYVPN_SUPERVISED_REQUEST'' = ''1''
        \<and> (\<exists>root parent. ho_eval h (ho_env h ''DOBBYVPN_REQUEST_ROOT'') = Inr root \<and> ho_eval h (filepath_Dir path) = Inr parent \<and> \<not> escapes_root root parent))"
proof -
  obtain expected fs2 supervised fs3 where run: "expectedPeerUID h = Inr expected" "ensureControlSocketDirectory h flt path fs = (fs2, None)"
    "supervisedUnprivilegedSocket h flt path expected fs2 = Inr supervised"
    "setControlSocketDirectoryPermissions h flt path expected supervised fs2 = (fs3, None)"
    "listen_socket h flt path expected supervised fs3 = (fs1, None)"
    using assms by (auto simp: listenControlSocket_def split: sum.splits prod.splits option.splits)
  let ?P = "filepath_Clean path" and ?D = "filepath_Clean (filepath_Dir path)"
  obtain dir where dir: "fs2 ?D = Some dir" "fn_kind dir = KDir" using ensure_directory_ok[OF run(2)] by blast
  note fs3 = directory_permissions_ok[OF run(4) dir(1)] and fs1 = listen_socket_ok[OF run(5)]
  have distinct: "?D \<noteq> ?P" using fs1 fs3 dir by (auto split: option.splits)
  then have "fs3 ?P = fs2 ?P" using fs3 by simp
  then have old: "fs2 ?P = fs ?P" 
    using fs1 conjunct2[OF ensure_directory_ok[OF run(2)], rule_format, of ?P] by (auto split: option.splits)
  let ?dir = "dir\<lparr>fn_uid := (if expected \<noteq> ho_uid h \<and> \<not> supervised then ho_uid h else fn_uid dir),
     fn_mode := (if expected = ho_uid h then 448 else 457)\<rparr>"
  have "fs1 ?D = Some ?dir" using conjunct2[OF fs1] fs3 distinct by simp
  moreover have "fn_kind ?dir = KDir \<and> fn_mode ?dir = (if expected = ho_uid h then 448 else 457) \<and> (expected \<noteq> ho_uid h \<longrightarrow> fn_uid ?dir = ho_uid h)"
    using dir run(3) supervised_ok[of h flt path expected fs2 dir] by auto
  moreover have "case fs ?P of None \<Rightarrow> True | Some n \<Rightarrow> fn_kind n = KSocket" using conjunct1[OF fs1] old \<open>fs3 ?P = fs2 ?P\<close> by simp
  moreover have "fs1 ?P = Some \<lparr>fn_kind = KSocket, fn_uid = (if expected \<noteq> ho_uid h \<and> \<not> supervised then expected else ho_uid h),
      fn_mode = (if supervised then 402 else 384)\<rparr>" using conjunct2[OF fs1] by simp
  moreover have "supervised \<longrightarrow> ho_uid h \<noteq> 0 \<and> expected \<noteq> ho_uid h \<and> ho_env h ''DOBBYVPN_SUPERVISED_REQUEST'' = ''1''
      \<and> (\<exists>root parent. ho_eval h (ho_env h ''DOBBYVPN_REQUEST_ROOT'') = Inr root \<and> ho_eval h (filepath_Dir path) = Inr parent \<and> \<not> escapes_root root parent)"
    using run(3) supervised_ok[of h flt path expected fs2 dir, OF _ dir(1)] by (cases supervised) simp_all
  ultimately show ?thesis using run(1) by blast
qed

text \<open>A service of root for user 1000, with a stale socket.\<close>

definition sample_ctl_fs :: ctl_fs where
  "sample_ctl_fs = [''/'' \<mapsto> \<lparr>fn_kind = KDir, fn_uid = 0, fn_mode = 493\<rparr>, ''/r'' \<mapsto> \<lparr>fn_kind = KDir, fn_uid = 1000, fn_mode = 448\<rparr>,
     ''/r/s'' \<mapsto> \<lparr>fn_kind = KSocket, fn_uid = 1000, fn_mode = 384\<rparr>]"

definition no_ctl_faults :: ctl_faults where
  "no_ctl_faults = \<lparr>cf_mkdir = None, cf_lstat = (\<lambda>_. None), cf_chown_dir = None, cf_chmod_dir = None, cf_remove = None, cf_listen = None,
     cf_chmod = None, cf_chown = None, cf_close = None, cf_bind_mode = 493\<rparr>"

theorem control_socket_private_witness:
  "snd (listenControlSocket sample_host no_ctl_faults ''/r/s'' sample_ctl_fs) = None
   \<and> (\<exists>expected. expectedPeerUID sample_host = Inr expected \<and> expected = 1000)
   \<and> (\<exists>n. fst (listenControlSocket sample_host no_ctl_faults ''/r/s'' sample_ctl_fs) (filepath_Clean ''/r/s'') = Some n \<and> fn_kind n = KSocket)"
proof -
  have ok: "snd (listenControlSocket sample_host no_ctl_faults ''/r/s'' sample_ctl_fs) = None" "expectedPeerUID sample_host = Inr 1000"
    by code_simp+
  then have "listenControlSocket sample_host no_ctl_faults ''/r/s'' sample_ctl_fs
      = (fst (listenControlSocket sample_host no_ctl_faults ''/r/s'' sample_ctl_fs), None)" by (simp add: prod_eq_iff)
  from control_socket_private[OF this] ok show ?thesis by auto
qed

end
