(* ===== verification/Control_Json.thy ===== *)
theory Control_Json
  imports Session_Reachable Config_Loader Control_Plane
begin

text \<open>
  The JSON control interface: \<^verbatim>\<open>Binding\<close> of \<^verbatim>\<open>core/sessionapi/mobilebinding/binding.go\<close> with the data transfer types of
  \<^verbatim>\<open>core/sessionapi/wire/response.go\<close>, over the manager model of the session theories, and the one-line protocol of
  \<^verbatim>\<open>core/clientserver/controljson\<close> (\<^verbatim>\<open>server.go\<close>, \<^verbatim>\<open>client.go\<close>).

  Responses are values of the wire types; \<^verbatim>\<open>encoding/json\<close> is a record of functions, whose laws the theorem on a
  whole call states. A connection is the bytes it delivers and the errors its calls report.
\<close>

section \<open>Wire types\<close>

fun state_string :: "sstate \<Rightarrow> string" where
  "state_string StateIdle = ''IDLE''"
| "state_string StateConfigured = ''CONFIGURED''"
| "state_string StateProbing = ''PROBING''"
| "state_string StatePreparing = ''PREPARING''"
| "state_string StateConnected = ''CONNECTED''"
| "state_string StateStopping = ''STOPPING''"
| "state_string StateFailed = ''FAILED''"

fun mode_string :: "start_mode \<Rightarrow> string" where
  "mode_string AutoSelect = ''AUTO_SELECT''"
| "mode_string ProfileIndex = ''PROFILE_INDEX''"
| "mode_string (OtherMode s) = s"

definition StartMode :: "string \<Rightarrow> start_mode" where
  "StartMode s = (if s = ''AUTO_SELECT'' then AutoSelect else if s = ''PROFILE_INDEX'' then ProfileIndex else OtherMode s)"

lemma mode_string_StartMode [simp]: "mode_string (StartMode s) = s"
  by (simp add: StartMode_def)

fun kind_string :: "source_kind \<Rightarrow> string" where
  "kind_string ConfigSourceNone = []"
| "kind_string ConfigSourceInline = ''INLINE''"
| "kind_string ConfigSourceURL = ''URL''"

record wire_profile =
  wp_Index :: int
  wp_Protocol :: string
  wp_Description :: string

record wire_failure =
  wf_Code :: string
  wf_Message :: string

record wire_configuration =
  wc_Digest :: string
  wc_Sequence :: u64
  wc_SourceKind :: string
  wc_Profiles :: "wire_profile list"

record wire_selection =
  ws_Digest :: string
  ws_Mode :: string
  ws_Index :: int

record wire_snapshot =
  wn_ActiveDigest :: string
  wn_ActiveMode :: string
  wn_ActiveIndex :: int
  wn_PendingTarget :: "wire_selection option"
  wn_CanSwitch :: bool
  wn_SessionID :: string
  wn_Sequence :: u64
  wn_Generation :: u64
  wn_NetworkGeneration :: u64
  wn_VPNActive :: bool
  wn_CanRetry :: bool
  wn_State :: string
  wn_Configured :: bool
  wn_LogsUploadAvailable :: bool
  wn_Digest :: string
  wn_SourceKind :: string
  wn_SourceURL :: string
  wn_SourceError :: string
  wn_Profiles :: "wire_profile list"
  wn_ActiveProfile :: "wire_profile option"
  wn_LastFailure :: "wire_failure option"
  wn_CleanupComplete :: bool
  wn_Recovering :: bool
  wn_PrimaryAction :: string

datatype wire_result =
    WireConfiguration wire_configuration
  | WireGeneration generation_result
  | WireSnapshot wire_snapshot
  | WireUpload log_upload_preparation

record response =
  rs_OK :: bool
  rs_Result :: "wire_result option"
  rs_Error :: "wire_failure option"

definition profileResultDTO :: "profile_summary \<Rightarrow> wire_profile" where
  "profileResultDTO p = \<lparr>wp_Index = ps_Index p, wp_Protocol = protocol_string (ps_Protocol p), wp_Description = ps_Description p\<rparr>"

definition profilesDTO :: "profile_summary list \<Rightarrow> wire_profile list" where
  "profilesDTO ps = map profileResultDTO ps"

definition profileResultPtr :: "profile_summary option \<Rightarrow> wire_profile option" where
  "profileResultPtr p = map_option profileResultDTO p"

definition ConfigurationFrom :: "configure_result \<Rightarrow> wire_configuration" where
  "ConfigurationFrom r = \<lparr>wc_Digest = cf_Digest r, wc_Sequence = cf_Sequence r, wc_SourceKind = kind_string (cf_SourceKind r),
     wc_Profiles = profilesDTO (cf_Profiles r)\<rparr>"

definition SnapshotFrom :: "snapshot_result \<Rightarrow> wire_snapshot" where
  "SnapshotFrom s = \<lparr>wn_ActiveDigest = sn_ActiveDigest s, wn_ActiveMode = mode_string (sn_ActiveMode s), wn_ActiveIndex = sn_ActiveIndex s,
     wn_PendingTarget = map_option (\<lambda>t. \<lparr>ws_Digest = sel_Digest t, ws_Mode = mode_string (sel_Mode t), ws_Index = sel_Index t\<rparr>) (sn_PendingTarget s),
     wn_CanSwitch = sn_CanSwitch s, wn_SessionID = sn_SessionID s, wn_Sequence = sn_Sequence s, wn_Generation = sn_Generation s,
     wn_NetworkGeneration = sn_NetworkGeneration s, wn_VPNActive = sn_VPNActive s, wn_CanRetry = sn_CanRetry s,
     wn_State = state_string (sn_State s), wn_Configured = sn_Configured s, wn_LogsUploadAvailable = sn_LogsUploadAvailable s,
     wn_Digest = sn_Digest s, wn_SourceKind = kind_string (sn_SourceKind s), wn_SourceURL = sn_SourceURL s, wn_SourceError = sn_SourceError s,
     wn_Profiles = profilesDTO (sn_Profiles s), wn_ActiveProfile = profileResultPtr (sn_ActiveProfile s),
     wn_LastFailure = map_option (\<lambda>code. \<lparr>wf_Code = code_string code, wf_Message = sn_LastFailureMessage s\<rparr>) (sn_LastFailure s),
     wn_CleanupComplete = sn_CleanupComplete s, wn_Recovering = sn_Recovering s, wn_PrimaryAction = sn_PrimaryAction s\<rparr>"

section \<open>The binding\<close>

definition success :: "wire_result \<Rightarrow> response" where
  "success value = \<lparr>rs_OK = True, rs_Result = Some value, rs_Error = None\<rparr>"

definition failed :: "go_error \<Rightarrow> response" where
  "failed err = (let message = (case as_domain err of
         Some (_, text, cause) \<Rightarrow> text @ (case cause of None \<Rightarrow> [] | Some e \<Rightarrow> '': '' @ error_text e)
       | None \<Rightarrow> error_text err) in
     \<lparr>rs_OK = False, rs_Result = None, rs_Error = Some \<lparr>wf_Code = code_string (CodeOf (Some err)), wf_Message = message\<rparr>\<rparr>)"

definition respond :: "('a \<Rightarrow> wire_result) \<Rightarrow> go_error + 'a \<Rightarrow> response" where
  "respond dto r = (case r of Inl err \<Rightarrow> failed err | Inr v \<Rightarrow> success (dto v))"

definition nonNegative :: "int \<Rightarrow> string \<Rightarrow> go_error + u64" where
  "nonNegative value name =
     (if value < 0 then Inl (failure FailureInvalidArgument (name @ '' must be non-negative'')) else Inr (word_of_int value))"

text \<open>What a call meets outside the manager: the environments of its critical sections, the loader, the parser and the rest.\<close>

record call_env =
  ce_env :: env
  ce_accept :: env
  ce_loader :: config_loader
  ce_parse :: config_parser
  ce_urlparse :: url_parser
  ce_urlstring :: "url_parts \<Rightarrow> string"
  ce_newV7 :: "go_error + string"

type_synonym reply = "(manager \<times> response) outcome"

definition ConfigureContext :: "call_env \<Rightarrow> string \<Rightarrow> int \<Rightarrow> bytes \<Rightarrow> manager \<Rightarrow> reply" where
  "ConfigureContext e sessionID expectedSequence rawConfig m = (case nonNegative expectedSequence ''configuration sequence'' of
       Inl err \<Rightarrow> Ret (m, failed err)
     | Inr sequence \<Rightarrow> (case Configure (ce_env e) (ce_accept e) (ce_loader e) (ce_parse e) sessionID sequence rawConfig m of
          Panic \<Rightarrow> Panic
        | Ret (m1, r) \<Rightarrow> Ret (m1, respond (\<lambda>c. WireConfiguration (ConfigurationFrom c)) r)))"

definition startContext :: "call_env \<Rightarrow> string \<Rightarrow> int \<Rightarrow> string \<Rightarrow> int \<Rightarrow> bytes option \<Rightarrow> bool \<Rightarrow> string \<Rightarrow> manager \<Rightarrow> reply" where
  "startContext e sessionID expectedSequence mode index rawConfig replaceCurrent digest m = (case nonNegative expectedSequence ''start sequence'' of
       Inl err \<Rightarrow> Ret (m, failed err)
     | Inr sequence \<Rightarrow>
         if index < 0 \<and> mode \<noteq> mode_string AutoSelect then Ret (m, failed (failure FailureInvalidArgument ''profile index must be non-negative''))
         else (case Start (ce_env e) (ce_accept e) (ce_loader e) (ce_parse e) sessionID sequence
                 \<lparr>st_Mode = StartMode mode, st_Index = index, st_ReplaceCurrent = replaceCurrent, st_Digest = digest, st_Source = rawConfig\<rparr> m of
            Panic \<Rightarrow> Panic
          | Ret (m1, r) \<Rightarrow> Ret (m1, respond WireGeneration r)))"

definition StopContext :: "call_env \<Rightarrow> string \<Rightarrow> int \<Rightarrow> manager \<Rightarrow> reply" where
  "StopContext e sessionID generation m =
     (if generation \<le> 0 then Ret (m, failed (failure FailureStaleGeneration ''generation must be positive''))
      else (case Stop (ce_env e) sessionID (word_of_int generation) m of
          Panic \<Rightarrow> Panic
        | Ret (m1, _, Some err) \<Rightarrow> Ret (m1, failed err)
        | Ret (m1, Some result, None) \<Rightarrow> Ret (m1, success (WireGeneration result))
        | Ret (m1, None, None) \<Rightarrow> Ret (m1, success (WireGeneration \<lparr>gr_Generation = 0, gr_Sequence = 0\<rparr>))))"

definition SnapshotContext :: "string \<Rightarrow> manager \<Rightarrow> reply" where
  "SnapshotContext sessionID m = Ret (m, respond (\<lambda>s. WireSnapshot (SnapshotFrom s)) (Snapshot sessionID m))"

definition PrepareLogUpload_json :: "call_env \<Rightarrow> string \<Rightarrow> string \<Rightarrow> manager \<Rightarrow> reply" where
  "PrepareLogUpload_json e sessionID digest m =
     Ret (m, respond WireUpload (PrepareLogUpload (ce_urlparse e) (ce_urlstring e) (ce_newV7 e) sessionID digest m))"

record call_params =
  cp_SessionID :: string
  cp_ExpectedSequence :: int
  cp_Generation :: int
  cp_Source :: "string option"
  cp_Mode :: string
  cp_Index :: int
  cp_ReplaceCurrent :: bool
  cp_Digest :: string

definition zero_params :: call_params where
  "zero_params = \<lparr>cp_SessionID = [], cp_ExpectedSequence = 0, cp_Generation = 0, cp_Source = None, cp_Mode = [], cp_Index = 0,
     cp_ReplaceCurrent = False, cp_Digest = []\<rparr>"

text \<open>The methods of \<^verbatim>\<open>CallJSONWithConfiguration\<close>; \<open>configuration\<close> are the bytes a platform supplies beside the request.\<close>

definition dispatch :: "call_env \<Rightarrow> string \<Rightarrow> call_params \<Rightarrow> bytes option \<Rightarrow> manager \<Rightarrow> reply" where
  "dispatch e method v configuration m =
     (if method = ''PrepareLogUpload'' then PrepareLogUpload_json e (cp_SessionID v) (cp_Digest v) m
      else if method = ''Snapshot'' then SnapshotContext (cp_SessionID v) m
      else if method = ''Configure'' then ConfigureContext e (cp_SessionID v) (cp_ExpectedSequence v)
        (case configuration of Some raw \<Rightarrow> raw | None \<Rightarrow> (case cp_Source v of None \<Rightarrow> [] | Some source \<Rightarrow> source)) m
      else if method = ''Start'' then startContext e (cp_SessionID v) (cp_ExpectedSequence v) (cp_Mode v) (cp_Index v)
        (case configuration of Some raw \<Rightarrow> Some raw | None \<Rightarrow> cp_Source v) (cp_ReplaceCurrent v) (cp_Digest v) m
      else if method = ''Stop'' then StopContext e (cp_SessionID v) (cp_Generation v) m
      else Ret (m, failed (failure FailureInvalidArgument ''unknown command'')))"

definition CallJSONWithConfiguration ::
  "(bytes \<Rightarrow> go_error + call_params) \<Rightarrow> call_env \<Rightarrow> string \<Rightarrow> bytes \<Rightarrow> bytes option \<Rightarrow> manager \<Rightarrow> reply" where
  "CallJSONWithConfiguration decode e method params configuration m =
     (case (if params = [] then Inr zero_params else decode params) of
        Inl err \<Rightarrow> Ret (m, failed (failureWithCause FailureInvalidArgument ''command parameters are invalid'' (Some err)))
      | Inr v \<Rightarrow> dispatch e method v configuration m)"

definition CallJSON :: "(bytes \<Rightarrow> go_error + call_params) \<Rightarrow> call_env \<Rightarrow> string \<Rightarrow> bytes \<Rightarrow> manager \<Rightarrow> reply" where
  "CallJSON decode e method params m = CallJSONWithConfiguration decode e method params None m"

section \<open>Every call is answered\<close>

definition reach_ok :: "(manager \<times> 'a) outcome \<Rightarrow> bool" where
  "reach_ok x = (case x of Panic \<Rightarrow> False | Ret p \<Rightarrow> reachable (fst p))"

lemma reach_ok_simps [simp]: "reach_ok (Ret p) = reachable (fst p)" "\<not> reach_ok Panic"
  by (simp_all add: reach_ok_def)

lemma reach_start: "reachable m \<Longrightarrow> reach_ok (start_locked env n target supplied m)"
  using inv_start_locked[OF reachable_inv, of m env n target supplied]
  by (cases "start_locked env n target supplied m") (auto intro: reach_step[OF _ step_start])

lemma reach_stop: "reachable m \<Longrightarrow> reach_ok (Stop env sessionID generation m)"
  using inv_Stop_locked[OF reachable_inv, of m env generation]
  by (cases "Stop_locked env generation m") (auto simp: Stop_def split: option.splits intro: reach_step[OF _ step_stop])

lemma reach_accept:
  assumes "reachable m" "parseConfig decode urlparse digest raw = Ret (Inr parsed)"
  shows "reach_ok (configure_accept env request loaded parsed m)"
  using inv_configure_accept[OF reachable_inv[OF assms(1)] parseConfig_profiles_nonempty[OF assms(2)], of env request loaded] assms
  by (cases "configure_accept env request loaded parsed m") (auto intro: reach_step[OF _ step_configure_accept])

lemma reach_configure:
  assumes "reachable m"
  shows "reach_ok (Configure env env' loader (parseConfig decode urlparse digest) sessionID n raw m)"
proof (cases "configure_begin env sessionID n m")
  case (Pair m1 r)
  then have m1: "reachable m1" using assms by (auto intro: reach_step[OF _ step_configure_begin])
  show ?thesis
  proof (cases "loadConfig loader (parseConfig decode urlparse digest) raw")
    case (Ret loaded)
    have "reach_ok (configure_accept env' request l parsed m1)" if "loaded = Inr (l, parsed)" for request l parsed
      using Ret that m1 by (auto simp: loadConfig_def split: sum.splits outcome.splits intro: reach_accept)
    with Pair Ret m1 show ?thesis by (auto simp: Configure_def split: sum.splits)
  next
    case Panic
    then have False using parseConfig_never_panics[of decode urlparse digest] by (auto simp: loadConfig_def split: sum.splits outcome.splits)
    then show ?thesis ..
  qed
qed

lemma reach_Start:
  assumes "reachable m"
  shows "reach_ok (Start env env' loader (parseConfig decode urlparse digest) sessionID n target m)"
proof (cases "Configure env env' loader (parseConfig decode urlparse digest) sessionID n (the (st_Source target)) m")
  case (Ret p)
  then have "reachable (fst p)" using reach_configure[OF assms, of env env' loader decode urlparse digest sessionID n "the (st_Source target)"] by simp
  with Ret assms show ?thesis by (cases p) (auto simp: Start_def reach_start split: option.splits sum.splits)
next
  case Panic
  then show ?thesis using reach_configure[OF assms, of env env' loader decode urlparse digest sessionID n "the (st_Source target)"] by simp
qed

text \<open>A response is well formed when it has a result or an error with one of the failure codes, never both.\<close>

definition well_formed :: "response \<Rightarrow> bool" where
  "well_formed r \<longleftrightarrow> (case rs_Result r of
       Some _ \<Rightarrow> rs_OK r \<and> rs_Error r = None
     | None \<Rightarrow> \<not> rs_OK r \<and> (\<exists>code message. rs_Error r = Some \<lparr>wf_Code = code_string code, wf_Message = message\<rparr>))"

text \<open>The result a method returns, by its type.\<close>

fun result_of :: "string \<Rightarrow> wire_result \<Rightarrow> bool" where
  "result_of method (WireConfiguration c) = (method = ''Configure'')"
| "result_of method (WireGeneration g) = (method = ''Start'' \<or> method = ''Stop'')"
| "result_of method (WireSnapshot s) = (method = ''Snapshot'')"
| "result_of method (WireUpload u) = (method = ''PrepareLogUpload'')"

definition answered :: "string \<Rightarrow> reply \<Rightarrow> bool" where
  "answered method x = (case x of Panic \<Rightarrow> False
     | Ret (m, r) \<Rightarrow> reachable m \<and> well_formed r \<and> (\<forall>v. rs_Result r = Some v \<longrightarrow> result_of method v))"

lemma answered_failed [simp]: "answered method (Ret (m, failed err)) = reachable m"
  by (auto simp: answered_def well_formed_def failed_def Let_def)

lemma answered_success [simp]: "answered method (Ret (m, success v)) = (reachable m \<and> result_of method v)"
  by (auto simp: answered_def well_formed_def success_def)

lemma answered_respond: "reachable m \<Longrightarrow> (\<And>v. result_of method (dto v)) \<Longrightarrow> answered method (Ret (m, respond dto r))"
  by (cases r) (simp_all add: respond_def)

lemma answered_Configure:
  assumes "reachable m" "ce_parse e = parseConfig decode urlparse digest"
  shows "answered ''Configure'' (ConfigureContext e sessionID n raw m)"
  using reach_configure[OF assms(1), of "ce_env e" "ce_accept e" "ce_loader e" decode urlparse digest sessionID "word_of_int n" raw] assms
  by (auto simp: ConfigureContext_def nonNegative_def split: sum.splits outcome.splits intro!: answered_respond)

lemma answered_Start:
  assumes "reachable m" "ce_parse e = parseConfig decode urlparse digest"
  shows "answered ''Start'' (startContext e sessionID n mode index raw replace d m)"
  using reach_Start[OF assms(1), of "ce_env e" "ce_accept e" "ce_loader e" decode urlparse digest sessionID "word_of_int n"
      "\<lparr>st_Mode = StartMode mode, st_Index = index, st_ReplaceCurrent = replace, st_Digest = d, st_Source = raw\<rparr>"] assms
  by (auto simp: startContext_def nonNegative_def split: sum.splits outcome.splits intro!: answered_respond)

lemma answered_Stop:
  assumes "reachable m"
  shows "answered ''Stop'' (StopContext e sessionID n m)"
  using reach_stop[OF assms, of "ce_env e" sessionID "word_of_int n"] assms
  by (auto simp: StopContext_def split: outcome.splits option.splits prod.splits)

text \<open>The methods a client can call.\<close>

definition known_method :: "string \<Rightarrow> bool" where
  "known_method method \<longleftrightarrow> method \<in> {''PrepareLogUpload'', ''Snapshot'', ''Configure'', ''Start'', ''Stop''}"

lemma dispatch_known:
  assumes "reachable m" "ce_parse e = parseConfig decode urlparse digest"
  shows "answered ''PrepareLogUpload'' (dispatch e ''PrepareLogUpload'' v configuration m)"
    "answered ''Snapshot'' (dispatch e ''Snapshot'' v configuration m)" "answered ''Configure'' (dispatch e ''Configure'' v configuration m)"
    "answered ''Start'' (dispatch e ''Start'' v configuration m)" "answered ''Stop'' (dispatch e ''Stop'' v configuration m)"
  using answered_Configure[OF assms] answered_Start[OF assms] answered_Stop[OF assms(1)] assms(1)
  by (simp_all add: dispatch_def PrepareLogUpload_json_def SnapshotContext_def answered_respond)

lemma dispatch_unknown: "\<not> known_method method \<Longrightarrow>
    dispatch e method v configuration m = Ret (m, failed (failure FailureInvalidArgument ''unknown command''))"
  by (simp add: dispatch_def known_method_def)

lemma dispatch_answered:
  assumes "reachable m" "ce_parse e = parseConfig decode urlparse digest"
  shows "answered method (dispatch e method v configuration m)"
proof (cases "known_method method")
  case True
  then have "method = ''PrepareLogUpload'' \<or> method = ''Snapshot'' \<or> method = ''Configure'' \<or> method = ''Start'' \<or> method = ''Stop''"
    by (simp add: known_method_def)
  then show ?thesis by (elim disjE) (simp_all only: dispatch_known[OF assms])
next
  case False
  then show ?thesis using assms(1) by (simp add: dispatch_unknown)
qed

lemma call_answered:
  assumes "reachable m" "ce_parse e = parseConfig decode urlparse digest"
  shows "answered method (CallJSONWithConfiguration decodeParams e method params configuration m)"
  using assms(1) dispatch_answered[OF assms]
  by (auto simp: CallJSONWithConfiguration_def split: sum.splits)

lemma call_rejected:
  assumes "\<not> known_method method \<or> params \<noteq> [] \<and> isl (decodeParams params)"
  shows "\<exists>err. CallJSONWithConfiguration decodeParams e method params configuration m = Ret (m, failed err)"
  using assms dispatch_unknown[of "method" e _ configuration m]
  by (auto simp: CallJSONWithConfiguration_def split: sum.splits)

text \<open>
  C21. Every command of a client is answered. In every reachable state of the session, any method with any
  parameters returns, without a panic, a response that has either a result of the type that belongs to the method
  or an error with one of the failure codes; and the session is in a reachable state again, so that everything
  proved of those holds after any commands. Unknown methods and parameters that cannot be decoded change nothing.
\<close>

theorem every_call_answered:
  assumes "reachable m" "ce_parse e = parseConfig decode urlparse digest"
  shows "answered method (CallJSONWithConfiguration decodeParams e method params configuration m)
    \<and> (\<not> known_method method \<or> params \<noteq> [] \<and> isl (decodeParams params) \<longrightarrow>
         (\<exists>err. CallJSONWithConfiguration decodeParams e method params configuration m = Ret (m, failed err)))"
  using call_answered[OF assms] call_rejected by blast

text \<open>A fresh session answers a snapshot; a call with another name fails and changes nothing.\<close>

definition sample_call_env :: call_env where
  "sample_call_env = \<lparr>ce_env = \<lparr>e_ctxErr = None, e_now = 0, e_saveErr = None, e_clearErr = None, e_loadActivationErr = None,
        e_saveActivationErr = None, e_protectErr = None\<rparr>,
     ce_accept = \<lparr>e_ctxErr = None, e_now = 0, e_saveErr = None, e_clearErr = None, e_loadActivationErr = None,
        e_saveActivationErr = None, e_protectErr = None\<rparr>,
     ce_loader = (\<lambda>raw. Inr \<lparr>lc_Raw = raw, lc_Kind = ConfigSourceInline, lc_SourceURL = []\<rparr>),
     ce_parse = parseConfig (\<lambda>raw. Inl (Plain ''toml'')) sample_parse (\<lambda>raw. raw), ce_urlparse = sample_parse,
     ce_urlstring = u_String, ce_newV7 = Inr ''id''\<rparr>"

definition sample_manager :: manager where
  "sample_manager = NewManager ''session'' None None None True"

theorem every_call_answered_witness:
  "answered ''Snapshot'' (CallJSONWithConfiguration (\<lambda>_. Inr zero_params) sample_call_env ''Snapshot'' [] None sample_manager)
   \<and> (\<exists>err. CallJSONWithConfiguration (\<lambda>_. Inr zero_params) sample_call_env ''Reset'' [] None sample_manager = Ret (sample_manager, failed err))"
proof -
  have m: "reachable sample_manager" unfolding sample_manager_def by (rule reach_new)
  have e: "ce_parse sample_call_env = parseConfig (\<lambda>raw. Inl (Plain ''toml'')) sample_parse (\<lambda>raw. raw)"
    by (simp add: sample_call_env_def)
  have "\<not> known_method ''Reset''" by (simp add: known_method_def)
  then have "\<exists>err. CallJSONWithConfiguration (\<lambda>_. Inr zero_params) sample_call_env ''Reset'' [] None sample_manager = Ret (sample_manager, failed err)"
    by (intro conjunct2[OF every_call_answered[OF m e], rule_format] disjI1)
  with conjunct1[OF every_call_answered[OF m e]] show ?thesis by simp
qed

end
