(* ===== verification/Control_Line.thy ===== *)
theory Control_Line
  imports Go_Errors
begin

text \<open>
  The framing of the desktop control protocol (\<^verbatim>\<open>readLineBounded\<close> of \<^verbatim>\<open>core/clientserver/controljson/server.go\<close>): one
  request or response per line, read through a \<^verbatim>\<open>bufio.Reader\<close> and bounded in size.
\<close>

definition newline :: char where "newline = CHR 0x0A"

definition maxRequestBytes :: nat where "maxRequestBytes = 8 * 2 ^ 20"

text \<open>
  \<^verbatim>\<open>ReadSlice\<close> of a \<^verbatim>\<open>bufio.Reader\<close> with a buffer of \<open>cap\<close> bytes, over the bytes still to come and the error after
  them: up to and with the first newline, or a full buffer, or everything and the error.
\<close>

definition readerSize :: nat where "readerSize = 4096"

lemma readerSize_pos: "0 < readerSize"
  by (simp add: readerSize_def)

datatype slice = SliceLine | SliceFull | SliceErr go_error

definition ReadSlice :: "nat \<Rightarrow> go_error \<Rightarrow> bytes \<Rightarrow> bytes \<times> bytes \<times> slice" where
  "ReadSlice cap err inp =
     (let i = length (takeWhile (\<lambda>c. c \<noteq> newline) inp) in
      if i < length inp \<and> i < cap then (take (i + 1) inp, drop (i + 1) inp, SliceLine)
      else if length inp \<ge> cap then (take cap inp, drop cap inp, SliceFull)
      else (inp, [], SliceErr err))"

lemma ReadSlice_full_shorter: "ReadSlice cap err inp = (part, rest, SliceFull) \<Longrightarrow> 0 < cap \<Longrightarrow> length rest < length inp"
  by (auto simp: ReadSlice_def Let_def split: if_splits)

function readLineBounded :: "nat \<Rightarrow> go_error \<Rightarrow> bytes \<Rightarrow> bytes \<Rightarrow> go_error + bytes" where
  "readLineBounded limit err line inp = (case ReadSlice readerSize err inp of (part, rest, r) \<Rightarrow>
     if length line + length part > limit then Inl (Plain (''command request exceeds '' @ itoa (int limit) @ '' bytes''))
     else (case r of
         SliceLine \<Rightarrow> Inr (butlast (line @ part))
       | SliceErr e \<Rightarrow> if errors_is e IoEOF \<and> line @ part \<noteq> [] then Inr (line @ part) else Inl e
       | SliceFull \<Rightarrow> readLineBounded limit err (line @ part) rest))"
  by pat_completeness auto
termination
  by (relation "measure (\<lambda>(limit, err, line, inp). length inp)")
    (simp, metis ReadSlice_full_shorter case_prod_conv in_measure readerSize_pos)

declare readLineBounded.simps [simp del]

text \<open>The loop reads exactly one line, however the buffer cuts it: the bytes before the first newline, or all of them at the end.\<close>

definition read_line :: "nat \<Rightarrow> go_error \<Rightarrow> bytes \<Rightarrow> go_error + bytes" where
  "read_line limit err inp =
     (let l = takeWhile (\<lambda>c. c \<noteq> newline) inp; n = (if newline \<in> set inp then length l + 1 else length l) in
      if n > limit then Inl (Plain (''command request exceeds '' @ itoa (int limit) @ '' bytes''))
      else if newline \<in> set inp \<or> errors_is err IoEOF \<and> inp \<noteq> [] then Inr l
      else Inl err)"

lemma takeWhile_found: "length (takeWhile P xs) < length xs \<longleftrightarrow> (\<exists>x\<in>set xs. \<not> P x)"
  by (induction xs) auto

lemma take_Suc_takeWhile:
  assumes "newline \<in> set inp"
  shows "take (Suc (length (takeWhile (\<lambda>c. c \<noteq> newline) inp))) inp = takeWhile (\<lambda>c. c \<noteq> newline) inp @ [newline]"
  using assms by (induction inp) auto

lemma readLineBounded_exact:
  assumes "newline \<notin> set line"
  shows "readLineBounded limit err line inp = read_line limit err (line @ inp)"
  using assms
proof (induction limit err line inp rule: readLineBounded.induct)
  case (1 limit err line inp)
  let ?l = "takeWhile (\<lambda>c. c \<noteq> newline) inp"
  have found: "length ?l < length inp \<longleftrightarrow> newline \<in> set inp" by (simp add: takeWhile_found)
  have prefix: "takeWhile (\<lambda>c. c \<noteq> newline) (line @ inp) = line @ ?l" using 1(2) by (auto intro: takeWhile_append2)
  show ?case
  proof (cases "length ?l < length inp \<and> length ?l < readerSize")
    case True
    then have "ReadSlice readerSize err inp = (?l @ [newline], drop (Suc (length ?l)) inp, SliceLine)"
      using take_Suc_takeWhile[of inp] found by (simp add: ReadSlice_def Let_def)
    with True found show ?thesis
      by (subst readLineBounded.simps) (simp add: read_line_def Let_def prefix butlast_append)
  next
    case short: False
    show ?thesis
    proof (cases "length inp \<ge> readerSize")
      case True
      then have slice: "ReadSlice readerSize err inp = (take readerSize inp, drop readerSize inp, SliceFull)"
        using short by (auto simp: ReadSlice_def Let_def)
      have long: "readerSize \<le> length ?l" using short True by (metis length_takeWhile_le not_le order_antisym_conv order_trans)
      then have "take readerSize inp = take readerSize ?l" by (metis takeWhile_eq_take take_take min.absorb1)
      then have part: "newline \<notin> set (take readerSize inp)" by (metis in_set_takeD set_takeWhileD)
      show ?thesis
      proof (cases "length line + readerSize > limit")
        case over: True
        then show ?thesis using slice long True
          by (subst readLineBounded.simps) (simp add: read_line_def Let_def prefix)
      next
        case False
        have "readLineBounded limit err (line @ take readerSize inp) (drop readerSize inp) = read_line limit err ((line @ take readerSize inp) @ drop readerSize inp)"
          by (rule "1.IH"[OF slice[symmetric] refl]) (use False True part 1(2) in auto)
        then show ?thesis using slice False True by (subst readLineBounded.simps) (simp add: min_def)
      qed
    next
      case False
      then have none: "newline \<notin> set inp" using short found length_takeWhile_le[of "\<lambda>c. c \<noteq> newline" inp] by linarith
      then have all: "?l = inp" by (auto simp: takeWhile_eq_all_conv)
      have "ReadSlice readerSize err inp = (inp, [], SliceErr err)" using short False by (simp add: ReadSlice_def Let_def)
      with none 1(2) show ?thesis by (subst readLineBounded.simps) (simp add: read_line_def Let_def prefix[unfolded all])
    qed
  qed
qed

end
