(* ===== verification/Control_Call.thy ===== *)
theory Control_Call
  imports Control_Json Control_Line
begin

text \<open>
  One command over the desktop control connection: \<^verbatim>\<open>Handler.ServeConn\<close> of \<^verbatim>\<open>core/clientserver/controljson/server.go\<close>,
  \<^verbatim>\<open>Client.Call\<close> of \<^verbatim>\<open>client.go\<close>, and \<^verbatim>\<open>shutdownDesktop\<close> of \<^verbatim>\<open>core/clientserver/executor/process.go\<close>. \<^verbatim>\<open>encoding/json\<close> is a
  record of functions; a panic of the binding is passed on.
\<close>

record request =
  rq_Method :: string
  rq_Params :: bytes

record json_codec =
  jc_encodeRequest :: "request \<Rightarrow> bytes"
  jc_decodeRequest :: "bytes \<Rightarrow> go_error + request"
  jc_decodeParams :: "bytes \<Rightarrow> go_error + call_params"
  jc_encodeResponse :: "response \<Rightarrow> bytes"
  jc_decodeResponse :: "bytes \<Rightarrow> go_error + response"
  jc_valid :: "bytes \<Rightarrow> go_error option"

text \<open>A connection: what it delivers and the error after that, and what its other calls report. A failed write may have sent a part.\<close>

record conn =
  cn_input :: bytes
  cn_inputErr :: go_error
  cn_deadlineErr :: "go_error option"
  cn_writeErr :: "(nat \<times> go_error) option"
  cn_closeErr :: "go_error option"

definition conn_Write :: "conn \<Rightarrow> bytes \<Rightarrow> bytes \<times> go_error option" where
  "conn_Write c bs = (case cn_writeErr c of None \<Rightarrow> (bs, None) | Some (n, err) \<Rightarrow> (take n bs, Some err))"

definition close_conn :: "conn \<Rightarrow> go_error option \<Rightarrow> go_error option" where
  "close_conn c err = (case cn_closeErr c of
       None \<Rightarrow> err
     | Some closeErr \<Rightarrow> errors_join [err, Some (Wrap ''close desktop control connection: '' closeErr)])"

section \<open>The server\<close>

definition failure_response :: "string \<Rightarrow> string \<Rightarrow> response" where
  "failure_response code message = \<lparr>rs_OK = False, rs_Result = None, rs_Error = Some \<lparr>wf_Code = code, wf_Message = message\<rparr>\<rparr>"

definition writeFailure :: "json_codec \<Rightarrow> conn \<Rightarrow> string \<Rightarrow> string \<Rightarrow> bytes \<times> go_error option" where
  "writeFailure j c code message = conn_Write c (jc_encodeResponse j (failure_response code message) @ [newline])"

definition writeFailureWithCause :: "json_codec \<Rightarrow> conn \<Rightarrow> string \<Rightarrow> string \<Rightarrow> go_error \<Rightarrow> bytes \<times> go_error option" where
  "writeFailureWithCause j c code message cause = (case writeFailure j c code message of
       (sent, Some writeErr) \<Rightarrow> (sent, errors_join [Some cause, Some writeErr])
     | (sent, None) \<Rightarrow> (sent, None))"

text \<open>\<^verbatim>\<open>ServeConn\<close> after the deadline was set, and as a whole, with the deferred close. \<open>binding\<close> is false when it is nil.\<close>

definition serve_request :: "json_codec \<Rightarrow> call_env \<Rightarrow> conn \<Rightarrow> manager \<Rightarrow> (manager \<times> bytes \<times> go_error option) outcome" where
  "serve_request j e c m = (case readLineBounded maxRequestBytes (cn_inputErr c) [] (cn_input c) of
       Inl err \<Rightarrow> Ret (m, writeFailureWithCause j c ''INVALID_ARGUMENT'' (''command request could not be read: '' @ error_text err) err)
     | Inr requestBytes \<Rightarrow> (case jc_decodeRequest j requestBytes of
          Inl err \<Rightarrow> Ret (m, writeFailureWithCause j c ''INVALID_ARGUMENT'' (''command request is invalid: '' @ error_text err) err)
        | Inr rq \<Rightarrow>
            if rq_Method rq = [] \<or> rq_Params rq = [] \<or> rq_Params rq = ''null''
            then Ret (m, writeFailure j c ''INVALID_ARGUMENT'' ''command method and parameters are required'')
            else (case CallJSON (jc_decodeParams j) e (rq_Method rq) (rq_Params rq) m of
               Panic \<Rightarrow> Panic
             | Ret (m1, r) \<Rightarrow> (case jc_valid j (jc_encodeResponse j r) of
                  Some err \<Rightarrow> Ret (m1, writeFailureWithCause j c ''INTERNAL'' (''desktop control returned an invalid response: '' @ error_text err) err)
                | None \<Rightarrow> Ret (m1, conn_Write c (jc_encodeResponse j r @ [newline]))))))"

definition ServeConn :: "bool \<Rightarrow> json_codec \<Rightarrow> call_env \<Rightarrow> conn \<Rightarrow> manager \<Rightarrow> (manager \<times> bytes \<times> go_error option) outcome" where
  "ServeConn binding j e c m =
     (if \<not> binding then Ret (m, [], Some (Plain ''desktop control binding is unavailable''))
      else (case cn_deadlineErr c of
          Some err \<Rightarrow> Ret (m, [], close_conn c (Some (Wrap ''set desktop control deadline: '' err)))
        | None \<Rightarrow> (case serve_request j e c m of
             Panic \<Rightarrow> Panic
           | Ret (m1, sent, err) \<Rightarrow> Ret (m1, sent, close_conn c err))))"

section \<open>The client\<close>

datatype call_outcome =
    CallDone "wire_result option"
  | CallError string string
  | CallFault go_error

text \<open>\<^verbatim>\<open>Call\<close>: the request it writes, what it makes of the answer, and the deferred close. \<open>wanted\<close> says whether the caller passes a result.\<close>

definition client_request :: "json_codec \<Rightarrow> string \<Rightarrow> bytes \<Rightarrow> bytes" where
  "client_request j method params = jc_encodeRequest j \<lparr>rq_Method = method, rq_Params = params\<rparr> @ [newline]"

definition client_response :: "json_codec \<Rightarrow> bool \<Rightarrow> go_error \<Rightarrow> bytes \<Rightarrow> call_outcome" where
  "client_response j wanted err inp = (case readLineBounded maxRequestBytes err [] inp of
       Inl e \<Rightarrow> CallFault (Wrap ''read desktop control response: '' e)
     | Inr line \<Rightarrow> (case jc_decodeResponse j line of
          Inl e \<Rightarrow> CallFault (Wrap ''decode desktop control response: '' e)
        | Inr r \<Rightarrow>
            if \<not> rs_OK r then (case rs_Error r of
                None \<Rightarrow> CallFault (Plain ''desktop control returned a failure without details'')
              | Some f \<Rightarrow> CallError (wf_Code f) (wf_Message f))
            else if wanted \<and> rs_Result r = None then CallFault (Plain ''desktop control returned no result'')
            else CallDone (if wanted then rs_Result r else None)))"

definition outcome_error :: "call_outcome \<Rightarrow> go_error option" where
  "outcome_error o1 = (case o1 of CallDone _ \<Rightarrow> None | CallError code message \<Rightarrow> Some (Plain (code @ '': '' @ message)) | CallFault e \<Rightarrow> Some e)"

definition client_close :: "go_error option \<Rightarrow> call_outcome \<Rightarrow> call_outcome" where
  "client_close closeErr o1 = (case closeErr of
       None \<Rightarrow> o1
     | Some err \<Rightarrow> CallFault (the (errors_join [outcome_error o1, Some (Wrap ''close desktop control connection: '' err)])))"

definition Client_Call :: "json_codec \<Rightarrow> bool \<Rightarrow> go_error option \<Rightarrow> string \<Rightarrow> bytes \<Rightarrow> conn \<Rightarrow> bytes \<times> call_outcome" where
  "Client_Call j wanted dialErr method params c = (case dialErr of
       Some err \<Rightarrow> ([], CallFault err)
     | None \<Rightarrow> (case conn_Write c (client_request j method params) of
          (sent, Some err) \<Rightarrow> (sent, client_close (cn_closeErr c) (CallFault (Wrap ''send desktop control request: '' err)))
        | (sent, None) \<Rightarrow> (sent, client_close (cn_closeErr c) (client_response j wanted (cn_inputErr c) (cn_input c)))))"

section \<open>Shutdown\<close>

definition shutdownDesktop :: "go_error option \<Rightarrow> go_error option \<Rightarrow> go_error option \<Rightarrow> go_error option" where
  "shutdownDesktop closeErr serveErr stopErr =
     (let closeErr' = (case closeErr of Some e \<Rightarrow> if errors_is e NetErrClosed then None else Some e | None \<Rightarrow> None)
      in errors_join [serveErr, closeErr', stopErr])"

text \<open>Shutdown succeeds only when the accept loop, the listener and the session's cleanup did; a listener already closed is fine.\<close>

lemma shutdownDesktop_None_iff: "shutdownDesktop closeErr serveErr stopErr = None \<longleftrightarrow>
    serveErr = None \<and> stopErr = None \<and> (case closeErr of None \<Rightarrow> True | Some e \<Rightarrow> errors_is e NetErrClosed)"
  by (auto simp: shutdownDesktop_def errors_join_def split: option.splits)

section \<open>A whole call\<close>

lemma read_own_line:
  assumes "newline \<notin> set line" "length line < maxRequestBytes"
  shows "readLineBounded maxRequestBytes err [] (line @ [newline]) = Inr line"
proof -
  have "takeWhile (\<lambda>c. c \<noteq> newline) (line @ [newline]) = line"
    using assms(1) by (subst takeWhile_append2) auto
  then show ?thesis using assms(2) by (simp add: readLineBounded_exact read_line_def Let_def)
qed

text \<open>What the theorem relies on in \<^verbatim>\<open>encoding/json\<close>: an encoded message is one line of bounded size that decodes to the message.\<close>

definition encodes_request :: "json_codec \<Rightarrow> request \<Rightarrow> bool" where
  "encodes_request j rq \<longleftrightarrow> jc_decodeRequest j (jc_encodeRequest j rq) = Inr rq \<and> newline \<notin> set (jc_encodeRequest j rq)
     \<and> length (jc_encodeRequest j rq) < maxRequestBytes"

definition encodes_response :: "json_codec \<Rightarrow> response \<Rightarrow> bool" where
  "encodes_response j r \<longleftrightarrow> jc_decodeResponse j (jc_encodeResponse j r) = Inr r \<and> newline \<notin> set (jc_encodeResponse j r)
     \<and> length (jc_encodeResponse j r) < maxRequestBytes \<and> jc_valid j (jc_encodeResponse j r) = None"

text \<open>
  C26. A command over the control connection does what the binding does. When a client sends a method with
  parameters and neither transport fails, the server runs exactly that command on the session, and the client gets
  its result, or its failure code and message, unchanged: nothing is lost or altered by the framing and the
  encoding. The messages are assumed to be encoded by \<^verbatim>\<open>encoding/json\<close> as one line of less than 8 MiB.
\<close>

theorem control_call_faithful:
  assumes "reachable m" "ce_parse e = parseConfig decode urlparse digest"
    and "encodes_request j \<lparr>rq_Method = method, rq_Params = params\<rparr>" "method \<noteq> []" "params \<noteq> []" "params \<noteq> ''null''"
    and "\<forall>m1 r. CallJSON (jc_decodeParams j) e method params m = Ret (m1, r) \<longrightarrow> encodes_response j r"
    and "cn_input s = fst (Client_Call j True None method params c)" "cn_deadlineErr s = None" "cn_writeErr s = None" "cn_closeErr s = None"
    and "cn_writeErr c = None" "cn_closeErr c = None"
    and "ServeConn True j e s m = Ret (m1, cn_input c, err)"
  shows "\<exists>r. CallJSON (jc_decodeParams j) e method params m = Ret (m1, r) \<and> err = None
    \<and> snd (Client_Call j True None method params c) = (case rs_Error r of
        None \<Rightarrow> CallDone (rs_Result r) | Some f \<Rightarrow> CallError (wf_Code f) (wf_Message f))"
proof -
  have sent: "cn_input s = jc_encodeRequest j \<lparr>rq_Method = method, rq_Params = params\<rparr> @ [newline]"
    using assms(8,12) by (simp add: Client_Call_def conn_Write_def client_request_def)
  have "answered method (CallJSON (jc_decodeParams j) e method params m)"
    unfolding CallJSON_def using call_answered[OF assms(1,2)] by blast
  then obtain m2 r where call: "CallJSON (jc_decodeParams j) e method params m = Ret (m2, r)" "well_formed r"
    by (auto simp: answered_def split: outcome.splits)
  then have enc: "encodes_response j r" using assms(7) by blast
  have "serve_request j e s m = Ret (m2, jc_encodeResponse j r @ [newline], None)"
    using assms(3-6) enc call(1) assms(10) read_own_line
    by (simp add: serve_request_def sent encodes_request_def encodes_response_def conn_Write_def)
  then have m1: "m1 = m2" "cn_input c = jc_encodeResponse j r @ [newline]" "err = None"
    using assms(9,11,14) by (auto simp: ServeConn_def close_conn_def)
  have "client_response j True (cn_inputErr c) (cn_input c) = (case rs_Error r of
        None \<Rightarrow> CallDone (rs_Result r) | Some f \<Rightarrow> CallError (wf_Code f) (wf_Message f))"
    using enc call(2) read_own_line unfolding m1(2)
    by (auto simp: client_response_def encodes_response_def well_formed_def split: option.splits)
  then show ?thesis using assms(12,13) call(1) m1 by (simp add: Client_Call_def conn_Write_def client_close_def)
qed

text \<open>A snapshot of a fresh session, over a codec for these two messages.\<close>

definition sample_rq :: request where
  "sample_rq = \<lparr>rq_Method = ''Snapshot'', rq_Params = ''{}''\<rparr>"

definition sample_reply :: response where
  "sample_reply = success (WireSnapshot (SnapshotFrom (snapshotLocked (m_session sample_manager))))"

definition sample_codec :: json_codec where
  "sample_codec = \<lparr>jc_encodeRequest = (\<lambda>_. ''q''), jc_decodeRequest = (\<lambda>_. Inr sample_rq), jc_decodeParams = (\<lambda>_. Inr zero_params),
     jc_encodeResponse = (\<lambda>_. ''r''), jc_decodeResponse = (\<lambda>_. Inr sample_reply), jc_valid = (\<lambda>_. None)\<rparr>"

definition sample_conn :: "bytes \<Rightarrow> conn" where
  "sample_conn inp = \<lparr>cn_input = inp, cn_inputErr = Sentinel IoEOF, cn_deadlineErr = None, cn_writeErr = None, cn_closeErr = None\<rparr>"

lemma sample_snapshot:
  "CallJSON (jc_decodeParams sample_codec) sample_call_env ''Snapshot'' ''{}'' sample_manager = Ret (sample_manager, sample_reply)"
  by (simp add: CallJSON_def CallJSONWithConfiguration_def sample_codec_def dispatch_def SnapshotContext_def Snapshot_def get_err_def
      zero_params_def sample_reply_def respond_def sample_manager_def NewManager_def Let_def)

lemma sample_framing: "newline \<notin> set ''q''" "newline \<notin> set ''r''" "length ''q'' < maxRequestBytes" "length ''r'' < maxRequestBytes"
  by (simp_all add: newline_def maxRequestBytes_def)

lemma sample_served: "ServeConn True sample_codec sample_call_env (sample_conn (''q'' @ [newline])) sample_manager = Ret (sample_manager, ''r'' @ [newline], None)"
  using sample_snapshot sample_framing(1,3) read_own_line
  by (simp add: ServeConn_def serve_request_def sample_conn_def sample_codec_def sample_rq_def conn_Write_def close_conn_def del: append.simps)

theorem control_call_faithful_witness:
  "snd (Client_Call sample_codec True None ''Snapshot'' ''{}'' (sample_conn (''r'' @ [newline])))
     = CallDone (Some (WireSnapshot (SnapshotFrom (snapshotLocked (m_session sample_manager)))))"
proof -
  have m: "reachable sample_manager" unfolding sample_manager_def by (rule reach_new)
  have e: "ce_parse sample_call_env = parseConfig (\<lambda>raw. Inl (Plain ''toml'')) sample_parse (\<lambda>raw. raw)"
    by (simp add: sample_call_env_def)
  have rq: "encodes_request sample_codec \<lparr>rq_Method = ''Snapshot'', rq_Params = ''{}''\<rparr>"
    using sample_framing(1,3) by (simp add: encodes_request_def sample_codec_def sample_rq_def)
  have resp: "\<forall>m1 r. CallJSON (jc_decodeParams sample_codec) sample_call_env ''Snapshot'' ''{}'' sample_manager = Ret (m1, r) \<longrightarrow> encodes_response sample_codec r"
    using sample_framing(2,4) by (simp add: sample_snapshot encodes_response_def) (simp add: sample_codec_def)
  have inp: "cn_input (sample_conn (''q'' @ [newline])) = fst (Client_Call sample_codec True None ''Snapshot'' ''{}'' (sample_conn (''r'' @ [newline])))"
    by (simp add: sample_conn_def Client_Call_def conn_Write_def client_request_def sample_codec_def)
  have served: "ServeConn True sample_codec sample_call_env (sample_conn (''q'' @ [newline])) sample_manager
      = Ret (sample_manager, cn_input (sample_conn (''r'' @ [newline])), None)"
    using sample_served by (simp add: sample_conn_def)
  show ?thesis
    using control_call_faithful[OF m e rq _ _ _ resp inp _ _ _ _ _ served]
    by (auto simp: sample_snapshot sample_reply_def success_def sample_conn_def)
qed

end
