(* ===== verification/Linux_Guard.thy ===== *)
theory Linux_Guard
  imports Release_Loop Go_Net Config_Parser
begin

text \<open>
  The Linux output guard, \<^verbatim>\<open>core/routing/filter_linux.go\<close>: an nftables table owned by the process that
  drops every packet the retained TUN, the loopback or a marked socket does not send.

  \<^item> The source builds nftables expressions and queues netlink messages; both are data here, with the
    registers, offsets and payloads of the source.
  \<^item> What the kernel does with a committed ruleset is not in the repository. It is a parameter
    \<open>hook\<close>, and the documented evaluation (nft(8): chains of a hook by priority, first verdict of a
    chain, a failed comparison ends the rule) is the named hypothesis \<open>nft_documented\<close>.
  \<^item> A flush is one transaction. It may be rejected, committed, or committed with its answer lost; the
    context may also end during a flush that committed. All of them are results of the environment.
\<close>

unbundle bit_operations_syntax

section \<open>nftables as the source uses it\<close>

datatype meta_key = MetaKeyOIFNAME | MetaKeyMARK | MetaKeyL4PROTO | MetaKeyNFPROTO | MetaKeySKUID

datatype payload_base = PayloadBaseNetworkHeader | PayloadBaseTransportHeader

datatype verdict_kind = VerdictAccept | VerdictDrop

text \<open>Every expression of the source reads or writes register 1.\<close>

datatype nft_expr =
    Meta meta_key
  | Cmp "byte list"
  | Payload payload_base nat nat
  | Immediate "byte list"
  | MetaSet meta_key
  | Counter
  | Verdict verdict_kind

type_synonym nft_rule = "nft_expr list"

datatype chain_type = ChainTypeRoute | ChainTypeFilter

record nft_chain =
  ch_Name :: string
  ch_Type :: chain_type
  ch_Priority :: int
  ch_Policy :: verdict_kind
  ch_Rules :: "nft_rule list"

record nft_table =
  nt_Name :: string
  nt_Chains :: "nft_chain list"

text \<open>What a chain or rule operation queues until \<^verbatim>\<open>Flush\<close>.\<close>

datatype nft_msg = AddChain nft_chain | AddRule string nft_rule | FlushChain string | DelTable

fun nft_apply :: "nft_msg \<Rightarrow> nft_table option \<Rightarrow> nft_table option" where
  "nft_apply m None = None"
| "nft_apply (AddChain c) (Some t) = Some (t\<lparr>nt_Chains := nt_Chains t @ [c]\<rparr>)"
| "nft_apply (AddRule n r) (Some t) =
     Some (t\<lparr>nt_Chains := map (\<lambda>c. if ch_Name c = n then c\<lparr>ch_Rules := ch_Rules c @ [r]\<rparr> else c) (nt_Chains t)\<rparr>)"
| "nft_apply (FlushChain n) (Some t) =
     Some (t\<lparr>nt_Chains := map (\<lambda>c. if ch_Name c = n then c\<lparr>ch_Rules := []\<rparr> else c) (nt_Chains t)\<rparr>)"
| "nft_apply DelTable (Some t) = None"

definition nft_commit :: "nft_msg list \<Rightarrow> nft_table option \<Rightarrow> nft_table option" where
  "nft_commit ms t = fold nft_apply ms t"

text \<open>
  The result of a native exchange: acknowledged, refused, or committed with the acknowledgement lost.
\<close>

datatype nft_answer = Acknowledged | Refused go_error | AnswerLost go_error

fun nft_committed :: "nft_answer \<Rightarrow> bool" where
  "nft_committed Acknowledged = True"
| "nft_committed (Refused e) = False"
| "nft_committed (AnswerLost e) = True"

fun nft_error :: "nft_answer \<Rightarrow> go_error option" where
  "nft_error Acknowledged = None"
| "nft_error (Refused e) = Some e"
| "nft_error (AnswerLost e) = Some e"

lemma nft_error_None [simp]: "nft_error a = None \<longleftrightarrow> a = Acknowledged"
  by (cases a) auto

definition nft_flush :: "nft_answer \<Rightarrow> nft_msg list \<Rightarrow> nft_table option \<Rightarrow> nft_table option \<times> go_error option" where
  "nft_flush answer ms t = (if nft_committed answer then nft_commit ms t else t, nft_error answer)"

section \<open>The expressions of the guard\<close>

definition native32 :: "32 word \<Rightarrow> byte list" where
  "native32 v = map (\<lambda>i. ucast (drop_bit (8 * i) v)) [0, 1, 2, 3]"

definition be16 :: "16 word \<Rightarrow> byte list" where
  "be16 v = [ucast (drop_bit 8 v), ucast v]"

definition IPPROTO_TCP :: byte where "IPPROTO_TCP = 6"
definition IPPROTO_UDP :: byte where "IPPROTO_UDP = 17"
definition IPPROTO_ICMPV6 :: byte where "IPPROTO_ICMPV6 = 58"
definition NFPROTO_IPV4 :: byte where "NFPROTO_IPV4 = 2"
definition NFPROTO_IPV6 :: byte where "NFPROTO_IPV6 = 10"
definition IFNAMSIZ :: nat where "IFNAMSIZ = 16"

definition matchProtocol :: "byte \<Rightarrow> nft_expr list" where
  "matchProtocol protocol = [Meta MetaKeyL4PROTO, Cmp [protocol]]"

definition matchPort :: "nat \<Rightarrow> 16 word \<Rightarrow> nft_expr list" where
  "matchPort offset port = [Payload PayloadBaseTransportHeader offset 2, Cmp (be16 port)]"

fun matchIP :: "addr \<Rightarrow> nft_expr list" where
  "matchIP (Addr4 bs) = [Meta MetaKeyNFPROTO, Cmp [NFPROTO_IPV4], Payload PayloadBaseNetworkHeader 16 4, Cmp bs]"
| "matchIP (Addr6 bs) = [Meta MetaKeyNFPROTO, Cmp [NFPROTO_IPV6], Payload PayloadBaseNetworkHeader 24 16, Cmp bs]"

definition char_byte :: "char \<Rightarrow> byte" where
  "char_byte c = of_nat (of_char c)"

text \<open>\<^verbatim>\<open>copy(data, name)\<close> into a zeroed buffer of \<^verbatim>\<open>IFNAMSIZ\<close> bytes.\<close>

definition ifname_data :: "string \<Rightarrow> byte list" where
  "ifname_data name = take IFNAMSIZ (map char_byte name @ replicate IFNAMSIZ 0)"

section \<open>The guard\<close>

record guard =
  g_conn :: bool
  g_socket :: bool
  g_table :: string
  g_mark :: "32 word"
  g_resolverUID :: "32 word"
  g_dhcpUIDs :: "32 word list"
  g_bootstrapIdentity :: string
  g_created :: bool
  g_closed :: bool

definition guard_add :: "string \<Rightarrow> nft_expr list \<Rightarrow> verdict_kind \<Rightarrow> nft_msg" where
  "guard_add chain matches verdict = AddRule chain (matches @ [Verdict verdict])"

definition markTraffic :: "guard \<Rightarrow> nft_expr list \<Rightarrow> nft_msg" where
  "markTraffic g matches =
     guard_add ''bootstrap'' (matches @ [Immediate (native32 (g_mark g)), MetaSet MetaKeyMARK]) VerdictAccept"

text \<open>The environment of one \<^verbatim>\<open>operation\<close>: the context before and after, and the deadline calls.\<close>

record op_env =
  oe_ctxErr :: "go_error option"
  oe_setDeadline :: "go_error option"
  oe_ctxAfter :: "go_error option"
  oe_clearDeadline :: "go_error option"

definition guard_operation ::
  "op_env \<Rightarrow> ('w \<Rightarrow> 'w \<times> go_error option) \<Rightarrow> 'w \<Rightarrow> 'w \<times> go_error option" where
  "guard_operation env fn w =
     (case oe_ctxErr env of Some err \<Rightarrow> (w, Some err)
      | None \<Rightarrow> (case oe_setDeadline env of Some err \<Rightarrow> (w, Some err)
        | None \<Rightarrow> (case fn w of (w', err) \<Rightarrow>
            (w', errors_join [err, oe_ctxAfter env, oe_clearDeadline env]))))"

definition bootstrap_chain :: nft_chain where
  "bootstrap_chain = \<lparr>ch_Name = ''bootstrap'', ch_Type = ChainTypeRoute, ch_Priority = -150,
     ch_Policy = VerdictAccept, ch_Rules = []\<rparr>"

definition protect_chain :: nft_chain where
  "protect_chain = \<lparr>ch_Name = ''protect'', ch_Type = ChainTypeFilter, ch_Priority = 0,
     ch_Policy = VerdictDrop, ch_Rules = []\<rparr>"

definition protect_messages :: "string \<Rightarrow> guard \<Rightarrow> nft_msg list" where
  "protect_messages tunName g =
     [AddChain bootstrap_chain, AddChain protect_chain]
     @ map (\<lambda>name. guard_add ''protect'' [Meta MetaKeyOIFNAME, Cmp (ifname_data name)] VerdictAccept) [''lo'', tunName]
     @ [guard_add ''protect'' [Meta MetaKeyMARK, Cmp (native32 (g_mark g))] VerdictAccept,
        guard_add ''protect'' [Counter] VerdictDrop]"

text \<open>
  The account database and the native set-up \<^verbatim>\<open>AcquireLinuxOutputGuard\<close> meets. \<open>AccountUnknown\<close> is
  \<^verbatim>\<open>user.UnknownUserError\<close>; \<open>AccountError\<close> any other failure of \<^verbatim>\<open>user.Lookup\<close>.
\<close>

datatype account = AccountUid string | AccountUnknown go_error | AccountError go_error

record guard_env =
  ge_lookup :: "string \<Rightarrow> account"
  ge_pid :: int
  ge_newErr :: "go_error option"
  ge_newSocket :: bool
  ge_op :: op_env
  ge_create :: nft_answer
  ge_flush :: nft_answer

text \<open>\<^verbatim>\<open>strconv.ParseUint(s, 10, 32)\<close>.\<close>

definition parse_uint32 :: "string \<Rightarrow> go_error + 32 word" where
  "parse_uint32 s =
     (if s = [] \<or> \<not> list_all is_digit s then Inl (Plain (''strconv.ParseUint: parsing '' @ go_quote s @ '': invalid syntax''))
      else if digits_value s \<ge> 2 ^ 32 then Inl (Plain (''strconv.ParseUint: parsing '' @ go_quote s @ '': value out of range''))
      else Inr (of_nat (digits_value s)))"

definition guard_dhcpUIDs :: "account \<Rightarrow> go_error + 32 word list" where
  "guard_dhcpUIDs a = (case a of
       AccountUid s \<Rightarrow> (case parse_uint32 s of
           Inl e \<Rightarrow> Inl (Wrap ''identify DHCP service: '' e)
         | Inr uid \<Rightarrow> Inr (if uid \<noteq> 0 then [0, uid] else [0]))
     | AccountUnknown e \<Rightarrow> Inr [0]
     | AccountError e \<Rightarrow> Inl (Wrap ''identify DHCP service: '' e))"

text \<open>The identity of the guard, before any native operation.\<close>

definition guard_identity :: "guard_env \<Rightarrow> int \<Rightarrow> go_error + guard" where
  "guard_identity env mark =
     (if mark \<le> 0 \<or> mark > 2 ^ 32 - 1 then Inl (Plain ''output guard requires an owned socket mark'')
      else (case ge_lookup env ''systemd-resolve'' of
          AccountUnknown e \<Rightarrow> Inl (Wrap ''identify underlying resolver service: '' e)
        | AccountError e \<Rightarrow> Inl (Wrap ''identify underlying resolver service: '' e)
        | AccountUid s \<Rightarrow> (case parse_uint32 s of
              Inl e \<Rightarrow> Inl e
            | Inr uid \<Rightarrow> (case guard_dhcpUIDs (ge_lookup env ''systemd-network'') of
                  Inl e \<Rightarrow> Inl e
                | Inr dhcp \<Rightarrow> Inr \<lparr>g_conn = False, g_socket = False, g_table = [], g_mark = word_of_int mark,
                    g_resolverUID = uid, g_dhcpUIDs = dhcp, g_bootstrapIdentity = [], g_created = False, g_closed = False\<rparr>))))"

text \<open>
  The native part: the connection, then the owner table and the two chains in one operation. A table
  created with its answer lost exists without \<^verbatim>\<open>created\<close>.
\<close>

definition guard_create ::
  "guard_env \<Rightarrow> string \<Rightarrow> guard \<times> nft_table option \<Rightarrow> (guard \<times> nft_table option) \<times> go_error option" where
  "guard_create env tunName = (\<lambda>(g, t).
     let t1 = (if nft_committed (ge_create env) then Some \<lparr>nt_Name = g_table g, nt_Chains = []\<rparr> else t)
     in case nft_error (ge_create env) of
          Some err \<Rightarrow> ((g, t1), Some err)
        | None \<Rightarrow> (case nft_flush (ge_flush env) (protect_messages tunName g) t1 of
              (t2, err) \<Rightarrow> ((g\<lparr>g_created := True\<rparr>, t2), err)))"

definition guard_connect ::
  "guard_env \<Rightarrow> string \<Rightarrow> guard \<times> nft_table option \<Rightarrow> (guard \<times> nft_table option) \<times> go_error option" where
  "guard_connect env tunName = (\<lambda>(g, t). case ge_newErr env of
       Some err \<Rightarrow> ((g\<lparr>g_socket := ge_newSocket env\<rparr>, t), Some err)
     | None \<Rightarrow> guard_operation (ge_op env) (guard_create env tunName)
                 (g\<lparr>g_conn := True, g_socket := True, g_table := ''dobbyvpn_'' @ itoa (ge_pid env)\<rparr>, t))"

text \<open>
  \<^verbatim>\<open>AcquireLinuxOutputGuard\<close>. The plan owns \<^verbatim>\<open>g.Close\<close> before the first native operation; \<open>noop\<close> is the
  empty apply closure and \<open>close\<close> the release. The guard is part of the result also when an error is.
\<close>

definition AcquireLinuxOutputGuard ::
  "('c, 'w) runner \<Rightarrow> guard_env \<Rightarrow> 'c \<Rightarrow> 'c \<Rightarrow> string \<Rightarrow> int \<Rightarrow> 'c plan \<Rightarrow> nft_table option \<Rightarrow> 'w
     \<Rightarrow> 'c plan \<times> 'w \<times> nft_table option \<times> guard option \<times> go_error option" where
  "AcquireLinuxOutputGuard run env noop close tunName mark p t w = (case guard_identity env mark of
       Inl err \<Rightarrow> (p, w, t, None, Some err)
     | Inr g \<Rightarrow> (case Plan_Acquire run p ''owned IPv4/IPv6 output guard'' (Some noop) (Some close) w of
           (p', w', Inl err) \<Rightarrow> (p', w', t, None, Some err)
         | (p', w', Inr _) \<Rightarrow> (case guard_connect env tunName (g, t) of
               ((g', t'), err) \<Rightarrow> (p', w', t', Some g', err))))"

section \<open>Bootstrap exceptions\<close>

text \<open>\<^verbatim>\<open>netip.Addr\<close>: \<^const>\<open>None\<close> is the invalid zero value. A mapped IPv4 address counts as its IPv4 form for \<^verbatim>\<open>IsLoopback\<close>.\<close>

fun addr_IsLoopback :: "addr \<Rightarrow> bool" where
  "addr_IsLoopback (Addr4 bs) = (take 1 bs = [127])"
| "addr_IsLoopback (Addr6 bs) = (if take 12 bs = v4InV6Prefix then take 1 (drop 12 bs) = [127] else bs = replicate 15 0 @ [1])"

fun addr_IsUnspecified :: "addr \<Rightarrow> bool" where
  "addr_IsUnspecified (Addr4 bs) = (bs = replicate 4 0)"
| "addr_IsUnspecified (Addr6 bs) = (bs = replicate 16 0)"

definition physical_server :: "addr option \<Rightarrow> bool" where
  "physical_server s = (case s of None \<Rightarrow> False | Some a \<Rightarrow> \<not> addr_IsLoopback a \<and> \<not> addr_IsUnspecified a)"

definition dns_messages :: "guard \<Rightarrow> addr \<Rightarrow> nft_msg list" where
  "dns_messages g server =
     concat (map (\<lambda>protocol. concat (map (\<lambda>port.
        if protocol = IPPROTO_UDP \<and> port = 853 then []
        else [markTraffic g ([Meta MetaKeySKUID, Cmp (native32 (g_resolverUID g))] @ matchIP server
                @ matchProtocol protocol @ matchPort 2 port)])
      [53, 853])) [IPPROTO_TCP, IPPROTO_UDP])"

definition dhcp_messages :: "guard \<Rightarrow> nft_msg list" where
  "dhcp_messages g =
     concat (map (\<lambda>(family, lport, rport). map (\<lambda>uid.
        markTraffic g ([Meta MetaKeyNFPROTO, Cmp [family], Meta MetaKeySKUID, Cmp (native32 uid)]
          @ matchProtocol IPPROTO_UDP @ matchPort 0 lport @ matchPort 2 rport)) (g_dhcpUIDs g))
      [(NFPROTO_IPV4, 68, 67), (NFPROTO_IPV6, 546, 547)])"

definition neighbour_messages :: "guard \<Rightarrow> nft_msg list" where
  "neighbour_messages g =
     map (\<lambda>kind. markTraffic g (matchProtocol IPPROTO_ICMPV6
        @ [Payload PayloadBaseTransportHeader 0 1, Cmp [kind], Payload PayloadBaseNetworkHeader 7 1, Cmp [255]]))
      [133, 135, 136]"

definition bootstrap_messages :: "guard \<Rightarrow> addr list \<Rightarrow> nft_msg list" where
  "bootstrap_messages g servers =
     FlushChain ''bootstrap'' # concat (map (dns_messages g) servers) @ dhcp_messages g @ neighbour_messages g"

text \<open>
  The text of the refused server is that of \<^verbatim>\<open>netip.Addr.String\<close>, the parameter \<open>show\<close>.
\<close>

definition UpdateBootstrap ::
  "(addr option \<Rightarrow> string) \<Rightarrow> op_env \<Rightarrow> nft_answer \<Rightarrow> string \<Rightarrow> addr option list
     \<Rightarrow> guard \<times> nft_table option \<Rightarrow> (guard \<times> nft_table option) \<times> go_error option" where
  "UpdateBootstrap show_addr env answer identity servers = (\<lambda>(g, t).
     if g_closed g then ((g, t), Some (Plain ''output guard is closed''))
     else if g_bootstrapIdentity g = identity then ((g, t), None)
     else (case find (\<lambda>s. \<not> physical_server s) servers of
         Some s \<Rightarrow> ((g, t), Some (Plain (''invalid physical DNS server '' @ show_addr s)))
       | None \<Rightarrow> (case guard_operation env (nft_flush answer (bootstrap_messages g (map the servers))) t of
             (t', Some err) \<Rightarrow> ((g, t'), Some err)
           | (t', None) \<Rightarrow> ((g\<lparr>g_bootstrapIdentity := identity\<rparr>, t'), None))))"

text \<open>
  \<^verbatim>\<open>Close\<close>. Closing the socket makes the kernel remove the table it owns; \<open>gone\<close> says whether a close
  that reported an error closed it nevertheless.
\<close>

record close_env =
  ce_op :: op_env
  ce_delete :: nft_answer
  ce_closeErr :: "go_error option"
  ce_closeGone :: bool

definition guard_closeSocket :: "close_env \<Rightarrow> guard \<times> nft_table option \<Rightarrow> (guard \<times> nft_table option) \<times> go_error option" where
  "guard_closeSocket env = (\<lambda>(g, t).
     if g_conn g \<or> g_socket g then (case ce_closeErr env of
         Some err \<Rightarrow> ((g, if ce_closeGone env then None else t), Some err)
       | None \<Rightarrow> ((g\<lparr>g_closed := True\<rparr>, None), None))
     else ((g\<lparr>g_closed := True\<rparr>, t), None))"

definition guard_Close :: "close_env \<Rightarrow> guard \<times> nft_table option \<Rightarrow> (guard \<times> nft_table option) \<times> go_error option" where
  "guard_Close env = (\<lambda>(g, t).
     if g_closed g then ((g, t), None)
     else if g_conn g \<and> g_created g then
       (case guard_operation (ce_op env) (nft_flush (ce_delete env) [DelTable]) t of
          (t', err) \<Rightarrow>
            if err \<noteq> None \<and> \<not> errors_is (the err) SysENOENT then ((g, t'), err)
            else guard_closeSocket env (g\<lparr>g_created := False\<rparr>, t'))
     else guard_closeSocket env (g, t))"

section \<open>The documented evaluation of a ruleset\<close>

text \<open>
  A locally generated packet at the output hook: its output interface, family, socket owner and mark, its
  network header and what is readable of its transport header. A packet without a socket has no owner, and a
  later fragment has no readable transport header.
\<close>

record packet =
  pk_oif :: string
  pk_nfproto :: byte
  pk_l4proto :: "byte option"
  pk_skuid :: "32 word option"
  pk_mark :: "32 word"
  pk_network :: "byte list"
  pk_transport :: "byte list"

definition bytes_at :: "nat \<Rightarrow> nat \<Rightarrow> byte list \<Rightarrow> byte list option" where
  "bytes_at off n bs = (if off + n \<le> length bs then Some (take n (drop off bs)) else None)"

fun meta_load :: "meta_key \<Rightarrow> packet \<Rightarrow> byte list option" where
  "meta_load MetaKeyOIFNAME pk = Some (ifname_data (pk_oif pk))"
| "meta_load MetaKeyMARK pk = Some (native32 (pk_mark pk))"
| "meta_load MetaKeyL4PROTO pk = map_option (\<lambda>b. [b]) (pk_l4proto pk)"
| "meta_load MetaKeyNFPROTO pk = Some [pk_nfproto pk]"
| "meta_load MetaKeySKUID pk = map_option native32 (pk_skuid pk)"

fun payload_bytes :: "payload_base \<Rightarrow> packet \<Rightarrow> byte list" where
  "payload_bytes PayloadBaseNetworkHeader pk = pk_network pk"
| "payload_bytes PayloadBaseTransportHeader pk = pk_transport pk"

definition native32_value :: "byte list \<Rightarrow> 32 word" where
  "native32_value bs = foldr (\<lambda>b v. ucast b OR push_bit 8 v) bs 0"

text \<open>One rule: its expressions in order over register 1; an unavailable field or an unequal comparison ends it.\<close>

fun nft_rule_eval :: "nft_rule \<Rightarrow> byte list \<Rightarrow> packet \<Rightarrow> packet \<times> verdict_kind option" where
  "nft_rule_eval [] reg pk = (pk, None)"
| "nft_rule_eval (Meta k # es) reg pk = (case meta_load k pk of None \<Rightarrow> (pk, None) | Some v \<Rightarrow> nft_rule_eval es v pk)"
| "nft_rule_eval (Cmp d # es) reg pk = (if reg = d then nft_rule_eval es reg pk else (pk, None))"
| "nft_rule_eval (Payload b off n # es) reg pk =
     (case bytes_at off n (payload_bytes b pk) of None \<Rightarrow> (pk, None) | Some v \<Rightarrow> nft_rule_eval es v pk)"
| "nft_rule_eval (Immediate d # es) reg pk = nft_rule_eval es d pk"
| "nft_rule_eval (MetaSet k # es) reg pk =
     nft_rule_eval es reg (if k = MetaKeyMARK then pk\<lparr>pk_mark := native32_value reg\<rparr> else pk)"
| "nft_rule_eval (Counter # es) reg pk = nft_rule_eval es reg pk"
| "nft_rule_eval (Verdict v # es) reg pk = (pk, Some v)"

fun nft_rules_eval :: "nft_rule list \<Rightarrow> verdict_kind \<Rightarrow> packet \<Rightarrow> packet \<times> verdict_kind" where
  "nft_rules_eval [] policy pk = (pk, policy)"
| "nft_rules_eval (r # rs) policy pk = (case nft_rule_eval r [] pk of
       (pk', Some v) \<Rightarrow> (pk', v)
     | (pk', None) \<Rightarrow> nft_rules_eval rs policy pk')"

text \<open>Accepting in one base chain continues with the next; dropping is final.\<close>

fun nft_chains_eval :: "nft_chain list \<Rightarrow> packet \<Rightarrow> bool" where
  "nft_chains_eval [] pk = True"
| "nft_chains_eval (c # cs) pk = (case nft_rules_eval (ch_Rules c) (ch_Policy c) pk of
       (pk', VerdictAccept) \<Rightarrow> nft_chains_eval cs pk'
     | (pk', VerdictDrop) \<Rightarrow> False)"

definition nft_passes :: "nft_table option \<Rightarrow> packet \<Rightarrow> bool" where
  "nft_passes t pk = (case t of None \<Rightarrow> True | Some t \<Rightarrow> nft_chains_eval (sort_key ch_Priority (nt_Chains t)) pk)"

definition nft_documented :: "(nft_table option \<Rightarrow> packet \<Rightarrow> bool) \<Rightarrow> bool" where
  "nft_documented hook \<longleftrightarrow> (\<forall>t pk. hook t pk = nft_passes t pk)"

section \<open>What the guard lets through\<close>

fun sent_to :: "addr \<Rightarrow> packet \<Rightarrow> bool" where
  "sent_to (Addr4 bs) pk \<longleftrightarrow> pk_nfproto pk = NFPROTO_IPV4 \<and> bytes_at 16 4 (pk_network pk) = Some bs"
| "sent_to (Addr6 bs) pk \<longleftrightarrow> pk_nfproto pk = NFPROTO_IPV6 \<and> bytes_at 24 16 (pk_network pk) = Some bs"

definition src_port :: "16 word \<Rightarrow> packet \<Rightarrow> bool" where
  "src_port port pk \<longleftrightarrow> bytes_at 0 2 (pk_transport pk) = Some (be16 port)"

definition dst_port :: "16 word \<Rightarrow> packet \<Rightarrow> bool" where
  "dst_port port pk \<longleftrightarrow> bytes_at 2 2 (pk_transport pk) = Some (be16 port)"

text \<open>The resolver service asking a physical DNS server, a DHCP client on its own ports, or on-link neighbour discovery.\<close>

definition resolver_traffic :: "guard \<Rightarrow> addr list \<Rightarrow> packet \<Rightarrow> bool" where
  "resolver_traffic g servers pk \<longleftrightarrow>
     pk_skuid pk = Some (g_resolverUID g) \<and> list_ex (\<lambda>s. sent_to s pk) servers
     \<and> (pk_l4proto pk = Some IPPROTO_TCP \<and> (dst_port 53 pk \<or> dst_port 853 pk)
        \<or> pk_l4proto pk = Some IPPROTO_UDP \<and> dst_port 53 pk)"

definition dhcp_traffic :: "guard \<Rightarrow> packet \<Rightarrow> bool" where
  "dhcp_traffic g pk \<longleftrightarrow>
     list_ex (\<lambda>uid. pk_skuid pk = Some uid) (g_dhcpUIDs g) \<and> pk_l4proto pk = Some IPPROTO_UDP
     \<and> (pk_nfproto pk = NFPROTO_IPV4 \<and> src_port 68 pk \<and> dst_port 67 pk
        \<or> pk_nfproto pk = NFPROTO_IPV6 \<and> src_port 546 pk \<and> dst_port 547 pk)"

definition neighbour_traffic :: "packet \<Rightarrow> bool" where
  "neighbour_traffic pk \<longleftrightarrow>
     pk_l4proto pk = Some IPPROTO_ICMPV6 \<and> bytes_at 7 1 (pk_network pk) = Some [255]
     \<and> list_ex (\<lambda>kind. bytes_at 0 1 (pk_transport pk) = Some [kind]) [133, 135, 136]"

definition bootstrap_traffic :: "guard \<Rightarrow> addr list \<Rightarrow> packet \<Rightarrow> bool" where
  "bootstrap_traffic g servers pk \<longleftrightarrow> resolver_traffic g servers pk \<or> dhcp_traffic g pk \<or> neighbour_traffic pk"

definition owned_traffic :: "string \<Rightarrow> guard \<Rightarrow> packet \<Rightarrow> bool" where
  "owned_traffic tunName g pk \<longleftrightarrow> pk_oif pk = ''lo'' \<or> pk_oif pk = tunName \<or> pk_mark pk = g_mark g"

text \<open>A device name as the kernel accepts it: shorter than its buffer, without a NUL byte.\<close>

definition device_name :: "string \<Rightarrow> bool" where
  "device_name name \<longleftrightarrow> length name < IFNAMSIZ \<and> list_all (\<lambda>c. c \<noteq> CHR 0x00) name"

section \<open>Registers\<close>

lemma native32_value_native32 [simp]: "native32_value (native32 v) = v"
proof (rule bit_word_eqI)
  fix n
  assume "n < LENGTH(32)"
  then consider "n < 8" | "8 \<le> n" "n < 16" | "16 \<le> n" "n < 24" | "24 \<le> n" "n < 32" by force
  then show "bit (native32_value (native32 v)) n = bit v n"
    by cases (simp_all add: native32_value_def native32_def bit_simps, arith+)
qed

lemma native32_inj [simp]: "native32 v = native32 w \<longleftrightarrow> v = w"
  by (metis native32_value_native32)


lemma be16_inj [simp]: "be16 v = be16 w \<longleftrightarrow> v = w"
proof
  assume eq: "be16 v = be16 w"
  show "v = w"
  proof (rule bit_word_eqI)
    fix n
    assume n: "n < LENGTH(16)"
    have lo: "bit (ucast v :: byte) m = bit (ucast w :: byte) m"
      and hi: "bit (ucast (drop_bit 8 v) :: byte) m = bit (ucast (drop_bit 8 w) :: byte) m" for m
      using eq by (simp_all add: be16_def)
    show "bit v n = bit w n"
      using lo[of n] hi[of "n - 8"] n by (cases "n < 8") (auto simp: bit_simps)
  qed
qed simp

lemma unat_char_byte: "unat (char_byte c) = of_char c"
proof -
  have "of_char c < (256 :: nat)" by simp
  then show ?thesis by (simp add: char_byte_def unat_of_nat)
qed

lemma char_byte_inj [simp]: "char_byte c = char_byte d \<longleftrightarrow> c = d"
  by (metis unat_char_byte of_char_eq_iff)

lemma char_byte_0 [simp]: "char_byte c = 0 \<longleftrightarrow> c = CHR 0x00"
proof -
  have "char_byte (CHR 0x00) = 0" by (simp add: char_byte_def)
  then show ?thesis using char_byte_inj[of c "CHR 0x00"] by simp
qed

lemma takeWhile_pad: "\<forall>x\<in>set bs. x \<noteq> 0 \<Longrightarrow> takeWhile (\<lambda>x. x \<noteq> (0::byte)) (bs @ replicate n 0) = bs"
  by (induction bs) (auto simp: takeWhile_replicate)

lemma ifname_data_inj:
  assumes "device_name a" "device_name b"
  shows "ifname_data a = ifname_data b \<longleftrightarrow> a = b"
proof
  have restore: "takeWhile (\<lambda>x. x \<noteq> 0) (ifname_data c) = map char_byte c" if "device_name c" for c
  proof -
    have "ifname_data c = map char_byte c @ replicate (16 - length c) 0"
      using that by (simp add: ifname_data_def IFNAMSIZ_def device_name_def)
    moreover have "\<forall>x\<in>set (map char_byte c). x \<noteq> 0"
      using that by (auto simp: device_name_def list_all_iff)
    ultimately show ?thesis by (simp only: takeWhile_pad)
  qed
  assume "ifname_data a = ifname_data b"
  then have "map char_byte a = map char_byte b" using restore[OF assms(1)] restore[OF assms(2)] by simp
  then show "a = b" by (rule map_injective) (auto intro: injI)
qed simp

section \<open>Evaluating the guard's rules\<close>

fun fires :: "nft_expr list \<Rightarrow> byte list \<Rightarrow> packet \<Rightarrow> bool" where
  "fires (Meta k # es) reg pk = (case meta_load k pk of None \<Rightarrow> False | Some v \<Rightarrow> fires es v pk)"
| "fires (Cmp d # es) reg pk = (reg = d \<and> fires es reg pk)"
| "fires (Payload b off n # es) reg pk =
     (case bytes_at off n (payload_bytes b pk) of None \<Rightarrow> False | Some v \<Rightarrow> fires es v pk)"
| "fires es reg pk = (es = [])"

fun only_matches :: "nft_expr list \<Rightarrow> bool" where
  "only_matches [] = True"
| "only_matches (Meta k # es) = only_matches es"
| "only_matches (Cmp d # es) = only_matches es"
| "only_matches (Payload b off n # es) = only_matches es"
| "only_matches es = False"

definition marked :: "guard \<Rightarrow> nft_expr list \<Rightarrow> nft_rule" where
  "marked g ms = ms @ [Immediate (native32 (g_mark g)), MetaSet MetaKeyMARK, Verdict VerdictAccept]"

lemma markTraffic_marked: "markTraffic g ms = AddRule ''bootstrap'' (marked g ms)"
  by (simp add: markTraffic_def guard_add_def marked_def)

lemma marked_eval:
  "only_matches ms \<Longrightarrow> nft_rule_eval (marked g ms) reg pk =
     (if fires ms reg pk then (pk\<lparr>pk_mark := g_mark g\<rparr>, Some VerdictAccept) else (pk, None))"
  unfolding marked_def
  by (induction ms reg pk rule: fires.induct) (auto split: option.splits)

lemma verdict_eval:
  "only_matches ms \<Longrightarrow> nft_rule_eval (ms @ [Verdict v]) reg pk = (pk, if fires ms reg pk then Some v else None)"
  by (induction ms reg pk rule: fires.induct) (auto split: option.splits)

definition dns_rules :: "guard \<Rightarrow> addr \<Rightarrow> nft_expr list list" where
  "dns_rules g server = map (\<lambda>(protocol, port). [Meta MetaKeySKUID, Cmp (native32 (g_resolverUID g))] @ matchIP server
      @ matchProtocol protocol @ matchPort 2 port) [(IPPROTO_TCP, 53), (IPPROTO_TCP, 853), (IPPROTO_UDP, 53)]"

definition dhcp_rules :: "guard \<Rightarrow> nft_expr list list" where
  "dhcp_rules g = concat (map (\<lambda>(family, lport, rport). map (\<lambda>uid.
      [Meta MetaKeyNFPROTO, Cmp [family], Meta MetaKeySKUID, Cmp (native32 uid)]
          @ matchProtocol IPPROTO_UDP @ matchPort 0 lport @ matchPort 2 rport) (g_dhcpUIDs g))
      [(NFPROTO_IPV4, 68, 67), (NFPROTO_IPV6, 546, 547)])"

definition neighbour_rules :: "nft_expr list list" where
  "neighbour_rules = map (\<lambda>kind. matchProtocol IPPROTO_ICMPV6
        @ [Payload PayloadBaseTransportHeader 0 1, Cmp [kind], Payload PayloadBaseNetworkHeader 7 1, Cmp [255]])
      [133, 135, 136]"

definition bootstrap_rules :: "guard \<Rightarrow> addr list \<Rightarrow> nft_expr list list" where
  "bootstrap_rules g servers = concat (map (dns_rules g) servers) @ dhcp_rules g @ neighbour_rules"

lemma bootstrap_messages_rules:
  "bootstrap_messages g servers =
     FlushChain ''bootstrap'' # map (\<lambda>ms. AddRule ''bootstrap'' (marked g ms)) (bootstrap_rules g servers)"
proof -
  have "dns_messages g = (\<lambda>s. map (\<lambda>ms. AddRule ''bootstrap'' (marked g ms)) (dns_rules g s))"
    by (rule ext) (simp add: dns_messages_def dns_rules_def markTraffic_marked IPPROTO_TCP_def IPPROTO_UDP_def)
  then have "concat (map (dns_messages g) servers) = map (\<lambda>ms. AddRule ''bootstrap'' (marked g ms)) (concat (map (dns_rules g) servers))"
    by (simp add: map_concat comp_def)
  then show ?thesis
    by (simp add: bootstrap_messages_def bootstrap_rules_def dhcp_messages_def dhcp_rules_def neighbour_messages_def
        neighbour_rules_def markTraffic_marked)
qed

lemma bootstrap_rules_only_matches: "ms \<in> set (bootstrap_rules g servers) \<Longrightarrow> only_matches ms"
proof -
  have ip: "only_matches (matchIP a @ es) = only_matches es" for a es by (cases a) auto
  assume "ms \<in> set (bootstrap_rules g servers)"
  then show ?thesis
    by (auto simp: bootstrap_rules_def dns_rules_def dhcp_rules_def neighbour_rules_def matchProtocol_def matchPort_def ip)
qed

lemma bootstrap_rules_fire:
  "list_ex (\<lambda>ms. fires ms [] pk) (bootstrap_rules g servers) \<longleftrightarrow> bootstrap_traffic g servers pk"
proof -
  have ip: "fires (matchIP a @ es) reg pk \<longleftrightarrow> sent_to a pk \<and> (\<exists>reg'. reg' = (case a of Addr4 bs \<Rightarrow> bs | Addr6 bs \<Rightarrow> bs) \<and> fires es reg' pk)"
    for a es reg by (cases a) (auto split: option.splits)
  have proto: "fires (matchProtocol p @ es) reg pk \<longleftrightarrow> pk_l4proto pk = Some p \<and> fires es [p] pk" for p es reg
    by (auto simp: matchProtocol_def split: option.splits)
  have port: "fires (matchPort off p @ es) reg pk \<longleftrightarrow> bytes_at off 2 (pk_transport pk) = Some (be16 p) \<and> fires es (be16 p) pk" for off p es reg
    by (auto simp: matchPort_def split: option.splits)
  have port1: "fires (matchPort off p) reg pk \<longleftrightarrow> bytes_at off 2 (pk_transport pk) = Some (be16 p)" for off p reg
    using port[of off p "[]" reg] by simp
  have dns: "list_ex (\<lambda>ms. fires ms [] pk) (dns_rules g s) \<longleftrightarrow> resolver_traffic g [s] pk" for s
    by (auto simp: dns_rules_def resolver_traffic_def dst_port_def ip proto port port1 split: option.splits)
  have "list_ex (\<lambda>ms. fires ms [] pk) (concat (map (dns_rules g) servers)) \<longleftrightarrow> resolver_traffic g servers pk"
    using dns by (induction servers) (auto simp: resolver_traffic_def)
  moreover have "list_ex (\<lambda>ms. fires ms [] pk) (dhcp_rules g) \<longleftrightarrow> dhcp_traffic g pk"
    by (simp add: dhcp_rules_def dhcp_traffic_def src_port_def dst_port_def list_ex_iff bex_Un proto port port1 split: option.splits) auto
  moreover have "list_ex (\<lambda>ms. fires ms [] pk) neighbour_rules \<longleftrightarrow> neighbour_traffic pk"
    by (auto simp: neighbour_rules_def neighbour_traffic_def proto split: option.splits)
  ultimately show ?thesis by (simp add: bootstrap_rules_def bootstrap_traffic_def)
qed

section \<open>The committed table\<close>

definition protect_rules :: "string \<Rightarrow> 32 word \<Rightarrow> nft_rule list" where
  "protect_rules tunName mark =
     map (\<lambda>name. [Meta MetaKeyOIFNAME, Cmp (ifname_data name)] @ [Verdict VerdictAccept]) [''lo'', tunName]
     @ [[Meta MetaKeyMARK, Cmp (native32 mark)] @ [Verdict VerdictAccept], [Counter] @ [Verdict VerdictDrop]]"

text \<open>The table with the bootstrap chain's rules \<open>rs\<close>.\<close>

definition guard_tab :: "string \<Rightarrow> guard \<Rightarrow> nft_rule list \<Rightarrow> nft_table" where
  "guard_tab tunName g rs = \<lparr>nt_Name = g_table g, nt_Chains =
     [bootstrap_chain\<lparr>ch_Rules := rs\<rparr>, protect_chain\<lparr>ch_Rules := protect_rules tunName (g_mark g)\<rparr>]\<rparr>"

definition bootstrap_tab :: "string \<Rightarrow> guard \<Rightarrow> addr list \<Rightarrow> nft_table" where
  "bootstrap_tab tunName g servers = guard_tab tunName g (map (marked g) (bootstrap_rules g servers))"

lemma commit_protect:
  "nft_commit (protect_messages tunName g) (Some \<lparr>nt_Name = g_table g, nt_Chains = []\<rparr>) = Some (guard_tab tunName g [])"
  by (simp add: nft_commit_def protect_messages_def guard_add_def guard_tab_def protect_rules_def
      bootstrap_chain_def protect_chain_def)

lemma commit_adds:
  "fold nft_apply (map (\<lambda>ms. AddRule ''bootstrap'' (marked h ms)) mss) (Some (guard_tab tunName g rs)) =
     Some (guard_tab tunName g (rs @ map (marked h) mss))"
  by (induction mss arbitrary: rs) (simp_all add: guard_tab_def bootstrap_chain_def protect_chain_def)

lemma commit_bootstrap:
  "nft_commit (bootstrap_messages g servers) (Some (guard_tab tunName g rs)) = Some (bootstrap_tab tunName g servers)"
proof -
  have "nft_apply (FlushChain ''bootstrap'') (Some (guard_tab tunName g rs)) = Some (guard_tab tunName g [])"
    by (simp add: guard_tab_def bootstrap_chain_def protect_chain_def)
  then show ?thesis
    by (simp add: nft_commit_def bootstrap_messages_rules commit_adds bootstrap_tab_def)
qed

lemma guard_tab_cong:
  "g_table g = g_table h \<Longrightarrow> g_mark g = g_mark h \<Longrightarrow> guard_tab tunName g rs = guard_tab tunName h rs"
  by (simp add: guard_tab_def)

lemma marked_rules_eval:
  "\<forall>ms\<in>set mss. only_matches ms \<Longrightarrow> nft_rules_eval (map (marked g) mss) VerdictAccept pk =
     (if list_ex (\<lambda>ms. fires ms [] pk) mss then pk\<lparr>pk_mark := g_mark g\<rparr> else pk, VerdictAccept)"
  by (induction mss) (auto simp: marked_eval)

lemma protect_rules_eval:
  assumes "device_name tunName" "device_name (pk_oif pk)"
  shows "snd (nft_rules_eval (protect_rules tunName mark) VerdictDrop pk) = VerdictAccept \<longleftrightarrow>
     pk_oif pk = ''lo'' \<or> pk_oif pk = tunName \<or> pk_mark pk = mark"
proof -
  have lo: "device_name ''lo''" by (simp add: device_name_def IFNAMSIZ_def)
  show ?thesis
    using ifname_data_inj[OF assms(2) lo] ifname_data_inj[OF assms(2,1)] by (auto simp: protect_rules_def)
qed

lemma guard_tab_passes:
  assumes "device_name tunName" "device_name (pk_oif pk)" "\<forall>ms\<in>set mss. only_matches ms"
  shows "nft_passes (Some (guard_tab tunName g (map (marked g) mss))) pk \<longleftrightarrow>
     owned_traffic tunName g pk \<or> list_ex (\<lambda>ms. fires ms [] pk) mss"
proof -
  let ?pk = "if list_ex (\<lambda>ms. fires ms [] pk) mss then pk\<lparr>pk_mark := g_mark g\<rparr> else pk"
  have boot: "nft_rules_eval (map (marked g) mss) VerdictAccept pk = (?pk, VerdictAccept)"
    by (rule marked_rules_eval[OF assms(3)])
  have srt: "sort_key ch_Priority (nt_Chains (guard_tab tunName g rs)) = nt_Chains (guard_tab tunName g rs)" for rs
    by (simp add: guard_tab_def bootstrap_chain_def protect_chain_def)
  have "nft_passes (Some (guard_tab tunName g (map (marked g) mss))) pk \<longleftrightarrow>
      snd (nft_rules_eval (protect_rules tunName (g_mark g)) VerdictDrop ?pk) = VerdictAccept"
    unfolding nft_passes_def option.case srt
    by (simp add: guard_tab_def bootstrap_chain_def protect_chain_def boot split: prod.splits verdict_kind.splits)
  also have "\<dots> \<longleftrightarrow> pk_oif ?pk = ''lo'' \<or> pk_oif ?pk = tunName \<or> pk_mark ?pk = g_mark g"
    using assms(1,2) by (intro protect_rules_eval) auto
  also have "\<dots> \<longleftrightarrow> owned_traffic tunName g pk \<or> list_ex (\<lambda>ms. fires ms [] pk) mss"
    by (auto simp: owned_traffic_def)
  finally show ?thesis .
qed

section \<open>The life of the guard\<close>

text \<open>
  What the kernel holds for the guard: no table, an owned table without chains (created, the chains
  not committed), the protecting table before the first bootstrap update, or with the exceptions of
  some accepted server list.
\<close>

definition table_ok :: "string \<Rightarrow> guard \<Rightarrow> nft_table option \<Rightarrow> bool" where
  "table_ok tunName g t \<longleftrightarrow> t = Some (guard_tab tunName g [])
     \<or> (\<exists>servers. list_all (\<lambda>s. physical_server (Some s)) servers \<and> t = Some (bootstrap_tab tunName g servers))"

definition same_identity :: "guard \<Rightarrow> guard \<Rightarrow> bool" where
  "same_identity g h \<longleftrightarrow> g_table g = g_table h \<and> g_mark g = g_mark h \<and> g_resolverUID g = g_resolverUID h \<and> g_dhcpUIDs g = g_dhcpUIDs h"

lemma bootstrap_tab_cong: "same_identity g h \<Longrightarrow> bootstrap_tab tunName g servers = bootstrap_tab tunName h servers"
proof -
  assume same: "same_identity g h"
  then have "marked g = marked h" "dns_rules g = dns_rules h" "dhcp_rules g = dhcp_rules h"
    by (auto simp: same_identity_def marked_def dns_rules_def dhcp_rules_def)
  with same show ?thesis by (simp add: same_identity_def bootstrap_tab_def guard_tab_def bootstrap_rules_def)
qed

lemma table_ok_cong: "same_identity g h \<Longrightarrow> table_ok tunName g t \<longleftrightarrow> table_ok tunName h t"
  using bootstrap_tab_cong[of g h] guard_tab_cong[of g h] by (simp add: table_ok_def same_identity_def)

lemma guard_operation_world:
  "guard_operation env fn w = (w', r) \<Longrightarrow> w' = w \<or> w' = fst (fn w)"
  by (auto simp: guard_operation_def split: option.splits prod.splits)

lemma guard_operation_ok:
  "guard_operation env fn w = (w', None) \<Longrightarrow> fn w = (w', None)"
  by (auto simp: guard_operation_def split: option.splits prod.splits)

text \<open>An update with a refused server, a closed guard or the current identity leaves everything as it is.\<close>

lemma UpdateBootstrap_table:
  assumes "UpdateBootstrap show_addr env answer identity servers (g, t) = ((g', t'), r)" and "table_ok tunName g t"
  shows "table_ok tunName g' t' \<and> same_identity g g' \<and> g_closed g' = g_closed g \<and> g_created g' = g_created g
     \<and> g_conn g' = g_conn g \<and> g_socket g' = g_socket g"
proof -
  have keep: "same_identity g (g\<lparr>g_bootstrapIdentity := i\<rparr>)" for i by (simp add: same_identity_def)
  have new: "table_ok tunName g (nft_commit (bootstrap_messages g (map the servers)) t)"
    if "find (\<lambda>s. \<not> physical_server s) servers = None"
  proof -
    have "list_all (\<lambda>s. physical_server (Some s)) (map the servers)"
      using that by (auto simp: find_None_iff list_all_iff physical_server_def split: option.splits)
    moreover have "\<exists>rs. t = Some (guard_tab tunName g rs)"
      using assms(2) by (auto simp: table_ok_def bootstrap_tab_def)
    ultimately show ?thesis by (auto simp: table_ok_def commit_bootstrap)
  qed
  have world: "table_ok tunName g w'"
    if "guard_operation env (nft_flush answer (bootstrap_messages g (map the servers))) t = (w', r')"
      "find (\<lambda>s. \<not> physical_server s) servers = None" for w' r'
    using guard_operation_world[OF that(1)] new[OF that(2)] assms(2) by (auto simp: nft_flush_def)
  show ?thesis
    using assms(1) assms(2) world keep table_ok_cong[OF keep]
    by (auto simp: UpdateBootstrap_def same_identity_def split: if_splits option.splits prod.splits)
qed

lemma UpdateBootstrap_installs:
  assumes "UpdateBootstrap show_addr env answer identity servers (g, t) = ((g', t'), None)"
    and "table_ok tunName g t" and "g_bootstrapIdentity g \<noteq> identity"
  shows "t' = Some (bootstrap_tab tunName g (map the servers)) \<and> g_bootstrapIdentity g' = identity"
proof -
  from assms(1,3) have op: "guard_operation env (nft_flush answer (bootstrap_messages g (map the servers))) t = (t', None)"
    and id: "g_bootstrapIdentity g' = identity"
    by (auto simp: UpdateBootstrap_def split: if_splits option.splits prod.splits)
  obtain rs where "t = Some (guard_tab tunName g rs)" using assms(2) by (auto simp: table_ok_def bootstrap_tab_def)
  with guard_operation_ok[OF op] id show ?thesis by (auto simp: nft_flush_def commit_bootstrap)
qed

lemma guard_connect_ok:
  assumes "guard_connect env tunName (g, t) = ((g', t'), None)"
  shows "t' = Some (guard_tab tunName g' []) \<and> g' = g\<lparr>g_conn := True, g_socket := True,
     g_table := ''dobbyvpn_'' @ itoa (ge_pid env), g_created := True\<rparr>"
proof -
  let ?g = "g\<lparr>g_conn := True, g_socket := True, g_table := ''dobbyvpn_'' @ itoa (ge_pid env)\<rparr>"
  from assms have "guard_operation (ge_op env) (guard_create env tunName) (?g, t) = ((g', t'), None)"
    by (auto simp: guard_connect_def split: option.splits)
  from guard_operation_ok[OF this] have "guard_create env tunName (?g, t) = ((g', t'), None)" .
  then show ?thesis
    using commit_protect[of tunName ?g] guard_tab_cong[of ?g g' tunName "[]"]
    by (auto simp: guard_create_def nft_flush_def Let_def split: option.splits prod.splits)
qed

lemma AcquireLinuxOutputGuard_ok:
  assumes "AcquireLinuxOutputGuard run env noop close tunName mark p t w = (p', w', t', Some g, None)"
  shows "t' = Some (guard_tab tunName g []) \<and> \<not> g_closed g \<and> g_created g \<and> g_conn g \<and> g_bootstrapIdentity g = []
     \<and> 0 < mark \<and> mark < 2 ^ 32 \<and> g_mark g = word_of_int mark
     \<and> (\<exists>lease. pl_leases p' = pl_leases p @ [lease] \<and> le_release lease = close \<and> \<not> le_closed lease)"
proof -
  obtain g0 where ident: "guard_identity env mark = Inr g0"
    using assms by (cases "guard_identity env mark") (auto simp: AcquireLinuxOutputGuard_def)
  obtain p1 w1 l where acq: "Plan_Acquire run p ''owned IPv4/IPv6 output guard'' (Some noop) (Some close) w = (p1, w1, Inr l)"
    using assms ident by (auto simp: AcquireLinuxOutputGuard_def split: prod.splits sum.splits)
  from assms ident acq have conn: "guard_connect env tunName (g0, t) = ((g, t'), None)" and p: "p' = p1"
    by (auto simp: AcquireLinuxOutputGuard_def split: prod.splits)
  have "0 < mark \<and> mark < 2 ^ 32 \<and> g_mark g0 = word_of_int mark \<and> \<not> g_closed g0 \<and> g_bootstrapIdentity g0 = []"
    using ident by (auto simp: guard_identity_def split: if_splits account.splits sum.splits)
  moreover have "\<exists>lease. pl_leases p1 = pl_leases p @ [lease] \<and> le_release lease = close \<and> \<not> le_closed lease"
    using acq by (auto simp: Plan_Acquire_def Let_def split: if_splits prod.splits option.splits)
  ultimately show ?thesis using guard_connect_ok[OF conn] p by auto
qed

text \<open>Every call on an acquired guard, with any environment.\<close>

inductive guard_update :: "(addr option \<Rightarrow> string) \<Rightarrow> guard \<times> nft_table option \<Rightarrow> guard \<times> nft_table option \<Rightarrow> bool" for show_addr where
  Update: "UpdateBootstrap show_addr env answer identity servers s = (s', r) \<Longrightarrow> guard_update show_addr s s'"

definition guarding :: "string \<Rightarrow> guard \<Rightarrow> guard \<times> nft_table option \<Rightarrow> bool" where
  "guarding tunName g0 s \<longleftrightarrow> table_ok tunName g0 (snd s) \<and> same_identity g0 (fst s) \<and> \<not> g_closed (fst s)"

interpretation guards: invariant_system "\<lambda>s. fst s = g0 \<and> snd s = Some (guard_tab tunName g0 []) \<and> \<not> g_closed g0"
  "guard_update show_addr" "guarding tunName g0" for g0 tunName show_addr
proof
  fix s
  assume "fst s = g0 \<and> snd s = Some (guard_tab tunName g0 []) \<and> \<not> g_closed g0"
  then show "guarding tunName g0 s" by (simp add: guarding_def table_ok_def same_identity_def)
next
  fix s s'
  assume inv: "guarding tunName g0 s" and step: "guard_update show_addr s s'"
  obtain g t g' t' where s: "s = (g, t)" "s' = (g', t')" by (cases s, cases s')
  with step obtain env answer identity servers r
    where u: "UpdateBootstrap show_addr env answer identity servers (g, t) = ((g', t'), r)"
    by (auto elim!: guard_update.cases)
  from inv s have "table_ok tunName g t" "same_identity g0 g" "\<not> g_closed g"
    using table_ok_cong[of g0 g tunName t] by (auto simp: guarding_def)
  with UpdateBootstrap_table[OF u] s show "guarding tunName g0 s'"
    using table_ok_cong[of g0 g' tunName t'] by (auto simp: guarding_def same_identity_def)
qed

lemma table_ok_passes:
  assumes "table_ok tunName g t"
  shows "\<exists>servers. list_all (\<lambda>s. physical_server (Some s)) (case servers of None \<Rightarrow> [] | Some ss \<Rightarrow> ss)
    \<and> (\<forall>pk. device_name tunName \<and> device_name (pk_oif pk) \<longrightarrow> (nft_passes t pk \<longleftrightarrow> owned_traffic tunName g pk
         \<or> (case servers of None \<Rightarrow> False | Some ss \<Rightarrow> bootstrap_traffic g ss pk)))"
  using assms unfolding table_ok_def
proof (elim disjE exE conjE)
  assume "t = Some (guard_tab tunName g [])"
  then show ?thesis using guard_tab_passes[of tunName _ "[]" g] by (intro exI[of _ None]) simp
next
  fix servers
  assume "list_all (\<lambda>s. physical_server (Some s)) servers" "t = Some (bootstrap_tab tunName g servers)"
  then show ?thesis
    using guard_tab_passes[of tunName _ "bootstrap_rules g servers" g] bootstrap_rules_only_matches[of _ g servers]
    by (intro exI[of _ "Some servers"]) (auto simp: bootstrap_tab_def bootstrap_rules_fire)
qed

text \<open>Updates and closes in any order.\<close>

inductive guard_call :: "(addr option \<Rightarrow> string) \<Rightarrow> guard \<times> nft_table option \<Rightarrow> guard \<times> nft_table option \<Rightarrow> bool" for show_addr where
  CallUpdate: "guard_update show_addr s s' \<Longrightarrow> guard_call show_addr s s'"
| CallClose: "guard_Close env s = (s', r) \<Longrightarrow> guard_call show_addr s s'"

definition guard_inv :: "guard \<times> nft_table option \<Rightarrow> bool" where
  "guard_inv = (\<lambda>(g, t). g_conn g \<and> (g_closed g \<longrightarrow> t = None))"

lemma errors_join_Nones [simp]: "errors_join [None, None, None] = None"
  by simp

lemma nft_commit_DelTable [simp]: "nft_commit [DelTable] t = None"
  by (cases t) (simp_all add: nft_commit_def)

lemma guard_closeSocket_cases:
  assumes "guard_closeSocket env (g, t) = ((g', t'), r)" "g_conn g"
  shows "g_conn g' \<and> (case r of None \<Rightarrow> g_closed g' \<and> t' = None \<and> ce_closeErr env = None
     | Some e \<Rightarrow> g' = g \<and> t' \<in> {t, None} \<and> ce_closeErr env \<noteq> None)"
  using assms by (auto simp: guard_closeSocket_def split: if_splits option.splits)

lemma guard_Close_cases:
  assumes "guard_Close env (g, t) = ((g', t'), r)" "guard_inv (g, t)"
  shows "guard_inv (g', t') \<and> t' \<in> {t, None} \<and> (r = None \<longleftrightarrow> g_closed g') \<and> (r = None \<longrightarrow> t' = None)"
proof (cases "g_closed g \<or> \<not> g_created g")
  case True
  with assms show ?thesis
    using guard_closeSocket_cases[of env g t g' t' r]
    by (auto simp: guard_Close_def guard_inv_def split: if_splits option.splits)
next
  case False
  then have open_: "\<not> g_closed g" "g_created g" "g_conn g" using assms(2) by (auto simp: guard_inv_def)
  obtain t1 e where op: "guard_operation (ce_op env) (nft_flush (ce_delete env) [DelTable]) t = (t1, e)" by fastforce
  from guard_operation_world[OF op] have t1: "t1 \<in> {t, None}"
    by (auto simp: nft_flush_def)
  show ?thesis
  proof (cases "e \<noteq> None \<and> \<not> errors_is (the e) SysENOENT")
    case True
    with assms(1) open_ op t1 show ?thesis by (auto simp: guard_Close_def guard_inv_def)
  next
    case False
    then have cl: "guard_closeSocket env (g\<lparr>g_created := False\<rparr>, t1) = ((g', t'), r)"
      using assms(1) open_ op by (auto simp: guard_Close_def)
    show ?thesis
      using guard_closeSocket_cases[OF cl] open_ t1 by (auto simp: guard_inv_def split: option.splits)
  qed
qed

lemma UpdateBootstrap_inv:
  assumes "UpdateBootstrap show_addr env answer identity servers (g, t) = ((g', t'), r)" "guard_inv (g, t)"
  shows "guard_inv (g', t')"
  using assms by (auto simp: UpdateBootstrap_def guard_inv_def split: if_splits option.splits prod.splits)

interpretation guard_calls: invariant_system "\<lambda>s. g_conn (fst s) \<and> \<not> g_closed (fst s)" "guard_call show_addr" guard_inv for show_addr
proof
  fix s :: "guard \<times> nft_table option"
  assume "g_conn (fst s) \<and> \<not> g_closed (fst s)"
  then show "guard_inv s" by (simp add: guard_inv_def split_beta)
next
  fix s s'
  assume inv: "guard_inv s" and step: "guard_call show_addr s s'"
  obtain g t g' t' where s: "s = (g, t)" "s' = (g', t')" by (cases s, cases s')
  from step show "guard_inv s'"
  proof cases
    case CallUpdate
    with s inv UpdateBootstrap_inv show ?thesis by (auto elim!: guard_update.cases)
  next
    case (CallClose env r)
    with s inv guard_Close_cases show ?thesis by blast
  qed
qed

text \<open>
  An environment that answers: the contexts live, a deletion is acknowledged when the table exists and
  refused with \<^verbatim>\<open>ENOENT\<close> when it does not, and the socket closes.
\<close>

definition close_answers :: "close_env \<Rightarrow> nft_table option \<Rightarrow> bool" where
  "close_answers env t \<longleftrightarrow> oe_ctxErr (ce_op env) = None \<and> oe_setDeadline (ce_op env) = None \<and> oe_ctxAfter (ce_op env) = None
     \<and> oe_clearDeadline (ce_op env) = None \<and> ce_closeErr env = None
     \<and> ce_delete env = (if t = None then Refused (Sentinel SysENOENT) else Acknowledged)"

lemma guard_Close_answers:
  assumes "close_answers env t" "guard_inv (g, t)"
  shows "\<exists>g'. guard_Close env (g, t) = ((g', None), None) \<and> g_closed g'"
proof -
  have "guard_closeSocket env (h, u) = ((h\<lparr>g_closed := True\<rparr>, None), None)" if "g_conn h" for h u
    using that assms(1) by (simp add: guard_closeSocket_def close_answers_def)
  moreover have "errors_is (the (errors_join [Some (Sentinel SysENOENT), None, None])) SysENOENT"
    by (simp add: errors_join_def)
  ultimately show ?thesis
    using assms by (auto simp: guard_Close_def guard_inv_def guard_operation_def close_answers_def nft_flush_def split: prod.splits)
qed

section \<open>Properties\<close>

text \<open>
  From the moment the output guard is acquired until it is closed, whatever the bootstrap updates
  do (accepted, refused, cut short by their context, committed with a lost answer), the kernel lets a
  packet leave exactly when it goes to the loopback or the retained TUN, carries the guard's own mark,
  or is bootstrap traffic: the resolver service's DNS to one of an accepted list of physical servers,
  a DHCP client on its ports, or on-link neighbour discovery. The plan owns the guard's release.
\<close>

theorem guard_blocks_leaks:
  assumes "nft_documented hook"
    and "AcquireLinuxOutputGuard run env noop close tunName mark p t w = (p', w', t0, Some g0, None)"
    and "(guard_update show_addr)\<^sup>*\<^sup>* (g0, t0) (g, t1)" and "device_name tunName"
  shows "(\<exists>servers. list_all (\<lambda>s. physical_server (Some s)) (case servers of None \<Rightarrow> [] | Some ss \<Rightarrow> ss)
      \<and> (\<forall>pk. device_name (pk_oif pk) \<longrightarrow> (hook t1 pk \<longleftrightarrow>
            pk_oif pk = ''lo'' \<or> pk_oif pk = tunName \<or> pk_mark pk = word_of_int mark
            \<or> (case servers of None \<Rightarrow> False | Some ss \<Rightarrow> bootstrap_traffic g0 ss pk))))
    \<and> (\<exists>lease. pl_leases p' = pl_leases p @ [lease] \<and> le_release lease = close \<and> \<not> le_closed lease)"
proof -
  note acq = AcquireLinuxOutputGuard_ok[OF assms(2)]
  have "guarding tunName g0 (g, t1)"
    using guards.reach_inv[of "(g0, t0)" g0 tunName show_addr "(g, t1)"] assms(3) acq by simp
  then have "table_ok tunName g0 t1" by (simp add: guarding_def)
  from table_ok_passes[OF this] show ?thesis
    using assms(1,4) acq by (auto simp: nft_documented_def owned_traffic_def)
qed

definition demo_op :: op_env where
  "demo_op = \<lparr>oe_ctxErr = None, oe_setDeadline = None, oe_ctxAfter = None, oe_clearDeadline = None\<rparr>"

definition demo_guard_env :: guard_env where
  "demo_guard_env = \<lparr>ge_lookup = (\<lambda>name. if name = ''systemd-resolve'' then AccountUid ''991'' else AccountUnknown (Plain ''unknown user'')),
     ge_pid = 7, ge_newErr = None, ge_newSocket = True, ge_op = demo_op, ge_create = Acknowledged, ge_flush = Acknowledged\<rparr>"

definition demo_guard :: guard where
  "demo_guard = \<lparr>g_conn = True, g_socket = True, g_table = ''dobbyvpn_7'', g_mark = 51820, g_resolverUID = 991, g_dhcpUIDs = [0],
     g_bootstrapIdentity = [], g_created = True, g_closed = False\<rparr>"

definition demo_packet :: packet where
  "demo_packet = \<lparr>pk_oif = ''eth0'', pk_nfproto = NFPROTO_IPV4, pk_l4proto = Some IPPROTO_TCP, pk_skuid = Some 1000, pk_mark = 0,
     pk_network = replicate 20 0, pk_transport = replicate 20 0\<rparr>"

lemma demo_acquire:
  assumes "run noop w = (w, None)"
  shows "AcquireLinuxOutputGuard run demo_guard_env noop close ''tun0'' 51820 (NewPlan name) None w =
     (\<lparr>pl_sessionID = name, pl_closed = False, pl_leases = [\<lparr>le_name = ''owned IPv4/IPv6 output guard'', le_closed = False,
        le_release = close, le_repair = None\<rparr>]\<rparr>, w, Some (guard_tab ''tun0'' demo_guard []), Some demo_guard, None)"
proof -
  have ident: "guard_identity demo_guard_env 51820 = Inr (demo_guard\<lparr>g_conn := False, g_socket := False, g_table := [], g_created := False\<rparr>)"
  proof -
    have "parse_uint32 ''991'' = Inr 991" by (simp add: parse_uint32_def is_digit_def digits_value_def)
    then show ?thesis by (simp add: guard_identity_def guard_dhcpUIDs_def demo_guard_env_def demo_guard_def)
  qed
  have "itoa 7 = ''7''" by code_simp
  then have "guard_connect demo_guard_env ''tun0'' (demo_guard\<lparr>g_conn := False, g_socket := False, g_table := [], g_created := False\<rparr>, None) =
      ((demo_guard, Some (guard_tab ''tun0'' demo_guard [])), None)"
    using commit_protect[of "''tun0''" "demo_guard\<lparr>g_created := False\<rparr>"] guard_tab_cong[of "demo_guard\<lparr>g_created := False\<rparr>" demo_guard "''tun0''" "[]"]
    by (simp add: guard_connect_def demo_guard_env_def demo_op_def guard_operation_def guard_create_def nft_flush_def demo_guard_def)
  then show ?thesis
    unfolding AcquireLinuxOutputGuard_def ident by (simp add: Plan_Acquire_def NewPlan_def Let_def assms)
qed

theorem guard_blocks_leaks_witness: "\<not> nft_passes (Some (guard_tab ''tun0'' demo_guard [])) demo_packet"
proof -
  have "nft_documented nft_passes" by (simp add: nft_documented_def)
  from guard_blocks_leaks[OF this demo_acquire[of "\<lambda>c w. (w, None)" "()" "()"], of "\<lambda>s. []" demo_guard "Some (guard_tab ''tun0'' demo_guard [])"]
  obtain servers where pass: "device_name (pk_oif pk) \<longrightarrow> (nft_passes (Some (guard_tab ''tun0'' demo_guard [])) pk \<longleftrightarrow>
            pk_oif pk = ''lo'' \<or> pk_oif pk = ''tun0'' \<or> pk_mark pk = word_of_int 51820
            \<or> (case servers of None \<Rightarrow> False | Some ss \<Rightarrow> bootstrap_traffic demo_guard ss pk))" for pk
    by (auto simp: device_name_def IFNAMSIZ_def)
  have "\<not> bootstrap_traffic demo_guard ss demo_packet" for ss
    by (simp add: bootstrap_traffic_def resolver_traffic_def dhcp_traffic_def neighbour_traffic_def demo_guard_def demo_packet_def
        IPPROTO_TCP_def IPPROTO_UDP_def IPPROTO_ICMPV6_def)
  with pass[of demo_packet] show ?thesis
    by (auto simp: demo_packet_def device_name_def IFNAMSIZ_def split: option.splits)
qed

text \<open>
  C19. Closing the guard, in any state that updates and earlier closes can lead to: it reports success
  exactly when the guard is then closed, and the owned table is gone; a failed close changes no rule of
  the table, it either stays or is gone; and as soon as the kernel answers, a further close succeeds,
  also when an earlier deletion committed and its answer was lost.
\<close>

theorem guard_close_retry:
  assumes "AcquireLinuxOutputGuard run env noop close tunName mark p t w = (p', w', t0, Some g0, None)"
    and "(guard_call show_addr)\<^sup>*\<^sup>* (g0, t0) (g, t1)"
    and "guard_Close cenv (g, t1) = ((g', t'), r)"
  shows "(r = None \<longleftrightarrow> g_closed g') \<and> (r = None \<longrightarrow> t' = None) \<and> t' \<in> {t1, None}
    \<and> (close_answers cenv2 t' \<longrightarrow> (\<exists>g2. guard_Close cenv2 (g', t') = ((g2, None), None) \<and> g_closed g2))"
proof -
  from AcquireLinuxOutputGuard_ok[OF assms(1)] have "guard_inv (g, t1)"
    using guard_calls.reach_inv[of "(g0, t0)" show_addr "(g, t1)"] assms(2) by simp
  from guard_Close_cases[OF assms(3) this] show ?thesis using guard_Close_answers[of cenv2 t' g'] by blast
qed

theorem guard_close_retry_witness:
  "\<exists>g2. guard_Close \<lparr>ce_op = demo_op, ce_delete = Refused (Sentinel SysENOENT), ce_closeErr = None, ce_closeGone = False\<rparr>
      (demo_guard, None) = ((g2, None), None) \<and> g_closed g2"
proof -
  let ?lost = "\<lparr>ce_op = demo_op, ce_delete = AnswerLost (Plain ''timeout''), ce_closeErr = None, ce_closeGone = False\<rparr>"
  let ?ok = "\<lparr>ce_op = demo_op, ce_delete = Refused (Sentinel SysENOENT), ce_closeErr = None, ce_closeGone = False\<rparr>"
  obtain e where "guard_Close ?lost (demo_guard, Some (guard_tab ''tun0'' demo_guard [])) = ((demo_guard, None), Some e)"
    by (auto simp: guard_Close_def guard_operation_def demo_op_def demo_guard_def nft_flush_def errors_join_def)
  from guard_close_retry[OF demo_acquire[of "\<lambda>c w. (w, None)" "()" "()"] rtranclp.rtrancl_refl this, of ?ok] show ?thesis
    by (simp add: close_answers_def demo_op_def)
qed

text \<open>
  The remembered identity is not cleared before the exchange. An update to another network whose
  context ends during a flush that commits reports an error, installs the other network's exceptions
  and keeps the old identity; a later update back to the old network then returns success at once and
  leaves the other network's exceptions in place.
\<close>

theorem interrupted_update_keeps_identity:
  assumes "table_ok tunName g t" "\<not> g_closed g" "g_bootstrapIdentity g = old" "new \<noteq> old"
    and "list_all (\<lambda>s. physical_server s) servers"
    and "oe_ctxErr env = None" "oe_setDeadline env = None" "oe_ctxAfter env = Some e"
  shows "(\<exists>err. UpdateBootstrap show_addr env Acknowledged new servers (g, t) = ((g, Some (bootstrap_tab tunName g (map the servers))), Some err))
    \<and> UpdateBootstrap show_addr env2 answer2 old servers2 (g, Some (bootstrap_tab tunName g (map the servers))) =
        ((g, Some (bootstrap_tab tunName g (map the servers))), None)"
proof -
  have "find (\<lambda>s. \<not> physical_server s) servers = None" using assms(5) by (auto simp: find_None_iff list_all_iff)
  moreover obtain rs where "t = Some (guard_tab tunName g rs)" using assms(1) by (auto simp: table_ok_def bootstrap_tab_def)
  moreover have "errors_join [None, Some e, x] \<noteq> None" for x by simp
  then obtain err where "errors_join [None, Some e, oe_clearDeadline env] = Some err" by blast
  ultimately show ?thesis
    using assms by (auto simp: UpdateBootstrap_def guard_operation_def nft_flush_def commit_bootstrap)
qed

end
