(* ===== verification/Linux_Netlink.thy ===== *)
theory Linux_Netlink
  imports Release_Loop Go_Net
begin

text \<open>
  The netlink vocabulary of \<^verbatim>\<open>core/routing\<close> on Linux, \<^verbatim>\<open>core/routing/routing_linux.go\<close>: routes, policy
  rules and links with the fields the source reads or writes, the predicates on them, and the two
  operation wrappers. The netlink package, which the source calls through package variables, is the
  record \<open>netlink\<close> of functions over an arbitrary world; every call of it may fail.
\<close>

unbundle bit_operations_syntax

section \<open>Masks and blocks\<close>

text \<open>\<^verbatim>\<open>simpleMaskLength\<close> and \<^verbatim>\<open>IPMask.Size\<close>: the number of leading ones when only zeros follow.\<close>

fun simpleMaskLength :: "byte list \<Rightarrow> nat option" where
  "simpleMaskLength [] = Some 0"
| "simpleMaskLength (v # m) =
     (if v = 255 then map_option ((+) 8) (simpleMaskLength m)
      else (case find (\<lambda>k. v = push_bit (8 - k) (mask k)) [0..<8] of
          None \<Rightarrow> None
        | Some k \<Rightarrow> if list_all (\<lambda>b. b = 0) m then Some k else None))"

definition mask_Size :: "byte list \<Rightarrow> nat \<times> nat" where
  "mask_Size m = (case simpleMaskLength m of None \<Rightarrow> (0, 0) | Some n \<Rightarrow> (n, 8 * length m))"

text \<open>
  \<^verbatim>\<open>IPNet.String\<close>. An IPv6 address is written in groups of hexadecimal digits, the first longest run of
  two or more zero groups as a double colon.
\<close>

fun hex_digits :: "nat \<Rightarrow> string" where
  "hex_digits n = (if n < 16 then [''0123456789abcdef'' ! n] else hex_digits (n div 16) @ [''0123456789abcdef'' ! (n mod 16)])"

declare hex_digits.simps [simp del]

fun ip_groups :: "byte list \<Rightarrow> nat list" where
  "ip_groups (a # b # bs) = (256 * unat a + unat b) # ip_groups bs"
| "ip_groups bs = []"

definition zero_run :: "nat list \<Rightarrow> nat \<Rightarrow> nat" where
  "zero_run gs i = length (takeWhile (\<lambda>g. g = 0) (drop i gs))"

text \<open>The start and end of the compressed run: a later run replaces it only when longer.\<close>

definition longest_run :: "nat list \<Rightarrow> nat \<times> nat" where
  "longest_run gs = fold (\<lambda>i (a, b). if 2 \<le> zero_run gs i \<and> b - a < zero_run gs i then (i, i + zero_run gs i) else (a, b))
      [0..<length gs] (255, 255)"

definition ipv6_string :: "ip \<Rightarrow> string" where
  "ipv6_string a =
     (let gs = ip_groups a; (z0, z1) = longest_run gs in
      if z0 = 255 then join_strings '':'' (map hex_digits gs)
      else join_strings '':'' (map hex_digits (take z0 gs)) @ ''::'' @ join_strings '':'' (map hex_digits (drop z1 gs)))"

definition ip_String :: "ip \<Rightarrow> string" where
  "ip_String a = (case To4 a of Some x \<Rightarrow> ipv4_string x | None \<Rightarrow>
      if length a = 16 then ipv6_string a else ''?'' @ concat (map (\<lambda>b. [''0123456789abcdef'' ! (unat b div 16), ''0123456789abcdef'' ! (unat b mod 16)]) a))"

definition ipnet_String :: "ipnet \<Rightarrow> string" where
  "ipnet_String n = (case network_number_and_mask n of
       None \<Rightarrow> ''<nil>''
     | Some (nn, m) \<Rightarrow> (case simpleMaskLength m of
           None \<Rightarrow> ip_String nn @ ''/'' @ concat (map (\<lambda>b. [''0123456789abcdef'' ! (unat b div 16), ''0123456789abcdef'' ! (unat b mod 16)]) m)
         | Some l \<Rightarrow> ip_String nn @ ''/'' @ nat_digits l))"

section \<open>Routes, rules and links\<close>

definition FAMILY_V4 :: int where "FAMILY_V4 = 2"
definition FAMILY_V6 :: int where "FAMILY_V6 = 10"
definition RT_TABLE_DEFAULT :: int where "RT_TABLE_DEFAULT = 253"
definition RT_TABLE_MAIN :: int where "RT_TABLE_MAIN = 254"
definition RT_TABLE_LOCAL :: int where "RT_TABLE_LOCAL = 255"
definition RTN_UNICAST :: int where "RTN_UNICAST = 1"
definition RTN_BLACKHOLE :: int where "RTN_BLACKHOLE = 6"
definition RTN_UNREACHABLE :: int where "RTN_UNREACHABLE = 7"
definition RTPROT_BOOT :: int where "RTPROT_BOOT = 3"
definition SCOPE_UNIVERSE :: int where "SCOPE_UNIVERSE = 0"
definition SCOPE_LINK :: int where "SCOPE_LINK = 253"
definition FR_ACT_TO_TBL :: int where "FR_ACT_TO_TBL = 1"
definition FR_ACT_UNREACHABLE :: int where "FR_ACT_UNREACHABLE = 7"

lemmas netlink_consts = FAMILY_V4_def FAMILY_V6_def RT_TABLE_DEFAULT_def RT_TABLE_MAIN_def RT_TABLE_LOCAL_def RTN_UNICAST_def
  RTN_BLACKHOLE_def RTN_UNREACHABLE_def RTPROT_BOOT_def SCOPE_UNIVERSE_def SCOPE_LINK_def FR_ACT_TO_TBL_def FR_ACT_UNREACHABLE_def

definition linuxOwnedRouteProtocol :: int where "linuxOwnedRouteProtocol = 233"
definition linuxOwnedProxyMetric :: int where "linuxOwnedProxyMetric = 233"

record lx_route =
  rt_Dst :: "ipnet option"
  rt_Gw :: "ip option"
  rt_LinkIndex :: int
  rt_Protocol :: int
  rt_Priority :: int
  rt_Family :: int
  rt_Table :: int
  rt_Type :: int
  rt_Scope :: int
  rt_MultiPath :: "int list"

definition zero_route :: lx_route where
  "zero_route = \<lparr>rt_Dst = None, rt_Gw = None, rt_LinkIndex = 0, rt_Protocol = 0, rt_Priority = 0, rt_Family = 0, rt_Table = 0,
     rt_Type = 0, rt_Scope = 0, rt_MultiPath = []\<rparr>"

record rule =
  ru_Priority :: int
  ru_Family :: int
  ru_Table :: int
  ru_Mark :: "32 word"
  ru_Mask :: "32 word option"
  ru_Type :: "8 word"
  ru_Protocol :: "8 word"
  ru_Src :: "ipnet option"
  ru_Dst :: "ipnet option"
  ru_Tos :: nat
  ru_Invert :: bool
  ru_Goto :: int
  ru_Flow :: int
  ru_IifName :: string
  ru_OifName :: string
  ru_SuppressIfgroup :: int
  ru_SuppressPrefixlen :: int
  ru_Dport :: "(nat \<times> nat) option"
  ru_Sport :: "(nat \<times> nat) option"
  ru_UIDRange :: "(nat \<times> nat) option"
  ru_IPProto :: int
  ru_TunID :: nat

text \<open>\<^verbatim>\<open>netlink.NewRule\<close>: the documented neutral value of every selector.\<close>

definition NewRule :: rule where
  "NewRule = \<lparr>ru_Priority = -1, ru_Family = 0, ru_Table = 0, ru_Mark = 0, ru_Mask = None, ru_Type = 0, ru_Protocol = 0,
     ru_Src = None, ru_Dst = None, ru_Tos = 0, ru_Invert = False, ru_Goto = -1, ru_Flow = -1, ru_IifName = [], ru_OifName = [],
     ru_SuppressIfgroup = -1, ru_SuppressPrefixlen = -1, ru_Dport = None, ru_Sport = None, ru_UIDRange = None, ru_IPProto = 0, ru_TunID = 0\<rparr>"

record link =
  ln_Name :: string
  ln_Index :: int
  ln_Up :: bool

text \<open>
  A message of a native rule dump: its length, the header fields the source reads, and the attributes
  as \<^verbatim>\<open>nl.ParseRouteAttr\<close> decodes them.
\<close>

record rule_msg =
  rm_Len :: nat
  rm_Family :: int
  rm_Table :: nat
  rm_Type :: "8 word"
  rm_Attrs :: "go_error + (nat \<times> byte list) list"

record 'w netlink =
  nl_RouteList :: "int \<Rightarrow> 'w \<Rightarrow> go_error + lx_route list"
  nl_RouteAdd :: "lx_route \<Rightarrow> 'w \<Rightarrow> 'w \<times> go_error option"
  nl_RouteReplace :: "lx_route \<Rightarrow> 'w \<Rightarrow> 'w \<times> go_error option"
  nl_RouteDel :: "lx_route \<Rightarrow> 'w \<Rightarrow> 'w \<times> go_error option"
  nl_RuleList :: "int \<Rightarrow> 'w \<Rightarrow> go_error + rule list"
  nl_RuleAdd :: "rule \<Rightarrow> 'w \<Rightarrow> 'w \<times> go_error option"
  nl_RuleDel :: "rule \<Rightarrow> 'w \<Rightarrow> 'w \<times> go_error option"
  nl_LinkByName :: "string \<Rightarrow> 'w \<Rightarrow> go_error + link"
  nl_LinkByIndex :: "int \<Rightarrow> 'w \<Rightarrow> go_error + link"
  nl_RuleDump :: "int \<Rightarrow> 'w \<Rightarrow> go_error + rule_msg list"
  nl_RouteText :: "lx_route \<Rightarrow> string"
  nl_RuleText :: "rule \<Rightarrow> string"

section \<open>Predicates\<close>

definition linuxRouteIsDefault :: "lx_route \<Rightarrow> int \<Rightarrow> bool" where
  "linuxRouteIsDefault r family = (case rt_Dst r of
       None \<Rightarrow> True
     | Some dst \<Rightarrow> (let (ones, bits) = mask_Size (n_Mask dst) in
         if ones \<noteq> 0 then False
         else if family = FAMILY_V4 then bits = 32 \<and> To4 (n_IP dst) \<noteq> None
         else if family = FAMILY_V6 then bits = 128 \<and> To4 (n_IP dst) = None \<and> To16 (n_IP dst) \<noteq> None
         else False))"

definition linuxDefaultIPNet :: "int \<Rightarrow> ipnet option" where
  "linuxDefaultIPNet family =
     (if family = FAMILY_V4 then Some \<lparr>n_IP = replicate 4 0, n_Mask = cidr_mask 0 4\<rparr>
      else if family = FAMILY_V6 then Some \<lparr>n_IP = replicate 16 0, n_Mask = cidr_mask 0 16\<rparr>
      else None)"

definition linuxLinkIndex :: "'w netlink \<Rightarrow> string \<Rightarrow> 'w \<Rightarrow> go_error + int" where
  "linuxLinkIndex nl name w =
     (if name = [] then Inl (Plain ''empty Linux interface name'')
      else (case nl_LinkByName nl name w of
          Inl err \<Rightarrow> Inl (Wrap (''find Linux interface '' @ go_quote name @ '': '') err)
        | Inr link \<Rightarrow>
            if ln_Index link > 0 then Inr (ln_Index link)
            else Inl (Plain (''linux interface '' @ go_quote name @ '' has invalid index '' @ itoa (ln_Index link)))))"

definition linuxRouteAlreadyGone :: "go_error option \<Rightarrow> bool" where
  "linuxRouteAlreadyGone err = (case err of None \<Rightarrow> False
     | Some e \<Rightarrow> errors_is e SysESRCH \<or> errors_is e SysENOENT \<or> errors_is e SysENODEV)"

definition linuxRouteOperation ::
  "'w netlink \<Rightarrow> string \<Rightarrow> lx_route \<Rightarrow> (lx_route \<Rightarrow> 'w \<Rightarrow> 'w \<times> go_error option) \<Rightarrow> 'w \<Rightarrow> 'w \<times> go_error option" where
  "linuxRouteOperation nl action r operation w = (case operation r w of
       (w', None) \<Rightarrow> (w', None)
     | (w', Some err) \<Rightarrow>
         if action = ''delete'' \<and> linuxRouteAlreadyGone (Some err) then (w', Some err)
         else (w', Some (Wrap (''route '' @ action @ '' '' @ nl_RouteText nl r @ '': '') err)))"

definition linuxRuleOperation ::
  "'w netlink \<Rightarrow> string \<Rightarrow> rule \<Rightarrow> (rule \<Rightarrow> 'w \<Rightarrow> 'w \<times> go_error option) \<Rightarrow> 'w \<Rightarrow> 'w \<times> go_error option" where
  "linuxRuleOperation nl action r operation w = (case operation r w of
       (w', None) \<Rightarrow> (w', None)
     | (w', Some err) \<Rightarrow>
         if action = ''delete'' \<and> linuxRouteAlreadyGone (Some err) then (w', Some err)
         else (w', Some (Wrap (''rule '' @ action @ '' '' @ nl_RuleText nl r @ '': '') err)))"

definition linuxSessionTableMark :: "int \<Rightarrow> 32 word \<times> bool" where
  "linuxSessionTableMark tableID = (if tableID \<le> 0 \<or> tableID > 2 ^ 32 - 1 then (0, False) else (word_of_int tableID, True))"

definition linuxSessionRuleHasNoAddressSelectors :: "rule \<Rightarrow> bool" where
  "linuxSessionRuleHasNoAddressSelectors r \<longleftrightarrow> ru_Src r = None \<and> ru_Dst r = None \<and> ru_Tos r = 0 \<and> \<not> ru_Invert r"

definition linuxSessionRuleHasNoFlowSelectors :: "rule \<Rightarrow> bool" where
  "linuxSessionRuleHasNoFlowSelectors r \<longleftrightarrow> ru_Goto r = -1 \<and> ru_Flow r = -1 \<and> ru_IifName r = [] \<and> ru_OifName r = []
     \<and> ru_SuppressIfgroup r = -1 \<and> ru_SuppressPrefixlen r = -1"

definition linuxSessionRuleHasNoTransportSelectors :: "rule \<Rightarrow> bool" where
  "linuxSessionRuleHasNoTransportSelectors r \<longleftrightarrow> ru_Dport r = None \<and> ru_Sport r = None \<and> ru_UIDRange r = None \<and> ru_IPProto r = 0
     \<and> ru_TunID r = 0 \<and> ru_Protocol r = 0 \<and> ru_Type r = 0"

definition linuxSessionRuleHasFullMarkMask :: "rule \<Rightarrow> bool" where
  "linuxSessionRuleHasFullMarkMask r \<longleftrightarrow> (case ru_Mask r of None \<Rightarrow> True | Some m \<Rightarrow> m = - 1)"

lemmas rule_selector_defs = linuxSessionRuleHasNoAddressSelectors_def linuxSessionRuleHasNoFlowSelectors_def
  linuxSessionRuleHasNoTransportSelectors_def linuxSessionRuleHasFullMarkMask_def

definition linuxSessionRuleMatches :: "rule \<Rightarrow> int \<Rightarrow> int \<Rightarrow> bool" where
  "linuxSessionRuleMatches r tableID priority =
     (let (mark, valid) = linuxSessionTableMark tableID in
      valid \<and> ru_Family r = FAMILY_V4 \<and> ru_Priority r = priority \<and> ru_Table r = tableID \<and> ru_Mark r = mark
      \<and> linuxSessionRuleHasNoAddressSelectors r \<and> linuxSessionRuleHasNoFlowSelectors r
      \<and> linuxSessionRuleHasNoTransportSelectors r \<and> linuxSessionRuleHasFullMarkMask r)"

lemma mask_Size_zero4 [simp]: "mask_Size (cidr_mask 0 4) = (0, 32)"
  by code_simp

lemma mask_Size_zero16 [simp]: "mask_Size (cidr_mask 0 16) = (0, 128)"
  by code_simp

lemma To4_zero16 [simp]: "To4 (replicate 16 0) = None"
  by code_simp

lemma linuxDefaultIPNet_default:
  "family = FAMILY_V4 \<or> family = FAMILY_V6 \<Longrightarrow> rt_Dst r = linuxDefaultIPNet family \<Longrightarrow> linuxRouteIsDefault r family"
proof (elim disjE)
  assume "family = FAMILY_V4" "rt_Dst r = linuxDefaultIPNet family"
  moreover have "To4 (replicate 4 0) \<noteq> None" by (simp add: To4_def)
  ultimately show ?thesis by (simp add: linuxRouteIsDefault_def linuxDefaultIPNet_def)
next
  assume "family = FAMILY_V6" "rt_Dst r = linuxDefaultIPNet family"
  moreover have "To16 (replicate 16 0) \<noteq> None" by (simp add: To16_def)
  ultimately show ?thesis by (simp add: linuxRouteIsDefault_def linuxDefaultIPNet_def FAMILY_V4_def FAMILY_V6_def)
qed

end
