(* ===== verification/Linux_Routes.thy ===== *)
theory Linux_Routes
  imports Linux_Netlink
begin

text \<open>
  Policy routing of the retained TUN on Linux: \<^verbatim>\<open>core/routing/network_linux.go\<close>,
  \<^verbatim>\<open>network_rules_linux.go\<close> and \<^verbatim>\<open>recovery_linux.go\<close>. A session adds, per address family, one default
  route in its own table and three rules; a later process recognises what an interrupted one left by its
  protocol tag and the complete selector set, and deletes only that.
\<close>

section \<open>Acquisition\<close>

text \<open>The closures a plan holds on Linux, as tokens; \<open>Extra\<close> is a closure of another component.\<close>

datatype 'x lx_token =
    Nothing
  | AddRoute lx_route
  | DelRoute lx_route
  | AddPolicy rule
  | DelPolicy rule
  | Extra 'x

fun lx_run :: "'w netlink \<Rightarrow> ('x, 'w) runner \<Rightarrow> ('x lx_token, 'w) runner" where
  "lx_run nl extra Nothing w = (w, None)"
| "lx_run nl extra (AddRoute r) w = linuxRouteOperation nl ''add'' r (nl_RouteAdd nl) w"
| "lx_run nl extra (DelRoute r) w = (case linuxRouteOperation nl ''delete'' r (nl_RouteDel nl) w of
      (w', err) \<Rightarrow> (w', if linuxRouteAlreadyGone err then None else err))"
| "lx_run nl extra (AddPolicy r) w = linuxRuleOperation nl ''add'' r (nl_RuleAdd nl) w"
| "lx_run nl extra (DelPolicy r) w = (case linuxRuleOperation nl ''delete'' r (nl_RuleDel nl) w of
      (w', err) \<Rightarrow> (w', if linuxRouteAlreadyGone err then None else err))"
| "lx_run nl extra (Extra x) w = extra x w"

text \<open>\<^verbatim>\<open>LinuxPhysicalInterface\<close>: the routes of a family by metric; the first default over a live link that is not the TUN.\<close>

fun physical_scan :: "'w netlink \<Rightarrow> string \<Rightarrow> int \<Rightarrow> 'w \<Rightarrow> lx_route list \<Rightarrow> (go_error + int) option" where
  "physical_scan nl tunName family w [] = None"
| "physical_scan nl tunName family w (r # rs) =
     (if rt_Table r \<noteq> RT_TABLE_MAIN \<or> rt_Type r \<noteq> RTN_UNICAST \<or> \<not> linuxRouteIsDefault r family \<or> rt_LinkIndex r \<le> 0
      then physical_scan nl tunName family w rs
      else (case nl_LinkByIndex nl (rt_LinkIndex r) w of
          Inl err \<Rightarrow> Some (Inl err)
        | Inr link \<Rightarrow> if ln_Name link \<noteq> tunName \<and> ln_Up link then Some (Inr (rt_LinkIndex r))
                      else physical_scan nl tunName family w rs))"

fun physical_families :: "'w netlink \<Rightarrow> string \<Rightarrow> 'w \<Rightarrow> int list \<Rightarrow> go_error + int" where
  "physical_families nl tunName w [] = Inl (Plain ''no physical IPv4 or IPv6 default route'')"
| "physical_families nl tunName w (family # fs) = (case nl_RouteList nl family w of
       Inl err \<Rightarrow> Inl err
     | Inr routes \<Rightarrow> (case physical_scan nl tunName family w (sort_key rt_Priority routes) of
           Some res \<Rightarrow> res
         | None \<Rightarrow> physical_families nl tunName w fs))"

definition LinuxPhysicalInterface :: "'w netlink \<Rightarrow> string \<Rightarrow> 'w \<Rightarrow> go_error + int" where
  "LinuxPhysicalInterface nl tunName w = physical_families nl tunName w [FAMILY_V4, FAMILY_V6]"

definition invalid_identity :: "int \<Rightarrow> int \<Rightarrow> bool" where
  "invalid_identity tableID priority \<longleftrightarrow>
     tableID \<le> 0 \<or> tableID > 2 ^ 32 - 1 \<or> tableID \<ge> RT_TABLE_DEFAULT \<and> tableID \<le> RT_TABLE_LOCAL
     \<or> priority \<le> 0 \<or> priority > 2 ^ 32 - 1 - 2"

definition network_route :: "int \<Rightarrow> int \<Rightarrow> int \<Rightarrow> lx_route" where
  "network_route tableID index family = zero_route\<lparr>rt_Dst := linuxDefaultIPNet family, rt_LinkIndex := index,
     rt_Protocol := linuxOwnedRouteProtocol, rt_Family := family, rt_Table := tableID, rt_Type := RTN_UNICAST, rt_Scope := SCOPE_LINK\<rparr>"

definition network_rule :: "int \<Rightarrow> int \<Rightarrow> 32 word \<Rightarrow> int \<Rightarrow> nat \<Rightarrow> rule" where
  "network_rule tableID priority mark family offset =
     (let r = NewRule\<lparr>ru_Family := family, ru_Priority := priority + int offset,
                ru_Protocol := word_of_int linuxOwnedRouteProtocol, ru_Type := word_of_int FR_ACT_TO_TBL\<rparr>
      in if offset = 0 then r\<lparr>ru_Mark := mark, ru_Table := RT_TABLE_MAIN\<rparr>
         else if offset = 1 then r\<lparr>ru_Mark := mark, ru_Table := 0, ru_Type := word_of_int FR_ACT_UNREACHABLE\<rparr>
         else if offset = 2 then r\<lparr>ru_Table := tableID\<rparr>
         else r)"

type_synonym ('x, 'w) lx_result = "'x lx_token plan \<times> 'w \<times> go_error option"

definition dst_text :: "lx_route \<Rightarrow> string" where
  "dst_text r = (case rt_Dst r of None \<Rightarrow> ''<nil>'' | Some n \<Rightarrow> ipnet_String n)"

definition acquireLinuxNetworkRoute :: "'w netlink \<Rightarrow> ('x, 'w) runner \<Rightarrow> lx_route \<Rightarrow> 'x lx_token plan \<Rightarrow> 'w \<Rightarrow> ('x, 'w) lx_result" where
  "acquireLinuxNetworkRoute nl extra r p w =
     (case Plan_Acquire (lx_run nl extra) p (''network-route '' @ dst_text r @ '' table='' @ itoa (rt_Table r))
         (Some (AddRoute r)) (Some (DelRoute r)) w of
        (p', w', Inl err) \<Rightarrow> (p', w', Some err)
      | (p', w', Inr _) \<Rightarrow> (p', w', None))"

fun acquire_rules :: "'w netlink \<Rightarrow> ('x, 'w) runner \<Rightarrow> int \<Rightarrow> int \<Rightarrow> 32 word \<Rightarrow> int \<Rightarrow> nat list \<Rightarrow> 'x lx_token plan \<Rightarrow> 'w \<Rightarrow> ('x, 'w) lx_result" where
  "acquire_rules nl extra tableID priority mark family [] p w = (p, w, None)"
| "acquire_rules nl extra tableID priority mark family (offset # os) p w =
     (let r = network_rule tableID priority mark family offset in
      case Plan_Acquire (lx_run nl extra) p (''network-rule family='' @ itoa family @ '' priority='' @ itoa (ru_Priority r))
         (Some (AddPolicy r)) (Some (DelPolicy r)) w of
        (p', w', Inl err) \<Rightarrow> (p', w', Some err)
      | (p', w', Inr _) \<Rightarrow> acquire_rules nl extra tableID priority mark family os p' w')"

definition acquireLinuxNetworkFamily ::
  "'w netlink \<Rightarrow> ('x, 'w) runner \<Rightarrow> int \<Rightarrow> int \<Rightarrow> int \<Rightarrow> 32 word \<Rightarrow> int \<Rightarrow> 'x lx_token plan \<Rightarrow> 'w \<Rightarrow> ('x, 'w) lx_result" where
  "acquireLinuxNetworkFamily nl extra tableID priority index mark family p w = (case nl_RouteList nl family w of
       Inl err \<Rightarrow> (p, w, Some err)
     | Inr routes \<Rightarrow>
         if list_ex (\<lambda>r. rt_Table r = tableID) routes
         then (p, w, Some (Plain (''routing table '' @ itoa tableID @ '' is already in use'')))
         else (case nl_RuleList nl family w of
             Inl err \<Rightarrow> (p, w, Some err)
           | Inr rules \<Rightarrow> (case find (\<lambda>r. ru_Priority r \<ge> priority \<and> ru_Priority r \<le> priority + 2) rules of
               Some r \<Rightarrow> (p, w, Some (Plain (''routing priority '' @ itoa (ru_Priority r) @ '' is already in use'')))
             | None \<Rightarrow> (case acquireLinuxNetworkRoute nl extra (network_route tableID index family) p w of
                   (p', w', Some err) \<Rightarrow> (p', w', Some err)
                 | (p', w', None) \<Rightarrow> acquire_rules nl extra tableID priority mark family [0, 1, 2] p' w'))))"

fun acquire_families ::
  "'w netlink \<Rightarrow> ('x, 'w) runner \<Rightarrow> int \<Rightarrow> int \<Rightarrow> int \<Rightarrow> 32 word \<Rightarrow> int list \<Rightarrow> 'x lx_token plan \<Rightarrow> 'w \<Rightarrow> ('x, 'w) lx_result" where
  "acquire_families nl extra tableID priority index mark [] p w = (p, w, None)"
| "acquire_families nl extra tableID priority index mark (f # fs) p w =
     (case acquireLinuxNetworkFamily nl extra tableID priority index mark f p w of
        (p', w', Some err) \<Rightarrow> (p', w', Some err)
      | (p', w', None) \<Rightarrow> acquire_families nl extra tableID priority index mark fs p' w')"

definition AcquireLinuxNetwork ::
  "'w netlink \<Rightarrow> ('x, 'w) runner \<Rightarrow> string \<Rightarrow> int \<Rightarrow> int \<Rightarrow> 'x lx_token plan \<Rightarrow> 'w \<Rightarrow> ('x, 'w) lx_result" where
  "AcquireLinuxNetwork nl extra tunName tableID priority p w =
     (if invalid_identity tableID priority then (p, w, Some (Plain ''invalid owned Linux policy routing identity''))
      else (case linuxLinkIndex nl tunName w of
          Inl err \<Rightarrow> (p, w, Some err)
        | Inr index \<Rightarrow> acquire_families nl extra tableID priority index (word_of_int tableID) [FAMILY_V4, FAMILY_V6] p w))"

section \<open>Recovery of the retained network\<close>

record rule_identity =
  ri_priority :: int
  ri_table :: int
  ri_mark :: "32 word"
  ri_protocol :: "8 word"

definition FRA_PRIORITY :: nat where "FRA_PRIORITY = 6"
definition FRA_FWMARK :: nat where "FRA_FWMARK = 10"
definition FRA_TABLE :: nat where "FRA_TABLE = 15"
definition FRA_PROTOCOL :: nat where "FRA_PROTOCOL = 21"

text \<open>\<^verbatim>\<open>binary.NativeEndian.Uint32\<close> of the first four bytes, on a little-endian machine.\<close>

definition native_uint32 :: "byte list \<Rightarrow> nat" where
  "native_uint32 bs = foldr (\<lambda>b v. unat b + 256 * v) (take 4 bs) 0"

fun rule_attributes :: "(nat \<times> byte list) list \<Rightarrow> rule_identity \<Rightarrow> go_error + rule_identity" where
  "rule_attributes [] key = Inr key"
| "rule_attributes ((ty, value) # as) key =
     (if ty = FRA_PRIORITY \<or> ty = FRA_TABLE \<or> ty = FRA_FWMARK then
        (if length value < 4 then Inl (Plain (''short native routing rule attribute '' @ nat_digits ty))
         else let v = native_uint32 value in
           rule_attributes as (if ty = FRA_PRIORITY then key\<lparr>ri_priority := int v\<rparr>
             else if ty = FRA_TABLE then key\<lparr>ri_table := int v\<rparr> else key\<lparr>ri_mark := of_nat v\<rparr>))
      else if ty = FRA_PROTOCOL then
        (case value of [] \<Rightarrow> Inl (Plain ''short native routing rule protocol'')
         | b # _ \<Rightarrow> rule_attributes as (key\<lparr>ri_protocol := b\<rparr>))
      else rule_attributes as key)"

text \<open>An identity that occurs with two actions is ambiguous: its action becomes zero and stays so.\<close>

fun rule_actions :: "int \<Rightarrow> rule_msg list \<Rightarrow> (rule_identity \<rightharpoonup> 8 word) \<Rightarrow> go_error + (rule_identity \<rightharpoonup> 8 word)" where
  "rule_actions family [] actions = Inr actions"
| "rule_actions family (m # ms) actions =
     (if rm_Len m < 12 then Inl (Plain (''short native routing rule header: '' @ nat_digits (rm_Len m) @ '' bytes''))
      else if rm_Family m \<noteq> family then rule_actions family ms actions
      else (case rm_Attrs m of
          Inl err \<Rightarrow> Inl (Wrap ''decode native routing rule action: '' err)
        | Inr as \<Rightarrow> (case rule_attributes as \<lparr>ri_priority = 0, ri_table = int (rm_Table m), ri_mark = 0, ri_protocol = 0\<rparr> of
            Inl err \<Rightarrow> Inl err
          | Inr key \<Rightarrow> rule_actions family ms (case actions key of
                Some previous \<Rightarrow> if previous \<noteq> rm_Type m then actions(key \<mapsto> 0) else actions
              | None \<Rightarrow> actions(key \<mapsto> rm_Type m)))))"

definition linuxNativeRuleActions :: "'w netlink \<Rightarrow> int \<Rightarrow> 'w \<Rightarrow> go_error + (rule_identity \<rightharpoonup> 8 word)" where
  "linuxNativeRuleActions nl family w = (case nl_RuleDump nl family w of
       Inl err \<Rightarrow> Inl (Wrap ''read native routing rule actions: '' err)
     | Inr ms \<Rightarrow> rule_actions family ms Map.empty)"

definition rule_key :: "rule \<Rightarrow> rule_identity" where
  "rule_key r = \<lparr>ri_priority = ru_Priority r, ri_table = ru_Table r, ri_mark = ru_Mark r, ri_protocol = ru_Protocol r\<rparr>"

text \<open>The identity in the error text is the parameter \<open>show\<close> (\<^verbatim>\<open>%+v\<close> of the struct).\<close>

fun fill_actions ::
  "(rule_identity \<Rightarrow> string) \<Rightarrow> 'w netlink \<Rightarrow> int \<Rightarrow> int \<Rightarrow> 'w \<Rightarrow> (rule_identity \<rightharpoonup> 8 word) option \<Rightarrow> rule list \<Rightarrow> go_error + rule list" where
  "fill_actions show_id nl family priority w actions [] = Inr []"
| "fill_actions show_id nl family priority w actions (r # rs) =
     (if ru_Priority r < priority \<or> ru_Priority r > priority + 2 \<or> ru_Type r \<noteq> 0
      then (case fill_actions show_id nl family priority w actions rs of Inl e \<Rightarrow> Inl e | Inr rs' \<Rightarrow> Inr (r # rs'))
      else (case (case actions of Some a \<Rightarrow> Inr a | None \<Rightarrow> linuxNativeRuleActions nl family w) of
          Inl e \<Rightarrow> Inl e
        | Inr a \<Rightarrow> (let action = (case a (rule_key r) of None \<Rightarrow> 0 | Some t \<Rightarrow> t) in
            if action = 0 then Inl (Plain (''native routing rule action is missing or ambiguous: family='' @ itoa family @ '' identity='' @ show_id (rule_key r)))
            else (case fill_actions show_id nl family priority w (Some a) rs of Inl e \<Rightarrow> Inl e | Inr rs' \<Rightarrow> Inr (r\<lparr>ru_Type := action\<rparr> # rs')))))"

definition linuxNetworkRules :: "(rule_identity \<Rightarrow> string) \<Rightarrow> 'w netlink \<Rightarrow> int \<Rightarrow> int \<Rightarrow> 'w \<Rightarrow> go_error + rule list" where
  "linuxNetworkRules show_id nl family priority w = (case nl_RuleList nl family w of
       Inl err \<Rightarrow> Inl err
     | Inr rules \<Rightarrow> fill_actions show_id nl family priority w None rules)"

definition linuxOwnsNetworkRule :: "rule \<Rightarrow> int \<Rightarrow> int \<Rightarrow> 32 word \<Rightarrow> bool" where
  "linuxOwnsNetworkRule r priority tableID mark =
     (if ru_Protocol r \<noteq> word_of_int linuxOwnedRouteProtocol \<or> ru_Priority r < priority \<or> ru_Priority r > priority + 2 then False
      else let s = r\<lparr>ru_Protocol := 0, ru_Type := 0\<rparr> in
        if \<not> linuxSessionRuleHasNoAddressSelectors s \<or> \<not> linuxSessionRuleHasNoFlowSelectors s
           \<or> \<not> linuxSessionRuleHasNoTransportSelectors s \<or> \<not> linuxSessionRuleHasFullMarkMask s then False
        else if ru_Priority r = priority then ru_Mark r = mark \<and> ru_Table r = RT_TABLE_MAIN \<and> ru_Type r = word_of_int FR_ACT_TO_TBL
        else if ru_Priority r = priority + 1 then ru_Mark r = mark \<and> ru_Table r = 0 \<and> ru_Type r = word_of_int FR_ACT_UNREACHABLE
        else if ru_Priority r = priority + 2 then ru_Mark r = 0 \<and> ru_Table r = tableID \<and> ru_Type r = word_of_int FR_ACT_TO_TBL
        else False)"

fun delete_owned_rules :: "'w netlink \<Rightarrow> int \<Rightarrow> int \<Rightarrow> 32 word \<Rightarrow> rule list \<Rightarrow> 'w \<Rightarrow> 'w \<times> go_error option" where
  "delete_owned_rules nl priority tableID mark [] w = (w, None)"
| "delete_owned_rules nl priority tableID mark (r # rs) w =
     (if \<not> linuxOwnsNetworkRule r priority tableID mark then delete_owned_rules nl priority tableID mark rs w
      else (case linuxRuleOperation nl ''delete'' r (nl_RuleDel nl) w of
          (w', err) \<Rightarrow> if err \<noteq> None \<and> \<not> linuxRouteAlreadyGone err then (w', err)
                       else delete_owned_rules nl priority tableID mark rs w'))"

definition recoverLinuxNetworkFamilyRules ::
  "(rule_identity \<Rightarrow> string) \<Rightarrow> 'w netlink \<Rightarrow> int \<Rightarrow> int \<Rightarrow> int \<Rightarrow> 32 word \<Rightarrow> 'w \<Rightarrow> 'w \<times> go_error option" where
  "recoverLinuxNetworkFamilyRules show_id nl family priority tableID mark w = (case linuxNetworkRules show_id nl family priority w of
       Inl err \<Rightarrow> (w, Some err)
     | Inr rules \<Rightarrow> delete_owned_rules nl priority tableID mark rules w)"

definition owned_network_route :: "lx_route \<Rightarrow> int \<Rightarrow> int \<Rightarrow> bool" where
  "owned_network_route r family tableID \<longleftrightarrow>
     \<not> (rt_Table r \<noteq> tableID \<or> rt_Protocol r \<noteq> linuxOwnedRouteProtocol \<or> rt_Type r \<noteq> RTN_UNICAST \<or> rt_Gw r \<noteq> None
        \<or> \<not> linuxRouteIsDefault r family \<or> rt_LinkIndex r \<le> 0)"

fun delete_owned_routes :: "'w netlink \<Rightarrow> int \<Rightarrow> int \<Rightarrow> string \<Rightarrow> lx_route list \<Rightarrow> 'w \<Rightarrow> 'w \<times> go_error option" where
  "delete_owned_routes nl family tableID tunName [] w = (w, None)"
| "delete_owned_routes nl family tableID tunName (r # rs) w =
     (if \<not> owned_network_route r family tableID then delete_owned_routes nl family tableID tunName rs w
      else (case nl_LinkByIndex nl (rt_LinkIndex r) w of
          Inl err \<Rightarrow> (w, Some err)
        | Inr link \<Rightarrow>
            if ln_Name link \<noteq> tunName then delete_owned_routes nl family tableID tunName rs w
            else (case linuxRouteOperation nl ''delete'' r (nl_RouteDel nl) w of
                (w', err) \<Rightarrow> if err \<noteq> None \<and> \<not> linuxRouteAlreadyGone err then (w', err)
                             else delete_owned_routes nl family tableID tunName rs w')))"

definition recoverLinuxNetworkFamilyRoutes :: "'w netlink \<Rightarrow> int \<Rightarrow> int \<Rightarrow> string \<Rightarrow> 'w \<Rightarrow> 'w \<times> go_error option" where
  "recoverLinuxNetworkFamilyRoutes nl family tableID tunName w = (case nl_RouteList nl family w of
       Inl err \<Rightarrow> (w, Some err)
     | Inr routes \<Rightarrow> delete_owned_routes nl family tableID tunName routes w)"

definition recoverLinuxNetworkFamily ::
  "(rule_identity \<Rightarrow> string) \<Rightarrow> 'w netlink \<Rightarrow> int \<Rightarrow> int \<Rightarrow> int \<Rightarrow> 32 word \<Rightarrow> string \<Rightarrow> 'w \<Rightarrow> 'w \<times> go_error option" where
  "recoverLinuxNetworkFamily show_id nl family tableID priority mark tunName w =
     (case recoverLinuxNetworkFamilyRules show_id nl family priority tableID mark w of
        (w', Some err) \<Rightarrow> (w', Some err)
      | (w', None) \<Rightarrow> recoverLinuxNetworkFamilyRoutes nl family tableID tunName w')"

fun recover_families ::
  "(rule_identity \<Rightarrow> string) \<Rightarrow> 'w netlink \<Rightarrow> int \<Rightarrow> int \<Rightarrow> 32 word \<Rightarrow> string \<Rightarrow> int list \<Rightarrow> 'w \<Rightarrow> 'w \<times> go_error option" where
  "recover_families show_id nl tableID priority mark tunName [] w = (w, None)"
| "recover_families show_id nl tableID priority mark tunName (f # fs) w =
     (case recoverLinuxNetworkFamily show_id nl f tableID priority mark tunName w of
        (w', Some err) \<Rightarrow> (w', Some err)
      | (w', None) \<Rightarrow> recover_families show_id nl tableID priority mark tunName fs w')"

definition RecoverLinuxNetworkRules ::
  "(rule_identity \<Rightarrow> string) \<Rightarrow> 'w netlink \<Rightarrow> int \<Rightarrow> int \<Rightarrow> string \<Rightarrow> 'w \<Rightarrow> 'w \<times> go_error option" where
  "RecoverLinuxNetworkRules show_id nl tableID priority tunName w =
     (if invalid_identity tableID priority then (w, Some (Plain ''invalid owned Linux policy routing identity''))
      else recover_families show_id nl tableID priority (word_of_int tableID) tunName [FAMILY_V4, FAMILY_V6] w)"

section \<open>Recovery of the routes of older versions\<close>

definition linuxOwnedProxyRoute :: "lx_route \<Rightarrow> bool" where
  "linuxOwnedProxyRoute r =
     (if rt_Table r \<noteq> RT_TABLE_MAIN \<or> rt_Family r \<noteq> FAMILY_V4 \<or> rt_Protocol r \<noteq> linuxOwnedRouteProtocol
         \<or> rt_Priority r \<noteq> linuxOwnedProxyMetric \<or> rt_Type r \<noteq> RTN_UNICAST
         \<or> (case rt_Gw r of None \<Rightarrow> True | Some gw \<Rightarrow> To4 gw = None)
         \<or> rt_LinkIndex r \<le> 0 \<or> length (rt_MultiPath r) \<noteq> 0 then False
      else (case rt_Dst r of None \<Rightarrow> False
        | Some dst \<Rightarrow> (let (ones, bits) = mask_Size (n_Mask dst) in bits = 32 \<and> ones = 32 \<and> To4 (n_IP dst) \<noteq> None)))"

definition linuxOwnedTunnelRoute :: "'w netlink \<Rightarrow> 'w \<Rightarrow> lx_route \<Rightarrow> string \<Rightarrow> bool" where
  "linuxOwnedTunnelRoute nl w r tunName =
     (if rt_Table r \<noteq> RT_TABLE_MAIN \<or> rt_Family r \<noteq> FAMILY_V4 \<or> \<not> linuxRouteIsDefault r FAMILY_V4
         \<or> rt_Protocol r \<noteq> linuxOwnedRouteProtocol \<or> rt_Type r \<noteq> RTN_UNICAST \<or> rt_LinkIndex r \<le> 0 \<or> tunName = [] then False
      else (case nl_LinkByIndex nl (rt_LinkIndex r) w of Inl err \<Rightarrow> False | Inr link \<Rightarrow> ln_Name link = tunName))"

definition linuxOwnedMarkedGatewayRoute :: "lx_route \<Rightarrow> int \<Rightarrow> bool" where
  "linuxOwnedMarkedGatewayRoute r tableID \<longleftrightarrow>
     rt_Table r = tableID \<and> rt_Family r = FAMILY_V4 \<and> linuxRouteIsDefault r FAMILY_V4
     \<and> rt_Protocol r = linuxOwnedRouteProtocol \<and> rt_Type r = RTN_UNICAST
     \<and> (case rt_Gw r of None \<Rightarrow> False | Some gw \<Rightarrow> To4 gw \<noteq> None) \<and> rt_LinkIndex r > 0 \<and> length (rt_MultiPath r) = 0"

definition linuxOwnedTerminalRoute :: "lx_route \<Rightarrow> int \<Rightarrow> bool" where
  "linuxOwnedTerminalRoute r tableID \<longleftrightarrow>
     rt_Table r = tableID \<and> rt_Family r = FAMILY_V4 \<and> linuxRouteIsDefault r FAMILY_V4 \<and> rt_Type r = RTN_UNREACHABLE
     \<and> rt_Protocol r = linuxOwnedRouteProtocol \<and> rt_Priority r = 1 \<and> rt_Gw r = None \<and> rt_LinkIndex r = 0"

definition linuxOwnedIPv6Route :: "lx_route \<Rightarrow> bool" where
  "linuxOwnedIPv6Route r =
     (if rt_Table r \<noteq> RT_TABLE_MAIN \<or> rt_Family r \<noteq> FAMILY_V6 \<or> rt_Type r \<noteq> RTN_BLACKHOLE
         \<or> rt_Protocol r \<noteq> linuxOwnedRouteProtocol \<or> rt_Priority r \<noteq> 1 then False
      else (case rt_Dst r of None \<Rightarrow> False
        | Some dst \<Rightarrow> ipnet_String dst = ''::/1'' \<or> ipnet_String dst = ''8000::/1''))"

definition linuxRecoveryRouteForDelete :: "lx_route \<Rightarrow> int \<Rightarrow> lx_route" where
  "linuxRecoveryRouteForDelete r family =
     (if rt_Dst r = None \<and> linuxRouteIsDefault r family then r\<lparr>rt_Dst := linuxDefaultIPNet family\<rparr> else r)"

record recovery_routes =
  rr_deletes :: "lx_route list"
  rr_hasIndependentDefault :: bool
  rr_restoreDefault :: "lx_route option"
  rr_restoreDefaultAmbiguous :: bool

definition restore_candidate :: "lx_route \<Rightarrow> lx_route" where
  "restore_candidate r = zero_route\<lparr>rt_Dst := linuxDefaultIPNet FAMILY_V4,
     rt_Gw := (case rt_Gw r of None \<Rightarrow> None | Some gw \<Rightarrow> To4 gw), rt_LinkIndex := rt_LinkIndex r, rt_Protocol := RTPROT_BOOT,
     rt_Family := FAMILY_V4, rt_Table := RT_TABLE_MAIN, rt_Type := RTN_UNICAST, rt_Scope := SCOPE_UNIVERSE\<rparr>"

definition collect_ipv4 :: "'w netlink \<Rightarrow> 'w \<Rightarrow> int \<Rightarrow> string \<Rightarrow> lx_route \<Rightarrow> recovery_routes \<Rightarrow> recovery_routes" where
  "collect_ipv4 nl w tableID tunName r acc =
     (if rt_Table r = RT_TABLE_MAIN then
        (if linuxOwnedProxyRoute r then acc\<lparr>rr_deletes := rr_deletes acc @ [r]\<rparr>
         else if linuxOwnedTunnelRoute nl w r tunName then acc\<lparr>rr_deletes := rr_deletes acc @ [linuxRecoveryRouteForDelete r FAMILY_V4]\<rparr>
         else if linuxRouteIsDefault r FAMILY_V4 then acc\<lparr>rr_hasIndependentDefault := True\<rparr>
         else acc)
      else if rt_Table r \<noteq> tableID then acc
      else if linuxOwnedTerminalRoute r tableID then acc\<lparr>rr_deletes := rr_deletes acc @ [linuxRecoveryRouteForDelete r FAMILY_V4]\<rparr>
      else if \<not> linuxOwnedMarkedGatewayRoute r tableID then acc
      else (let acc1 = acc\<lparr>rr_deletes := rr_deletes acc @ [linuxRecoveryRouteForDelete r FAMILY_V4]\<rparr>; candidate = restore_candidate r in
        case rr_restoreDefault acc of
          None \<Rightarrow> acc1\<lparr>rr_restoreDefault := Some candidate\<rparr>
        | Some d \<Rightarrow> if rt_LinkIndex d \<noteq> rt_LinkIndex candidate
                       \<or> map_option normal_ip (rt_Gw d) \<noteq> map_option normal_ip (rt_Gw candidate)
                    then acc1\<lparr>rr_restoreDefaultAmbiguous := True\<rparr> else acc1))"

definition collectLinuxRecoveryRoutes :: "'w netlink \<Rightarrow> 'w \<Rightarrow> lx_route list \<Rightarrow> lx_route list \<Rightarrow> int \<Rightarrow> string \<Rightarrow> recovery_routes" where
  "collectLinuxRecoveryRoutes nl w ipv4Routes ipv6Routes tableID tunName =
     (let acc = fold (collect_ipv4 nl w tableID tunName) ipv4Routes
            \<lparr>rr_deletes = [], rr_hasIndependentDefault = False, rr_restoreDefault = None, rr_restoreDefaultAmbiguous = False\<rparr>
      in acc\<lparr>rr_deletes := rr_deletes acc @ filter linuxOwnedIPv6Route ipv6Routes\<rparr>)"

fun remove_rules :: "'w netlink \<Rightarrow> rule list \<Rightarrow> 'w \<Rightarrow> 'w \<times> go_error list" where
  "remove_rules nl [] w = (w, [])"
| "remove_rules nl (r # rs) w = (case linuxRuleOperation nl ''delete'' r (nl_RuleDel nl) w of
     (w1, err) \<Rightarrow> (case remove_rules nl rs w1 of (w2, errs) \<Rightarrow>
        (w2, (if err \<noteq> None \<and> \<not> linuxRouteAlreadyGone err then [Wrap ''remove owned fwmark rule: '' (the err)] else []) @ errs)))"

fun remove_routes :: "'w netlink \<Rightarrow> lx_route list \<Rightarrow> 'w \<Rightarrow> 'w \<times> go_error list" where
  "remove_routes nl [] w = (w, [])"
| "remove_routes nl (r # rs) w = (case linuxRouteOperation nl ''delete'' r (nl_RouteDel nl) w of
     (w1, err) \<Rightarrow> (case remove_routes nl rs w1 of (w2, errs) \<Rightarrow>
        (w2, (if err \<noteq> None \<and> \<not> linuxRouteAlreadyGone err
              then [Wrap (''remove owned route '' @ nl_RouteText nl r @ '': '') (the err)] else []) @ errs)))"

definition restore_default :: "'w netlink \<Rightarrow> recovery_routes \<Rightarrow> 'w \<Rightarrow> 'w \<times> go_error list" where
  "restore_default nl rr w =
     (if rr_restoreDefaultAmbiguous rr then (w, [Plain ''restore interrupted default route: owned marked routes disagree''])
      else (case rr_restoreDefault rr of
          Some d \<Rightarrow> if rr_hasIndependentDefault rr then (w, [])
                    else (case linuxRouteOperation nl ''replace'' d (nl_RouteReplace nl) w of
                        (w', None) \<Rightarrow> (w', [])
                      | (w', Some err) \<Rightarrow> (w', [Wrap ''restore interrupted default route: '' err]))
        | None \<Rightarrow> (w, [])))"

definition RecoverLinuxOwnedRoutes :: "'w netlink \<Rightarrow> int \<Rightarrow> int \<Rightarrow> string \<Rightarrow> 'w \<Rightarrow> 'w \<times> go_error option" where
  "RecoverLinuxOwnedRoutes nl tableID priority tunName w = (case nl_RouteList nl FAMILY_V4 w of
       Inl err \<Rightarrow> (w, Some (Wrap ''inspect owned IPv4 routes: '' err))
     | Inr mainRoutes \<Rightarrow> (case nl_RouteList nl FAMILY_V6 w of
           Inl err \<Rightarrow> (w, Some (Wrap ''inspect owned IPv6 routes: '' err))
         | Inr ipv6Routes \<Rightarrow>
             (let rr = collectLinuxRecoveryRoutes nl w mainRoutes ipv6Routes tableID tunName;
                  listed = nl_RuleList nl FAMILY_V4 w;
                  ownedRules = (case listed of Inl _ \<Rightarrow> [] | Inr rules \<Rightarrow> filter (\<lambda>r. linuxSessionRuleMatches r tableID priority) rules);
                  errs0 = (case listed of Inl err \<Rightarrow> [Wrap ''inspect owned fwmark rule: '' err] | Inr _ \<Rightarrow> [])
              in if rr_deletes rr = [] \<and> ownedRules = [] \<and> errs0 = [] then (w, None)
                 else (case remove_rules nl ownedRules w of (w1, errs1) \<Rightarrow>
                   (case remove_routes nl (rr_deletes rr) w1 of (w2, errs2) \<Rightarrow>
                     (case restore_default nl rr w2 of (w3, errs3) \<Rightarrow>
                        (w3, errors_join (map Some (errs0 @ errs1 @ errs2 @ errs3)))))))))"

end
