(* ===== verification/Linux_Resolver.thy ===== *)
theory Linux_Resolver
  imports Linux_Guard Linux_Routes
begin

text \<open>
  Name resolution on the physical link and the resolver configuration of the TUN on Linux:
  \<^verbatim>\<open>core/dnscache/resolver_linux.go\<close>, \<^verbatim>\<open>core/routing/resolved_linux.go\<close> and \<^verbatim>\<open>core/routing/plan_linux.go\<close>.
  D-Bus and systemd-resolved answer as the environment says; the source's checks of their answers, what
  it returns, and what it leaves with the routing plan are modelled.
\<close>

unbundle bit_operations_syntax

section \<open>The physical link\<close>

text \<open>The exchange with the bus: an error at any stage, and of the final close.\<close>

record bus_env =
  be_dial :: "go_error option"
  be_newConn :: "go_error option"
  be_socketClose :: "go_error option"
  be_auth :: "go_error option"
  be_hello :: "go_error option"
  be_getLink :: "go_error option"
  be_close :: "go_error option"

definition openResolvedLink :: "bus_env \<Rightarrow> go_error option" where
  "openResolvedLink env = (case be_dial env of Some err \<Rightarrow> Some (Wrap ''connect underlying resolver bus: '' err)
     | None \<Rightarrow> (case be_newConn env of Some err \<Rightarrow> errors_join [Some err, be_socketClose env]
       | None \<Rightarrow> (case be_auth env of Some err \<Rightarrow> errors_join [Some err, be_close env]
         | None \<Rightarrow> (case be_hello env of Some err \<Rightarrow> errors_join [Some err, be_close env]
           | None \<Rightarrow> (case be_getLink env of Some err \<Rightarrow> errors_join [Some err, be_close env]
             | None \<Rightarrow> None)))))"

record link_address =
  la_Index :: int
  la_Family :: int
  la_Address :: "byte list"

record ip_addr =
  ia_IP :: ip
  ia_Zone :: string

definition AF_INET :: int where "AF_INET = 2"
definition AF_INET6 :: int where "AF_INET6 = 10"

definition IsLinkLocalUnicast6 :: "ip \<Rightarrow> bool" where
  "IsLinkLocalUnicast6 a = (length a = 16 \<and> a ! 0 = 0xfe \<and> (a ! 1) AND 0xc0 = 0x80)"

fun link_addresses :: "int \<Rightarrow> link_address list \<Rightarrow> go_error + ip_addr list" where
  "link_addresses index [] = Inr []"
| "link_addresses index (r # rs) =
     (if la_Index r \<noteq> 0 \<and> la_Index r \<noteq> index
      then Inl (Plain (''resolver returned an address from interface '' @ itoa (la_Index r) @ '', expected '' @ itoa index))
      else if la_Family r \<noteq> AF_INET \<and> la_Family r \<noteq> AF_INET6 \<or> la_Family r = AF_INET \<and> length (la_Address r) \<noteq> 4
              \<or> la_Family r = AF_INET6 \<and> length (la_Address r) \<noteq> 16
      then Inl (Plain ''invalid native resolver address length'')
      else (case link_addresses index rs of Inl e \<Rightarrow> Inl e
        | Inr as \<Rightarrow> Inr (\<lparr>ia_IP = la_Address r,
             ia_Zone = (if To4 (la_Address r) = None \<and> IsLinkLocalUnicast6 (la_Address r) then itoa index else [])\<rparr> # as)))"

record lookup_env =
  lk_bus :: bus_env
  lk_before :: "go_error + string"
  lk_records :: "go_error + link_address list"
  lk_after :: "go_error + string"

definition resolve_result :: "lookup_env \<Rightarrow> int \<Rightarrow> go_error + ip_addr list" where
  "resolve_result env index = (case lk_before env of Inl err \<Rightarrow> Inl err
     | Inr before \<Rightarrow> (case lk_records env of Inl err \<Rightarrow> Inl err
       | Inr records \<Rightarrow> (case lk_after env of Inl err \<Rightarrow> Inl err
         | Inr after \<Rightarrow> if before \<noteq> after then Inl (Plain ''underlying DNS changed during lookup'')
                        else link_addresses index records)))"

text \<open>The deferred close joins its error; addresses that were collected are returned beside it.\<close>

definition resolveOnLink :: "lookup_env \<Rightarrow> int \<Rightarrow> ip_addr list \<times> go_error option" where
  "resolveOnLink env index = (case openResolvedLink (lk_bus env) of Some err \<Rightarrow> ([], Some err)
     | None \<Rightarrow> (case resolve_result env index of
         Inl err \<Rightarrow> ([], errors_join [Some err, be_close (lk_bus env)])
       | Inr as \<Rightarrow> (as, errors_join [None, be_close (lk_bus env)])))"

definition invalid_index :: "int \<Rightarrow> bool" where
  "invalid_index index \<longleftrightarrow> index \<le> 0 \<or> index > 2 ^ 31 - 1"

definition LinuxLinkResolver :: "lookup_env \<Rightarrow> int \<Rightarrow> ip_addr list \<times> go_error option" where
  "LinuxLinkResolver env index =
     (if invalid_index index then ([], Some (Plain (''invalid underlying interface index '' @ itoa index)))
      else resolveOnLink env index)"

text \<open>
  \<^verbatim>\<open>UseInterface\<close> installs \<^const>\<open>resolveOnLink\<close> for the index as the cache's resolver, under the identity it
  returns here. \<open>ifaces\<close> is \<^verbatim>\<open>net.InterfaceByIndex\<close> with the interface's name, \<open>addrs\<close> its addresses as \<^verbatim>\<open>%v\<close> writes them.
\<close>

definition UseInterface_linux :: "(int \<Rightarrow> go_error + string) \<Rightarrow> go_error + string \<Rightarrow> int \<Rightarrow> go_error + string" where
  "UseInterface_linux ifaces addrs index =
     (if invalid_index index then Inl (Plain (''invalid underlying interface index '' @ itoa index))
      else (case ifaces index of Inl err \<Rightarrow> Inl err
        | Inr name \<Rightarrow> (case addrs of Inl err \<Rightarrow> Inl err
          | Inr text \<Rightarrow> Inr (name @ '':'' @ itoa index @ '':'' @ text))))"

text \<open>\<^verbatim>\<open>netip.AddrFromSlice\<close> and \<^verbatim>\<open>Unmap\<close>.\<close>

definition AddrFromSlice :: "byte list \<Rightarrow> addr option" where
  "AddrFromSlice bs = (if length bs = 4 then Some (Addr4 bs) else if length bs = 16 then Some (Addr6 bs) else None)"

fun addr_Unmap :: "addr \<Rightarrow> addr" where
  "addr_Unmap (Addr4 bs) = Addr4 bs"
| "addr_Unmap (Addr6 bs) = (if take 12 bs = v4InV6Prefix then Addr4 (drop 12 bs) else Addr6 bs)"

record capture_env =
  ca_iface :: "int \<Rightarrow> go_error + (string \<times> string)"
  ca_addrs :: "go_error + string"
  ca_bus :: bus_env
  ca_native :: "go_error + (int \<times> byte list) list"
  ca_record :: "int \<times> byte list \<Rightarrow> string"
  ca_servers :: "addr list \<Rightarrow> string"

fun capture_servers :: "(int \<times> byte list \<Rightarrow> string) \<Rightarrow> (int \<times> byte list) list \<Rightarrow> go_error + addr list" where
  "capture_servers show_rec [] = Inr []"
| "capture_servers show_rec ((family, bs) # rs) = (case AddrFromSlice bs of
       None \<Rightarrow> Inl (Plain (''invalid underlying DNS address: '' @ show_rec (family, bs)))
     | Some a \<Rightarrow>
         if family \<noteq> AF_INET \<and> family \<noteq> AF_INET6 \<or> addr_IsLoopback a \<or> addr_IsUnspecified a
         then Inl (Plain (''invalid underlying DNS address: '' @ show_rec (family, bs)))
         else (case capture_servers show_rec rs of Inl e \<Rightarrow> Inl e | Inr ss \<Rightarrow> Inr (addr_Unmap a # ss)))"

text \<open>The native part after the connection is open: the \<^verbatim>\<open>DNS\<close> property of the link and its decoding.\<close>

definition capture_identity :: "capture_env \<Rightarrow> int \<Rightarrow> string \<Rightarrow> string \<Rightarrow> string \<Rightarrow> addr list \<Rightarrow> string" where
  "capture_identity env index name hw local servers =
     ''linux:'' @ name @ '':'' @ itoa index @ '':'' @ hw @ '':'' @ local @ '':'' @ ca_servers env servers"

definition CaptureLinuxLink :: "capture_env \<Rightarrow> int \<Rightarrow> (string \<times> addr list) \<times> go_error option" where
  "CaptureLinuxLink env index =
     (if invalid_index index then (([], []), Some (Plain (''invalid physical link '' @ itoa index)))
      else (case ca_iface env index of Inl err \<Rightarrow> (([], []), Some err)
        | Inr (name, hw) \<Rightarrow> (case ca_addrs env of Inl err \<Rightarrow> (([], []), Some err)
          | Inr local \<Rightarrow> (case openResolvedLink (ca_bus env) of Some err \<Rightarrow> (([], []), Some err)
            | None \<Rightarrow> (case (case ca_native env of Inl err \<Rightarrow> Inl err | Inr rs \<Rightarrow> capture_servers (ca_record env) rs) of
                Inl err \<Rightarrow> (([], []), errors_join [Some err, be_close (ca_bus env)])
              | Inr servers \<Rightarrow> ((capture_identity env index name hw local servers, servers), errors_join [None, be_close (ca_bus env)]))))))"

lemma v4_prefix_not_zero: "take 12 (replicate 16 (0 :: byte)) \<noteq> v4InV6Prefix"
  by code_simp

lemma addr_Unmap_physical:
  assumes "AddrFromSlice bs = Some a" "\<not> addr_IsLoopback a" "\<not> addr_IsUnspecified a" "addr_Unmap a \<noteq> Addr4 (replicate 4 0)"
  shows "physical_server (Some (addr_Unmap a))"
  using assms by (cases a) (auto simp: physical_server_def AddrFromSlice_def split: if_splits)

lemma link_addresses_sound:
  "link_addresses index rs = Inr as \<Longrightarrow> length as = length rs \<and>
     list_all2 (\<lambda>r a. ia_IP a = la_Address r \<and> la_Index r \<in> {0, index} \<and> length (ia_IP a) \<in> {4, 16}
        \<and> (ia_Zone a \<noteq> [] \<longrightarrow> IsLinkLocalUnicast6 (ia_IP a) \<and> ia_Zone a = itoa index)) rs as"
  by (induction rs arbitrary: as) (auto split: if_splits sum.splits)

text \<open>An answer is used only when the link's resolver configuration was the same before and after the query.\<close>

lemma resolveOnLink_ok:
  assumes "resolveOnLink env index = (as, None)"
  shows "\<exists>dns rs. lk_before env = Inr dns \<and> lk_after env = Inr dns \<and> lk_records env = Inr rs \<and> link_addresses index rs = Inr as
    \<and> openResolvedLink (lk_bus env) = None \<and> be_close (lk_bus env) = None"
  using assms by (auto simp: resolveOnLink_def resolve_result_def split: option.splits sum.splits if_splits)

section \<open>The resolver of the TUN\<close>

definition ParseIP :: "string \<Rightarrow> ip option" where
  "ParseIP s = (case parse_addr s of None \<Rightarrow> None | Some (Addr4 bs) \<Rightarrow> Some (v4InV6Prefix @ bs) | Some (Addr6 bs) \<Rightarrow> Some bs)"

text \<open>Calls on the resolver manager, by name.\<close>

datatype resolved_call =
    SetLinkDNS int "(int \<times> byte list) list"
  | SetLinkDomains int "(string \<times> bool) list"
  | SetLinkDefaultRoute int bool
  | RevertLink int

record resolved_env =
  cl_dial :: "go_error option"
  cl_newConn :: "go_error option"
  cl_socketClose :: "go_error option"
  cl_auth :: "go_error option"
  cl_hello :: "go_error option"
  cl_close :: "go_error option"

fun call_name :: "resolved_call \<Rightarrow> string" where
  "call_name (SetLinkDNS i as) = ''SetLinkDNS''"
| "call_name (SetLinkDomains i ds) = ''SetLinkDomains''"
| "call_name (SetLinkDefaultRoute i b) = ''SetLinkDefaultRoute''"
| "call_name (RevertLink i) = ''RevertLink''"

text \<open>
  \<^verbatim>\<open>callResolved\<close>: \<open>resolved\<close> is the manager; it is reached only when the bus was. A call whose reply is
  lost may have changed the world.
\<close>

definition callResolved :: "resolved_env \<Rightarrow> (resolved_call \<Rightarrow> 'w \<Rightarrow> 'w \<times> go_error option) \<Rightarrow> resolved_call \<Rightarrow> 'w \<Rightarrow> 'w \<times> go_error option" where
  "callResolved env resolved call w = (case cl_dial env of Some err \<Rightarrow> (w, Some (Wrap ''connect resolved system bus: '' err))
     | None \<Rightarrow> (case cl_newConn env of Some err \<Rightarrow> (w, errors_join [Some err, cl_socketClose env])
       | None \<Rightarrow> (case cl_auth env of Some err \<Rightarrow> (w, errors_join [Some (Wrap ''authenticate resolved system bus: '' err), cl_close env])
         | None \<Rightarrow> (case cl_hello env of Some err \<Rightarrow> (w, errors_join [Some (Wrap ''register resolved system bus connection: '' err), cl_close env])
           | None \<Rightarrow> (case resolved call w of (w', err) \<Rightarrow>
               (w', errors_join [map_option (Wrap (''resolved '' @ call_name call @ '': '')) err, cl_close env]))))))"

fun resolved_addresses :: "string list \<Rightarrow> go_error + (int \<times> byte list) list" where
  "resolved_addresses [] = Inr []"
| "resolved_addresses (v # vs) = (case ParseIP v of
       None \<Rightarrow> Inl (Plain (''invalid Linux DNS server '' @ go_quote v))
     | Some a \<Rightarrow> (case resolved_addresses vs of Inl e \<Rightarrow> Inl e
         | Inr as \<Rightarrow> Inr ((case To4 a of Some x \<Rightarrow> (AF_INET, x) | None \<Rightarrow> (AF_INET6, a)) # as)))"

text \<open>The release: the link must still be the one configured.\<close>

definition revert_link :: "'w netlink \<Rightarrow> (resolved_call \<Rightarrow> 'w \<Rightarrow> 'w \<times> go_error option) \<Rightarrow> string \<Rightarrow> int \<Rightarrow> 'w \<Rightarrow> 'w \<times> go_error option" where
  "revert_link nl call tunName index w = (case linuxLinkIndex nl tunName w of
       Inl err \<Rightarrow> (w, Some (Wrap ''verify resolved link ownership: '' err))
     | Inr current \<Rightarrow>
         if current \<noteq> index then (w, Some (Plain (''resolved interface '' @ tunName @ '' changed index from '' @ itoa index @ '' to '' @ itoa current)))
         else call (RevertLink index) w)"

fun resolved_calls :: "(resolved_call \<Rightarrow> 'w \<Rightarrow> 'w \<times> go_error option) \<Rightarrow> resolved_call list \<Rightarrow> 'w \<Rightarrow> 'w \<times> go_error option" where
  "resolved_calls call [] w = (w, None)"
| "resolved_calls call (c # cs) w = (case call c w of (w', Some err) \<Rightarrow> (w', Some err) | (w', None) \<Rightarrow> resolved_calls call cs w')"

text \<open>
  \<^verbatim>\<open>AcquireLinuxResolvedDNS\<close>. The lease is shared with the plan, so closing it here closes the plan's last
  lease; \<open>revert\<close> is the token of the release closure.
\<close>

definition AcquireLinuxResolvedDNS ::
  "('c, 'w) runner \<Rightarrow> 'w netlink \<Rightarrow> (resolved_call \<Rightarrow> 'w \<Rightarrow> 'w \<times> go_error option) \<Rightarrow> 'c \<Rightarrow> (string \<Rightarrow> int \<Rightarrow> 'c) \<Rightarrow> string \<Rightarrow> string list
     \<Rightarrow> 'c plan \<Rightarrow> 'w \<Rightarrow> 'c plan \<times> 'w \<times> go_error option" where
  "AcquireLinuxResolvedDNS run nl call noop revert tunName dnsIPs p w =
     (if tunName = [] \<or> list_ex (\<lambda>c. c = CHR '' '' \<or> c = CHR 0x09 \<or> c = CHR 0x0D \<or> c = CHR 0x0A) tunName
      then (p, w, Some (Plain (''invalid Linux DNS interface '' @ go_quote tunName)))
      else (case resolved_addresses dnsIPs of Inl err \<Rightarrow> (p, w, Some err)
        | Inr addresses \<Rightarrow>
          if addresses = [] then (p, w, Some (Plain ''VPN DNS list is empty''))
          else (case linuxLinkIndex nl tunName w of Inl err \<Rightarrow> (p, w, Some err)
            | Inr index \<Rightarrow>
              if index \<le> 0 \<or> index > 2 ^ 31 - 1 then (p, w, Some (Plain (''invalid resolved interface index '' @ itoa index)))
              else (case Plan_Acquire run p (''resolved-dns '' @ tunName) (Some noop) (Some (revert tunName index)) w of
                  (p1, w1, Inl err) \<Rightarrow> (p1, w1, Some err)
                | (p1, w1, Inr lease) \<Rightarrow>
                    (case resolved_calls call [SetLinkDNS index addresses, SetLinkDomains index [(''.'', True)], SetLinkDefaultRoute index True] w1 of
                       (w2, None) \<Rightarrow> (p1, w2, None)
                     | (w2, Some err) \<Rightarrow> (case Lease_Close run lease w2 of
                         (lease', w3, Some cleanupErr) \<Rightarrow>
                            (p1\<lparr>pl_leases := butlast (pl_leases p1) @ [lease']\<rparr>, w3, Some (CleanupFailure (the (errors_join [Some err, Some cleanupErr]))))
                       | (lease', w3, None) \<Rightarrow> (p1\<lparr>pl_leases := butlast (pl_leases p1) @ [lease']\<rparr>, w3, Some err)))))))"

end
