(* ===== verification/Linux_Policy.thy ===== *)
theory Linux_Policy
  imports Linux_Routes "HOL-Library.Sublist"
begin

text \<open>
  Correctness of the Linux policy routing of \<open>Linux_Routes\<close>: what an acquisition leaves with the plan
  and with the kernel, what a recovery deletes, and where the acquired rules send a packet.

  The netlink calls are observed: \<open>observed nl\<close> is \<open>nl\<close> with a log of every change it is asked to make
  and the answer, so the statements hold for every kernel and every pattern of failures.
\<close>

section \<open>Observed netlink calls\<close>

datatype nl_op = OpRouteAdd lx_route | OpRouteReplace lx_route | OpRouteDel lx_route | OpRuleAdd rule | OpRuleDel rule

type_synonym 'w watched = "'w \<times> (nl_op \<times> go_error option) list"

definition observe :: "('a \<Rightarrow> nl_op) \<Rightarrow> ('a \<Rightarrow> 'w \<Rightarrow> 'w \<times> go_error option) \<Rightarrow> 'a \<Rightarrow> 'w watched \<Rightarrow> 'w watched \<times> go_error option" where
  "observe op f x = (\<lambda>(w, l). case f x w of (w', e) \<Rightarrow> ((w', l @ [(op x, e)]), e))"

definition observed :: "'w netlink \<Rightarrow> 'w watched netlink" where
  "observed nl = \<lparr>nl_RouteList = (\<lambda>f s. nl_RouteList nl f (fst s)),
     nl_RouteAdd = observe OpRouteAdd (nl_RouteAdd nl), nl_RouteReplace = observe OpRouteReplace (nl_RouteReplace nl),
     nl_RouteDel = observe OpRouteDel (nl_RouteDel nl), nl_RuleList = (\<lambda>f s. nl_RuleList nl f (fst s)),
     nl_RuleAdd = observe OpRuleAdd (nl_RuleAdd nl), nl_RuleDel = observe OpRuleDel (nl_RuleDel nl),
     nl_LinkByName = (\<lambda>n s. nl_LinkByName nl n (fst s)), nl_LinkByIndex = (\<lambda>i s. nl_LinkByIndex nl i (fst s)),
     nl_RuleDump = (\<lambda>f s. nl_RuleDump nl f (fst s)), nl_RouteText = nl_RouteText nl, nl_RuleText = nl_RuleText nl\<rparr>"

lemma observed_simps [simp]:
  "nl_RouteList (observed nl) f s = nl_RouteList nl f (fst s)" "nl_RuleList (observed nl) f s = nl_RuleList nl f (fst s)"
  "nl_LinkByName (observed nl) n s = nl_LinkByName nl n (fst s)" "nl_LinkByIndex (observed nl) i s = nl_LinkByIndex nl i (fst s)"
  "nl_RuleDump (observed nl) f s = nl_RuleDump nl f (fst s)" "nl_RouteAdd (observed nl) = observe OpRouteAdd (nl_RouteAdd nl)"
  "nl_RouteReplace (observed nl) = observe OpRouteReplace (nl_RouteReplace nl)" "nl_RouteDel (observed nl) = observe OpRouteDel (nl_RouteDel nl)"
  "nl_RuleAdd (observed nl) = observe OpRuleAdd (nl_RuleAdd nl)" "nl_RuleDel (observed nl) = observe OpRuleDel (nl_RuleDel nl)"
  by (simp_all add: observed_def)

text \<open>One observed operation logs one entry, whose answer is nil exactly when the wrapper returns nil.\<close>

lemma observed_route_op:
  assumes "linuxRouteOperation nl' action r (observe op f) (w, l) = ((w', l'), e)"
  shows "\<exists>a. l' = l @ [(op r, a)] \<and> (a = None \<longleftrightarrow> e = None)"
  using assms by (auto simp: linuxRouteOperation_def observe_def split: prod.splits option.splits if_splits)

lemma observed_rule_op:
  assumes "linuxRuleOperation nl' action r (observe op f) (w, l) = ((w', l'), e)"
  shows "\<exists>a. l' = l @ [(op r, a)] \<and> (a = None \<longleftrightarrow> e = None)"
  using assms by (auto simp: linuxRuleOperation_def observe_def split: prod.splits option.splits if_splits)

section \<open>Acquisition\<close>

fun release_of :: "nl_op \<Rightarrow> 'x lx_token" where
  "release_of (OpRouteAdd r) = DelRoute r"
| "release_of (OpRuleAdd r) = DelPolicy r"
| "release_of op = Nothing"

text \<open>
  An acquisition from plan \<open>p\<close> and log \<open>l\<close> to \<open>p'\<close> and \<open>l'\<close>: the log grows by attempts to add \<open>todo\<close>, in order and
  without a gap, of which all but possibly the last succeeded; the plan grows by one lease for each success.
\<close>

definition acquired :: "nl_op list \<Rightarrow> 'x lx_token plan \<Rightarrow> (nl_op \<times> go_error option) list \<Rightarrow>
    'x lx_token plan \<Rightarrow> (nl_op \<times> go_error option) list \<Rightarrow> bool \<Rightarrow> bool" where
  "acquired todo p l p' l' ok \<longleftrightarrow> (\<exists>got ls. prefix got todo \<and> (ok \<longrightarrow> got = todo)
     \<and> (l' = l @ map (\<lambda>op. (op, None)) got \<or> \<not> ok \<and> (\<exists>op e. prefix (got @ [op]) todo \<and> l' = l @ map (\<lambda>op. (op, None)) got @ [(op, Some e)]))
     \<and> pl_leases p' = pl_leases p @ ls \<and> map le_release ls = map release_of got \<and> list_all (\<lambda>x. \<not> le_closed x) ls
     \<and> pl_closed p' = pl_closed p)"

lemma acquired_Nil [simp]: "acquired [] p l p l ok"
  by (auto simp: acquired_def)

lemma acquired_none: "acquired todo p l p l False"
  by (auto simp: acquired_def intro!: exI[of _ "[]"])

lemma acquired_trans:
  assumes "acquired xs p l p1 l1 True" "acquired ys p1 l1 p2 l2 ok"
  shows "acquired (xs @ ys) p l p2 l2 ok"
proof -
  from assms(1) obtain ls where 1: "l1 = l @ map (\<lambda>op. (op, None)) xs" "pl_leases p1 = pl_leases p @ ls"
      "map le_release ls = map release_of xs" "list_all (\<lambda>x. \<not> le_closed x) ls" "pl_closed p1 = pl_closed p"
    by (auto simp: acquired_def)
  from assms(2) obtain got ls2 where 2: "prefix got ys" "ok \<longrightarrow> got = ys"
      "l2 = l1 @ map (\<lambda>op. (op, None)) got \<or> \<not> ok \<and> (\<exists>op e. prefix (got @ [op]) ys \<and> l2 = l1 @ map (\<lambda>op. (op, None)) got @ [(op, Some e)])"
      "pl_leases p2 = pl_leases p1 @ ls2" "map le_release ls2 = map release_of got" "list_all (\<lambda>x. \<not> le_closed x) ls2" "pl_closed p2 = pl_closed p1"
    by (auto simp: acquired_def)
  show ?thesis unfolding acquired_def
    using 1 2 by (intro exI[of _ "xs @ got"] exI[of _ "ls @ ls2"]) auto
qed

lemma acquired_weaken: "acquired xs p l p' l' False \<Longrightarrow> acquired (xs @ ys) p l p' l' False"
proof -
  have ext: "prefix a xs \<Longrightarrow> prefix a (xs @ ys)" for a by (auto simp: prefix_def)
  assume "acquired xs p l p' l' False"
  then obtain got ls where "prefix got xs"
      "l' = l @ map (\<lambda>op. (op, None)) got \<or> (\<exists>op e. prefix (got @ [op]) xs \<and> l' = l @ map (\<lambda>op. (op, None)) got @ [(op, Some e)])"
      "pl_leases p' = pl_leases p @ ls" "map le_release ls = map release_of got" "list_all (\<lambda>x. \<not> le_closed x) ls" "pl_closed p' = pl_closed p"
    unfolding acquired_def by auto
  with ext show ?thesis unfolding acquired_def by (intro exI[of _ got] exI[of _ ls]) auto
qed

lemma acquired_one:
  assumes "Plan_Acquire run p name (Some a) (Some d) (w, l) = (p', (w', l'), x)"
    and "\<And>w1 l1 e. run a (w, l) = ((w1, l1), e) \<Longrightarrow> \<exists>b. l1 = l @ [(op, b)] \<and> (b = None \<longleftrightarrow> e = None)"
    and "d = release_of op"
  shows "acquired [op] p l p' l' (\<exists>le. x = Inr le)"
proof (cases "pl_closed p")
  case True
  with assms(1) show ?thesis by (auto simp: Plan_Acquire_def acquired_none)
next
  case False
  obtain w1 l1 e where run: "run a (w, l) = ((w1, l1), e)" by (metis surj_pair)
  from assms(2)[OF run] obtain b where b: "l1 = l @ [(op, b)]" "b = None \<longleftrightarrow> e = None" by blast
  show ?thesis
  proof (cases e)
    case None
    with assms(1,3) False run b show ?thesis
      unfolding acquired_def by (intro exI[of _ "[op]"]) (auto simp: Plan_Acquire_def Let_def)
  next
    case (Some err)
    with assms(1) False run b show ?thesis
      unfolding acquired_def by (intro exI[of _ "[]"]) (auto simp: Plan_Acquire_def Let_def)
  qed
qed

lemma acquired_route:
  assumes "acquireLinuxNetworkRoute (observed nl) extra r p (w, l) = (p', (w', l'), e)"
  shows "acquired [OpRouteAdd r] p l p' l' (e = None)"
proof -
  obtain p1 w1 l1 x where pa: "Plan_Acquire (lx_run (observed nl) extra) p (''network-route '' @ dst_text r @ '' table='' @ itoa (rt_Table r))
         (Some (AddRoute r)) (Some (DelRoute r)) (w, l) = (p1, (w1, l1), x)" by (metis surj_pair)
  have "acquired [OpRouteAdd r] p l p1 l1 (\<exists>le. x = Inr le)"
    by (rule acquired_one[OF pa]) (auto dest: observed_route_op)
  with assms pa show ?thesis by (auto simp: acquireLinuxNetworkRoute_def split: sum.splits)
qed

lemma acquired_rules:
  assumes "acquire_rules (observed nl) extra tableID priority mark family os p (w, l) = (p', (w', l'), e)"
  shows "acquired (map (\<lambda>i. OpRuleAdd (network_rule tableID priority mark family i)) os) p l p' l' (e = None)"
  using assms
proof (induction os arbitrary: p w l)
  case Nil
  then show ?case by simp
next
  case (Cons i os)
  let ?r = "network_rule tableID priority mark family i"
  obtain p1 w1 l1 x where pa: "Plan_Acquire (lx_run (observed nl) extra) p (''network-rule family='' @ itoa family @ '' priority='' @ itoa (ru_Priority ?r))
         (Some (AddPolicy ?r)) (Some (DelPolicy ?r)) (w, l) = (p1, (w1, l1), x)" by (metis surj_pair)
  have one: "acquired [OpRuleAdd ?r] p l p1 l1 (\<exists>le. x = Inr le)"
    by (rule acquired_one[OF pa]) (auto dest: observed_rule_op)
  show ?case
  proof (cases x)
    case (Inl err)
    with Cons.prems pa have "p' = p1" "l' = l1" "e = Some err" by (auto simp: Let_def)
    with one Inl show ?thesis using acquired_weaken[of "[OpRuleAdd ?r]"] by simp
  next
    case (Inr le)
    with Cons.prems pa have "acquire_rules (observed nl) extra tableID priority mark family os p1 (w1, l1) = (p', (w', l'), e)"
      by (auto simp: Let_def)
    from acquired_trans[OF _ Cons.IH[OF this], of "[OpRuleAdd ?r]" p l] one Inr show ?thesis by simp
  qed
qed

definition family_adds :: "int \<Rightarrow> int \<Rightarrow> int \<Rightarrow> 32 word \<Rightarrow> int \<Rightarrow> nl_op list" where
  "family_adds tableID priority index mark family = OpRouteAdd (network_route tableID index family)
     # map (\<lambda>i. OpRuleAdd (network_rule tableID priority mark family i)) [0, 1, 2]"

lemma acquired_family:
  assumes "acquireLinuxNetworkFamily (observed nl) extra tableID priority index mark family p (w, l) = (p', (w', l'), e)"
  shows "acquired (family_adds tableID priority index mark family) p l p' l' (e = None)"
proof -
  consider (refused) "p' = p" "l' = l" "e \<noteq> None"
    | (tried) "(case acquireLinuxNetworkRoute (observed nl) extra (network_route tableID index family) p (w, l) of
                   (p', w', Some err) \<Rightarrow> (p', w', Some err)
                 | (p', w', None) \<Rightarrow> acquire_rules (observed nl) extra tableID priority mark family [0, 1, 2] p' w') = (p', (w', l'), e)"
    using assms by (auto simp: acquireLinuxNetworkFamily_def simp del: acquire_rules.simps split: sum.splits if_splits option.splits)
  then show ?thesis
  proof cases
    case refused
    then show ?thesis using acquired_none by auto
  next
    case tried
    obtain p1 w1 l1 e1 where ro: "acquireLinuxNetworkRoute (observed nl) extra (network_route tableID index family) p (w, l) = (p1, (w1, l1), e1)"
      by (metis surj_pair)
    note one = acquired_route[OF ro]
    show ?thesis
    proof (cases e1)
      case None
      with tried ro have "acquire_rules (observed nl) extra tableID priority mark family [0, 1, 2] p1 (w1, l1) = (p', (w', l'), e)"
        by (simp del: acquire_rules.simps)
      from acquired_trans[OF _ acquired_rules[OF this]] one None show ?thesis
        by (fastforce simp: family_adds_def)
    next
      case (Some err)
      with tried ro have "p' = p1" "l' = l1" "e = Some err" by auto
      with one Some acquired_weaken[of "[OpRouteAdd (network_route tableID index family)]"] show ?thesis
        by (simp add: family_adds_def)
    qed
  qed
qed

lemma acquired_families:
  assumes "acquire_families (observed nl) extra tableID priority index mark fs p (w, l) = (p', (w', l'), e)"
  shows "acquired (concat (map (family_adds tableID priority index mark) fs)) p l p' l' (e = None)"
  using assms
proof (induction fs arbitrary: p w l)
  case Nil
  then show ?case by simp
next
  case (Cons f fs)
  obtain p1 w1 l1 e1 where fam: "acquireLinuxNetworkFamily (observed nl) extra tableID priority index mark f p (w, l) = (p1, (w1, l1), e1)"
    by (metis surj_pair)
  note one = acquired_family[OF fam]
  show ?case
  proof (cases e1)
    case None
    with Cons.prems fam have "acquire_families (observed nl) extra tableID priority index mark fs p1 (w1, l1) = (p', (w', l'), e)" by simp
    from acquired_trans[OF _ Cons.IH[OF this]] one None show ?thesis by fastforce
  next
    case (Some err)
    with Cons.prems fam have "p' = p1" "l' = l1" "e = Some err" by auto
    with one Some acquired_weaken show ?thesis by fastforce
  qed
qed

text \<open>What recovery recognises.\<close>

fun recoverable :: "int \<Rightarrow> int \<Rightarrow> nl_op \<Rightarrow> bool" where
  "recoverable tableID priority (OpRouteAdd r) = owned_network_route r (rt_Family r) tableID"
| "recoverable tableID priority (OpRuleAdd r) = linuxOwnsNetworkRule r priority tableID (word_of_int tableID)"
| "recoverable tableID priority op = False"

lemma family_adds_recoverable:
  assumes "family = FAMILY_V4 \<or> family = FAMILY_V6" "index > 0"
  shows "list_all (recoverable tableID priority) (family_adds tableID priority index (word_of_int tableID) family)"
proof -
  have "owned_network_route (network_route tableID index family) family tableID"
    using assms linuxDefaultIPNet_default[of family "network_route tableID index family"]
    by (auto simp: owned_network_route_def network_route_def zero_route_def)
  then show ?thesis
    by (simp add: family_adds_def network_route_def linuxOwnsNetworkRule_def network_rule_def NewRule_def rule_selector_defs zero_route_def Let_def)
qed

section \<open>Recovery\<close>

text \<open>The changes logged between two states, and the answers dropped.\<close>

definition log_grows :: "nl_op list \<Rightarrow> (nl_op \<times> go_error option) list \<Rightarrow> (nl_op \<times> go_error option) list \<Rightarrow> bool" where
  "log_grows ops l l' \<longleftrightarrow> (\<exists>m. l' = l @ m \<and> map fst m = ops)"

lemma log_grows_refl [simp]: "log_grows [] l l"
  by (simp add: log_grows_def)

lemma log_grows_trans: "log_grows xs l l1 \<Longrightarrow> log_grows ys l1 l2 \<Longrightarrow> log_grows (xs @ ys) l l2"
  by (auto simp: log_grows_def)

lemma log_grows_one: "log_grows [op] l (l @ [(op, a)])"
  by (simp add: log_grows_def)

lemma prefix_filter_all: "prefix ds (filter P xs) \<Longrightarrow> list_all P ds"
proof -
  assume "prefix ds (filter P xs)"
  then have "set ds \<subseteq> set (filter P xs)" by (rule set_mono_prefix)
  then show ?thesis by (auto simp: list_all_iff)
qed

lemma delete_owned_rules_log:
  assumes "delete_owned_rules (observed nl) priority tableID mark rs (w, l) = ((w', l'), e)"
  shows "\<exists>ds. prefix ds (filter (\<lambda>r. linuxOwnsNetworkRule r priority tableID mark) rs) \<and> log_grows (map OpRuleDel ds) l l'
    \<and> (e = None \<longrightarrow> ds = filter (\<lambda>r. linuxOwnsNetworkRule r priority tableID mark) rs)"
  using assms
proof (induction rs arbitrary: w l)
  case Nil
  then show ?case by (auto intro!: exI[of _ "[]"])
next
  case (Cons r rs)
  show ?case
  proof (cases "linuxOwnsNetworkRule r priority tableID mark")
    case False
    with Cons.IH[of w l] Cons.prems show ?thesis by simp
  next
    case True
    obtain w1 l1 e1 where op: "linuxRuleOperation (observed nl) ''delete'' r (observe OpRuleDel (nl_RuleDel nl)) (w, l) = ((w1, l1), e1)"
      by (metis surj_pair)
    from observed_rule_op[OF op] have one: "log_grows [OpRuleDel r] l l1" by (auto simp: log_grows_one)
    show ?thesis
    proof (cases "e1 \<noteq> None \<and> \<not> linuxRouteAlreadyGone e1")
      case True
      with Cons.prems op \<open>linuxOwnsNetworkRule r priority tableID mark\<close> have "l' = l1" "e = e1" by auto
      with one True \<open>linuxOwnsNetworkRule r priority tableID mark\<close> show ?thesis by (intro exI[of _ "[r]"]) auto
    next
      case False
      with Cons.prems op True have "delete_owned_rules (observed nl) priority tableID mark rs (w1, l1) = ((w', l'), e)"
        by (auto split: if_splits)
      from Cons.IH[OF this] obtain ds where "prefix ds (filter (\<lambda>r. linuxOwnsNetworkRule r priority tableID mark) rs)"
          "log_grows (map OpRuleDel ds) l1 l'" "e = None \<longrightarrow> ds = filter (\<lambda>r. linuxOwnsNetworkRule r priority tableID mark) rs" by blast
      with log_grows_trans[OF one] True show ?thesis by (intro exI[of _ "r # ds"]) auto
    qed
  qed
qed

definition on_tun :: "(int \<Rightarrow> go_error + link) \<Rightarrow> string \<Rightarrow> int \<Rightarrow> bool" where
  "on_tun links tunName index = (case links index of Inl _ \<Rightarrow> False | Inr link \<Rightarrow> ln_Name link = tunName)"

definition owned_on_tun :: "(int \<Rightarrow> go_error + link) \<Rightarrow> string \<Rightarrow> int \<Rightarrow> int \<Rightarrow> lx_route \<Rightarrow> bool" where
  "owned_on_tun links tunName family tableID r \<longleftrightarrow> owned_network_route r family tableID \<and> on_tun links tunName (rt_LinkIndex r)"

lemma delete_owned_routes_log:
  assumes "\<And>i w. nl_LinkByIndex nl i w = links i"
    and "delete_owned_routes (observed nl) family tableID tunName rs (w, l) = ((w', l'), e)"
  shows "\<exists>ds. prefix ds (filter (owned_on_tun links tunName family tableID) rs) \<and> log_grows (map OpRouteDel ds) l l'
    \<and> (e = None \<longrightarrow> ds = filter (owned_on_tun links tunName family tableID) rs)"
  using assms(2)
proof (induction rs arbitrary: w l)
  case Nil
  then show ?case by (auto intro!: exI[of _ "[]"])
next
  case (Cons r rs)
  consider (skip) "\<not> owned_on_tun links tunName family tableID r" "delete_owned_routes (observed nl) family tableID tunName rs (w, l) = ((w', l'), e)"
    | (fail) "l' = l" "e \<noteq> None"
    | (own) "owned_on_tun links tunName family tableID r"
    using Cons.prems assms(1) by (auto simp: owned_on_tun_def on_tun_def split: if_splits sum.splits)
  then show ?case
  proof cases
    case skip
    with Cons.IH[of w l] show ?thesis by simp
  next
    case fail
    then show ?thesis by (intro exI[of _ "[]"]) auto
  next
    case own
    obtain w1 l1 e1 where op: "linuxRouteOperation (observed nl) ''delete'' r (observe OpRouteDel (nl_RouteDel nl)) (w, l) = ((w1, l1), e1)"
      by (metis surj_pair)
    from observed_route_op[OF op] have one: "log_grows [OpRouteDel r] l l1" by (auto simp: log_grows_one)
    show ?thesis
    proof (cases "e1 \<noteq> None \<and> \<not> linuxRouteAlreadyGone e1")
      case True
      with Cons.prems op own assms(1) have "l' = l1" "e = e1" by (auto simp: owned_on_tun_def on_tun_def split: sum.splits)
      with one True own show ?thesis by (intro exI[of _ "[r]"]) auto
    next
      case False
      with Cons.prems op own assms(1) have "delete_owned_routes (observed nl) family tableID tunName rs (w1, l1) = ((w', l'), e)"
        by (auto simp: owned_on_tun_def on_tun_def split: if_splits sum.splits)
      from Cons.IH[OF this] obtain ds where "prefix ds (filter (owned_on_tun links tunName family tableID) rs)"
          "log_grows (map OpRouteDel ds) l1 l'" "e = None \<longrightarrow> ds = filter (owned_on_tun links tunName family tableID) rs" by blast
      with log_grows_trans[OF one] own show ?thesis by (intro exI[of _ "r # ds"]) auto
    qed
  qed
qed

text \<open>The deletions a family's listings call for.\<close>

definition family_dels :: "(int \<Rightarrow> go_error + link) \<Rightarrow> int \<Rightarrow> int \<Rightarrow> string \<Rightarrow> int \<Rightarrow> rule list \<Rightarrow> lx_route list \<Rightarrow> nl_op list" where
  "family_dels links tableID priority tunName family rules routes =
     map OpRuleDel (filter (\<lambda>r. linuxOwnsNetworkRule r priority tableID (word_of_int tableID)) rules)
     @ map OpRouteDel (filter (owned_on_tun links tunName family tableID) routes)"

fun owned_delete :: "(int \<Rightarrow> go_error + link) \<Rightarrow> int \<Rightarrow> int \<Rightarrow> string \<Rightarrow> nl_op \<Rightarrow> bool" where
  "owned_delete links tableID priority tunName (OpRuleDel r) = linuxOwnsNetworkRule r priority tableID (word_of_int tableID)"
| "owned_delete links tableID priority tunName (OpRouteDel r) = list_ex (\<lambda>f. owned_on_tun links tunName f tableID r) [FAMILY_V4, FAMILY_V6]"
| "owned_delete links tableID priority tunName op = False"

lemma linuxNetworkRules_observed [simp]:
  "linuxNetworkRules show_id (observed nl) family priority (w, l) = linuxNetworkRules show_id nl family priority w"
proof -
  have "linuxNativeRuleActions (observed nl) family (w, l) = linuxNativeRuleActions nl family w"
    by (simp add: linuxNativeRuleActions_def)
  then have "fill_actions show_id (observed nl) family priority (w, l) a rs = fill_actions show_id nl family priority w a rs" for a rs
    by (induction rs arbitrary: a) (simp_all split: sum.splits option.splits cong: if_cong)
  then show ?thesis by (simp add: linuxNetworkRules_def split: sum.splits)
qed

lemma recover_family_log:
  assumes "\<And>i w. nl_LinkByIndex nl i w = links i" and "family = FAMILY_V4 \<or> family = FAMILY_V6"
    and "recoverLinuxNetworkFamily show_id (observed nl) family tableID priority (word_of_int tableID) tunName (w, l) = ((w', l'), e)"
  shows "\<exists>ops. log_grows ops l l' \<and> list_all (owned_delete links tableID priority tunName) ops
    \<and> (e = None \<longrightarrow> (\<exists>rules routes w1. linuxNetworkRules show_id nl family priority w = Inr rules \<and> nl_RouteList nl family w1 = Inr routes
         \<and> ops = family_dels links tableID priority tunName family rules routes))"
proof -
  let ?own = "\<lambda>r. linuxOwnsNetworkRule r priority tableID (word_of_int tableID)"
  let ?ownr = "owned_on_tun links tunName family tableID"
  obtain w1 l1 e1 where ru: "recoverLinuxNetworkFamilyRules show_id (observed nl) family priority tableID (word_of_int tableID) (w, l) = ((w1, l1), e1)"
    by (metis surj_pair)
  have rules: "\<exists>ds. log_grows (map OpRuleDel ds) l l1 \<and> list_all ?own ds
      \<and> (e1 = None \<longrightarrow> (\<exists>rules. linuxNetworkRules show_id nl family priority w = Inr rules \<and> ds = filter ?own rules))"
  proof (cases "linuxNetworkRules show_id nl family priority w")
    case (Inl err)
    with ru show ?thesis by (intro exI[of _ "[]"]) (auto simp: recoverLinuxNetworkFamilyRules_def)
  next
    case (Inr rules)
    with ru have "delete_owned_rules (observed nl) priority tableID (word_of_int tableID) rules (w, l) = ((w1, l1), e1)"
      by (simp add: recoverLinuxNetworkFamilyRules_def)
    from delete_owned_rules_log[OF this] obtain ds where "prefix ds (filter ?own rules)" "log_grows (map OpRuleDel ds) l l1"
        "e1 = None \<longrightarrow> ds = filter ?own rules" by blast
    moreover from this(1) have "list_all ?own ds" by (rule prefix_filter_all)
    ultimately show ?thesis using Inr by blast
  qed
  then obtain ds where ds: "log_grows (map OpRuleDel ds) l l1" "list_all ?own ds"
      "e1 = None \<longrightarrow> (\<exists>rules. linuxNetworkRules show_id nl family priority w = Inr rules \<and> ds = filter ?own rules)" by blast
  show ?thesis
  proof (cases e1)
    case (Some err)
    with assms(3) ru have "l' = l1" "e = Some err" by (auto simp: recoverLinuxNetworkFamily_def)
    with ds show ?thesis by (intro exI[of _ "map OpRuleDel ds"]) (auto simp: list_all_iff)
  next
    case None
    with assms(3) ru have ro: "recoverLinuxNetworkFamilyRoutes (observed nl) family tableID tunName (w1, l1) = ((w', l'), e)"
      by (auto simp: recoverLinuxNetworkFamily_def)
    show ?thesis
    proof (cases "nl_RouteList nl family w1")
      case (Inl err)
      with ro have "l' = l1" "e = Some err" by (auto simp: recoverLinuxNetworkFamilyRoutes_def)
      with ds show ?thesis by (intro exI[of _ "map OpRuleDel ds"]) (auto simp: list_all_iff)
    next
      case (Inr routes)
      with ro have "delete_owned_routes (observed nl) family tableID tunName routes (w1, l1) = ((w', l'), e)"
        by (simp add: recoverLinuxNetworkFamilyRoutes_def)
      from delete_owned_routes_log[OF assms(1) this] obtain rs where rs: "prefix rs (filter ?ownr routes)"
          "log_grows (map OpRouteDel rs) l1 l'" "e = None \<longrightarrow> rs = filter ?ownr routes" by blast
      from rs(1) have "list_all ?ownr rs" by (rule prefix_filter_all)
      let ?ops = "map OpRuleDel ds @ map OpRouteDel rs"
      have "list_all (owned_delete links tableID priority tunName) ?ops"
        using ds(2) \<open>list_all ?ownr rs\<close> assms(2) by (auto simp: list_all_iff)
      moreover have "log_grows ?ops l l'" by (rule log_grows_trans[OF ds(1) rs(2)])
      moreover have "\<exists>rules routes w1. linuxNetworkRules show_id nl family priority w = Inr rules \<and> nl_RouteList nl family w1 = Inr routes
           \<and> ?ops = family_dels links tableID priority tunName family rules routes" if e: "e = None"
      proof -
        from ds(3) None obtain rules where "linuxNetworkRules show_id nl family priority w = Inr rules" "ds = filter ?own rules" by blast
        with rs(3) e Inr show ?thesis by (intro exI[of _ rules] exI[of _ routes] exI[of _ w1]) (simp add: family_dels_def)
      qed
      ultimately show ?thesis by blast
    qed
  qed
qed

section \<open>Recovery of older routes\<close>

text \<open>What the recovery of older versions may change: tagged routes, the exact session rule, and the main default.\<close>

fun legacy_change :: "int \<Rightarrow> int \<Rightarrow> nl_op \<Rightarrow> bool" where
  "legacy_change tableID priority (OpRouteDel r) = (rt_Protocol r = linuxOwnedRouteProtocol \<and> (rt_Table r = RT_TABLE_MAIN \<or> rt_Table r = tableID))"
| "legacy_change tableID priority (OpRuleDel r) = linuxSessionRuleMatches r tableID priority"
| "legacy_change tableID priority (OpRouteReplace r) =
     (rt_Table r = RT_TABLE_MAIN \<and> rt_Protocol r = RTPROT_BOOT \<and> linuxRouteIsDefault r FAMILY_V4 \<and> rt_Gw r \<noteq> None \<and> rt_LinkIndex r > 0)"
| "legacy_change tableID priority op = False"

lemma linuxRecoveryRouteForDelete_fields [simp]:
  "rt_Protocol (linuxRecoveryRouteForDelete r f) = rt_Protocol r" "rt_Table (linuxRecoveryRouteForDelete r f) = rt_Table r"
  by (simp_all add: linuxRecoveryRouteForDelete_def)

definition collected_ok :: "int \<Rightarrow> recovery_routes \<Rightarrow> bool" where
  "collected_ok tableID rr \<longleftrightarrow> list_all (\<lambda>r. legacy_change tableID 0 (OpRouteDel r)) (rr_deletes rr)
     \<and> (case rr_restoreDefault rr of None \<Rightarrow> True | Some d \<Rightarrow> legacy_change tableID 0 (OpRouteReplace d))"

lemma restore_candidate_ok:
  assumes "linuxOwnedMarkedGatewayRoute r tableID"
  shows "legacy_change tableID 0 (OpRouteReplace (restore_candidate r))"
  using assms linuxDefaultIPNet_default[of FAMILY_V4 "restore_candidate r"]
  by (auto simp: restore_candidate_def linuxOwnedMarkedGatewayRoute_def zero_route_def split: option.splits)

lemma collect_ipv4_ok: "collected_ok tableID acc \<Longrightarrow> collected_ok tableID (collect_ipv4 nl w tableID tunName r acc)"
proof -
  assume ok: "collected_ok tableID acc"
  have tagged: "rt_Protocol r = linuxOwnedRouteProtocol"
    if "linuxOwnedProxyRoute r \<or> linuxOwnedTunnelRoute nl w r tunName \<or> linuxOwnedTerminalRoute r tableID \<or> linuxOwnedMarkedGatewayRoute r tableID"
    using that by (auto simp: linuxOwnedProxyRoute_def linuxOwnedTunnelRoute_def linuxOwnedTerminalRoute_def linuxOwnedMarkedGatewayRoute_def split: if_splits)
  show ?thesis
  proof (cases "rt_Table r = RT_TABLE_MAIN")
    case True
    with ok tagged show ?thesis by (auto simp: collect_ipv4_def collected_ok_def)
  next
    case False
    with ok tagged restore_candidate_ok[of r tableID] show ?thesis
      by (auto simp: collect_ipv4_def collected_ok_def Let_def split: option.splits)
  qed
qed

lemma collectLinuxRecoveryRoutes_ok: "collected_ok tableID (collectLinuxRecoveryRoutes nl w r4 r6 tableID tunName)"
proof -
  have "collected_ok tableID (fold (collect_ipv4 nl w tableID tunName) rs acc)" if "collected_ok tableID acc" for rs acc
    using that by (induction rs arbitrary: acc) (auto simp: collect_ipv4_ok)
  then have "collected_ok tableID (fold (collect_ipv4 nl w tableID tunName) r4
      \<lparr>rr_deletes = [], rr_hasIndependentDefault = False, rr_restoreDefault = None, rr_restoreDefaultAmbiguous = False\<rparr>)"
    by (auto simp: collected_ok_def)
  then show ?thesis
    by (auto simp: collectLinuxRecoveryRoutes_def collected_ok_def list_all_iff linuxOwnedIPv6Route_def Let_def split: if_splits)
qed

text \<open>A physical default route in the main table is left alone, and then nothing replaces it.\<close>

lemma collect_ipv4_independent:
  "rr_hasIndependentDefault acc \<Longrightarrow> rr_hasIndependentDefault (collect_ipv4 nl w tableID tunName r acc)"
  by (auto simp: collect_ipv4_def Let_def split: option.splits)

lemma collect_independent:
  assumes "r \<in> set r4" "rt_Table r = RT_TABLE_MAIN" "linuxRouteIsDefault r FAMILY_V4" "rt_Protocol r \<noteq> linuxOwnedRouteProtocol"
  shows "rr_hasIndependentDefault (collectLinuxRecoveryRoutes nl w r4 r6 tableID tunName)"
proof -
  have keep: "rr_hasIndependentDefault (fold (collect_ipv4 nl w tableID tunName) rs acc)" if "rr_hasIndependentDefault acc" for rs acc
    using that by (induction rs arbitrary: acc) (auto simp: collect_ipv4_independent)
  have sets: "rr_hasIndependentDefault (collect_ipv4 nl w tableID tunName r acc)" for acc
    using assms(2-4) by (simp add: collect_ipv4_def linuxOwnedProxyRoute_def linuxOwnedTunnelRoute_def)
  from assms(1) obtain xs ys where "r4 = xs @ r # ys" by (meson split_list)
  then show ?thesis using keep[OF sets] by (simp add: collectLinuxRecoveryRoutes_def Let_def)
qed

lemma remove_rules_log:
  "remove_rules (observed nl) rs (w, l) = ((w', l'), errs) \<Longrightarrow> log_grows (map OpRuleDel rs) l l'"
proof (induction rs arbitrary: w l w' l' errs)
  case (Cons r rs)
  obtain w1 l1 e1 where op: "linuxRuleOperation (observed nl) ''delete'' r (observe OpRuleDel (nl_RuleDel nl)) (w, l) = ((w1, l1), e1)"
    by (metis surj_pair)
  obtain w2 l2 errs2 where re: "remove_rules (observed nl) rs (w1, l1) = ((w2, l2), errs2)" by (metis surj_pair)
  from observed_rule_op[OF op] have "log_grows [OpRuleDel r] l l1" by (auto simp: log_grows_one)
  from log_grows_trans[OF this Cons.IH[OF re]] Cons.prems op re show ?case by (simp split: prod.splits)
qed simp

lemma remove_routes_log:
  "remove_routes (observed nl) rs (w, l) = ((w', l'), errs) \<Longrightarrow> log_grows (map OpRouteDel rs) l l'"
proof (induction rs arbitrary: w l w' l' errs)
  case (Cons r rs)
  obtain w1 l1 e1 where op: "linuxRouteOperation (observed nl) ''delete'' r (observe OpRouteDel (nl_RouteDel nl)) (w, l) = ((w1, l1), e1)"
    by (metis surj_pair)
  obtain w2 l2 errs2 where re: "remove_routes (observed nl) rs (w1, l1) = ((w2, l2), errs2)" by (metis surj_pair)
  from observed_route_op[OF op] have "log_grows [OpRouteDel r] l l1" by (auto simp: log_grows_one)
  from log_grows_trans[OF this Cons.IH[OF re]] Cons.prems op re show ?case by (simp split: prod.splits)
qed simp

definition restores :: "recovery_routes \<Rightarrow> nl_op list" where
  "restores rr = (case rr_restoreDefault rr of None \<Rightarrow> []
     | Some d \<Rightarrow> if rr_restoreDefaultAmbiguous rr \<or> rr_hasIndependentDefault rr then [] else [OpRouteReplace d])"

lemma restore_default_log:
  assumes "restore_default (observed nl) rr (w, l) = ((w', l'), errs)"
  shows "log_grows (restores rr) l l'"
proof (cases "restores rr = []")
  case True
  with assms show ?thesis by (auto simp: restore_default_def restores_def split: if_splits option.splits)
next
  case False
  then obtain d where d: "rr_restoreDefault rr = Some d" "\<not> rr_restoreDefaultAmbiguous rr" "\<not> rr_hasIndependentDefault rr"
    by (auto simp: restores_def split: option.splits if_splits)
  obtain w1 l1 e1 where op: "linuxRouteOperation (observed nl) ''replace'' d (observe OpRouteReplace (nl_RouteReplace nl)) (w, l) = ((w1, l1), e1)"
    by (metis surj_pair)
  from observed_route_op[OF op] assms d op show ?thesis
    by (auto simp: restore_default_def restores_def log_grows_one split: option.splits)
qed

lemma RecoverLinuxOwnedRoutes_log:
  assumes "RecoverLinuxOwnedRoutes (observed nl) tableID priority tunName (w, l) = ((w', l'), e)"
  shows "\<exists>ops. log_grows ops l l' \<and> list_all (legacy_change tableID priority) ops
    \<and> (\<forall>r4 r. nl_RouteList nl FAMILY_V4 w = Inr r4 \<and> r \<in> set r4 \<and> rt_Table r = RT_TABLE_MAIN \<and> linuxRouteIsDefault r FAMILY_V4
          \<and> rt_Protocol r \<noteq> linuxOwnedRouteProtocol \<longrightarrow> list_all (\<lambda>op. \<forall>d. op \<noteq> OpRouteReplace d) ops)"
proof -
  have priority_free: "legacy_change tableID 0 (OpRouteDel r) = legacy_change tableID priority (OpRouteDel r)"
      "legacy_change tableID 0 (OpRouteReplace r) = legacy_change tableID priority (OpRouteReplace r)" for r by simp_all
  show ?thesis
  proof (cases "\<exists>r4 r6. nl_RouteList nl FAMILY_V4 w = Inr r4 \<and> nl_RouteList nl FAMILY_V6 w = Inr r6")
    case False
    with assms have "l' = l" by (auto simp: RecoverLinuxOwnedRoutes_def split: sum.splits)
    then show ?thesis by (intro exI[of _ "[]"]) simp
  next
    case True
    then obtain r4 r6 where lists: "nl_RouteList nl FAMILY_V4 w = Inr r4" "nl_RouteList nl FAMILY_V6 w = Inr r6" by blast
    let ?rr = "collectLinuxRecoveryRoutes (observed nl) (w, l) r4 r6 tableID tunName"
    let ?rules = "case nl_RuleList nl FAMILY_V4 w of Inl _ \<Rightarrow> [] | Inr rules \<Rightarrow> filter (\<lambda>r. linuxSessionRuleMatches r tableID priority) rules"
    obtain w1 l1 x1 where 1: "remove_rules (observed nl) ?rules (w, l) = ((w1, l1), x1)" by (metis surj_pair)
    obtain w2 l2 x2 where 2: "remove_routes (observed nl) (rr_deletes ?rr) (w1, l1) = ((w2, l2), x2)" by (metis surj_pair)
    obtain w3 l3 x3 where 3: "restore_default (observed nl) ?rr (w2, l2) = ((w3, l3), x3)" by (metis surj_pair)
    let ?ops = "map OpRuleDel ?rules @ map OpRouteDel (rr_deletes ?rr) @ restores ?rr"
    from assms lists 1 2 3 have "l' = l \<or> l' = l3"
      by (auto simp: RecoverLinuxOwnedRoutes_def Let_def split: if_splits)
    moreover have "log_grows ?ops l l3"
      using log_grows_trans[OF remove_rules_log[OF 1] log_grows_trans[OF remove_routes_log[OF 2] restore_default_log[OF 3]]] .
    moreover have "list_all (legacy_change tableID priority) ?ops"
      using collectLinuxRecoveryRoutes_ok[of tableID "observed nl" "(w, l)" r4 r6 tunName] priority_free
      by (auto simp: collected_ok_def restores_def list_all_iff split: sum.splits option.splits)
    moreover have "restores ?rr = []"
      if "r \<in> set r4" "rt_Table r = RT_TABLE_MAIN" "linuxRouteIsDefault r FAMILY_V4" "rt_Protocol r \<noteq> linuxOwnedRouteProtocol" for r
      using collect_independent[OF that, of "observed nl" "(w, l)" r6 tableID tunName] by (simp add: restores_def split: option.splits)
    then have "list_all (\<lambda>op. \<forall>d. op \<noteq> OpRouteReplace d) ?ops"
      if "r \<in> set r4" "rt_Table r = RT_TABLE_MAIN" "linuxRouteIsDefault r FAMILY_V4" "rt_Protocol r \<noteq> linuxOwnedRouteProtocol" for r
      using that by (auto simp: list_all_iff)
    ultimately show ?thesis
    proof (elim disjE)
      assume "l' = l"
      then show ?thesis by (intro exI[of _ "[]"]) simp
    next
      assume l': "l' = l3" and grows: "log_grows ?ops l l3" and all: "list_all (legacy_change tableID priority) ?ops"
      assume no: "\<And>r. r \<in> set r4 \<Longrightarrow> rt_Table r = RT_TABLE_MAIN \<Longrightarrow> linuxRouteIsDefault r FAMILY_V4 \<Longrightarrow>
          rt_Protocol r \<noteq> linuxOwnedRouteProtocol \<Longrightarrow> list_all (\<lambda>op. \<forall>d. op \<noteq> OpRouteReplace d) ?ops"
      have "list_all (\<lambda>op. \<forall>d. op \<noteq> OpRouteReplace d) ?ops"
        if "nl_RouteList nl FAMILY_V4 w = Inr rs \<and> r \<in> set rs \<and> rt_Table r = RT_TABLE_MAIN \<and> linuxRouteIsDefault r FAMILY_V4
          \<and> rt_Protocol r \<noteq> linuxOwnedRouteProtocol" for rs r
        using that lists(1) no[of r] by (metis sum.inject(2))
      with l' grows all show ?thesis by blast
    qed
  qed
qed

section \<open>Where the rules send a packet\<close>

datatype fib_result = Via int int | Unreachable | NoRoute

definition rule_mark_matches :: "rule \<Rightarrow> 32 word \<Rightarrow> bool" where
  "rule_mark_matches r mk \<longleftrightarrow> mk AND (case ru_Mask r of Some m \<Rightarrow> m | None \<Rightarrow> if ru_Mark r = 0 then 0 else - 1) = ru_Mark r"

text \<open>
  The documented evaluation of policy rules (ip-rule(8)) in order of priority: \<open>sel\<close> is the match of the
  remaining selectors, true for a rule without any; a table without a route continues with the next rule.
\<close>

definition neutral :: "rule \<Rightarrow> bool" where
  "neutral r \<longleftrightarrow> linuxSessionRuleHasNoAddressSelectors r \<and> linuxSessionRuleHasNoFlowSelectors r
     \<and> linuxSessionRuleHasNoTransportSelectors (r\<lparr>ru_Protocol := 0, ru_Type := 0\<rparr>)"

fun fib_lookup :: "(rule \<Rightarrow> 'd \<Rightarrow> bool) \<Rightarrow> (int \<Rightarrow> 'd \<Rightarrow> int option) \<Rightarrow> rule list \<Rightarrow> 32 word \<Rightarrow> 'd \<Rightarrow> fib_result" where
  "fib_lookup sel tables [] mk d = NoRoute"
| "fib_lookup sel tables (r # rs) mk d =
     (if rule_mark_matches r mk \<and> (neutral r \<or> sel r d) then
        (if ru_Type r = word_of_int FR_ACT_UNREACHABLE then Unreachable
         else if ru_Type r = word_of_int FR_ACT_TO_TBL then
           (case tables (ru_Table r) d of Some i \<Rightarrow> Via (ru_Table r) i | None \<Rightarrow> fib_lookup sel tables rs mk d)
         else fib_lookup sel tables rs mk d)
      else fib_lookup sel tables rs mk d)"

definition fib_documented :: "(rule list \<Rightarrow> 32 word \<Rightarrow> 'd \<Rightarrow> fib_result) \<Rightarrow> (rule \<Rightarrow> 'd \<Rightarrow> bool) \<Rightarrow> (int \<Rightarrow> 'd \<Rightarrow> int option) \<Rightarrow> bool" where
  "fib_documented lookup sel tables \<longleftrightarrow> (\<forall>rules mk d. sorted (map ru_Priority rules) \<longrightarrow> lookup rules mk d = fib_lookup sel tables rules mk d)"

lemma fib_lookup_append: "fib_lookup sel tables xs mk d = NoRoute \<Longrightarrow> fib_lookup sel tables (xs @ ys) mk d = fib_lookup sel tables ys mk d"
  by (induction xs) (auto split: if_splits option.splits)

lemma word_id_nonzero:
  assumes "0 < k" "k < 2 ^ 32"
  shows "(word_of_int k :: 32 word) \<noteq> 0"
proof
  assume z: "(word_of_int k :: 32 word) = 0"
  have "uint (word_of_int k :: 32 word) = k mod 2 ^ 32" by (simp add: uint_word_of_int)
  with assms z show False by simp
qed

lemma network_rule_neutral [simp]: "i \<in> {0, 1, 2} \<Longrightarrow> neutral (network_rule tableID priority mark family i)"
  by (auto simp: neutral_def rule_selector_defs network_rule_def NewRule_def Let_def)

lemma network_rule_fields:
  assumes "mark \<noteq> 0"
  shows "rule_mark_matches (network_rule tableID priority mark family 0) mk \<longleftrightarrow> mk = mark"
    "rule_mark_matches (network_rule tableID priority mark family (Suc 0)) mk \<longleftrightarrow> mk = mark"
    "rule_mark_matches (network_rule tableID priority mark family 2) mk"
    "ru_Table (network_rule tableID priority mark family 0) = RT_TABLE_MAIN"
    "ru_Table (network_rule tableID priority mark family 2) = tableID"
  using assms by (simp_all add: rule_mark_matches_def network_rule_def NewRule_def Let_def)

lemma network_rule_types:
  "ru_Type (network_rule tableID priority mark family 0) = 1"
  "ru_Type (network_rule tableID priority mark family (Suc 0)) = 7"
  "ru_Type (network_rule tableID priority mark family 2) = 1"
  "(word_of_int FR_ACT_TO_TBL :: 8 word) = 1" "(word_of_int FR_ACT_UNREACHABLE :: 8 word) = 7"
  by (simp_all add: network_rule_def NewRule_def Let_def FR_ACT_TO_TBL_def FR_ACT_UNREACHABLE_def)

section \<open>A kernel for the witnesses\<close>

definition demo_rule :: rule where
  "demo_rule = network_rule 51820 100 51820 FAMILY_V4 2"

definition demo_nl :: "unit netlink" where
  "demo_nl = \<lparr>nl_RouteList = (\<lambda>f w. Inr []), nl_RouteAdd = (\<lambda>r w. (w, None)), nl_RouteReplace = (\<lambda>r w. (w, None)), nl_RouteDel = (\<lambda>r w. (w, None)),
     nl_RuleList = (\<lambda>f w. Inr (if f = FAMILY_V4 then [demo_rule] else [])), nl_RuleAdd = (\<lambda>r w. (w, None)), nl_RuleDel = (\<lambda>r w. (w, None)),
     nl_LinkByName = (\<lambda>n w. Inr \<lparr>ln_Name = n, ln_Index = 5, ln_Up = True\<rparr>), nl_LinkByIndex = (\<lambda>i w. Inr \<lparr>ln_Name = ''tun0'', ln_Index = i, ln_Up = True\<rparr>),
     nl_RuleDump = (\<lambda>f w. Inr []), nl_RouteText = (\<lambda>r. []), nl_RuleText = (\<lambda>r. [])\<rparr>"

section \<open>Properties\<close>

text \<open>
  C16. Whatever the kernel answers, an acquisition of the retained network leaves the plan exactly one
  open lease, with the matching deletion, for every route and rule the kernel accepted, in order; all of
  them are recognised by the recovery of a later process; and a successful one has added for each family the
  default route over the TUN in the session's table and its three rules, and nothing else.
\<close>

theorem network_acquisition_owned:
  assumes "AcquireLinuxNetwork (observed nl) extra tunName tableID priority p (w, []) = (p', (w', l'), e)"
  shows "\<exists>got ls. map fst (filter (\<lambda>(op, a). a = None) l') = got \<and> list_all (recoverable tableID priority) got
    \<and> pl_leases p' = pl_leases p @ ls \<and> map le_release ls = map release_of got \<and> list_all (\<lambda>x. \<not> le_closed x) ls
    \<and> (e = None \<longrightarrow> (\<exists>index. linuxLinkIndex nl tunName w = Inr index \<and> map fst l' = got \<and> got =
          family_adds tableID priority index (word_of_int tableID) FAMILY_V4 @ family_adds tableID priority index (word_of_int tableID) FAMILY_V6))"
proof (cases "\<exists>index. linuxLinkIndex nl tunName w = Inr index \<and> \<not> invalid_identity tableID priority")
  case False
  with assms have "p' = p" "l' = []" "e \<noteq> None"
    by (auto simp: AcquireLinuxNetwork_def linuxLinkIndex_def split: if_splits sum.splits)
  then show ?thesis by (auto intro!: exI[of _ "[]"])
next
  case True
  then obtain index where ix: "linuxLinkIndex nl tunName w = Inr index" and ok: "\<not> invalid_identity tableID priority" by blast
  from ix have pos: "index > 0" by (auto simp: linuxLinkIndex_def split: if_splits sum.splits)
  have same: "linuxLinkIndex (observed nl) tunName (w, []) = linuxLinkIndex nl tunName w" by (simp add: linuxLinkIndex_def)
  let ?todo = "family_adds tableID priority index (word_of_int tableID) FAMILY_V4 @ family_adds tableID priority index (word_of_int tableID) FAMILY_V6"
  from assms ix ok same have "acquire_families (observed nl) extra tableID priority index (word_of_int tableID) [FAMILY_V4, FAMILY_V6] p (w, []) = (p', (w', l'), e)"
    by (simp add: AcquireLinuxNetwork_def del: acquire_families.simps)
  from acquired_families[OF this] have acq: "acquired ?todo p [] p' l' (e = None)" by simp
  then obtain got ls where g: "prefix got ?todo" "e = None \<longrightarrow> got = ?todo"
      "l' = map (\<lambda>op. (op, None)) got \<or> e \<noteq> None \<and> (\<exists>op x. l' = map (\<lambda>op. (op, None)) got @ [(op, Some x)])"
      "pl_leases p' = pl_leases p @ ls" "map le_release ls = map release_of got" "list_all (\<lambda>x. \<not> le_closed x) ls"
    by (auto simp: acquired_def)
  have "list_all (recoverable tableID priority) ?todo" using family_adds_recoverable[OF _ pos] by auto
  with set_mono_prefix[OF g(1)] have "list_all (recoverable tableID priority) got" by (auto simp: list_all_iff)
  moreover have "map fst (filter (\<lambda>(op, a). a = None) (map (\<lambda>op. (op, None)) got)) = got" by (induction got) auto
  then have "map fst (filter (\<lambda>(op, a). a = None) l') = got" using g(3) by auto
  moreover have "map fst l' = got" if "e = None" using g(3) that by (auto simp: comp_def)
  ultimately show ?thesis using g ix by blast
qed

theorem network_acquisition_owned_witness:
  "\<exists>p' l'. AcquireLinuxNetwork (observed demo_nl) (\<lambda>x w. (w, None)) ''tun0'' 51820 200 (NewPlan ''s'' :: unit lx_token plan) ((), []) = (p', ((), l'), None)
     \<and> length (pl_leases p') = 8 \<and> length l' = 8"
proof -
  obtain p' l' e where run: "AcquireLinuxNetwork (observed demo_nl) (\<lambda>x w. (w, None)) ''tun0'' 51820 200 (NewPlan ''s'' :: unit lx_token plan) ((), []) = (p', ((), l'), e)"
    by (cases "AcquireLinuxNetwork (observed demo_nl) (\<lambda>x w. (w, None)) ''tun0'' 51820 200 (NewPlan ''s'' :: unit lx_token plan) ((), [])") auto
  have "snd (snd (AcquireLinuxNetwork (observed demo_nl) (\<lambda>x w. (w, None)) ''tun0'' 51820 200 (NewPlan ''s'' :: unit lx_token plan) ((), []))) = None"
  proof -
    have "ru_Priority demo_rule = 102" by (simp add: demo_rule_def network_rule_def NewRule_def Let_def)
    then show ?thesis
      by (simp add: AcquireLinuxNetwork_def invalid_identity_def netlink_consts acquireLinuxNetworkFamily_def acquireLinuxNetworkRoute_def
          Plan_Acquire_def NewPlan_def linuxRouteOperation_def linuxRuleOperation_def linuxLinkIndex_def observe_def demo_nl_def Let_def)
  qed
  with run have e: "e = None" by simp
  have four: "length (family_adds 51820 200 i m f) = 4" for i m f by (simp add: family_adds_def)
  from network_acquisition_owned[OF run] e obtain got ls index where ls: "pl_leases p' = pl_leases (NewPlan ''s'' :: unit lx_token plan) @ ls"
      "map le_release ls = map release_of got" and l': "map fst l' = got"
      and got: "got = family_adds 51820 200 index (word_of_int 51820) FAMILY_V4 @ family_adds 51820 200 index (word_of_int 51820) FAMILY_V6" by blast
  have "length got = 8" by (simp add: got four)
  moreover from ls(2) have "length ls = length got" by (rule map_eq_imp_length_eq)
  moreover have "length l' = length got" unfolding l'[symmetric] by simp
  ultimately have "length (pl_leases p') = 8" "length l' = 8" using ls(1) by (auto simp: NewPlan_def)
  with run e show ?thesis by blast
qed



text \<open>
  C18. With the three rules of the session in place, and a default route in its table, a packet that no rule
  of a smaller priority routes goes by its mark alone: an unmarked or foreign packet into the TUN, a packet
  with the session's mark by the physical main table, and to nowhere when that table has no route for it. The rules
  that follow are never consulted.
\<close>

theorem policy_routing_splits:
  assumes "fib_documented lookup sel tables" and "0 < tableID" "tableID < 2 ^ 32"
    and "sorted (map ru_Priority (before @ map (network_rule tableID priority (word_of_int tableID) family) [0, 1, 2] @ after))"
    and "fib_lookup sel tables before mk d = NoRoute" and "tables tableID d = Some index"
  shows "lookup (before @ map (network_rule tableID priority (word_of_int tableID) family) [0, 1, 2] @ after) mk d =
    (if mk = word_of_int tableID then (case tables RT_TABLE_MAIN d of Some i \<Rightarrow> Via RT_TABLE_MAIN i | None \<Rightarrow> Unreachable)
     else Via tableID index)"
proof -
  have nz: "(word_of_int tableID :: 32 word) \<noteq> 0" by (rule word_id_nonzero[OF assms(2,3)])
  have "lookup (before @ map (network_rule tableID priority (word_of_int tableID) family) [0, 1, 2] @ after) mk d =
      fib_lookup sel tables (map (network_rule tableID priority (word_of_int tableID) family) [0, 1, 2] @ after) mk d"
    using assms(1,4,5) by (simp only: fib_documented_def fib_lookup_append)
  also have "\<dots> = (if mk = word_of_int tableID then (case tables RT_TABLE_MAIN d of Some i \<Rightarrow> Via RT_TABLE_MAIN i | None \<Rightarrow> Unreachable)
     else Via tableID index)"
    using assms(6) by (simp add: network_rule_fields[OF nz] network_rule_types split: option.splits)
  finally show ?thesis .
qed

theorem policy_routing_splits_witness:
  "fib_lookup (\<lambda>r d. False) (\<lambda>t d. if t = 51820 then Some 5 else None) (map (network_rule 51820 100 51820 FAMILY_V4) [0, 1, 2]) 51820 () = Unreachable"
proof -
  let ?tables = "\<lambda>t d. if t = 51820 then Some 5 else None"
  have "fib_documented (fib_lookup (\<lambda>r d. False) ?tables) (\<lambda>r d. False) ?tables" by (simp add: fib_documented_def)
  from policy_routing_splits[OF this, of 51820 "[]" 100 FAMILY_V4 "[]" 51820 "()" 5] show ?thesis
    by (simp add: network_rule_def NewRule_def Let_def RT_TABLE_MAIN_def)
qed

text \<open>The recovery of older versions changes only tagged routes, the session's own rule and, when no other default exists, the main default route.\<close>

theorem legacy_recovery_tagged:
  assumes "RecoverLinuxOwnedRoutes (observed nl) tableID priority tunName (w, []) = ((w', l'), e)"
  shows "list_all (legacy_change tableID priority) (map fst l')
    \<and> (\<forall>r4 r. nl_RouteList nl FAMILY_V4 w = Inr r4 \<and> r \<in> set r4 \<and> rt_Table r = RT_TABLE_MAIN \<and> linuxRouteIsDefault r FAMILY_V4
          \<and> rt_Protocol r \<noteq> linuxOwnedRouteProtocol \<longrightarrow> list_all (\<lambda>op. \<forall>d. op \<noteq> OpRouteReplace d) (map fst l'))"
  using RecoverLinuxOwnedRoutes_log[OF assms] by (auto simp: log_grows_def)

end
