(* ===== verification/Linux_Run.thy ===== *)
theory Linux_Run
  imports Linux_Resolver Linux_Policy
begin

text \<open>
  The run loop of the desktop runtime on Linux, \<^verbatim>\<open>core/sessionapi/runtime/internal/app_linux.go\<close>, over
  the guard, the policy routing and the resolver of the theories before it. \<^verbatim>\<open>App.Run\<close> is a straight line of
  native calls, each of which can fail; here it is a machine with one step per call, so that what holds
  between two calls can be stated. Every step takes its own environment: the answers of the kernel, of
  the bus and of the device at that moment.
\<close>

section \<open>State\<close>

datatype lx_extra = GuardClose | RevertDNS string int

text \<open>The native world: what netlink and the resolver manager act on, the guard object and its table.\<close>

type_synonym 'w kern = "'w \<times> guard option \<times> nft_table option"

record run_config =
  rc_TunDeviceName :: string
  rc_TunDeviceIP :: string
  rc_RoutingTableID :: int
  rc_RoutingTablePriority :: int
  rc_DNSServers :: "string list"

record app_inputs =
  ai_RoutingConfig :: "run_config option"
  ai_hasDNSCache :: bool
  ai_hasBypass :: bool

datatype lx_phase =
    PValidate | PRecoverRules | PRecoverRoutes | PPhysical | PInterface | PCaptureLink | PGuard | PCapture | PTun | PDescriptor
  | PEngine | PNetwork | PResolved | PMaintain | PCleanup | PDone

datatype run_release = StopEngine | ClosePlan | CloseTun

record 'w run_state =
  rs_phase :: lx_phase
  rs_kern :: "'w kern"
  rs_plan :: "lx_extra lx_token plan"
  rs_cleanup :: "run_release list"
  rs_tun :: bool
  rs_engine :: bool
  rs_mark :: int
  rs_source :: bool
  rs_index :: int
  rs_uplink :: string
  rs_init :: "go_error option option"
  rs_err :: "go_error option"

record tun_env =
  te_create :: "go_error option"
  te_link :: "go_error option"
  te_subnetParse :: "go_error option"
  te_subnetAdd :: "go_error option"
  te_parse6 :: "go_error option"
  te_add6 :: "go_error option"
  te_up :: "go_error option"

text \<open>\<^verbatim>\<open>StartOwnedFDEngine\<close>: a failed start can still return an engine, which the cleanup then stops.\<close>

datatype engine_start = EngineStarted | EngineFailed bool go_error

record 'w run_env =
  re_nl :: "'w netlink"
  re_showId :: "rule_identity \<Rightarrow> string"
  re_showAddr :: "addr option \<Rightarrow> string"
  re_iface :: "int \<Rightarrow> go_error + string"
  re_capture :: capture_env
  re_guard :: guard_env
  re_updateOp :: op_env
  re_update :: nft_answer
  re_tun :: tun_env
  re_fd :: "int option"
  re_engine :: engine_start
  re_call :: "resolved_call \<Rightarrow> 'w \<Rightarrow> 'w \<times> go_error option"
  re_close :: close_env
  re_engineStop :: "go_error option"
  re_tunClose :: "go_error option"
  re_done :: bool

definition lift_op :: "('a \<Rightarrow> 'w \<Rightarrow> 'w \<times> go_error option) \<Rightarrow> 'a \<Rightarrow> 'w kern \<Rightarrow> 'w kern \<times> go_error option" where
  "lift_op f x = (\<lambda>(w, gt). case f x w of (w', e) \<Rightarrow> ((w', gt), e))"

definition lift_nl :: "'w netlink \<Rightarrow> 'w kern netlink" where
  "lift_nl nl = \<lparr>nl_RouteList = (\<lambda>f s. nl_RouteList nl f (fst s)), nl_RouteAdd = lift_op (nl_RouteAdd nl),
     nl_RouteReplace = lift_op (nl_RouteReplace nl), nl_RouteDel = lift_op (nl_RouteDel nl), nl_RuleList = (\<lambda>f s. nl_RuleList nl f (fst s)),
     nl_RuleAdd = lift_op (nl_RuleAdd nl), nl_RuleDel = lift_op (nl_RuleDel nl), nl_LinkByName = (\<lambda>n s. nl_LinkByName nl n (fst s)),
     nl_LinkByIndex = (\<lambda>i s. nl_LinkByIndex nl i (fst s)), nl_RuleDump = (\<lambda>f s. nl_RuleDump nl f (fst s)),
     nl_RouteText = nl_RouteText nl, nl_RuleText = nl_RuleText nl\<rparr>"

fun lx_extra_run :: "'w run_env \<Rightarrow> (lx_extra, 'w kern) runner" where
  "lx_extra_run env GuardClose (w, g, t) = (case g of None \<Rightarrow> ((w, g, t), None)
     | Some g0 \<Rightarrow> (case guard_Close (re_close env) (g0, t) of ((g1, t1), e) \<Rightarrow> ((w, Some g1, t1), e)))"
| "lx_extra_run env (RevertDNS tunName index) k = revert_link (lift_nl (re_nl env)) (lift_op (re_call env)) tunName index k"

definition plan_run :: "'w run_env \<Rightarrow> (lx_extra lx_token, 'w kern) runner" where
  "plan_run env = lx_run (lift_nl (re_nl env)) (lx_extra_run env)"

section \<open>Operations\<close>

definition validateRunInputs :: "app_inputs \<Rightarrow> go_error option" where
  "validateRunInputs app =
     (if ai_RoutingConfig app = None \<or> \<not> ai_hasDNSCache app \<or> \<not> ai_hasBypass app
      then Some (Plain ''network routing, resolver and bypass inputs are required'') else None)"

text \<open>\<^verbatim>\<open>signalInit\<close> on a channel with room for one result: the first stays.\<close>

definition signalInit :: "go_error option \<Rightarrow> 'w run_state \<Rightarrow> 'w run_state" where
  "signalInit err s = (if rs_init s = None then s\<lparr>rs_init := Some err\<rparr> else s)"

definition run_fail :: "go_error \<Rightarrow> 'w run_state \<Rightarrow> 'w run_state" where
  "run_fail err s = (signalInit (Some err) s)\<lparr>rs_phase := PCleanup, rs_err := Some err\<rparr>"

text \<open>
  \<^verbatim>\<open>newTunDevice\<close>: whether a device is returned, which the cleanup then owns, and the error. A failure after
  the creation returns both.
\<close>

definition newTunDevice :: "tun_env \<Rightarrow> string \<Rightarrow> string \<Rightarrow> bool \<times> go_error option" where
  "newTunDevice env name ip =
     (if name = [] then (False, Some (Plain ''name is required for TUN/TAP device''))
      else if ip = [] then (False, Some (Plain ''ip is required for TUN/TAP device''))
      else (case te_create env of Some err \<Rightarrow> (False, Some (Wrap ''failed to create TUN/TAP device: '' err))
        | None \<Rightarrow> (case te_link env of
            Some err \<Rightarrow> (True, Some (Wrap (''newly created TUN/TAP device '' @ [CHR 0x27] @ name @ [CHR 0x27] @ '' not found: '') err))
          | None \<Rightarrow> (case te_subnetParse env of
              Some err \<Rightarrow> (True, Some (Wrap ''failed to configure TUN/TAP device subnet: ''
                             (Wrap (''subnet address '' @ [CHR 0x27] @ ip @ ''/32'' @ [CHR 0x27] @ '' is not valid: '') err)))
            | None \<Rightarrow> (case te_subnetAdd env of
                Some err \<Rightarrow> (True, Some (Wrap ''failed to configure TUN/TAP device subnet: ''
                               (Wrap (''failed to add subnet to TUN/TAP device '' @ [CHR 0x27] @ name @ [CHR 0x27] @ '': '') err)))
              | None \<Rightarrow> (case te_parse6 env of Some err \<Rightarrow> (True, Some err)
                | None \<Rightarrow> (case te_add6 env of Some err \<Rightarrow> (True, Some (Wrap ''configure TUN IPv6: '' err))
                  | None \<Rightarrow> (case te_up env of
                      Some err \<Rightarrow> (True, Some (Wrap ''failed to bring up TUN/TAP device: ''
                                     (Wrap (''failed to bring TUN/TAP device '' @ [CHR 0x27] @ name @ [CHR 0x27] @ '' up: '') err)))
                    | None \<Rightarrow> (True, None)))))))))"

text \<open>
  \<^verbatim>\<open>captureLinuxResolver\<close>: the physical link now, its resolver servers, and the guard's exceptions for them. Without a
  physical link the exceptions are replaced by none.
\<close>

definition guard_update_bootstrap :: "'w run_env \<Rightarrow> string \<Rightarrow> addr option list \<Rightarrow> 'w kern \<Rightarrow> 'w kern \<times> go_error option" where
  "guard_update_bootstrap env identity servers = (\<lambda>(w, g, t). case g of None \<Rightarrow> ((w, g, t), None)
     | Some g0 \<Rightarrow> (case UpdateBootstrap (re_showAddr env) (re_updateOp env) (re_update env) identity servers (g0, t) of
           ((g1, t1), e) \<Rightarrow> ((w, Some g1, t1), e)))"

definition captureLinuxResolver :: "'w run_env \<Rightarrow> string \<Rightarrow> 'w kern \<Rightarrow> 'w kern \<times> (go_error + string \<times> int)" where
  "captureLinuxResolver env tunName k = (case LinuxPhysicalInterface (re_nl env) tunName (fst k) of
       Inl err \<Rightarrow> (case guard_update_bootstrap env ''unavailable'' [] k of
           (k', e) \<Rightarrow> (k', Inl (the (errors_join [Some err, e]))))
     | Inr index \<Rightarrow> (case CaptureLinuxLink (re_capture env) index of
           (_, Some err) \<Rightarrow> (k, Inl err)
         | ((identity, servers), None) \<Rightarrow> (case guard_update_bootstrap env identity (map Some servers) k of
               (k', Some err) \<Rightarrow> (k', Inl err)
             | (k', None) \<Rightarrow> (k', Inr (identity, index)))))"

text \<open>
  One round of \<^verbatim>\<open>maintainLinuxResolver\<close>: the context ends it, a tick refreshes the exceptions and drops an
  error after logging it.
\<close>

definition maintainLinuxResolver :: "'w run_env \<Rightarrow> string \<Rightarrow> 'w run_state \<Rightarrow> 'w run_state" where
  "maintainLinuxResolver env tunName s =
     (if re_done env then s\<lparr>rs_phase := PCleanup\<rparr>
      else s\<lparr>rs_kern := fst (captureLinuxResolver env tunName (rs_kern s))\<rparr>)"

text \<open>The ordered cleanup transaction of the run.\<close>

fun run_release_step :: "'w run_env \<Rightarrow> run_release \<Rightarrow> 'w run_state \<Rightarrow> 'w run_state \<times> go_error option" where
  "run_release_step env StopEngine s =
     (if \<not> rs_engine s then (s, None)
      else (case re_engineStop env of Some err \<Rightarrow> (s, Some err) | None \<Rightarrow> (s\<lparr>rs_engine := False\<rparr>, None)))"
| "run_release_step env ClosePlan s = (case Plan_Close (plan_run env) (rs_plan s) (rs_kern s) of
       (p, k, e) \<Rightarrow> (s\<lparr>rs_plan := p, rs_kern := k\<rparr>, e))"
| "run_release_step env CloseTun s =
     (if rs_tun s then (case re_tunClose env of Some err \<Rightarrow> (s, Some err) | None \<Rightarrow> (s\<lparr>rs_tun := False, rs_mark := 0\<rparr>, None))
      else (s\<lparr>rs_mark := 0\<rparr>, None))"

definition run_step :: "run_config \<Rightarrow> app_inputs \<Rightarrow> 'w run_env \<Rightarrow> 'w run_state \<Rightarrow> 'w run_state" where
  "run_step cfg app env s = (case rs_phase s of
     PValidate \<Rightarrow> (case validateRunInputs app of Some err \<Rightarrow> run_fail err s | None \<Rightarrow> s\<lparr>rs_phase := PRecoverRules\<rparr>)
   | PRecoverRules \<Rightarrow> (case RecoverLinuxNetworkRules (re_showId env) (lift_nl (re_nl env)) (rc_RoutingTableID cfg) (rc_RoutingTablePriority cfg)
         (rc_TunDeviceName cfg) (rs_kern s) of
       (k, Some err) \<Rightarrow> run_fail err (s\<lparr>rs_kern := k\<rparr>) | (k, None) \<Rightarrow> s\<lparr>rs_kern := k, rs_phase := PRecoverRoutes\<rparr>)
   | PRecoverRoutes \<Rightarrow> (case RecoverLinuxOwnedRoutes (lift_nl (re_nl env)) (rc_RoutingTableID cfg) (rc_RoutingTablePriority cfg)
         (rc_TunDeviceName cfg) (rs_kern s) of
       (k, Some err) \<Rightarrow> run_fail err (s\<lparr>rs_kern := k\<rparr>) | (k, None) \<Rightarrow> s\<lparr>rs_kern := k, rs_phase := PPhysical\<rparr>)
   | PPhysical \<Rightarrow> (case LinuxPhysicalInterface (re_nl env) (rc_TunDeviceName cfg) (fst (rs_kern s)) of
       Inl err \<Rightarrow> run_fail err s | Inr index \<Rightarrow> s\<lparr>rs_index := index, rs_phase := PInterface\<rparr>)
   | PInterface \<Rightarrow> (case re_iface env (rs_index s) of
       Inl err \<Rightarrow> run_fail err s | Inr name \<Rightarrow> s\<lparr>rs_uplink := name, rs_phase := PCaptureLink\<rparr>)
   | PCaptureLink \<Rightarrow> (case snd (CaptureLinuxLink (re_capture env) (rs_index s)) of
       Some err \<Rightarrow> run_fail err s | None \<Rightarrow> s\<lparr>rs_phase := PGuard\<rparr>)
   | PGuard \<Rightarrow> (let s1 = s\<lparr>rs_plan := NewPlan (rc_TunDeviceName cfg), rs_cleanup := [StopEngine, ClosePlan, CloseTun]\<rparr> in
       case AcquireLinuxOutputGuard (plan_run env) (re_guard env) Nothing (Extra GuardClose) (rc_TunDeviceName cfg) (rc_RoutingTableID cfg)
           (rs_plan s1) (snd (snd (rs_kern s1))) (rs_kern s1) of
         (p, k, t, g, e) \<Rightarrow> (let s2 = s1\<lparr>rs_plan := p, rs_kern := (fst k, (case g of None \<Rightarrow> fst (snd k) | Some _ \<Rightarrow> g), t)\<rparr> in
           case e of Some err \<Rightarrow> run_fail err s2 | None \<Rightarrow> s2\<lparr>rs_phase := PCapture\<rparr>))
   | PCapture \<Rightarrow> (case captureLinuxResolver env (rc_TunDeviceName cfg) (rs_kern s) of
       (k, Inl err) \<Rightarrow> run_fail err (s\<lparr>rs_kern := k\<rparr>) | (k, Inr _) \<Rightarrow> s\<lparr>rs_kern := k, rs_source := True, rs_phase := PTun\<rparr>)
   | PTun \<Rightarrow> (case newTunDevice (re_tun env) (rc_TunDeviceName cfg) (rc_TunDeviceIP cfg) of
       (dev, Some err) \<Rightarrow> run_fail err (s\<lparr>rs_tun := dev\<rparr>) | (dev, None) \<Rightarrow> s\<lparr>rs_tun := dev, rs_phase := PDescriptor\<rparr>)
   | PDescriptor \<Rightarrow> (case re_fd env of
       None \<Rightarrow> run_fail (Plain ''owned TUN descriptor is unavailable'') s
     | Some fd \<Rightarrow> if fd < 0 then run_fail (Plain ''owned TUN descriptor is unavailable'') s else s\<lparr>rs_phase := PEngine\<rparr>)
   | PEngine \<Rightarrow> (case re_engine env of
       EngineFailed eng err \<Rightarrow> run_fail err (s\<lparr>rs_engine := eng\<rparr>) | EngineStarted \<Rightarrow> s\<lparr>rs_engine := True, rs_phase := PNetwork\<rparr>)
   | PNetwork \<Rightarrow> (case AcquireLinuxNetwork (lift_nl (re_nl env)) (lx_extra_run env) (rc_TunDeviceName cfg) (rc_RoutingTableID cfg)
         (rc_RoutingTablePriority cfg) (rs_plan s) (rs_kern s) of
       (p, k, Some err) \<Rightarrow> run_fail err (s\<lparr>rs_plan := p, rs_kern := k\<rparr>)
     | (p, k, None) \<Rightarrow> s\<lparr>rs_plan := p, rs_kern := k, rs_mark := rc_RoutingTableID cfg, rs_phase := PResolved\<rparr>)
   | PResolved \<Rightarrow> (case AcquireLinuxResolvedDNS (plan_run env) (lift_nl (re_nl env)) (lift_op (re_call env)) Nothing (\<lambda>n i. Extra (RevertDNS n i))
         (rc_TunDeviceName cfg) (rc_DNSServers cfg) (rs_plan s) (rs_kern s) of
       (p, k, Some err) \<Rightarrow> run_fail err (s\<lparr>rs_plan := p, rs_kern := k\<rparr>)
     | (p, k, None) \<Rightarrow> (signalInit None (s\<lparr>rs_plan := p, rs_kern := k\<rparr>))\<lparr>rs_phase := PMaintain\<rparr>)
   | PMaintain \<Rightarrow> maintainLinuxResolver env (rc_TunDeviceName cfg) s
   | PCleanup \<Rightarrow> (case rs_cleanup s of [] \<Rightarrow> s\<lparr>rs_phase := PDone\<rparr>
     | c # cs \<Rightarrow> (case run_release_step env c s of
         (s', None) \<Rightarrow> s'\<lparr>rs_cleanup := cs\<rparr>
       | (s', Some err) \<Rightarrow> s'\<lparr>rs_phase := PDone, rs_err := errors_join [rs_err s, Some (CleanupFailure err)]\<rparr>))
   | PDone \<Rightarrow> if rs_cleanup s = [] then s else s\<lparr>rs_phase := PCleanup\<rparr>)"

text \<open>
  In phase \<open>PDone\<close> with releases left, the next step is the retry by \<^verbatim>\<open>Disconnect\<close> through \<^verbatim>\<open>App.Close\<close>.
  Endpoint lookups call the capture at any moment after it became the resolver's source.
\<close>

definition run_initial :: "'w \<Rightarrow> 'w run_state" where
  "run_initial w = \<lparr>rs_phase = PValidate, rs_kern = (w, None, None), rs_plan = NewPlan [], rs_cleanup = [], rs_tun = False, rs_engine = False,
     rs_mark = 0, rs_source = False, rs_index = 0, rs_uplink = [], rs_init = None, rs_err = None\<rparr>"

inductive run_next :: "run_config \<Rightarrow> app_inputs \<Rightarrow> 'w run_state \<Rightarrow> 'w run_state \<Rightarrow> bool" for cfg app where
  RunStep: "run_next cfg app s (run_step cfg app env s)"
| RunLookup: "rs_source s \<Longrightarrow> run_next cfg app s (s\<lparr>rs_kern := fst (captureLinuxResolver env (rc_TunDeviceName cfg) (rs_kern s))\<rparr>)"

section \<open>Netlink leaves the guard alone\<close>

text \<open>An operation keeps a part \<open>proj\<close> of the world, and a netlink all of whose changes keep it.\<close>

definition keeps :: "('s \<Rightarrow> 'p) \<Rightarrow> ('s \<Rightarrow> 's \<times> 'e) \<Rightarrow> bool" where
  "keeps proj f \<longleftrightarrow> (\<forall>k. proj (fst (f k)) = proj k)"

definition nl_keeps :: "('s \<Rightarrow> 'p) \<Rightarrow> 's netlink \<Rightarrow> bool" where
  "nl_keeps proj nl \<longleftrightarrow> (\<forall>r. keeps proj (nl_RouteAdd nl r) \<and> keeps proj (nl_RouteReplace nl r) \<and> keeps proj (nl_RouteDel nl r))
     \<and> (\<forall>r. keeps proj (nl_RuleAdd nl r) \<and> keeps proj (nl_RuleDel nl r))"

lemma keepsD: "keeps proj f \<Longrightarrow> f k = (k', e) \<Longrightarrow> proj k' = proj k"
  by (metis fst_conv keeps_def)

lemma keepsI: "(\<And>k k' e. f k = (k', e) \<Longrightarrow> proj k' = proj k) \<Longrightarrow> keeps proj f"
  unfolding keeps_def by (metis prod.collapse)

lemma keeps_route_op:
  assumes "keeps proj (op r)"
  shows "keeps proj (linuxRouteOperation nl action r op)"
  by (rule keepsI) (auto simp: linuxRouteOperation_def dest: keepsD[OF assms] split: prod.splits option.splits if_splits)

lemma keeps_rule_op:
  assumes "keeps proj (op r)"
  shows "keeps proj (linuxRuleOperation nl action r op)"
  by (rule keepsI) (auto simp: linuxRuleOperation_def dest: keepsD[OF assms] split: prod.splits option.splits if_splits)

lemma nl_keeps_ops:
  assumes "nl_keeps proj nl"
  shows "keeps proj (linuxRouteOperation nl action r (nl_RouteAdd nl))" "keeps proj (linuxRouteOperation nl action r (nl_RouteReplace nl))"
    "keeps proj (linuxRouteOperation nl action r (nl_RouteDel nl))" "keeps proj (linuxRuleOperation nl action u (nl_RuleAdd nl))"
    "keeps proj (linuxRuleOperation nl action u (nl_RuleDel nl))"
  using assms by (simp_all add: nl_keeps_def keeps_route_op keeps_rule_op)

lemma keeps_delete_rules:
  assumes "nl_keeps proj nl"
  shows "keeps proj (delete_owned_rules nl priority tableID mark rs)"
proof (induction rs)
  case (Cons r rs)
  show ?case
    by (rule keepsI) (auto dest!: keepsD[OF nl_keeps_ops(5)[OF assms]] keepsD[OF Cons.IH] split: if_splits prod.splits)
qed (simp add: keeps_def)

lemma keeps_delete_routes:
  assumes "nl_keeps proj nl"
  shows "keeps proj (delete_owned_routes nl family tableID tunName rs)"
proof (induction rs arbitrary: tunName)
  case (Cons r rs)
  show ?case
    by (rule keepsI) (auto dest!: keepsD[OF nl_keeps_ops(3)[OF assms]] keepsD[OF Cons.IH] split: if_splits prod.splits sum.splits)
qed (simp add: keeps_def)

lemma keeps_recover_family:
  assumes "nl_keeps proj nl"
  shows "keeps proj (recoverLinuxNetworkFamily show_id nl family tableID priority mark tunName)"
proof (rule keepsI)
  fix k k' e
  assume run: "recoverLinuxNetworkFamily show_id nl family tableID priority mark tunName k = (k', e)"
  obtain k1 e1 where ru: "recoverLinuxNetworkFamilyRules show_id nl family priority tableID mark k = (k1, e1)" by (metis surj_pair)
  then have 1: "proj k1 = proj k"
    by (auto simp: recoverLinuxNetworkFamilyRules_def dest: keepsD[OF keeps_delete_rules[OF assms]] split: sum.splits)
  have 2: "proj k' = proj k1" if "recoverLinuxNetworkFamilyRoutes nl family tableID tunName k1 = (k', e)"
    using that by (auto simp: recoverLinuxNetworkFamilyRoutes_def dest: keepsD[OF keeps_delete_routes[OF assms]] split: sum.splits)
  from run ru 1 2 show "proj k' = proj k" by (auto simp: recoverLinuxNetworkFamily_def split: option.splits)
qed

lemma keeps_recover_families:
  assumes "nl_keeps proj nl"
  shows "keeps proj (recover_families show_id nl tableID priority mark tunName fs)"
proof (induction fs)
  case (Cons f fs)
  show ?case
    by (rule keepsI) (auto dest!: keepsD[OF keeps_recover_family[OF assms]] keepsD[OF Cons.IH] split: prod.splits option.splits)
qed (simp add: keeps_def)

lemma keeps_recover_rules:
  assumes "nl_keeps proj nl" "RecoverLinuxNetworkRules show_id nl tableID priority tunName k = (k', e)"
  shows "proj k' = proj k"
  using assms(2) keepsD[OF keeps_recover_families[OF assms(1)], of show_id tableID priority _ tunName _ k k' e]
  by (auto simp: RecoverLinuxNetworkRules_def simp del: recover_families.simps split: if_splits)

lemma keeps_remove_rules:
  assumes "nl_keeps proj nl"
  shows "keeps proj (remove_rules nl rs)"
proof (induction rs)
  case (Cons r rs)
  show ?case by (rule keepsI) (auto dest!: keepsD[OF nl_keeps_ops(5)[OF assms]] keepsD[OF Cons.IH] split: prod.splits)
qed (simp add: keeps_def)

lemma keeps_remove_routes:
  assumes "nl_keeps proj nl"
  shows "keeps proj (remove_routes nl rs)"
proof (induction rs)
  case (Cons r rs)
  show ?case by (rule keepsI) (auto dest!: keepsD[OF nl_keeps_ops(3)[OF assms]] keepsD[OF Cons.IH] split: prod.splits)
qed (simp add: keeps_def)

lemma keeps_restore_default:
  assumes "nl_keeps proj nl"
  shows "keeps proj (restore_default nl rr)"
  by (rule keepsI) (auto simp: restore_default_def dest!: keepsD[OF nl_keeps_ops(2)[OF assms]] split: if_splits option.splits prod.splits)

lemma keeps_recover_routes:
  assumes "nl_keeps proj nl" "RecoverLinuxOwnedRoutes nl tableID priority tunName k = (k', e)"
  shows "proj k' = proj k"
  using assms(2)
  by (auto simp: RecoverLinuxOwnedRoutes_def Let_def dest!: keepsD[OF keeps_remove_rules[OF assms(1)]]
      keepsD[OF keeps_remove_routes[OF assms(1)]] keepsD[OF keeps_restore_default[OF assms(1)]] split: if_splits sum.splits prod.splits)

lemma keeps_revert:
  assumes "\<And>c. keeps proj (call c)"
  shows "keeps proj (revert_link nl call tunName index)"
  by (rule keepsI) (auto simp: revert_link_def dest: keepsD[OF assms] split: sum.splits if_splits)

lemma keeps_lx_run:
  assumes "nl_keeps proj nl" "\<And>x. tok = Extra x \<Longrightarrow> keeps proj (extra x)"
  shows "keeps proj (lx_run nl extra tok)"
proof (cases tok)
  case (Extra x)
  with assms(2) show ?thesis by (simp add: keeps_def)
next
  case (DelRoute r)
  show ?thesis unfolding DelRoute by (rule keepsI) (auto dest!: keepsD[OF nl_keeps_ops(3)[OF assms(1)]] split: prod.splits)
next
  case (DelPolicy r)
  show ?thesis unfolding DelPolicy by (rule keepsI) (auto dest!: keepsD[OF nl_keeps_ops(5)[OF assms(1)]] split: prod.splits)
qed (use assms nl_keeps_ops[OF assms(1)] in \<open>auto simp: keeps_def\<close>)

lemma keeps_lift: "keeps snd (lift_op f x)"
  by (auto simp: keeps_def lift_op_def split: prod.splits)

lemma nl_keeps_lift: "nl_keeps snd (lift_nl nl)"
  by (simp add: nl_keeps_def lift_nl_def keeps_lift)

lemma keeps_plan_run:
  assumes "tok \<noteq> Extra GuardClose"
  shows "keeps snd (plan_run env tok)"
  unfolding plan_run_def
proof (rule keeps_lx_run[OF nl_keeps_lift])
  fix x
  assume "tok = Extra x"
  with assms obtain n i where x: "x = RevertDNS n i" by (cases x) auto
  have "lx_extra_run env (RevertDNS n i) = revert_link (lift_nl (re_nl env)) (lift_op (re_call env)) n i" by (rule ext) simp
  with x keeps_revert[OF keeps_lift] show "keeps snd (lx_extra_run env x)" by simp
qed

section \<open>The plan\<close>

text \<open>A plan grows by leases that are not the guard's, and the guard stays.\<close>

definition extends :: "lx_extra lx_token plan \<Rightarrow> 'w kern \<Rightarrow> lx_extra lx_token plan \<Rightarrow> 'w kern \<Rightarrow> bool" where
  "extends p k p' k' \<longleftrightarrow> snd k' = snd k \<and> pl_closed p' = pl_closed p
     \<and> (\<exists>ls. pl_leases p' = pl_leases p @ ls \<and> list_all (\<lambda>l. le_release l \<noteq> Extra GuardClose) ls)"

lemma extends_refl [simp]: "extends p k p k"
  by (simp add: extends_def)

lemma extends_trans: "extends p k p1 k1 \<Longrightarrow> extends p1 k1 p2 k2 \<Longrightarrow> extends p k p2 k2"
  by (auto simp: extends_def)

lemma extends_acquire:
  assumes "Plan_Acquire (plan_run env) p name (Some a) (Some d) k = (p', k', x)" "a \<noteq> Extra GuardClose" "d \<noteq> Extra GuardClose"
  shows "extends p k p' k'"
  using assms keepsD[OF keeps_plan_run[OF assms(2)], of env k]
  by (auto simp: Plan_Acquire_def extends_def Let_def split: if_splits prod.splits option.splits)

lemma extends_rules:
  "acquire_rules (lift_nl (re_nl env)) (lx_extra_run env) tableID priority mark family os p k = (p', k', e) \<Longrightarrow> extends p k p' k'"
proof (induction os arbitrary: p k)
  case (Cons i os)
  let ?r = "network_rule tableID priority mark family i"
  obtain p1 k1 x where acq: "Plan_Acquire (plan_run env) p (''network-rule family='' @ itoa family @ '' priority='' @ itoa (ru_Priority ?r))
      (Some (AddPolicy ?r)) (Some (DelPolicy ?r)) k = (p1, k1, x)" by (metis surj_pair)
  from extends_acquire[OF acq] have one: "extends p k p1 k1" by simp
  show ?case
  proof (cases x)
    case (Inl err)
    with Cons.prems acq one show ?thesis by (auto simp: plan_run_def Let_def)
  next
    case (Inr le)
    with Cons.prems acq have "acquire_rules (lift_nl (re_nl env)) (lx_extra_run env) tableID priority mark family os p1 k1 = (p', k', e)"
      by (auto simp: plan_run_def Let_def)
    from extends_trans[OF one Cons.IH[OF this]] show ?thesis .
  qed
qed simp

lemma extends_family:
  assumes "acquireLinuxNetworkFamily (lift_nl (re_nl env)) (lx_extra_run env) tableID priority index mark family p k = (p', k', e)"
  shows "extends p k p' k'"
proof -
  let ?r = "network_route tableID index family"
  obtain p1 k1 x where acq: "Plan_Acquire (plan_run env) p (''network-route '' @ dst_text ?r @ '' table='' @ itoa (rt_Table ?r))
      (Some (AddRoute ?r)) (Some (DelRoute ?r)) k = (p1, k1, x)" by (metis surj_pair)
  from extends_acquire[OF acq] have one: "extends p k p1 k1" by simp
  have two: "extends p k p' k'" if "acquire_rules (lift_nl (re_nl env)) (lx_extra_run env) tableID priority mark family [0, 1, 2] p1 k1 = (p', k', e)"
    using extends_trans[OF one extends_rules[OF that]] .
  show ?thesis
    using assms acq one two
    by (auto simp: acquireLinuxNetworkFamily_def acquireLinuxNetworkRoute_def plan_run_def simp del: acquire_rules.simps
        split: sum.splits if_splits option.splits)
qed

lemma extends_network:
  assumes "AcquireLinuxNetwork (lift_nl (re_nl env)) (lx_extra_run env) tunName tableID priority p k = (p', k', e)"
  shows "extends p k p' k'"
proof -
  have fams: "extends p k p' k'"
    if "acquire_families (lift_nl (re_nl env)) (lx_extra_run env) tableID priority index mark fs p k = (p', k', e)" for index mark fs p k
    using that
  proof (induction fs arbitrary: p k)
    case (Cons f fs)
    obtain p1 k1 e1 where fam: "acquireLinuxNetworkFamily (lift_nl (re_nl env)) (lx_extra_run env) tableID priority index mark f p k = (p1, k1, e1)"
      by (metis surj_pair)
    note one = extends_family[OF fam]
    from Cons.prems fam one Cons.IH[of p1 k1] show ?case by (cases e1) (auto intro: extends_trans)
  qed simp
  with assms show ?thesis
    by (auto simp: AcquireLinuxNetwork_def simp del: acquire_families.simps split: if_splits sum.splits)
qed

lemma keeps_resolved_calls:
  assumes "\<And>c. keeps proj (call c)"
  shows "keeps proj (resolved_calls call cs)"
proof (induction cs)
  case (Cons c cs)
  show ?case by (rule keepsI) (auto dest!: keepsD[OF assms] keepsD[OF Cons.IH] split: prod.splits option.splits)
qed (simp add: keeps_def)

lemma Lease_Close_keeps:
  assumes "Lease_Close (plan_run env) l k = (l', k', e)" "le_release l \<noteq> Extra GuardClose"
  shows "snd k' = snd k \<and> le_release l' = le_release l \<and> (e \<noteq> None \<longrightarrow> l' = l)"
  using assms(1) keepsD[OF keeps_plan_run[OF assms(2)], of env k]
  by (auto simp: Lease_Close_def split: if_splits prod.splits option.splits)

lemma extends_resolved:
  assumes "AcquireLinuxResolvedDNS (plan_run env) (lift_nl (re_nl env)) (lift_op (re_call env)) Nothing (\<lambda>n i. Extra (RevertDNS n i))
      tunName dnsIPs p k = (p', k', e)"
  shows "extends p k p' k'"
proof -
  consider (refused) "p' = p" "k' = k"
    | (tried) index addresses p1 k1 x where "Plan_Acquire (plan_run env) p (''resolved-dns '' @ tunName) (Some Nothing) (Some (Extra (RevertDNS tunName index))) k = (p1, k1, x)"
       "(case x of Inl err \<Rightarrow> (p1, k1, Some err) | Inr lease \<Rightarrow>
          (case resolved_calls (lift_op (re_call env)) [SetLinkDNS index addresses, SetLinkDomains index [(''.'', True)], SetLinkDefaultRoute index True] k1 of
             (k2, None) \<Rightarrow> (p1, k2, None)
           | (k2, Some err) \<Rightarrow> (case Lease_Close (plan_run env) lease k2 of
               (lease', k3, Some cleanupErr) \<Rightarrow>
                  (p1\<lparr>pl_leases := butlast (pl_leases p1) @ [lease']\<rparr>, k3, Some (CleanupFailure (the (errors_join [Some err, Some cleanupErr]))))
             | (lease', k3, None) \<Rightarrow> (p1\<lparr>pl_leases := butlast (pl_leases p1) @ [lease']\<rparr>, k3, Some err)))) = (p', k', e)"
    using assms
    by (auto simp: AcquireLinuxResolvedDNS_def simp del: resolved_calls.simps split: if_splits sum.splits prod.splits)
  then show ?thesis
  proof cases
    case tried
    from extends_acquire[OF tried(1)] have one: "extends p k p1 k1" by simp
    show ?thesis
    proof (cases x)
      case (Inl err)
      with tried(2) one show ?thesis by simp
    next
      case (Inr lease)
      from tried(1) Inr have lease: "pl_leases p1 = pl_leases p @ [lease]" "le_release lease = Extra (RevertDNS tunName index)" "pl_closed p1 = pl_closed p"
        by (auto simp: Plan_Acquire_def Let_def split: if_splits prod.splits option.splits)
      obtain k2 e2 where calls: "resolved_calls (lift_op (re_call env))
          [SetLinkDNS index addresses, SetLinkDomains index [(''.'', True)], SetLinkDefaultRoute index True] k1 = (k2, e2)" by (metis surj_pair)
      have k2: "snd k2 = snd k1" by (rule keepsD[OF keeps_resolved_calls[OF keeps_lift] calls])
      show ?thesis
      proof (cases e2)
        case None
        with tried(2) Inr calls k2 one show ?thesis by (auto simp: extends_def simp del: resolved_calls.simps)
      next
        case (Some err)
        obtain l' k3 e3 where cl: "Lease_Close (plan_run env) lease k2 = (l', k3, e3)" by (metis surj_pair)
        from Lease_Close_keeps[OF cl] lease have "snd k3 = snd k2" "le_release l' = Extra (RevertDNS tunName index)" by auto
        moreover have "k' = k3 \<and> p' = p1\<lparr>pl_leases := butlast (pl_leases p1) @ [l']\<rparr>"
          using tried(2) Inr calls Some cl by (cases e3) (simp_all del: resolved_calls.simps)
        ultimately show ?thesis using lease k2 one by (auto simp: extends_def)
      qed
    qed
  qed simp
qed

text \<open>Closing the plan closes the guard last: either everything else is released, or the guard is untouched.\<close>

definition network_only :: "lx_extra lx_token lease list \<Rightarrow> bool" where
  "network_only ls \<longleftrightarrow> list_all (\<lambda>l. le_release l \<noteq> Extra GuardClose) ls"

lemma plan_release_guard_last:
  assumes "network_only rest" "plan_release (plan_run env) (gl # rest) k = (ls', k', r)"
  shows "(\<exists>rest'. ls' = gl # rest' \<and> network_only rest' \<and> snd k' = snd k \<and> r \<noteq> None)
    \<or> (\<exists>k1 gl' e. snd k1 = snd k \<and> Lease_Close (plan_run env) gl k1 = (gl', k', e) \<and> ls' = (if e = None then [] else [gl']) \<and> (r = None \<longleftrightarrow> e = None))"
  using assms
proof (induction rest arbitrary: k rule: rev_induct)
  case Nil
  obtain gl' k1 e where cl: "Lease_Close (plan_run env) gl k = (gl', k1, e)" by (metis surj_pair)
  with Nil.prems(2) plan_release_snoc[of "plan_run env" "[]" gl k] have "k' = k1" "ls' = (if e = None then [] else [gl'])" "r = None \<longleftrightarrow> e = None"
    by (cases e; auto)+
  with cl show ?case by blast
next
  case (snoc x xs)
  obtain x' k1 e where cl: "Lease_Close (plan_run env) x k = (x', k1, e)" by (metis surj_pair)
  from snoc.prems(1) have x: "le_release x \<noteq> Extra GuardClose" "network_only xs" by (auto simp: network_only_def)
  note keep = Lease_Close_keeps[OF cl x(1)]
  show ?case
  proof (cases e)
    case None
    with snoc.prems(2) cl plan_release_snoc[of "plan_run env" "gl # xs" x k]
    have "plan_release (plan_run env) (gl # xs) k1 = (ls', k', r)" by simp
    from snoc.IH[OF x(2) this] keep show ?thesis by simp
  next
    case (Some err)
    with snoc.prems(2) cl plan_release_snoc[of "plan_run env" "gl # xs" x k]
    have "ls' = gl # xs @ [x']" "k' = k1" "r \<noteq> None" by auto
    with keep x snoc.prems(1) show ?thesis by (auto simp: network_only_def)
  qed
qed

section \<open>The guard over the run\<close>

text \<open>A guard in the native world: closed, or never connected, means there is no table.\<close>

definition guard_ok :: "'w kern \<Rightarrow> bool" where
  "guard_ok k \<longleftrightarrow> (case fst (snd k) of None \<Rightarrow> snd (snd k) = None
     | Some g \<Rightarrow> (g_closed g \<longrightarrow> snd (snd k) = None) \<and> (\<not> g_conn g \<longrightarrow> snd (snd k) = None))"

definition protected :: "string \<Rightarrow> int \<Rightarrow> 'w kern \<Rightarrow> bool" where
  "protected tunName mark k \<longleftrightarrow> (\<exists>g. fst (snd k) = Some g \<and> g_conn g \<and> \<not> g_closed g \<and> g_mark g = word_of_int mark \<and> table_ok tunName g (snd (snd k)))"

lemma protected_cong: "snd k' = snd k \<Longrightarrow> protected tunName mark k' = protected tunName mark k"
  by (simp add: protected_def)

lemma guard_ok_cong: "snd k' = snd k \<Longrightarrow> guard_ok k' = guard_ok k"
  by (cases "fst (snd k)") (simp_all add: guard_ok_def)

lemma protected_guard_ok: "protected tunName mark k \<Longrightarrow> guard_ok k"
  by (auto simp: protected_def guard_ok_def)

lemma guard_update_protected:
  assumes "protected tunName mark k" "guard_update_bootstrap env identity servers k = (k', e)"
  shows "protected tunName mark k'"
proof -
  obtain w g t where k: "k = (w, Some g, t)" and g: "g_conn g" "\<not> g_closed g" "g_mark g = word_of_int mark" "table_ok tunName g t"
    using assms(1) by (cases k) (auto simp: protected_def)
  obtain g1 t1 r where u: "UpdateBootstrap (re_showAddr env) (re_updateOp env) (re_update env) identity servers (g, t) = ((g1, t1), r)"
    by (metis surj_pair)
  with assms(2) k have k': "k' = (w, Some g1, t1)" by (simp add: guard_update_bootstrap_def)
  from UpdateBootstrap_table[OF u g(4)] have "table_ok tunName g1 t1" "same_identity g g1" "g_closed g1 = g_closed g" "g_conn g1 = g_conn g" by auto
  with g k' show ?thesis by (auto simp: protected_def same_identity_def)
qed

lemma guard_update_ok:
  assumes "guard_ok k" "guard_update_bootstrap env identity servers k = (k', e)"
  shows "guard_ok k'"
proof (cases "fst (snd k)")
  case None
  with assms show ?thesis by (cases k) (simp add: guard_update_bootstrap_def)
next
  case (Some g)
  then obtain w t where k: "k = (w, Some g, t)" by (cases k) auto
  obtain g1 t1 r where u: "UpdateBootstrap (re_showAddr env) (re_updateOp env) (re_update env) identity servers (g, t) = ((g1, t1), r)"
    by (metis surj_pair)
  have none: "nft_commit ms None = None" for ms by (induction ms) (auto simp: nft_commit_def)
  have "g_closed g1 = g_closed g \<and> g_conn g1 = g_conn g \<and> (t = None \<longrightarrow> t1 = None)"
    using u none by (auto simp: UpdateBootstrap_def guard_operation_def nft_flush_def split: if_splits option.splits prod.splits)
  with assms k u show ?thesis by (auto simp: guard_update_bootstrap_def guard_ok_def)
qed

lemma capture_protected:
  assumes "protected tunName mark k" "captureLinuxResolver env tun k = (k', r)"
  shows "protected tunName mark k'"
  using assms guard_update_protected[OF assms(1)]
  by (auto simp: captureLinuxResolver_def split: sum.splits prod.splits option.splits)

lemma capture_guard_ok:
  assumes "guard_ok k" "captureLinuxResolver env tun k = (k', r)"
  shows "guard_ok k'"
  using assms guard_update_ok[OF assms(1)]
  by (auto simp: captureLinuxResolver_def split: sum.splits prod.splits option.splits)

section \<open>What a successful acquisition adds\<close>

abbreviation releases :: "lx_extra lx_token plan \<Rightarrow> lx_extra lx_token list" where
  "releases p \<equiv> map le_release (pl_leases p)"

lemma Plan_Acquire_releases:
  "Plan_Acquire run p name (Some a) (Some d) k = (p', k', Inr l) \<Longrightarrow> releases p' = releases p @ [d]"
  by (auto simp: Plan_Acquire_def Let_def split: if_splits prod.splits option.splits)

lemma acquire_rules_releases:
  "acquire_rules nl extra tableID priority mark family os p k = (p', k', None) \<Longrightarrow>
     releases p' = releases p @ map (\<lambda>i. DelPolicy (network_rule tableID priority mark family i)) os"
  by (induction os arbitrary: p k) (auto simp: Let_def dest: Plan_Acquire_releases split: prod.splits sum.splits)

lemma acquire_family_releases:
  assumes "acquireLinuxNetworkFamily nl extra tableID priority index mark family p k = (p', k', None)"
  shows "releases p' = releases p @ map release_of (family_adds tableID priority index mark family)"
proof -
  obtain p1 k1 where ro: "acquireLinuxNetworkRoute nl extra (network_route tableID index family) p k = (p1, k1, None)"
      and ru: "acquire_rules nl extra tableID priority mark family [0, 1, 2] p1 k1 = (p', k', None)"
    using assms by (auto simp: acquireLinuxNetworkFamily_def simp del: acquire_rules.simps split: sum.splits if_splits option.splits prod.splits)
  from ro have "releases p1 = releases p @ [DelRoute (network_route tableID index family)]"
    by (auto simp: acquireLinuxNetworkRoute_def dest: Plan_Acquire_releases split: prod.splits sum.splits)
  with acquire_rules_releases[OF ru] show ?thesis by (simp add: family_adds_def)
qed

lemma acquire_network_releases:
  assumes "AcquireLinuxNetwork nl extra tunName tableID priority p k = (p', k', None)"
  shows "\<exists>index. releases p' = releases p @ map release_of (family_adds tableID priority index (word_of_int tableID) FAMILY_V4
     @ family_adds tableID priority index (word_of_int tableID) FAMILY_V6)"
proof -
  from assms obtain index where fams: "acquire_families nl extra tableID priority index (word_of_int tableID) [FAMILY_V4, FAMILY_V6] p k = (p', k', None)"
    by (auto simp: AcquireLinuxNetwork_def simp del: acquire_families.simps split: if_splits sum.splits)
  have "releases p' = releases p @ map release_of (concat (map (family_adds tableID priority index (word_of_int tableID)) fs))"
    if "acquire_families nl extra tableID priority index (word_of_int tableID) fs p k = (p', k', None)" for fs p k
    using that by (induction fs arbitrary: p k) (auto dest: acquire_family_releases split: prod.splits option.splits)
  from this[OF fams] show ?thesis by auto
qed

lemma acquire_resolved_releases:
  assumes "AcquireLinuxResolvedDNS run nl call noop revert tunName dnsIPs p k = (p', k', None)"
  shows "\<exists>index. releases p' = releases p @ [revert tunName index]"
  using assms
  by (auto simp: AcquireLinuxResolvedDNS_def simp del: resolved_calls.simps dest!: Plan_Acquire_releases split: if_splits sum.splits prod.splits option.splits)

section \<open>The invariant of the run\<close>

definition quiet :: "'w run_state \<Rightarrow> bool" where
  "quiet s \<longleftrightarrow> \<not> rs_tun s \<and> \<not> rs_engine s \<and> rs_mark s = 0"

definition guard_lease :: "lx_extra lx_token lease \<Rightarrow> bool" where
  "guard_lease l \<longleftrightarrow> le_release l = Extra GuardClose \<and> \<not> le_closed l"

definition plan_guarded :: "run_config \<Rightarrow> 'w run_state \<Rightarrow> bool" where
  "plan_guarded cfg s \<longleftrightarrow> (\<exists>gl rest. pl_leases (rs_plan s) = gl # rest \<and> guard_lease gl \<and> network_only rest)
     \<and> protected (rc_TunDeviceName cfg) (rc_RoutingTableID cfg) (rs_kern s)"

definition plan_bare :: "'w run_state \<Rightarrow> bool" where
  "plan_bare s \<longleftrightarrow> guard_ok (rs_kern s) \<and> (pl_leases (rs_plan s) = [] \<and> snd (snd (rs_kern s)) = None
     \<or> (\<exists>gl. pl_leases (rs_plan s) = [gl] \<and> guard_lease gl))"

definition network_releases :: "run_config \<Rightarrow> lx_extra lx_token plan \<Rightarrow> bool" where
  "network_releases cfg p \<longleftrightarrow> (\<exists>index. releases p = Extra GuardClose # map release_of
     (family_adds (rc_RoutingTableID cfg) (rc_RoutingTablePriority cfg) index (word_of_int (rc_RoutingTableID cfg)) FAMILY_V4
      @ family_adds (rc_RoutingTableID cfg) (rc_RoutingTablePriority cfg) index (word_of_int (rc_RoutingTableID cfg)) FAMILY_V6))"

definition session_releases :: "run_config \<Rightarrow> lx_extra lx_token plan \<Rightarrow> bool" where
  "session_releases cfg p \<longleftrightarrow> (\<exists>index link. releases p = Extra GuardClose # map release_of
     (family_adds (rc_RoutingTableID cfg) (rc_RoutingTablePriority cfg) index (word_of_int (rc_RoutingTableID cfg)) FAMILY_V4
      @ family_adds (rc_RoutingTableID cfg) (rc_RoutingTablePriority cfg) index (word_of_int (rc_RoutingTableID cfg)) FAMILY_V6)
     @ [Extra (RevertDNS (rc_TunDeviceName cfg) link)])"

definition all_releases :: "run_release list" where
  "all_releases = [StopEngine, ClosePlan, CloseTun]"

definition run_early :: "'w run_state \<Rightarrow> bool" where
  "run_early s \<longleftrightarrow> rs_cleanup s = [] \<and> quiet s \<and> \<not> rs_source s \<and> pl_leases (rs_plan s) = [] \<and> snd (rs_kern s) = (None, None) \<and> rs_init s = None"

definition run_busy :: "run_config \<Rightarrow> 'w run_state \<Rightarrow> bool" where
  "run_busy cfg s \<longleftrightarrow> plan_guarded cfg s \<and> rs_cleanup s = all_releases \<and> rs_init s = None"

definition run_closing :: "run_config \<Rightarrow> 'w run_state \<Rightarrow> bool" where
  "run_closing cfg s \<longleftrightarrow>
     rs_cleanup s = all_releases \<and> (plan_guarded cfg s \<or> plan_bare s \<and> quiet s)
   \<or> rs_cleanup s = [ClosePlan, CloseTun] \<and> \<not> rs_engine s \<and> (plan_guarded cfg s \<or> plan_bare s)
   \<or> rs_cleanup s = [CloseTun] \<and> \<not> rs_engine s \<and> pl_leases (rs_plan s) = [] \<and> guard_ok (rs_kern s) \<and> snd (snd (rs_kern s)) = None
   \<or> rs_cleanup s = [] \<and> quiet s \<and> pl_leases (rs_plan s) = [] \<and> guard_ok (rs_kern s) \<and> snd (snd (rs_kern s)) = None"

fun phase_inv :: "run_config \<Rightarrow> lx_phase \<Rightarrow> 'w run_state \<Rightarrow> bool" where
  "phase_inv cfg PCapture s = (run_busy cfg s \<and> quiet s \<and> \<not> rs_source s \<and> releases (rs_plan s) = [Extra GuardClose])"
| "phase_inv cfg PTun s = (run_busy cfg s \<and> quiet s \<and> rs_source s \<and> releases (rs_plan s) = [Extra GuardClose])"
| "phase_inv cfg PDescriptor s = (run_busy cfg s \<and> rs_tun s \<and> \<not> rs_engine s \<and> rs_mark s = 0 \<and> rs_source s \<and> releases (rs_plan s) = [Extra GuardClose])"
| "phase_inv cfg PEngine s = (run_busy cfg s \<and> rs_tun s \<and> \<not> rs_engine s \<and> rs_mark s = 0 \<and> rs_source s \<and> releases (rs_plan s) = [Extra GuardClose])"
| "phase_inv cfg PNetwork s = (run_busy cfg s \<and> rs_tun s \<and> rs_engine s \<and> rs_mark s = 0 \<and> rs_source s \<and> releases (rs_plan s) = [Extra GuardClose])"
| "phase_inv cfg PResolved s = (run_busy cfg s \<and> rs_tun s \<and> rs_engine s \<and> rs_mark s = rc_RoutingTableID cfg \<and> rs_source s \<and> network_releases cfg (rs_plan s))"
| "phase_inv cfg PMaintain s = (plan_guarded cfg s \<and> rs_cleanup s = all_releases \<and> rs_tun s \<and> rs_engine s \<and> rs_mark s = rc_RoutingTableID cfg
     \<and> rs_source s \<and> session_releases cfg (rs_plan s) \<and> rs_init s = Some None)"
| "phase_inv cfg PCleanup s = run_closing cfg s"
| "phase_inv cfg PDone s = run_closing cfg s"
| "phase_inv cfg ph s = run_early s"

definition run_inv :: "run_config \<Rightarrow> 'w run_state \<Rightarrow> bool" where
  "run_inv cfg s \<longleftrightarrow> phase_inv cfg (rs_phase s) s"

lemmas run_defs = run_busy_def run_closing_def run_early_def quiet_def all_releases_def

lemma run_fail_simps [simp]:
  "rs_phase (run_fail err s) = PCleanup" "rs_kern (run_fail err s) = rs_kern s" "rs_plan (run_fail err s) = rs_plan s"
  "rs_cleanup (run_fail err s) = rs_cleanup s" "rs_tun (run_fail err s) = rs_tun s" "rs_engine (run_fail err s) = rs_engine s"
  "rs_mark (run_fail err s) = rs_mark s" "rs_source (run_fail err s) = rs_source s"
  "rs_init (run_fail err s) = (if rs_init s = None then Some (Some err) else rs_init s)"
  by (simp_all add: run_fail_def signalInit_def)

lemma plan_guarded_cong: "rs_plan t = rs_plan s \<Longrightarrow> rs_kern t = rs_kern s \<Longrightarrow> plan_guarded cfg t = plan_guarded cfg s"
  by (simp add: plan_guarded_def)

lemma plan_bare_cong: "rs_plan t = rs_plan s \<Longrightarrow> rs_kern t = rs_kern s \<Longrightarrow> plan_bare t = plan_bare s"
  by (simp add: plan_bare_def)

lemma plan_guarded_extends:
  assumes "plan_guarded cfg s" "extends (rs_plan s) (rs_kern s) p k" "rs_plan t = p" "rs_kern t = k"
  shows "plan_guarded cfg t"
  using assms protected_cong[of k "rs_kern s" "rc_TunDeviceName cfg" "rc_RoutingTableID cfg"]
  by (auto simp: plan_guarded_def extends_def network_only_def)

lemma plan_guarded_capture:
  assumes "plan_guarded cfg s" "captureLinuxResolver env tun (rs_kern s) = (k, r)" "rs_plan t = rs_plan s" "rs_kern t = k"
  shows "plan_guarded cfg t"
  using assms capture_protected[of "rc_TunDeviceName cfg" "rc_RoutingTableID cfg" "rs_kern s" env tun k r]
  by (auto simp: plan_guarded_def)

lemma closing_guarded:
  assumes "plan_guarded cfg s" "rs_cleanup s = all_releases"
  shows "run_closing cfg s"
  using assms by (simp add: run_closing_def)

lemma closing_early:
  assumes "run_early s" "rs_cleanup t = rs_cleanup s" "rs_tun t = rs_tun s" "rs_engine t = rs_engine s" "rs_mark t = rs_mark s"
    "rs_plan t = rs_plan s" "snd (rs_kern t) = snd (rs_kern s)"
  shows "run_closing cfg t"
  using assms by (auto simp: run_defs guard_ok_def)

lemma early_step:
  assumes "run_early s" "rs_phase s \<in> {PValidate, PRecoverRules, PRecoverRoutes, PPhysical, PInterface, PCaptureLink}"
  shows "run_inv cfg (run_step cfg app env s)"
proof -
  let ?t = "run_step cfg app env s"
  have rules: "snd k = snd (rs_kern s)"
    if "RecoverLinuxNetworkRules (re_showId env) (lift_nl (re_nl env)) i j n (rs_kern s) = (k, e)" for k e i j n
    using keeps_recover_rules[OF nl_keeps_lift that] .
  have routes: "snd k = snd (rs_kern s)"
    if "RecoverLinuxOwnedRoutes (lift_nl (re_nl env)) i j n (rs_kern s) = (k, e)" for k e i j n
    using keeps_recover_routes[OF nl_keeps_lift that] .
  have fields: "rs_cleanup ?t = rs_cleanup s \<and> rs_tun ?t = rs_tun s \<and> rs_engine ?t = rs_engine s \<and> rs_mark ?t = rs_mark s \<and> rs_plan ?t = rs_plan s
      \<and> rs_source ?t = rs_source s \<and> snd (rs_kern ?t) = snd (rs_kern s)
      \<and> (rs_phase ?t = PCleanup \<or> rs_init ?t = rs_init s \<and> rs_phase ?t \<in> {PRecoverRules, PRecoverRoutes, PPhysical, PInterface, PCaptureLink, PGuard})"
  proof -
    consider "rs_phase s = PValidate" | "rs_phase s = PRecoverRules" | "rs_phase s = PRecoverRoutes" | "rs_phase s = PPhysical"
      | "rs_phase s = PInterface" | "rs_phase s = PCaptureLink" using assms(2) by blast
    then show ?thesis
    proof cases
      case 1
      then show ?thesis by (cases "validateRunInputs app") (simp_all add: run_step_def)
    next
      case 2
      obtain k e where r: "RecoverLinuxNetworkRules (re_showId env) (lift_nl (re_nl env)) (rc_RoutingTableID cfg) (rc_RoutingTablePriority cfg)
          (rc_TunDeviceName cfg) (rs_kern s) = (k, e)" by (metis surj_pair)
      with 2 rules[OF r] show ?thesis by (cases e) (simp_all add: run_step_def)
    next
      case 3
      obtain k e where r: "RecoverLinuxOwnedRoutes (lift_nl (re_nl env)) (rc_RoutingTableID cfg) (rc_RoutingTablePriority cfg)
          (rc_TunDeviceName cfg) (rs_kern s) = (k, e)" by (metis surj_pair)
      with 3 routes[OF r] show ?thesis by (cases e) (simp_all add: run_step_def)
    next
      case 4
      then show ?thesis
        by (cases "LinuxPhysicalInterface (re_nl env) (rc_TunDeviceName cfg) (fst (rs_kern s))") (simp_all add: run_step_def)
    next
      case 5
      then show ?thesis by (cases "re_iface env (rs_index s)") (simp_all add: run_step_def)
    next
      case 6
      then show ?thesis by (cases "snd (CaptureLinuxLink (re_capture env) (rs_index s))") (simp_all add: run_step_def)
    qed
  qed
  show ?thesis
  proof (cases "rs_phase ?t = PCleanup")
    case True
    with closing_early[OF assms(1), of ?t cfg] fields show ?thesis by (simp add: run_inv_def)
  next
    case False
    with fields assms(1) have "run_early ?t" by (simp add: run_early_def quiet_def)
    with False fields show ?thesis by (auto simp: run_inv_def)
  qed
qed

lemma guard_connect_cases:
  assumes "guard_connect env tunName (g, None) = ((g', t'), e)" "\<not> g_closed g" "\<not> g_conn g"
  shows "\<not> g_closed g' \<and> (\<not> g_conn g' \<longrightarrow> t' = None) \<and> g_mark g' = g_mark g"
proof (cases "ge_newErr env")
  case (Some err)
  with assms show ?thesis by (auto simp: guard_connect_def)
next
  case None
  let ?h = "g\<lparr>g_conn := True, g_socket := True, g_table := ''dobbyvpn_'' @ itoa (ge_pid env)\<rparr>"
  from assms None have "guard_operation (ge_op env) (guard_create env tunName) (?h, None) = ((g', t'), e)" by (simp add: guard_connect_def)
  from guard_operation_world[OF this] have "(g', t') = (?h, None) \<or> (g', t') = fst (guard_create env tunName (?h, None))" .
  moreover have "fst (fst (guard_create env tunName (?h, None))) \<in> {?h, ?h\<lparr>g_created := True\<rparr>}"
    by (auto simp: guard_create_def Let_def split: option.splits prod.splits)
  ultimately have "g' \<in> {?h, ?h\<lparr>g_created := True\<rparr>}" by (metis fst_conv insertI1)
  then show ?thesis using assms(2) by auto
qed

lemma guard_step:
  assumes "run_early s" "rs_phase s = PGuard"
  shows "run_inv cfg (run_step cfg app env s)"
proof -
  let ?p0 = "NewPlan (rc_TunDeviceName cfg) :: lx_extra lx_token plan"
  obtain p k t g e where acq: "AcquireLinuxOutputGuard (plan_run env) (re_guard env) Nothing (Extra GuardClose) (rc_TunDeviceName cfg)
      (rc_RoutingTableID cfg) ?p0 (snd (snd (rs_kern s))) (rs_kern s) = (p, k, t, g, e)" by (metis surj_pair)
  have kern: "snd (rs_kern s) = (None, None)" using assms(1) by (simp add: run_early_def)
  let ?s2 = "s\<lparr>rs_cleanup := all_releases, rs_plan := p, rs_kern := (fst k, (case g of None \<Rightarrow> fst (snd k) | Some _ \<Rightarrow> g), t)\<rparr>"
  have step: "run_step cfg app env s = (case e of Some err \<Rightarrow> run_fail err ?s2 | None \<Rightarrow> ?s2\<lparr>rs_phase := PCapture\<rparr>)"
    using acq assms(2) by (cases e) (simp_all add: run_step_def Let_def all_releases_def)
  have noop: "plan_run env Nothing k0 = (k0, None)" for k0 by (simp add: plan_run_def)
  show ?thesis
  proof (cases "guard_identity (re_guard env) (rc_RoutingTableID cfg)")
    case (Inl err)
    with acq kern have "p = ?p0" "k = rs_kern s" "t = None" "g = None" "e = Some err" by (auto simp: AcquireLinuxOutputGuard_def)
    with step kern assms(1) show ?thesis
      by (auto simp: run_inv_def run_defs plan_bare_def NewPlan_def guard_ok_def)
  next
    case (Inr g0)
    let ?gl = "\<lparr>le_name = ''owned IPv4/IPv6 output guard'', le_closed = False, le_release = Extra GuardClose, le_repair = None\<rparr>"
    have g0: "\<not> g_closed g0" "\<not> g_conn g0" "g_mark g0 = word_of_int (rc_RoutingTableID cfg)"
      using Inr by (auto simp: guard_identity_def split: if_splits account.splits sum.splits)
    obtain g1 t1 e1 where conn: "guard_connect (re_guard env) (rc_TunDeviceName cfg) (g0, None) = ((g1, t1), e1)" by (metis surj_pair)
    have res: "p = ?p0\<lparr>pl_leases := [?gl]\<rparr>" "k = rs_kern s" "t = t1" "g = Some g1" "e = e1"
      using acq Inr kern conn noop by (auto simp: AcquireLinuxOutputGuard_def Plan_Acquire_def NewPlan_def Let_def)
    from guard_connect_cases[OF conn g0(1,2)] g0 have gc: "\<not> g_closed g1" "\<not> g_conn g1 \<longrightarrow> t1 = None" "g_mark g1 = word_of_int (rc_RoutingTableID cfg)" by auto
    show ?thesis
    proof (cases e1)
      case None
      from conn None have t1: "t1 = Some (guard_tab (rc_TunDeviceName cfg) g1 [])" "g_conn g1"
        using guard_connect_ok[of "re_guard env" "rc_TunDeviceName cfg" g0 None g1 t1] by auto
      then have "plan_guarded cfg (?s2\<lparr>rs_phase := PCapture\<rparr>)"
        using res gc by (simp add: plan_guarded_def guard_lease_def network_only_def protected_def table_ok_def)
      with step res None assms(1) show ?thesis by (simp add: run_inv_def run_defs)
    next
      case (Some err)
      have "plan_bare (run_fail err ?s2)"
        using res gc by (simp add: plan_bare_def guard_lease_def guard_ok_def)
      with step res Some assms(1) show ?thesis by (simp add: run_inv_def run_defs)
    qed
  qed
qed

lemma busy_fail:
  assumes "plan_guarded cfg t" "rs_cleanup t = all_releases"
  shows "run_inv cfg (run_fail err t)"
  using closing_guarded[of cfg "run_fail err t"] assms plan_guarded_cong[of "run_fail err t" t cfg]
  by (simp add: run_inv_def)

lemma capture_step:
  assumes "run_inv cfg s" "rs_phase s = PCapture"
  shows "run_inv cfg (run_step cfg app env s)"
proof -
  obtain k r where cap: "captureLinuxResolver env (rc_TunDeviceName cfg) (rs_kern s) = (k, r)" by (metis surj_pair)
  from assms have inv: "run_busy cfg s" "quiet s" "releases (rs_plan s) = [Extra GuardClose]" by (auto simp: run_inv_def)
  then have g: "plan_guarded cfg t" if "rs_plan t = rs_plan s" "rs_kern t = k" for t
    using plan_guarded_capture[OF _ cap that] by (simp add: run_busy_def)
  show ?thesis
  proof (cases r)
    case (Inl err)
    with cap assms(2) inv(1) show ?thesis
      using busy_fail[of cfg "s\<lparr>rs_kern := k\<rparr>"] g[of "s\<lparr>rs_kern := k\<rparr>"] by (simp add: run_step_def run_busy_def)
  next
    case (Inr x)
    with cap assms(2) inv show ?thesis
      using g[of "s\<lparr>rs_kern := k, rs_source := True, rs_phase := PTun\<rparr>"] by (simp add: run_step_def run_inv_def run_busy_def quiet_def)
  qed
qed

lemma newTunDevice_ok: "newTunDevice env name ip = (dev, None) \<Longrightarrow> dev"
  by (auto simp: newTunDevice_def split: if_splits option.splits)

lemma device_step:
  assumes "run_inv cfg s" "rs_phase s \<in> {PTun, PDescriptor, PEngine}"
  shows "run_inv cfg (run_step cfg app env s)"
proof -
  have guarded: "plan_guarded cfg s" and full: "rs_cleanup s = all_releases" and init: "rs_init s = None"
    using assms by (auto simp: run_inv_def run_busy_def)
  have g: "plan_guarded cfg t" if "rs_plan t = rs_plan s" "rs_kern t = rs_kern s" for t
    using plan_guarded_cong[OF that] guarded by simp
  from assms(2) consider "rs_phase s = PTun" | "rs_phase s = PDescriptor" | "rs_phase s = PEngine" by blast
  then show ?thesis
  proof cases
    case 1
    obtain dev e where dev: "newTunDevice (re_tun env) (rc_TunDeviceName cfg) (rc_TunDeviceIP cfg) = (dev, e)" by (metis surj_pair)
    show ?thesis
    proof (cases e)
      case None
      with dev newTunDevice_ok have dev by blast
      with None dev 1 assms(1) init full show ?thesis
        using g[of "s\<lparr>rs_tun := True, rs_phase := PDescriptor\<rparr>"] by (simp add: run_step_def run_inv_def run_busy_def quiet_def)
    next
      case (Some err)
      with dev 1 full show ?thesis
        using busy_fail[of cfg "s\<lparr>rs_tun := dev\<rparr>"] g[of "s\<lparr>rs_tun := dev\<rparr>"] by (simp add: run_step_def)
    qed
  next
    case 2
    then have fail: "run_inv cfg (run_fail err s)" for err using busy_fail[OF guarded full] by simp
    from 2 assms(1) init full have "run_inv cfg (s\<lparr>rs_phase := PEngine\<rparr>)"
      using g[of "s\<lparr>rs_phase := PEngine\<rparr>"] by (simp add: run_inv_def run_busy_def)
    with 2 fail show ?thesis by (cases "re_fd env") (simp_all add: run_step_def)
  next
    case 3
    show ?thesis
    proof (cases "re_engine env")
      case EngineStarted
      with 3 assms(1) init full show ?thesis
        using g[of "s\<lparr>rs_engine := True, rs_phase := PNetwork\<rparr>"] by (simp add: run_step_def run_inv_def run_busy_def)
    next
      case (EngineFailed eng err)
      with 3 full show ?thesis
        using busy_fail[of cfg "s\<lparr>rs_engine := eng\<rparr>"] g[of "s\<lparr>rs_engine := eng\<rparr>"] by (simp add: run_step_def)
    qed
  qed
qed

lemma network_step:
  assumes "run_inv cfg s" "rs_phase s = PNetwork"
  shows "run_inv cfg (run_step cfg app env s)"
proof -
  obtain p k e where acq: "AcquireLinuxNetwork (lift_nl (re_nl env)) (lx_extra_run env) (rc_TunDeviceName cfg) (rc_RoutingTableID cfg)
         (rc_RoutingTablePriority cfg) (rs_plan s) (rs_kern s) = (p, k, e)" by (metis surj_pair)
  from assms have inv: "plan_guarded cfg s" "rs_cleanup s = all_releases" "rs_init s = None" "rs_tun s" "rs_engine s" "rs_source s"
      "releases (rs_plan s) = [Extra GuardClose]" by (auto simp: run_inv_def run_busy_def)
  have g: "plan_guarded cfg t" if "rs_plan t = p" "rs_kern t = k" for t
    using plan_guarded_extends[OF inv(1) extends_network[OF acq] that] .
  show ?thesis
  proof (cases e)
    case None
    from acquire_network_releases[of "lift_nl (re_nl env)"] acq None inv(7) have "network_releases cfg p"
      by (fastforce simp: network_releases_def)
    with acq None assms(2) inv show ?thesis
      using g[of "s\<lparr>rs_plan := p, rs_kern := k, rs_mark := rc_RoutingTableID cfg, rs_phase := PResolved\<rparr>"]
      by (simp add: run_step_def run_inv_def run_busy_def)
  next
    case (Some err)
    with acq assms(2) inv(2) show ?thesis
      using busy_fail[of cfg "s\<lparr>rs_plan := p, rs_kern := k\<rparr>"] g[of "s\<lparr>rs_plan := p, rs_kern := k\<rparr>"] by (simp add: run_step_def)
  qed
qed

lemma resolved_step:
  assumes "run_inv cfg s" "rs_phase s = PResolved"
  shows "run_inv cfg (run_step cfg app env s)"
proof -
  obtain p k e where acq: "AcquireLinuxResolvedDNS (plan_run env) (lift_nl (re_nl env)) (lift_op (re_call env)) Nothing (\<lambda>n i. Extra (RevertDNS n i))
         (rc_TunDeviceName cfg) (rc_DNSServers cfg) (rs_plan s) (rs_kern s) = (p, k, e)" by (metis surj_pair)
  from assms have inv: "plan_guarded cfg s" "rs_cleanup s = all_releases" "rs_init s = None" "rs_tun s" "rs_engine s" "rs_source s"
      "rs_mark s = rc_RoutingTableID cfg" "network_releases cfg (rs_plan s)" by (auto simp: run_inv_def run_busy_def)
  have g: "plan_guarded cfg t" if "rs_plan t = p" "rs_kern t = k" for t
    using plan_guarded_extends[OF inv(1) extends_resolved[OF acq] that] .
  show ?thesis
  proof (cases e)
    case None
    from acq None have acq0: "AcquireLinuxResolvedDNS (plan_run env) (lift_nl (re_nl env)) (lift_op (re_call env)) Nothing (\<lambda>n i. Extra (RevertDNS n i))
         (rc_TunDeviceName cfg) (rc_DNSServers cfg) (rs_plan s) (rs_kern s) = (p, k, None)" by simp
    from acquire_resolved_releases[OF acq0] obtain l where "releases p = releases (rs_plan s) @ [Extra (RevertDNS (rc_TunDeviceName cfg) l)]" by blast
    moreover obtain i where "releases (rs_plan s) = Extra GuardClose # map release_of
     (family_adds (rc_RoutingTableID cfg) (rc_RoutingTablePriority cfg) i (word_of_int (rc_RoutingTableID cfg)) FAMILY_V4
      @ family_adds (rc_RoutingTableID cfg) (rc_RoutingTablePriority cfg) i (word_of_int (rc_RoutingTableID cfg)) FAMILY_V6)"
      using inv(8)[unfolded network_releases_def] ..
    ultimately have "session_releases cfg p"
      unfolding session_releases_def by (intro exI[of _ i] exI[of _ l]) simp
    with acq None assms(2) inv show ?thesis
      using g[of "(signalInit None (s\<lparr>rs_plan := p, rs_kern := k\<rparr>))\<lparr>rs_phase := PMaintain\<rparr>"]
      by (simp add: run_step_def run_inv_def run_busy_def signalInit_def)
  next
    case (Some err)
    with acq assms(2) inv(2) show ?thesis
      using busy_fail[of cfg "s\<lparr>rs_plan := p, rs_kern := k\<rparr>"] g[of "s\<lparr>rs_plan := p, rs_kern := k\<rparr>"] by (simp add: run_step_def)
  qed
qed

lemma lookup_inv:
  assumes "run_inv cfg s" "captureLinuxResolver env (rc_TunDeviceName cfg) (rs_kern s) = (k, r)" "rs_source s"
  shows "run_inv cfg (s\<lparr>rs_kern := k\<rparr>)"
proof -
  let ?t = "s\<lparr>rs_kern := k\<rparr>"
  have g: "plan_guarded cfg s \<Longrightarrow> plan_guarded cfg ?t"
    using plan_guarded_capture[OF _ assms(2), of cfg ?t] by simp
  have ok: "guard_ok (rs_kern s) \<Longrightarrow> guard_ok k" using capture_guard_ok[OF _ assms(2)] .
  have none: "snd (snd (rs_kern s)) = None \<Longrightarrow> snd (snd k) = None"
  proof -
    assume n: "snd (snd (rs_kern s)) = None"
    have "nft_commit ms None = None" for ms by (induction ms) (auto simp: nft_commit_def)
    note none0 = this
    obtain w g where k0: "rs_kern s = (w, g, None)" using n by (cases "rs_kern s") auto
    have "snd (snd k1) = None" if "guard_update_bootstrap env i ss (rs_kern s) = (k1, e)" for i ss k1 e
      using that by (cases g) (auto simp: k0 none0 guard_update_bootstrap_def UpdateBootstrap_def guard_operation_def nft_flush_def
          split: prod.splits option.splits if_splits)
    with assms(2) n show ?thesis
      by (auto simp: captureLinuxResolver_def split: sum.splits prod.splits option.splits)
  qed
  have bare: "plan_bare s \<Longrightarrow> plan_bare ?t" using ok none by (auto simp: plan_bare_def)
  have "run_closing cfg ?t" if "run_closing cfg s"
    using that unfolding run_closing_def
    by (elim disjE conjE) (simp_all add: g ok none bare quiet_def)
  moreover have "run_busy cfg s \<Longrightarrow> run_busy cfg ?t" using g by (simp add: run_busy_def)
  moreover have "quiet ?t = quiet s" by (simp add: quiet_def)
  moreover have "\<not> run_early s" using assms(3) by (simp add: run_early_def)
  ultimately show ?thesis
    using assms(1) g by (cases "rs_phase s") (simp_all add: run_inv_def)
qed

lemma guard_Close_ok:
  assumes "guard_Close cenv (g, t) = ((g', t'), e)" "(g_closed g \<longrightarrow> t = None) \<and> (\<not> g_conn g \<longrightarrow> t = None)"
  shows "(g_closed g' \<longrightarrow> t' = None) \<and> (\<not> g_conn g' \<longrightarrow> t' = None) \<and> (e = None \<longrightarrow> t' = None)"
proof (cases "g_conn g")
  case True
  with assms(2) have "guard_inv (g, t)" by (simp add: guard_inv_def)
  from guard_Close_cases[OF assms(1) this] show ?thesis by (auto simp: guard_inv_def)
next
  case False
  with assms(2) have "t = None" by simp
  with False assms(1) show ?thesis
    by (auto simp: guard_Close_def guard_closeSocket_def split: if_splits option.splits)
qed

lemma guard_lease_close:
  assumes "guard_lease gl" "guard_ok k" "Lease_Close (plan_run env) gl k = (gl', k', e)"
  shows "guard_ok k' \<and> (e = None \<longrightarrow> snd (snd k') = None) \<and> (e \<noteq> None \<longrightarrow> gl' = gl)"
proof -
  obtain k1 e1 where run: "lx_extra_run env GuardClose k = (k1, e1)" by (metis surj_pair)
  obtain w g t where k: "k = (w, g, t)" by (cases k)
  have "guard_ok k1 \<and> (e1 = None \<longrightarrow> snd (snd k1) = None)"
  proof (cases g)
    case None
    with run k assms(2) show ?thesis by (auto simp: guard_ok_def)
  next
    case (Some g0)
    obtain g1 t1 r where cl: "guard_Close (re_close env) (g0, t) = ((g1, t1), r)" by (metis surj_pair)
    from guard_Close_ok[OF cl] run k Some cl assms(2) show ?thesis by (auto simp: guard_ok_def)
  qed
  with run assms(1,3) show ?thesis
    by (auto simp: Lease_Close_def guard_lease_def plan_run_def split: option.splits)
qed

lemma close_plan_step:
  assumes "plan_guarded cfg s \<or> plan_bare s" "Plan_Close (plan_run env) (rs_plan s) (rs_kern s) = (p, k, e)" "rs_plan t = p" "rs_kern t = k"
  shows "if e = None then pl_leases (rs_plan t) = [] \<and> guard_ok (rs_kern t) \<and> snd (snd (rs_kern t)) = None
    else plan_guarded cfg t \<or> plan_bare t"
proof -
  obtain ls where rel: "plan_release (plan_run env) (pl_leases (rs_plan s)) (rs_kern s) = (ls, k, e)" and p: "pl_leases p = ls"
    using assms(2) by (auto simp: Plan_Close_def split: prod.splits)
  have ok: "guard_ok (rs_kern s)" using assms(1) protected_guard_ok[of _ _ "rs_kern s"] by (auto simp: plan_guarded_def plan_bare_def)
  show ?thesis
  proof (cases "pl_leases (rs_plan s)")
    case Nil
    with rel assms(1) p assms(3,4) show ?thesis by (auto simp: plan_guarded_def plan_bare_def)
  next
    case (Cons gl rest)
    with assms(1) have gl: "guard_lease gl" "network_only rest" "plan_guarded cfg s \<or> rest = []"
      by (auto simp: plan_guarded_def plan_bare_def network_only_def)
    from rel Cons have "plan_release (plan_run env) (gl # rest) (rs_kern s) = (ls, k, e)" by simp
    from plan_release_guard_last[OF gl(2) this]
    consider (kept) rest' where "ls = gl # rest'" "network_only rest'" "snd k = snd (rs_kern s)" "e \<noteq> None"
      | (last) k1 gl' e1 where "snd k1 = snd (rs_kern s)" "Lease_Close (plan_run env) gl k1 = (gl', k, e1)" "ls = (if e1 = None then [] else [gl'])" "e = None \<longleftrightarrow> e1 = None"
      by blast
    then show ?thesis
    proof cases
      case kept
      show ?thesis
      proof (cases "plan_guarded cfg s")
        case True
        then have "plan_guarded cfg t"
          using kept gl p assms(3,4) protected_cong[OF kept(3)] by (auto simp: plan_guarded_def)
        with kept show ?thesis by auto
      next
        case False
        with gl(3) have "rest = []" by simp
        with Cons rel kept(4) plan_release_snoc[of "plan_run env" "[]" gl "rs_kern s"]
        obtain gl' where "Lease_Close (plan_run env) gl (rs_kern s) = (gl', k, e) \<or> (\<exists>x. Lease_Close (plan_run env) gl (rs_kern s) = (gl', k, Some x))" "ls = [gl']"
          by (auto split: prod.splits option.splits)
        then have "guard_ok k" "gl' = gl" using guard_lease_close[OF gl(1) ok] kept(4) by blast+
        with \<open>ls = [gl']\<close> p assms(3,4) gl(1) kept(4) show ?thesis by (auto simp: plan_bare_def)
      qed
    next
      case last
      have "guard_ok k1" using ok guard_ok_cong[OF last(1)] by simp
      from guard_lease_close[OF gl(1) this last(2)] last p assms(3,4) gl(1) show ?thesis
        by (auto simp: plan_bare_def)
    qed
  qed
qed

lemma closing_step:
  assumes "run_closing cfg s" "rs_phase s = PCleanup"
  shows "run_inv cfg (run_step cfg app env s)"
proof -
  consider (a) "rs_cleanup s = all_releases" "plan_guarded cfg s" | (b) "rs_cleanup s = all_releases" "plan_bare s" "quiet s"
    | (c) "rs_cleanup s = [ClosePlan, CloseTun]" "\<not> rs_engine s" "plan_guarded cfg s \<or> plan_bare s"
    | (d) "rs_cleanup s = [CloseTun]" "\<not> rs_engine s" "pl_leases (rs_plan s) = []" "guard_ok (rs_kern s)" "snd (snd (rs_kern s)) = None"
    | (e) "rs_cleanup s = []" "quiet s" "pl_leases (rs_plan s) = []" "guard_ok (rs_kern s)" "snd (snd (rs_kern s)) = None"
    using assms(1) unfolding run_closing_def by (elim disjE conjE) simp_all
  then show ?thesis
  proof cases
  case a
  then have g: "plan_guarded cfg t" if "rs_plan t = rs_plan s" "rs_kern t = rs_kern s" for t
    using plan_guarded_cong[OF that] by simp
  show ?thesis
    using a(1) assms(2) g
    by (cases "rs_engine s"; cases "re_engineStop env") (simp_all add: run_step_def run_inv_def run_closing_def all_releases_def)
next
  case b
  then have g: "plan_bare t" if "rs_plan t = rs_plan s" "rs_kern t = rs_kern s" for t
    using plan_bare_cong[OF that] by simp
  show ?thesis
    using b(1,3) assms(2) g by (simp add: run_step_def run_inv_def run_closing_def all_releases_def quiet_def)
next
  case c
  obtain p k e where cl: "Plan_Close (plan_run env) (rs_plan s) (rs_kern s) = (p, k, e)" by (metis surj_pair)
  note close = close_plan_step[OF c(3) cl]
  show ?thesis
  proof (cases e)
    case None
    with c cl assms(2) close[of "s\<lparr>rs_plan := p, rs_kern := k, rs_cleanup := [CloseTun]\<rparr>"] show ?thesis
      by (simp add: run_step_def run_inv_def run_closing_def all_releases_def)
  next
    case (Some err)
    with c cl assms(2) close[of "s\<lparr>rs_plan := p, rs_kern := k, rs_phase := PDone, rs_err := errors_join [rs_err s, Some (CleanupFailure err)]\<rparr>"]
    show ?thesis by (simp add: run_step_def run_inv_def run_closing_def all_releases_def)
  qed
next
  case d
  then show ?thesis
    using assms(2)
    by (cases "rs_tun s"; cases "re_tunClose env") (simp_all add: run_step_def run_inv_def run_closing_def all_releases_def quiet_def)
next
  case e
  then show ?thesis
    using assms(2) by (simp add: run_step_def run_inv_def run_closing_def all_releases_def quiet_def)
qed
qed

lemma maintain_step:
  assumes "run_inv cfg s" "rs_phase s = PMaintain"
  shows "run_inv cfg (run_step cfg app env s)"
proof (cases "re_done env")
  case True
  then have "run_step cfg app env s = s\<lparr>rs_phase := PCleanup\<rparr>" using assms(2) by (simp add: run_step_def maintainLinuxResolver_def)
  with assms closing_guarded[of cfg "s\<lparr>rs_phase := PCleanup\<rparr>"] plan_guarded_cong[of "s\<lparr>rs_phase := PCleanup\<rparr>" s cfg]
  show ?thesis by (simp add: run_inv_def)
next
  case False
  obtain k r where cap: "captureLinuxResolver env (rc_TunDeviceName cfg) (rs_kern s) = (k, r)" by (metis surj_pair)
  have "rs_source s" using assms by (simp add: run_inv_def)
  from lookup_inv[OF assms(1) cap this] False cap assms(2) show ?thesis by (simp add: run_step_def maintainLinuxResolver_def)
qed

lemma run_step_inv:
  assumes "run_inv cfg s"
  shows "run_inv cfg (run_step cfg app env s)"
proof -
  consider (early) "rs_phase s \<in> {PValidate, PRecoverRules, PRecoverRoutes, PPhysical, PInterface, PCaptureLink}" | (guard) "rs_phase s = PGuard"
    | (capture) "rs_phase s = PCapture" | (device) "rs_phase s \<in> {PTun, PDescriptor, PEngine}" | (network) "rs_phase s = PNetwork"
    | (resolved) "rs_phase s = PResolved" | (maintain) "rs_phase s = PMaintain" | (cleanup) "rs_phase s = PCleanup" | (finished) "rs_phase s = PDone"
    by (cases "rs_phase s") simp_all
  then show ?thesis
  proof cases
    case early
    with assms have "run_early s" by (auto simp: run_inv_def)
    then show ?thesis using early by (rule early_step)
  next
    case guard
    with assms guard_step show ?thesis by (simp add: run_inv_def)
  next
    case capture
    with assms show ?thesis by (rule capture_step)
  next
    case device
    with assms show ?thesis by (rule device_step)
  next
    case network
    with assms show ?thesis by (rule network_step)
  next
    case resolved
    with assms show ?thesis by (rule resolved_step)
  next
    case maintain
    with assms show ?thesis by (rule maintain_step)
  next
    case cleanup
    with assms have "run_closing cfg s" by (simp add: run_inv_def)
    then show ?thesis using cleanup by (rule closing_step)
  next
    case finished
    with assms have "run_closing cfg s" by (simp add: run_inv_def)
    moreover have "run_closing cfg (s\<lparr>rs_phase := PCleanup\<rparr>) = run_closing cfg s"
      using plan_guarded_cong[of "s\<lparr>rs_phase := PCleanup\<rparr>" s cfg] plan_bare_cong[of "s\<lparr>rs_phase := PCleanup\<rparr>" s]
      by (simp add: run_closing_def quiet_def)
    ultimately show ?thesis using finished by (simp add: run_step_def run_inv_def)
  qed
qed

lemma run_next_inv: "run_inv cfg s \<Longrightarrow> run_next cfg app s s' \<Longrightarrow> run_inv cfg s'"
proof (erule run_next.cases)
  fix env s0
  assume "run_inv cfg s" "s = s0" "s' = run_step cfg app env s0"
  then show ?thesis using run_step_inv by simp
next
  fix s0 env
  assume a: "run_inv cfg s" "s = s0" "s' = s0\<lparr>rs_kern := fst (captureLinuxResolver env (rc_TunDeviceName cfg) (rs_kern s0))\<rparr>" "rs_source s0"
  then show ?thesis using lookup_inv[of cfg s env _ "snd (captureLinuxResolver env (rc_TunDeviceName cfg) (rs_kern s))"] by simp
qed

interpretation linux_runs: invariant_system "\<lambda>s. \<exists>w. s = run_initial w" "run_next cfg app" "run_inv cfg" for cfg app
proof
  fix s :: "'a run_state"
  assume "\<exists>w. s = run_initial w"
  then show "run_inv cfg s" by (auto simp: run_initial_def run_inv_def run_early_def quiet_def NewPlan_def)
qed (rule run_next_inv)

text \<open>The plan holds a lease of the network: a route, a rule or the TUN's resolver.\<close>

definition network_held :: "'w run_state \<Rightarrow> bool" where
  "network_held s \<longleftrightarrow> list_ex (\<lambda>l. le_release l \<noteq> Extra GuardClose) (pl_leases (rs_plan s))"

definition run_acquiring :: "lx_phase \<Rightarrow> bool" where
  "run_acquiring ph \<longleftrightarrow> ph \<in> {PCapture, PTun, PDescriptor, PEngine, PNetwork, PResolved, PMaintain}"

lemma run_inv_guarded:
  assumes "run_inv cfg s" "run_acquiring (rs_phase s) \<or> rs_engine s \<or> network_held s"
  shows "plan_guarded cfg s"
proof (cases "run_acquiring (rs_phase s)")
  case True
  with assms(1) show ?thesis by (auto simp: run_acquiring_def run_inv_def run_busy_def)
next
  case False
  have "\<not> network_held s" if "plan_bare s"
    using that by (auto simp: plan_bare_def network_held_def guard_lease_def)
  moreover have "\<not> network_held s" if "pl_leases (rs_plan s) = []"
    using that by (simp add: network_held_def)
  ultimately show ?thesis
    using assms False by (cases "rs_phase s") (auto simp: run_acquiring_def run_inv_def run_closing_def run_early_def quiet_def)
qed

section \<open>Properties\<close>

text \<open>
  C14. At every moment of a run of the Linux network (every pattern of failures, resolver refreshes and endpoint
  lookups at any time, cleanups that fail and are retried), while the run is past the acquisition of its
  guard, the packet engine runs, or a route, rule or resolver setting of the session is held, the guard's table is in the kernel: a
  packet leaves the machine only to the loopback or the TUN, with the session's mark, or as bootstrap traffic of the
  guard's services.
\<close>

theorem linux_run_protected:
  assumes "nft_documented hook" and "device_name (rc_TunDeviceName cfg)"
    and "(run_next cfg app)\<^sup>*\<^sup>* (run_initial w) s"
    and "run_acquiring (rs_phase s) \<or> rs_engine s \<or> network_held s"
  shows "\<exists>g servers. fst (snd (rs_kern s)) = Some g \<and> \<not> g_closed g
    \<and> list_all (\<lambda>s. physical_server (Some s)) (case servers of None \<Rightarrow> [] | Some ss \<Rightarrow> ss)
    \<and> (\<forall>pk. device_name (pk_oif pk) \<longrightarrow> (hook (snd (snd (rs_kern s))) pk \<longleftrightarrow>
         pk_oif pk = ''lo'' \<or> pk_oif pk = rc_TunDeviceName cfg \<or> pk_mark pk = word_of_int (rc_RoutingTableID cfg)
         \<or> (case servers of None \<Rightarrow> False | Some ss \<Rightarrow> bootstrap_traffic g ss pk)))"
proof -
  have "run_inv cfg s" using linux_runs.reach_inv[OF _ assms(3)] by blast
  from run_inv_guarded[OF this assms(4)]
  obtain g where g: "fst (snd (rs_kern s)) = Some g" "\<not> g_closed g" "g_mark g = word_of_int (rc_RoutingTableID cfg)"
      "table_ok (rc_TunDeviceName cfg) g (snd (snd (rs_kern s)))"
    by (auto simp: plan_guarded_def protected_def)
  from table_ok_passes[OF g(4)] assms(1,2) g(1-3) show ?thesis
    by (auto simp: nft_documented_def owned_traffic_def)
qed


section \<open>A run for the witnesses\<close>

definition demo_cfg :: run_config where
  "demo_cfg = \<lparr>rc_TunDeviceName = ''tun0'', rc_TunDeviceIP = ''10.0.0.2'', rc_RoutingTableID = 51820, rc_RoutingTablePriority = 200, rc_DNSServers = [''10.0.0.1'']\<rparr>"

definition demo_app :: app_inputs where
  "demo_app = \<lparr>ai_RoutingConfig = Some demo_cfg, ai_hasDNSCache = True, ai_hasBypass = True\<rparr>"

definition demo_uplink :: "unit netlink" where
  "demo_uplink = demo_nl\<lparr>nl_RouteList := (\<lambda>f w. Inr [zero_route\<lparr>rt_Table := RT_TABLE_MAIN, rt_Type := RTN_UNICAST, rt_LinkIndex := 2, rt_Family := FAMILY_V4\<rparr>]),
     nl_RuleList := (\<lambda>f w. Inr []), nl_LinkByIndex := (\<lambda>i w. Inr \<lparr>ln_Name = ''eth0'', ln_Index = i, ln_Up = True\<rparr>)\<rparr>"

definition demo_bus :: bus_env where
  "demo_bus = \<lparr>be_dial = None, be_newConn = None, be_socketClose = None, be_auth = None, be_hello = None, be_getLink = None, be_close = None\<rparr>"

definition demo_env :: "unit run_env" where
  "demo_env = \<lparr>re_nl = demo_uplink, re_showId = (\<lambda>i. []), re_showAddr = (\<lambda>a. []), re_iface = (\<lambda>i. Inr ''eth0''),
     re_capture = \<lparr>ca_iface = (\<lambda>i. Inr (''eth0'', [])), ca_addrs = Inr [], ca_bus = demo_bus, ca_native = Inr [], ca_record = (\<lambda>r. []), ca_servers = (\<lambda>ss. [])\<rparr>,
     re_guard = demo_guard_env, re_updateOp = demo_op, re_update = Acknowledged,
     re_tun = \<lparr>te_create = None, te_link = None, te_subnetParse = None, te_subnetAdd = None, te_parse6 = None, te_add6 = None, te_up = None\<rparr>,
     re_fd = Some 3, re_engine = EngineStarted, re_call = (\<lambda>c w. (w, None)),
     re_close = \<lparr>ce_op = demo_op, ce_delete = Acknowledged, ce_closeErr = None, ce_closeGone = False\<rparr>,
     re_engineStop = None, re_tunClose = None, re_done = True\<rparr>"

abbreviation demo_run :: "nat \<Rightarrow> unit run_state" where
  "demo_run n \<equiv> (run_step demo_cfg demo_app demo_env ^^ n) (run_initial ())"

lemma demo_run_reach: "(run_next demo_cfg demo_app)\<^sup>*\<^sup>* (run_initial ()) (demo_run n)"
proof (induction n)
  case (Suc n)
  have "run_next demo_cfg demo_app (demo_run n) (demo_run (Suc n))" using RunStep[of demo_cfg demo_app "demo_run n" demo_env] by simp
  with Suc show ?case by (rule rtranclp.rtrancl_into_rtrancl)
qed simp

definition demo_ready :: "unit run_state" where
  "demo_ready = (run_initial ())\<lparr>rs_phase := PGuard, rs_index := 2, rs_uplink := ''eth0''\<rparr>"

definition demo_guarded :: "unit run_state" where
  "demo_guarded = demo_ready\<lparr>rs_phase := PCapture, rs_cleanup := [StopEngine, ClosePlan, CloseTun],
     rs_plan := \<lparr>pl_sessionID = ''tun0'', pl_closed = False, pl_leases = [\<lparr>le_name = ''owned IPv4/IPv6 output guard'', le_closed = False,
        le_release = Extra GuardClose, le_repair = None\<rparr>]\<rparr>,
     rs_kern := ((), Some demo_guard, Some (guard_tab ''tun0'' demo_guard []))\<rparr>"

lemma demo_env_simps [simp]:
  "re_nl demo_env = demo_uplink" "re_showId demo_env = (\<lambda>i. [])" "re_showAddr demo_env = (\<lambda>a. [])" "re_iface demo_env i = Inr ''eth0''"
  "re_guard demo_env = demo_guard_env" "re_updateOp demo_env = demo_op" "re_update demo_env = Acknowledged"
  "re_fd demo_env = Some 3" "re_engine demo_env = EngineStarted" "re_call demo_env = (\<lambda>c w. (w, None))" "re_done demo_env"
  by (simp_all add: demo_env_def)

lemma demo_cfg_simps [simp]:
  "rc_TunDeviceName demo_cfg = ''tun0''" "rc_TunDeviceIP demo_cfg = ''10.0.0.2''" "rc_RoutingTableID demo_cfg = 51820"
  "rc_RoutingTablePriority demo_cfg = 200" "rc_DNSServers demo_cfg = [''10.0.0.1'']"
  by (simp_all add: demo_cfg_def)

lemma demo_physical [simp]: "LinuxPhysicalInterface demo_uplink ''tun0'' w = Inr 2"
  by (simp add: LinuxPhysicalInterface_def demo_uplink_def linuxRouteIsDefault_def zero_route_def)

lemma demo_captured: "\<exists>i. CaptureLinuxLink (re_capture demo_env) 2 = ((i, []), None)"
  by (simp add: CaptureLinuxLink_def invalid_index_def demo_env_def demo_bus_def openResolvedLink_def)

lemma demo_recover_rules: "RecoverLinuxNetworkRules sh (lift_nl demo_uplink) 51820 200 ''tun0'' k = (k, None)"
proof -
  have "linuxNetworkRules sh (lift_nl demo_uplink) f 200 k = Inr []" for f by (simp add: linuxNetworkRules_def lift_nl_def demo_uplink_def)
  moreover have "\<not> owned_network_route (zero_route\<lparr>rt_Table := RT_TABLE_MAIN, rt_Type := RTN_UNICAST, rt_LinkIndex := 2, rt_Family := FAMILY_V4\<rparr>) f 51820" for f
    by (simp add: owned_network_route_def zero_route_def RT_TABLE_MAIN_def)
  ultimately have "recoverLinuxNetworkFamily sh (lift_nl demo_uplink) f 51820 200 m ''tun0'' k = (k, None)" for f m
    by (simp add: recoverLinuxNetworkFamily_def recoverLinuxNetworkFamilyRules_def recoverLinuxNetworkFamilyRoutes_def)
      (simp add: lift_nl_def demo_uplink_def)
  then show ?thesis by (simp add: RecoverLinuxNetworkRules_def invalid_identity_def netlink_consts)
qed

lemma demo_recover_routes: "RecoverLinuxOwnedRoutes (lift_nl demo_uplink) 51820 200 ''tun0'' k = (k, None)"
proof -
  let ?r = "zero_route\<lparr>rt_Table := RT_TABLE_MAIN, rt_Type := RTN_UNICAST, rt_LinkIndex := 2, rt_Family := FAMILY_V4\<rparr>"
  have "\<not> linuxOwnedProxyRoute ?r" "\<not> linuxOwnedTunnelRoute nl w ?r n" "\<not> linuxOwnedIPv6Route ?r" for nl :: "unit kern netlink" and w n
    by (simp_all add: linuxOwnedProxyRoute_def linuxOwnedTunnelRoute_def linuxOwnedIPv6Route_def zero_route_def linuxOwnedRouteProtocol_def)
  then have "rr_deletes (collectLinuxRecoveryRoutes nl w [?r] [?r] 51820 n) = []" for nl :: "unit kern netlink" and w n
    by (simp add: collectLinuxRecoveryRoutes_def collect_ipv4_def Let_def)
  then show ?thesis by (simp add: RecoverLinuxOwnedRoutes_def Let_def) (simp add: lift_nl_def demo_uplink_def)
qed

lemma demo_run_6: "demo_run 6 = demo_ready"
proof -
  have "validateRunInputs demo_app = None" by (simp add: validateRunInputs_def demo_app_def)
  moreover obtain i where "CaptureLinuxLink (re_capture demo_env) 2 = ((i, []), None)" using demo_captured by blast
  ultimately show ?thesis
    by (simp add: eval_nat_numeral demo_ready_def run_initial_def run_step_def demo_recover_rules demo_recover_routes)
qed

lemma demo_run_7: "demo_run 7 = demo_guarded"
proof -
  have "demo_run 7 = run_step demo_cfg demo_app demo_env (demo_run 6)" by (simp add: eval_nat_numeral)
  also have "\<dots> = demo_guarded"
    unfolding demo_run_6
    using demo_acquire[of "plan_run demo_env" Nothing "((), None, None)" "Extra GuardClose" "''tun0''"]
    by (simp add: run_step_def demo_ready_def run_initial_def demo_guarded_def plan_run_def Let_def)
  finally show ?thesis .
qed

lemma demo_lift [simp]:
  "nl_RouteList (lift_nl demo_uplink) f k = Inr [zero_route\<lparr>rt_Table := RT_TABLE_MAIN, rt_Type := RTN_UNICAST, rt_LinkIndex := 2, rt_Family := FAMILY_V4\<rparr>]"
  "nl_RuleList (lift_nl demo_uplink) f k = Inr []" "linuxLinkIndex (lift_nl demo_uplink) ''tun0'' k = Inr 5"
  "nl_RouteAdd (lift_nl demo_uplink) r k = (k, None)" "nl_RuleAdd (lift_nl demo_uplink) u k = (k, None)"
  by (cases k; simp add: lift_nl_def demo_uplink_def demo_nl_def linuxLinkIndex_def lift_op_def)+

lemma demo_add:
  assumes "\<not> pl_closed p" "tok \<in> {AddRoute r, AddPolicy u}"
  shows "\<exists>p' l. Plan_Acquire (lx_run (lift_nl demo_uplink) (lx_extra_run demo_env)) p name (Some tok) (Some d) k = (p', k, Inr l) \<and> \<not> pl_closed p'"
proof -
  have "lx_run (lift_nl demo_uplink) (lx_extra_run demo_env) tok k = (k, None)"
    using assms(2) by (auto simp: linuxRouteOperation_def linuxRuleOperation_def)
  with assms(1) show ?thesis by (simp add: Plan_Acquire_def Let_def)
qed

lemma demo_rules:
  "\<not> pl_closed p \<Longrightarrow> \<exists>p'. acquire_rules (lift_nl demo_uplink) (lx_extra_run demo_env) t pr m f os p k = (p', k, None) \<and> \<not> pl_closed p'"
proof (induction os arbitrary: p)
  case (Cons i os)
  let ?r = "network_rule t pr m f i"
  obtain p1 l where "Plan_Acquire (lx_run (lift_nl demo_uplink) (lx_extra_run demo_env)) p
      (''network-rule family='' @ itoa f @ '' priority='' @ itoa (ru_Priority ?r)) (Some (AddPolicy ?r)) (Some (DelPolicy ?r)) k = (p1, k, Inr l)"
      "\<not> pl_closed p1" using demo_add[OF Cons.prems, of "AddPolicy ?r" zero_route ?r] by blast
  with Cons.IH[of p1] show ?case by (simp add: Let_def)
qed simp

lemma demo_family:
  assumes "\<not> pl_closed p"
  shows "\<exists>p'. acquireLinuxNetworkFamily (lift_nl demo_uplink) (lx_extra_run demo_env) 51820 200 i m f p k = (p', k, None) \<and> \<not> pl_closed p'"
proof -
  let ?r = "network_route 51820 i f"
  obtain p1 l where "Plan_Acquire (lx_run (lift_nl demo_uplink) (lx_extra_run demo_env)) p (''network-route '' @ dst_text ?r @ '' table='' @ itoa (rt_Table ?r))
      (Some (AddRoute ?r)) (Some (DelRoute ?r)) k = (p1, k, Inr l)" "\<not> pl_closed p1"
    using demo_add[OF assms, of "AddRoute ?r" ?r demo_rule] by blast
  with demo_rules[of p1] show ?thesis
    by (simp add: acquireLinuxNetworkFamily_def acquireLinuxNetworkRoute_def RT_TABLE_MAIN_def del: acquire_rules.simps)
qed

lemma demo_network:
  assumes "\<not> pl_closed p"
  shows "\<exists>p'. AcquireLinuxNetwork (lift_nl demo_uplink) (lx_extra_run demo_env) ''tun0'' 51820 200 p k = (p', k, None) \<and> \<not> pl_closed p'"
proof -
  obtain p1 where "acquireLinuxNetworkFamily (lift_nl demo_uplink) (lx_extra_run demo_env) 51820 200 5 51820 FAMILY_V4 p k = (p1, k, None)"
      and "\<not> pl_closed p1" using demo_family[OF assms] by blast
  with demo_family[of p1 5 51820 FAMILY_V6 k] show ?thesis
    by (auto simp: AcquireLinuxNetwork_def invalid_identity_def RT_TABLE_DEFAULT_def RT_TABLE_LOCAL_def)
qed

lemma demo_resolved:
  assumes "\<not> pl_closed p"
  shows "\<exists>p'. AcquireLinuxResolvedDNS (plan_run demo_env) (lift_nl demo_uplink) (lift_op (\<lambda>c w. (w, None))) Nothing (\<lambda>n i. Extra (RevertDNS n i))
      ''tun0'' [''10.0.0.1''] p k = (p', k, None)"
proof -
  have "resolved_addresses [''10.0.0.1''] = Inr [(2, [10, 0, 0, 1])]" by code_simp
  moreover have "lift_op (\<lambda>c w. (w, None)) c k = (k, None)" for c :: resolved_call by (cases k) (simp add: lift_op_def)
  moreover have "linuxLinkIndex (lift_nl demo_uplink) ''tun0'' k = Inr 5"
    by (simp add: linuxLinkIndex_def lift_nl_def demo_uplink_def demo_nl_def)
  ultimately show ?thesis
    using assms by (simp add: AcquireLinuxResolvedDNS_def Plan_Acquire_def plan_run_def Let_def)
qed

lemma demo_run_13: "rs_phase (demo_run 13) = PMaintain"
proof -
  let ?step = "run_step demo_cfg demo_app demo_env"
  have thirteen: "demo_run 13 = (?step ^^ 6) (demo_run 7)"
    using funpow_add[of 6 7 ?step] by simp
  obtain i where cap: "CaptureLinuxLink (re_capture demo_env) 2 = ((i, []), None)" using demo_captured by blast
  have "captureLinuxResolver demo_env ''tun0'' ((), Some demo_guard, t) = (k, r) \<Longrightarrow> r = Inr (i, 2)" for t k r
    using cap by (auto simp: captureLinuxResolver_def guard_update_bootstrap_def UpdateBootstrap_def demo_guard_def guard_operation_def
        demo_op_def nft_flush_def split: if_splits prod.splits)
  then obtain k where capture: "captureLinuxResolver demo_env ''tun0'' ((), Some demo_guard, Some (guard_tab ''tun0'' demo_guard [])) = (k, Inr (i, 2))"
    by (metis surj_pair)
  have tun: "newTunDevice (re_tun demo_env) ''tun0'' ''10.0.0.2'' = (True, None)" by (simp add: newTunDevice_def demo_env_def)
  let ?s11 = "demo_guarded\<lparr>rs_kern := k, rs_source := True, rs_tun := True, rs_engine := True, rs_phase := PNetwork\<rparr>"
  have s11: "(?step ^^ 4) demo_guarded = ?s11"
    using capture tun by (simp add: eval_nat_numeral run_step_def demo_guarded_def demo_ready_def run_initial_def)
  obtain p where net: "AcquireLinuxNetwork (lift_nl demo_uplink) (lx_extra_run demo_env) ''tun0'' 51820 200 (rs_plan ?s11) k = (p, k, None)"
      and p: "\<not> pl_closed p"
    using demo_network[of "rs_plan ?s11" k] by (auto simp: demo_guarded_def)
  obtain p' where "AcquireLinuxResolvedDNS (plan_run demo_env) (lift_nl demo_uplink) (lift_op (\<lambda>c w. (w, None))) Nothing (\<lambda>n i. Extra (RevertDNS n i))
      ''tun0'' [''10.0.0.1''] p k = (p', k, None)" using demo_resolved[OF p] by blast
  then have "rs_phase (?step (?step ?s11)) = PMaintain"
    using net by (simp add: run_step_def signalInit_def)
  moreover have "(?step ^^ 6) demo_guarded = ?step (?step ?s11)"
    using s11 funpow_add[of 2 4 ?step] by (simp add: eval_nat_numeral)
  ultimately show ?thesis unfolding thirteen demo_run_7 by simp
qed

theorem linux_run_protected_witness: "\<not> nft_passes (snd (snd (rs_kern (demo_run 13)))) demo_packet"
proof -
  have "nft_documented nft_passes" by (simp add: nft_documented_def)
  from linux_run_protected[OF this, of demo_cfg demo_app "()" "demo_run 13"]
  obtain g servers where pass: "device_name (pk_oif pk) \<longrightarrow> (nft_passes (snd (snd (rs_kern (demo_run 13)))) pk \<longleftrightarrow>
         pk_oif pk = ''lo'' \<or> pk_oif pk = ''tun0'' \<or> pk_mark pk = word_of_int 51820
         \<or> (case servers of None \<Rightarrow> False | Some ss \<Rightarrow> bootstrap_traffic g ss pk))" for pk
    using demo_run_reach[of 13] demo_run_13 by (auto simp: device_name_def IFNAMSIZ_def run_acquiring_def)
  have ports: "\<not> dst_port 53 demo_packet" "\<not> dst_port 853 demo_packet" by code_simp+
  have proto: "pk_l4proto demo_packet = Some 6" by (simp add: demo_packet_def IPPROTO_TCP_def)
  have "\<not> bootstrap_traffic g ss demo_packet" for ss
    by (simp add: bootstrap_traffic_def resolver_traffic_def dhcp_traffic_def neighbour_traffic_def ports proto
        IPPROTO_TCP_def IPPROTO_UDP_def IPPROTO_ICMPV6_def)
  with pass[of demo_packet] show ?thesis
    by (auto simp: demo_packet_def device_name_def IFNAMSIZ_def split: option.splits)
qed


end
