(* ===== verification/Spec2Isabelle.thy ===== *)
theory Spec2Isabelle
  imports Session_Correct Tunnel_Engine Runtime_Correct Native_Desktop Mobile_Resolver Outline_Device Source_Store Probe Control_Call Linux_Run
begin

text \<open>
  A verification development for the Go core of DobbyVPN (\<^verbatim>\<open>core/\<close>).

  \<^bold>\<open>The program.\<close> A VPN client process owns one session. Clients call the session manager
  (\<^verbatim>\<open>core/sessionapi\<close>): they configure it with a TOML document, start a profile or let it choose, stop it and
  read snapshots. The manager starts goroutines that acquire the network and then one protocol attempt after the
  other through the session runtime (\<^verbatim>\<open>core/sessionapi/runtime\<close>). The runtime drives a native adapter, which owns
  the TUN device and the packet engine (\<^verbatim>\<open>core/tunnel\<close>); the engine hands every flow to the transport of the
  attempt that is attached, or directly to the physical network when the bypass policy says so. Endpoint names are
  resolved on the physical network only (\<^verbatim>\<open>core/dnscache\<close>). Whatever is acquired is pushed on a ledger, lease or
  plan and released in a fixed order; a failed release is kept and retried by the next stop.

  \<^bold>\<open>The theories\<close>, from the bottom:

  \<^item> \<open>Dobby_Prelude\<close>: Go's strings, numbers and words, panics as \<open>outcome\<close>, and the locales \<open>invariant_system\<close> (an
    invariant holds in every reachable state) and \<open>refinement\<close> (runs map to runs of an abstract system), which
    every step relation below interprets.
  \<^item> \<open>Go_Errors\<close>: error trees with \<^verbatim>\<open>errors.Is\<close>, \<^verbatim>\<open>As\<close>, \<^verbatim>\<open>Join\<close>; \<^verbatim>\<open>Error\<close>, \<^verbatim>\<open>CleanupFailure\<close>, \<^verbatim>\<open>CodeOf\<close>, \<^verbatim>\<open>wrapFailure\<close> of
    \<^verbatim>\<open>sessionapi/api.go\<close>. A cleanup failure is never masked by another error.
  \<^item> \<open>Release_Loop\<close>: the locale \<open>release_loop\<close>, the contract of an ordered release that stops at the first failure
    and keeps the rest, interpreted by the manager's \<^verbatim>\<open>ledger\<close>, by \<^verbatim>\<open>App\<close> (\<^verbatim>\<open>runtime/internal/app.go\<close>) and by the
    routing \<^verbatim>\<open>Plan\<close> (\<^verbatim>\<open>routing/plan.go\<close>).
  \<^item> \<open>Config_Parser\<close>, \<open>Config_Correct\<close>: \<^verbatim>\<open>sessionapi/config.go\<close> and \<^verbatim>\<open>protocol/config.go\<close>: no panic, sections in file
    order, certificate verification cannot be switched off, payloads in normal form, Outline URLs without loss.
  \<^item> \<open>Session_State\<close>, \<open>Session_Api\<close>, \<open>Session_Stop\<close>, \<open>Session_Worker\<close>: \<^verbatim>\<open>sessionapi/api.go\<close>, \<^verbatim>\<open>restore.go\<close>, \<^verbatim>\<open>shutdown.go\<close>,
    \<^verbatim>\<open>config_loader.go\<close>. The record \<open>session\<close> has the fields of the Go struct; each critical section is a function;
    \<open>worker_step\<close> is a goroutine's program counter; \<open>sys_step\<close> interleaves API calls and goroutines. What the
    platform and the runtime answer is arbitrary.
  \<^item> \<open>Session_Invariant\<close>, \<open>Session_Preserve\<close>, \<open>Session_Reachable\<close>, \<open>Session_Stops\<close>, \<open>Session_Correct\<close>: the invariant and
    its preservation by every section and step; no panic, one owner per attempt, every lease accounted for,
    protection of the network between attempts, stale requests without effect, bounded recovery, termination of stops.
  \<^item> \<open>Go_Net\<close>, \<open>Bypass_Policy\<close>: \<^verbatim>\<open>net\<close> and \<^verbatim>\<open>net/netip\<close> parsing, \<^verbatim>\<open>tunnel/bypass_policy.go\<close>: exactly the configured
    addresses are routed directly.
  \<^item> \<open>Flow_Owner\<close>, \<open>Tunnel_Engine\<close>: \<^verbatim>\<open>tunnel/flow_owner.go\<close>, \<^verbatim>\<open>tunnel.go\<close>, \<^verbatim>\<open>switching_proxy.go\<close>, \<^verbatim>\<open>udp_transport.go\<close>,
    \<^verbatim>\<open>socks_tcp.go\<close>: dialing goroutines, attach, detach and stop as interleaved steps. Every open socket belongs to the
    installed attempt of the one active engine, retired attempts stay fenced, and the engine refines a slot that
    changes hands only while no flow is open.
  \<^item> \<open>Runtime_Lifecycle\<close>, \<open>Runtime_Correct\<close>: \<^verbatim>\<open>sessionapi/runtime/lifecycle.go\<close>: one network and one attempt, starts that
    are all or nothing, the bounded readiness wait and the health monitor against reference definitions.
  \<^item> \<open>Native_Mobile\<close>, \<open>Native_Desktop\<close>: \<^verbatim>\<open>native_lifecycle.go\<close>, \<^verbatim>\<open>native_runtime_mobile.go\<close>, \<^verbatim>\<open>native_runtime_desktop.go\<close>,
    \<^verbatim>\<open>tunnel/owned_engine_fd.go\<close>: the adapters report cleanup truthfully, the TUN device is closed once, and one
    race in the desktop adapter is shown.
  \<^item> \<open>DNS_Cache\<close>: \<^verbatim>\<open>dnscache/cache.go\<close>, \<^verbatim>\<open>resolver_wire.go\<close>: answers of a replaced network are rejected, alias
    chases end.
  \<^item> \<open>Mobile_Platform\<close>, \<open>Mobile_Resolver\<close>: \<^verbatim>\<open>sessionapi/mobilebinding/ownership.go\<close>, \<^verbatim>\<open>platform.go\<close>, \<^verbatim>\<open>resolver.go\<close>: a tunnel
    descriptor has one owner, native DNS answers are fenced to the session and the physical network.
  \<^item> \<open>Outline_Device\<close>: \<^verbatim>\<open>outline/ownership.go\<close>, \<^verbatim>\<open>outline_device.go\<close>: streams of a dial settle, a close without error
    leaves nothing open, the truncated DNS answer.
  \<^item> \<open>Config_Loader\<close>, \<open>Go_Path\<close>, \<open>Source_Store\<close>, \<open>Probe\<close>: \<^verbatim>\<open>config_loader.go\<close>, \<^verbatim>\<open>log_upload.go\<close>, \<^verbatim>\<open>source_store.go\<close>, \<^verbatim>\<open>probe/probe.go\<close>:
    configurations over HTTPS only, an atomic private file for the accepted URL, the quorum of the tunnel probe.
  \<^item> \<open>Control_Plane\<close>, \<open>Control_Line\<close>, \<open>Control_Json\<close>, \<open>Control_Call\<close>: \<^verbatim>\<open>clientserver/controlplane\<close>, \<^verbatim>\<open>clientserver/controljson\<close>,
    \<^verbatim>\<open>mobilebinding/binding.go\<close>, \<^verbatim>\<open>sessionapi/wire\<close>: only the installed user is served, the socket is private, every command is
    answered with a well-formed response, and a call over the connection does what the binding does. \<open>Control_Json\<close> runs
    the commands on the manager of the session theories, so their theorems hold after any sequence of commands.
  \<^item> \<open>Linux_Guard\<close>, \<open>Linux_Netlink\<close>, \<open>Linux_Routes\<close>, \<open>Linux_Policy\<close>, \<open>Linux_Resolver\<close>, \<open>Linux_Run\<close>: the Linux network,
    \<^verbatim>\<open>routing/filter_linux.go\<close>, \<^verbatim>\<open>routing_linux.go\<close>, \<^verbatim>\<open>network_linux.go\<close>, \<^verbatim>\<open>network_rules_linux.go\<close>, \<^verbatim>\<open>recovery_linux.go\<close>,
    \<^verbatim>\<open>plan_linux.go\<close>, \<^verbatim>\<open>resolved_linux.go\<close>, \<^verbatim>\<open>dnscache/resolver_linux.go\<close> and \<^verbatim>\<open>runtime/internal/app_linux.go\<close>. The source's
    nftables and netlink data are translated; the kernel is a parameter with its documented evaluation as a named hypothesis.
    While the engine runs or a route is held no packet leaves but to the TUN, with the mark, or as bootstrap traffic;
    recovery deletes exactly what an earlier process owned; an interrupted update of the exceptions is shown to be remembered wrongly.

  \<^bold>\<open>Conventions.\<close> A mutex-protected section is one function; a call that unlocks in the middle is split there, and
  an inductive step relation interleaves the parts. External code (TOML decoder, URL parser, SHA-256, platform
  callbacks, protocol devices, DNS exchange, operating system) is a parameter: a function of a state of the outside
  \<open>'w\<close>, or an arbitrary argument of a step. \<^verbatim>\<open>uint64\<close> counters are 64-bit words, so they wrap; a theorem that needs
  fewer than 2^64 events says so. Go panics are a value. Log calls and timers are left out: a deadline is an error
  that a context may report at any time.

  \<^bold>\<open>Bounds.\<close> No definition uses fuel except where the source itself bounds a loop (readiness attempts, three
  recoveries). A requested stop ends within 18 worker steps (\<open>Session_Stops\<close>). The DNS alias chase is a partial
  function, since a server may answer fresh aliases for ever; it is proved to return when the aliases come from a
  finite set.

  \<^bold>\<open>Not modelled.\<close> Operating-system glue: the macOS and Windows parts of \<^verbatim>\<open>core/routing\<close>, of \<^verbatim>\<open>dnscache\<close>
  and of \<^verbatim>\<open>runtime/internal\<close>, \<^verbatim>\<open>tunnel/platform_engine\<close>, \<^verbatim>\<open>tunnel/protected_dialer\<close>, the FFI bridges, the Windows
  named pipe. The engines \<^verbatim>\<open>xray\<close> and \<^verbatim>\<open>trusttunnel\<close> and the transports of \<^verbatim>\<open>outline\<close> wrap third-party packages. The
  command-line client, logging and diagnostics (\<^verbatim>\<open>cmd\<close>, \<^verbatim>\<open>log\<close>, \<^verbatim>\<open>diagnostics\<close>) are clients of the session API.
\<close>

end
